(* ===== verification/Prelude.thy ===== *)
theory Prelude
  imports Main "HOL-Library.Multiset"
begin

text \<open>
  Shared vocabulary of the development: Go's error values and panics, results with
  explicit state, the order in which Go ranges over a map, the string functions of Go's
  standard library the sources call, and the generic lemmas on lists and maps that the
  component theories rest on.
\<close>

subsection \<open>Errors, panics, results\<close>

text \<open>
  A Go error is the format string of the \<open>fmt.Errorf\<close> that built it, the values
  formatted with it and the errors wrapped by \<open>%w\<close>. \<open>NotFound\<close> is what
  \<open>apierrors.NewNotFound\<close> builds (group, kind, name); \<open>Joined\<close> is the value of
  \<open>errors.Join\<close>; \<open>Foreign\<close> stands for an error value made by code outside the
  repository. The nil error is \<open>None\<close> of \<open>error option\<close>.
\<close>

datatype error =
    Errorf string "string list" "error list"
  | NotFound string string string
  | Joined "error list"
  | Foreign string

type_synonym 'a result = "error + 'a"

text \<open>
  A Go statement may also panic: a nil dereference, a failed type assertion, a call of a
  nil function. \<open>Ret\<close> is normal return.
\<close>

datatype 'a outcome = Ret 'a | Panic string

fun returned :: "'a outcome \<Rightarrow> bool" where
  "returned (Ret _) = True"
| "returned (Panic _) = False"

fun bind_outcome :: "'a outcome \<Rightarrow> ('a \<Rightarrow> 'b outcome) \<Rightarrow> 'b outcome" where
  "bind_outcome (Ret a) f = f a"
| "bind_outcome (Panic m) f = Panic m"

text \<open>\<open>errors.Join\<close> of a slice of non-nil errors is nil for the empty slice.\<close>

definition errors_Join :: "error list \<Rightarrow> error option" where
  "errors_Join errs = (if errs = [] then None else Some (Joined errs))"

fun is_err :: "'a result \<Rightarrow> bool" where
  "is_err (Inl _) = True"
| "is_err (Inr _) = False"

text \<open>
  \<open>if err := f(); err != nil { return err }\<close> followed by \<open>g\<close>, over an explicit state: the
  second runs in the state the first left, unless that returned an error.
\<close>

definition and_then :: "('s \<Rightarrow> error option \<times> 's) \<Rightarrow> ('s \<Rightarrow> error option \<times> 's) \<Rightarrow> 's \<Rightarrow> error option \<times> 's" where
  "and_then f g s = (case f s of (Some err, s') \<Rightarrow> (Some err, s') | (None, s') \<Rightarrow> g s')"

lemma and_then_None_iff: "and_then f g s = (None, s') \<longleftrightarrow> (\<exists>u. f s = (None, u) \<and> g u = (None, s'))"
  by (auto simp: and_then_def split: prod.splits option.splits)

lemma and_then_cases:
  assumes "and_then f g s = (r, s')"
  obtains err where "f s = (Some err, s')" "r = Some err" | u where "f s = (None, u)" "g u = (r, s')"
  using assms by (auto simp: and_then_def split: prod.splits option.splits)

text \<open>Every run of \<open>f\<close>, whether it succeeds or not, relates the states before and after it.\<close>

definition always :: "('s \<Rightarrow> 's \<Rightarrow> bool) \<Rightarrow> ('s \<Rightarrow> error option \<times> 's) \<Rightarrow> bool" where
  "always R f \<longleftrightarrow> (\<forall>s. R s (snd (f s)))"

subsection \<open>The order of a range over a Go map\<close>

text \<open>
  Go visits the entries of a map in an unspecified order. A loop over a map takes the
  visiting order as an argument; \<open>range_of m ks\<close> says that \<open>ks\<close> is a possible one.
\<close>

definition range_of :: "('k \<rightharpoonup> 'v) \<Rightarrow> 'k list \<Rightarrow> bool" where
  "range_of m ks \<longleftrightarrow> distinct ks \<and> set ks = dom m"

subsection \<open>Collections of hints\<close>

named_theorems go_defs \<open>definitions of straight-line operations, unfolded on sight\<close>
named_theorems frame \<open>fields an operation does not write\<close>

declare errors_Join_def [go_defs]

subsection \<open>Strings\<close>

text \<open>\<open>strings.HasPrefix\<close>, \<open>HasSuffix\<close>, \<open>TrimSuffix\<close> and \<open>Contains\<close>.\<close>

fun has_prefix :: "string \<Rightarrow> string \<Rightarrow> bool" where
  "has_prefix s [] = True"
| "has_prefix [] (_ # _) = False"
| "has_prefix (c # s) (d # p) = (c = d \<and> has_prefix s p)"

definition has_suffix :: "string \<Rightarrow> string \<Rightarrow> bool" where
  "has_suffix s suf = has_prefix (rev s) (rev suf)"

definition trim_suffix :: "string \<Rightarrow> string \<Rightarrow> string" where
  "trim_suffix s suf = (if has_suffix s suf then take (length s - length suf) s else s)"

fun contains :: "string \<Rightarrow> string \<Rightarrow> bool" where
  "contains [] sub = (sub = [])"
| "contains (c # s) sub = (has_prefix (c # s) sub \<or> contains s sub)"

lemma has_prefix_iff: "has_prefix s p \<longleftrightarrow> (\<exists>t. s = p @ t)"
  by (induction s p rule: has_prefix.induct) auto

lemma has_suffix_iff: "has_suffix s suf \<longleftrightarrow> (\<exists>t. s = t @ suf)"
  by (metis has_prefix_iff has_suffix_def rev_append rev_rev_ident)

lemma has_suffix_append [simp]: "has_suffix (t @ suf) suf"
  by (auto simp: has_suffix_iff)

lemma trim_suffix_append [simp]: "trim_suffix (t @ suf) suf = t"
  by (simp add: trim_suffix_def)

lemma trim_suffix_other: "\<not> has_suffix s suf \<Longrightarrow> trim_suffix s suf = s"
  by (simp add: trim_suffix_def)

lemma contains_iff: "contains s sub \<longleftrightarrow> (\<exists>l r. s = l @ sub @ r)"
proof (induction s sub rule: contains.induct)
  case (2 c s sub)
  show ?case
  proof
    assume "contains (c # s) sub"
    then consider "has_prefix (c # s) sub" | "contains s sub" by auto
    then show "\<exists>l r. c # s = l @ sub @ r"
    proof cases
      case 1
      then show ?thesis by (metis append_Nil has_prefix_iff)
    next
      case 2
      with "2.IH" show ?thesis by (metis append_Cons)
    qed
  next
    assume "\<exists>l r. c # s = l @ sub @ r"
    then obtain l r where eq: "c # s = l @ sub @ r" by blast
    show "contains (c # s) sub"
    proof (cases l)
      case Nil
      with eq show ?thesis by (metis append_Nil contains.simps(2) has_prefix_iff)
    next
      case (Cons d l')
      with eq have "s = l' @ sub @ r" by simp
      with "2.IH" show ?thesis by auto
    qed
  qed
qed simp

lemma contains_Nil_iff [simp]: "contains [] sub \<longleftrightarrow> sub = []"
  by simp

text \<open>The part of a string before its first \<open>sep\<close> determines where a key splits.\<close>

lemma split_at_sep:
  assumes "a @ sep # x = b @ sep # y" and "sep \<notin> set a" and "sep \<notin> set b"
  shows "a = b \<and> x = y"
  using assms
proof (induction a arbitrary: b)
  case Nil
  then show ?case by (cases b) auto
next
  case (Cons c a)
  then show ?case by (cases b) auto
qed

lemma split_at_sep_iff:
  "sep \<notin> set a \<Longrightarrow> sep \<notin> set b \<Longrightarrow> a @ sep # x = b @ sep # y \<longleftrightarrow> a = b \<and> x = y"
  using split_at_sep [of a sep x b y] by blast

subsection \<open>Maps\<close>

lemma range_ofD: "range_of m ks \<Longrightarrow> k \<in> set ks \<longleftrightarrow> (\<exists>v. m k = Some v)"
  by (auto simp: range_of_def)

lemma range_of_empty [simp]: "range_of Map.empty ks \<longleftrightarrow> ks = []"
  by (auto simp: range_of_def)

lemma range_of_length: "range_of m ks \<Longrightarrow> length ks = card (dom m)"
  by (metis distinct_card range_of_def)

lemma range_of_perm: "range_of m ks \<Longrightarrow> range_of m ls \<Longrightarrow> mset ks = mset ls"
  by (metis range_of_def set_eq_iff_mset_eq_distinct)

text \<open>Deleting a list of keys one after the other.\<close>

definition del_keys :: "'k list \<Rightarrow> ('k \<rightharpoonup> 'v) \<Rightarrow> ('k \<rightharpoonup> 'v)" where
  "del_keys ks m = (\<lambda>k. if k \<in> set ks then None else m k)"

lemma del_keys_Nil [simp]: "del_keys [] m = m"
  by (simp add: del_keys_def)

lemma del_keys_Cons: "del_keys (k # ks) m = del_keys ks (m(k := None))"
  by (auto simp: del_keys_def fun_eq_iff)

lemma del_keys_apply [simp]: "del_keys ks m k = (if k \<in> set ks then None else m k)"
  by (simp add: del_keys_def)

lemma dom_del_keys [simp]: "dom (del_keys ks m) = dom m - set ks"
  by (auto simp: del_keys_def split: if_splits)

end
