(* ===== verification/Objects.thy ===== *)
theory Objects
  imports Prelude
begin

text \<open>
  The values the components exchange: Kubernetes objects as their getters see them, the
  untyped values informers hand to callbacks, rest configurations, and the record of the
  functions and constants of the kcp libraries the sources call. Those libraries are not
  part of the repository, so they are parameters; \<open>kcp_ok\<close> names what the code relies on.
\<close>

type_synonym lcname = string

record gvk =
  gvk_group :: string
  gvk_version :: string
  gvk_kind :: string

text \<open>The three cases the type switch of \<open>GetSharedInformer\<close> tells apart.\<close>

datatype objclass = Unstructured | PartialObjectMetadata | TypedObject

record kobject =
  ob_name :: string
  ob_namespace :: string
  ob_annotations :: "string \<rightharpoonup> string"
  ob_labels :: "string \<rightharpoonup> string"
  ob_type :: string
  ob_class :: objclass
  ob_gvk :: gvk
  ob_data :: nat

text \<open>
  An \<open>any\<close>: an object, a tombstone (\<open>DeletedFinalStateUnknown\<close>: a key and the last
  known value) or a value of another Go type.
\<close>

datatype any_value = Obj kobject | Tombstone string any_value | Other string

text \<open>\<open>m[k]\<close> of a Go map of strings reads the empty string for a missing key.\<close>

definition gomap_read :: "('k \<rightharpoonup> string) \<Rightarrow> 'k \<Rightarrow> string" where
  "gomap_read m k = (case m k of None \<Rightarrow> [] | Some v \<Rightarrow> v)"

lemma gomap_read_simps [simp]:
  "m k = None \<Longrightarrow> gomap_read m k = []"
  "m k = Some v \<Longrightarrow> gomap_read m k = v"
  by (simp_all add: gomap_read_def)

record rest_config =
  cfg_host :: string
  cfg_rest :: nat

text \<open>
  What the sources use of \<open>logicalcluster\<close>, \<open>kcp-dev/apimachinery/pkg/cache\<close> and
  \<open>kcp-dev/sdk/apis/core\<close>: \<open>From\<close>, \<open>Name.String\<close>, \<open>Name.Empty\<close>,
  \<open>Name.Path().RequestPath()\<close>, the path annotation key, the index names and index keys,
  and client-go's name of the namespace index.
\<close>

record kcpapi =
  lc_from :: "kobject \<Rightarrow> lcname"
  lc_string :: "lcname \<Rightarrow> string"
  lc_empty :: "lcname \<Rightarrow> bool"
  lc_request_path :: "lcname \<Rightarrow> string"
  lc_path_key :: string
  kc_cluster_index :: string
  kc_cluster_ns_index :: string
  kc_cluster_key :: "lcname \<Rightarrow> string"
  kc_cluster_ns_key :: "lcname \<Rightarrow> string \<Rightarrow> string"
  kc_namespace_index :: string

text \<open>
  A logical cluster name is a string type: \<open>String\<close> gives its text, \<open>Empty\<close> tells
  whether it is the empty one; the index keys of the kcp library are the cluster name, and
  the cluster name and the namespace joined by a slash; the three indexes have different
  names.
\<close>

definition kcp_ok :: "kcpapi \<Rightarrow> bool" where
  "kcp_ok K \<longleftrightarrow>
     (\<forall>n. lc_string K n = n) \<and> (\<forall>n. lc_empty K n \<longleftrightarrow> n = []) \<and>
     (\<forall>n. kc_cluster_key K n = n) \<and>
     (\<forall>n ns. kc_cluster_ns_key K n ns = n @ ''/'' @ ns) \<and>
     distinct [kc_cluster_index K, kc_cluster_ns_index K, kc_namespace_index K]"

lemma kcp_okD:
  assumes "kcp_ok K"
  shows "lc_string K n = n" and "lc_empty K n \<longleftrightarrow> n = []" and "kc_cluster_key K n = n"
    and "kc_cluster_ns_key K n ns = n @ ''/'' @ ns"
    and "kc_cluster_index K \<noteq> kc_cluster_ns_index K"
    and "kc_cluster_ns_index K \<noteq> kc_namespace_index K"
    and "kc_cluster_index K \<noteq> kc_namespace_index K"
  using assms by (auto simp: kcp_ok_def)

text \<open>An instance for the witnesses: the cluster is read from the annotation.\<close>

definition demo_kcp :: kcpapi where
  "demo_kcp = \<lparr> lc_from = (\<lambda>ob. gomap_read (ob_annotations ob) ''kcp.io/cluster''),
     lc_string = (\<lambda>n. n), lc_empty = (\<lambda>n. n = []),
     lc_request_path = (\<lambda>n. ''/clusters/'' @ n), lc_path_key = ''kcp.io/path'',
     kc_cluster_index = ''cluster'', kc_cluster_ns_index = ''cluster-ns'',
     kc_cluster_key = (\<lambda>n. n), kc_cluster_ns_key = (\<lambda>n ns. n @ ''/'' @ ns),
     kc_namespace_index = ''namespace'' \<rparr>"

lemma demo_kcp_sel [simp]:
  "lc_string demo_kcp n = n" "lc_empty demo_kcp n \<longleftrightarrow> n = []"
  "lc_request_path demo_kcp n = ''/clusters/'' @ n" "lc_path_key demo_kcp = ''kcp.io/path''"
  "kc_cluster_index demo_kcp = ''cluster''" "kc_cluster_ns_index demo_kcp = ''cluster-ns''"
  "kc_cluster_key demo_kcp n = n" "kc_cluster_ns_key demo_kcp n ns = n @ ''/'' @ ns"
  "kc_namespace_index demo_kcp = ''namespace''"
  by (simp_all add: demo_kcp_def)

lemma demo_kcp_ok: "kcp_ok demo_kcp"
  by (simp add: kcp_ok_def)

definition demo_gvk :: gvk where
  "demo_gvk = \<lparr> gvk_group = ''apis.kcp.io'', gvk_version = ''v1alpha1'', gvk_kind = ''APIBinding'' \<rparr>"

definition demo_obj :: "string \<Rightarrow> string \<Rightarrow> string \<Rightarrow> string \<Rightarrow> kobject" where
  "demo_obj cl ns nm pth = \<lparr> ob_name = nm, ob_namespace = ns,
     ob_annotations = [''kcp.io/cluster'' \<mapsto> cl, ''kcp.io/path'' \<mapsto> pth],
     ob_labels = Map.empty, ob_type = ''*APIBinding'', ob_class = TypedObject,
     ob_gvk = demo_gvk, ob_data = 0 \<rparr>"

lemma demo_obj_sel [simp]:
  "ob_name (demo_obj cl ns nm pth) = nm" "ob_namespace (demo_obj cl ns nm pth) = ns"
  "ob_annotations (demo_obj cl ns nm pth) = [''kcp.io/cluster'' \<mapsto> cl, ''kcp.io/path'' \<mapsto> pth]"
  "ob_labels (demo_obj cl ns nm pth) = Map.empty" "ob_type (demo_obj cl ns nm pth) = ''*APIBinding''"
  "ob_class (demo_obj cl ns nm pth) = TypedObject" "ob_gvk (demo_obj cl ns nm pth) = demo_gvk"
  by (simp_all add: demo_obj_def)

lemma demo_from [simp]: "lc_from demo_kcp (demo_obj cl ns nm pth) = cl"
  by (simp add: demo_kcp_def demo_obj_def)

end
