(* ===== verification/Interfaces.thy ===== *)
theory Interfaces
  imports Prelude
begin

text \<open>
  The interfaces several components share, as locales: a store of values under keys, an
  operation that returns the value stored under a key and creates it on first use, and a
  relation on states that a sequence of fallible steps respects.
  Each is interpreted by the component theories on the model's own operations.
\<close>

subsection \<open>Histories of a keyed store\<close>

datatype ('k, 'v) store_op = Put 'k 'v | Del 'k

fun store_step :: "('k \<Rightarrow> 'v \<Rightarrow> 's \<Rightarrow> 's) \<Rightarrow> ('k \<Rightarrow> 's \<Rightarrow> 's) \<Rightarrow> ('k, 'v) store_op \<Rightarrow> 's \<Rightarrow> 's" where
  "store_step put del (Put k v) s = put k v s"
| "store_step put del (Del k) s = del k s"

definition store_run ::
  "('k \<Rightarrow> 'v \<Rightarrow> 's \<Rightarrow> 's) \<Rightarrow> ('k \<Rightarrow> 's \<Rightarrow> 's) \<Rightarrow> ('k, 'v) store_op list \<Rightarrow> 's \<Rightarrow> 's" where
  "store_run put del ops s = fold (store_step put del) ops s"

text \<open>What the last operation on a key left there.\<close>

fun last_write :: "('k, 'v) store_op list \<Rightarrow> 'k \<Rightarrow> 'v option \<Rightarrow> 'v option" where
  "last_write [] j d = d"
| "last_write (Put k v # ops) j d = last_write ops j (if j = k then Some v else d)"
| "last_write (Del k # ops) j d = last_write ops j (if j = k then None else d)"

locale keyed_store =
  fixes emp :: 's
    and put :: "'k \<Rightarrow> 'v \<Rightarrow> 's \<Rightarrow> 's"
    and del :: "'k \<Rightarrow> 's \<Rightarrow> 's"
    and get :: "'s \<Rightarrow> 'k \<Rightarrow> 'v option"
  assumes get_emp: "get emp j = None"
    and get_put: "get (put k v s) j = (if j = k then Some v else get s j)"
    and get_del: "get (del k s) j = (if j = k then None else get s j)"
begin

lemma get_step: "get (store_step put del x s) j = last_write [x] j (get s j)"
  by (cases x) (simp_all add: get_put get_del)

lemma get_run_from: "get (store_run put del ops s) j = last_write ops j (get s j)"
  unfolding store_run_def
proof (induction ops arbitrary: s)
  case Nil
  show ?case by simp
next
  case (Cons x ops)
  then show ?case by (cases x) (simp_all add: get_put get_del)
qed

lemma get_run: "get (store_run put del ops emp) j = last_write ops j None"
  by (simp add: get_run_from get_emp)

lemma get_put_same: "get (put k v s) k = Some v"
  by (simp add: get_put)

lemma get_del_same: "get (del k s) k = None"
  by (simp add: get_del)

end

subsection \<open>Get or create\<close>

text \<open>
  \<open>goc k s\<close> returns the value under \<open>k\<close>, creating and storing one when there is
  none; creation may fail, and then nothing is stored.
\<close>

locale get_or_create =
  fixes find :: "'s \<Rightarrow> 'k \<Rightarrow> 'v option"
    and goc :: "'k \<Rightarrow> 's \<Rightarrow> 'v option \<times> 's"
  assumes goc_hit: "find s k = Some v \<Longrightarrow> goc k s = (Some v, s)"
    and goc_stored: "goc k s = (Some v, s') \<Longrightarrow> find s' k = Some v"
    and goc_failed: "goc k s = (None, s') \<Longrightarrow> find s' = find s"
    and goc_frame: "j \<noteq> k \<Longrightarrow> find (snd (goc k s)) j = find s j"
begin

lemma goc_again: "goc k s = (Some v, s') \<Longrightarrow> goc k s' = (Some v, s')"
  by (rule goc_hit) (rule goc_stored)

lemma goc_keeps: "find s j = Some v \<Longrightarrow> find (snd (goc k s)) j = Some v"
  by (cases "j = k") (simp_all add: goc_hit goc_frame)

lemma fold_keeps:
  "find s j = Some v \<Longrightarrow> find (fold (\<lambda>k s. snd (goc k s)) ks s) j = Some v"
  by (induction ks arbitrary: s) (simp_all add: goc_keeps)

lemma goc_stable:
  assumes "goc k s = (Some v, s')"
  shows "fst (goc k (fold (\<lambda>k s. snd (goc k s)) ks s')) = Some v"
proof -
  have "find (fold (\<lambda>k s. snd (goc k s)) ks s') k = Some v"
    using fold_keeps [OF goc_stored [OF assms]] .
  then show ?thesis by (simp add: goc_hit)
qed

end

subsection \<open>What a sequence of steps preserves\<close>

text \<open>
  A reflexive and transitive relation on states that single steps respect is respected by
  their sequence, whichever of them returns the error.
\<close>

locale step_relation =
  fixes R :: "'s \<Rightarrow> 's \<Rightarrow> bool"
  assumes R_refl: "R s s"
    and R_trans: "R s t \<Longrightarrow> R t u \<Longrightarrow> R s u"
begin

lemma step_result: "always R f \<Longrightarrow> f s = (r, s') \<Longrightarrow> R s s'"
  by (metis always_def snd_conv)

lemma step_return: "always R (\<lambda>s. (r, s))"
  by (simp add: always_def R_refl)

lemma step_sequence:
  assumes "always R f" and "always R g"
  shows "always R (and_then f g)"
  unfolding always_def
proof
  fix s
  obtain r t where f: "f s = (r, t)" by (cases "f s")
  note ft = step_result [OF assms(1) f]
  obtain q u where g: "g t = (q, u)" by (cases "g t")
  show "R s (snd (and_then f g s))"
    using f g ft R_trans [OF ft step_result [OF assms(2) g]] by (cases r) (simp_all add: and_then_def)
qed

end

end
