(* ===== verification/Paths.thy ===== *)
theory Paths
  imports Objects Interfaces
begin

text \<open>
  \<^verbatim>\<open>pkg/paths/paths.go\<close>: the thread-safe store from logical cluster paths to cluster
  names. Each operation runs under the store's lock, so a concurrent history is a sequence
  of these operations.
\<close>

record path_store =
  ps_paths :: "string \<rightharpoonup> lcname"

definition New_Store :: path_store where
  "New_Store = \<lparr> ps_paths = Map.empty \<rparr>"

definition Store_Add :: "string \<Rightarrow> lcname \<Rightarrow> path_store \<Rightarrow> path_store" where
  "Store_Add path cluster p = p\<lparr> ps_paths := (ps_paths p)(path \<mapsto> cluster) \<rparr>"

definition Store_Remove :: "string \<Rightarrow> path_store \<Rightarrow> path_store" where
  "Store_Remove path p = p\<lparr> ps_paths := (ps_paths p)(path := None) \<rparr>"

text \<open>\<open>cluster, exists := p.paths[path]\<close>: the zero value comes with \<open>False\<close>.\<close>

definition Store_Get :: "path_store \<Rightarrow> string \<Rightarrow> lcname \<times> bool" where
  "Store_Get p path = (case ps_paths p path of None \<Rightarrow> ([], False) | Some cluster \<Rightarrow> (cluster, True))"

lemmas store_defs = New_Store_def Store_Add_def Store_Remove_def Store_Get_def

definition Store_lookup :: "path_store \<Rightarrow> string \<Rightarrow> lcname option" where
  "Store_lookup p path = (case Store_Get p path of (cluster, ok) \<Rightarrow> if ok then Some cluster else None)"

lemma Store_lookup_paths [simp]: "Store_lookup p = ps_paths p"
  by (auto simp: Store_lookup_def Store_Get_def fun_eq_iff split: option.splits)

interpretation paths: keyed_store New_Store Store_Add Store_Remove Store_lookup
  by unfold_locales (simp_all add: store_defs)

lemma Store_Get_iff: "Store_Get p path = (cluster, True) \<longleftrightarrow> ps_paths p path = Some cluster"
  by (auto simp: Store_Get_def split: option.splits)

lemma Store_Get_missing: "ps_paths p path = None \<Longrightarrow> Store_Get p path = ([], False)"
  by (simp add: Store_Get_def)

text \<open>
  After any history of \<open>Add\<close> and \<open>Remove\<close> calls on a new store,
  \<open>Get path\<close> answers with what the last call on that path left: the cluster last added
  under it, or the zero value and \<open>false\<close> when the path was never added or was removed last.
\<close>

theorem Store_Get_last_write:
  "Store_Get (store_run Store_Add Store_Remove ops New_Store) path =
     (case last_write ops path None of None \<Rightarrow> ([], False) | Some cluster \<Rightarrow> (cluster, True))"
  using paths.get_run [of ops path] by (simp add: Store_Get_def)

end
