(* ===== verification/Handlers.thy ===== *)
theory Handlers
  imports Objects
begin

text \<open>
  \<^verbatim>\<open>pkg/handlers/handlers.go\<close>: the lifecycle hooks of a provider and the three loops
  that run them. A handler is its three methods, each over the state it mutates.
\<close>

record 's handler =
  OnAdd :: "kobject \<Rightarrow> 's \<Rightarrow> 's"
  OnUpdate :: "kobject \<Rightarrow> kobject \<Rightarrow> 's \<Rightarrow> 's"
  OnDelete :: "kobject \<Rightarrow> 's \<Rightarrow> 's"

fun RunOnAdd :: "'s handler list \<Rightarrow> kobject \<Rightarrow> 's \<Rightarrow> 's" where
  "RunOnAdd [] ob s = s"
| "RunOnAdd (h # hs) ob s = RunOnAdd hs ob (OnAdd h ob s)"

fun RunOnUpdate :: "'s handler list \<Rightarrow> kobject \<Rightarrow> kobject \<Rightarrow> 's \<Rightarrow> 's" where
  "RunOnUpdate [] oldObj newObj s = s"
| "RunOnUpdate (h # hs) oldObj newObj s = RunOnUpdate hs oldObj newObj (OnUpdate h oldObj newObj s)"

fun RunOnDelete :: "'s handler list \<Rightarrow> kobject \<Rightarrow> 's \<Rightarrow> 's" where
  "RunOnDelete [] ob s = s"
| "RunOnDelete (h # hs) ob s = RunOnDelete hs ob (OnDelete h ob s)"

text \<open>A lifecycle event of the watched objects, and one run of all handlers on it.\<close>

datatype lifecycle = Add kobject | Upd kobject kobject | Rem kobject

fun run_lifecycle :: "'s handler list \<Rightarrow> lifecycle \<Rightarrow> 's \<Rightarrow> 's" where
  "run_lifecycle hs (Add ob) s = RunOnAdd hs ob s"
| "run_lifecycle hs (Upd old new) s = RunOnUpdate hs old new s"
| "run_lifecycle hs (Rem ob) s = RunOnDelete hs ob s"

lemma RunOnAdd_append [simp]: "RunOnAdd (hs @ ks) ob s = RunOnAdd ks ob (RunOnAdd hs ob s)"
  by (induction hs arbitrary: s) simp_all

lemma RunOnUpdate_append [simp]:
  "RunOnUpdate (hs @ ks) old new s = RunOnUpdate ks old new (RunOnUpdate hs old new s)"
  by (induction hs arbitrary: s) simp_all

lemma RunOnDelete_append [simp]: "RunOnDelete (hs @ ks) ob s = RunOnDelete ks ob (RunOnDelete hs ob s)"
  by (induction hs arbitrary: s) simp_all

lemma run_lifecycle_append: "run_lifecycle (hs @ ks) e s = run_lifecycle ks e (run_lifecycle hs e s)"
  by (cases e) simp_all

lemma run_lifecycle_Nil [simp]: "run_lifecycle [] e s = s"
  by (cases e) simp_all

subsection \<open>The contract of a handler\<close>

text \<open>
  A handler keeps an invariant of the state it mutates on every event. A list of such
  handlers keeps it too, whatever the events and their order.
\<close>

locale keeping_handlers =
  fixes I :: "'s \<Rightarrow> bool" and hs :: "'s handler list"
  assumes keep_add: "h \<in> set hs \<Longrightarrow> I s \<Longrightarrow> I (OnAdd h ob s)"
    and keep_update: "h \<in> set hs \<Longrightarrow> I s \<Longrightarrow> I (OnUpdate h old new s)"
    and keep_delete: "h \<in> set hs \<Longrightarrow> I s \<Longrightarrow> I (OnDelete h ob s)"
begin

lemma keeps_RunOnAdd_sub: "set ks \<subseteq> set hs \<Longrightarrow> I s \<Longrightarrow> I (RunOnAdd ks ob s)"
  by (induction ks arbitrary: s) (simp_all add: keep_add)

lemma keeps_RunOnUpdate_sub: "set ks \<subseteq> set hs \<Longrightarrow> I s \<Longrightarrow> I (RunOnUpdate ks old new s)"
  by (induction ks arbitrary: s) (simp_all add: keep_update)

lemma keeps_RunOnDelete_sub: "set ks \<subseteq> set hs \<Longrightarrow> I s \<Longrightarrow> I (RunOnDelete ks ob s)"
  by (induction ks arbitrary: s) (simp_all add: keep_delete)

lemma keeps_event: "I s \<Longrightarrow> I (run_lifecycle hs e s)"
  by (cases e) (simp_all add: keeps_RunOnAdd_sub keeps_RunOnUpdate_sub keeps_RunOnDelete_sub)

lemma keeps_events: "I s \<Longrightarrow> I (fold (run_lifecycle hs) es s)"
  by (induction es arbitrary: s) (simp_all add: keeps_event)

end

end
