(* ===== verification/PathAware.thy ===== *)
theory PathAware
  imports Paths Handlers
begin

text \<open>
  \<^verbatim>\<open>path-aware/provider.go\<close>: the provider that also resolves a logical cluster's path.
  A \<open>pathHandler\<close> keeps the path store in step with the watched objects; the store is
  shared with the provider, whose \<open>Get\<close> looks the name up as a path first.
\<close>

subsection \<open>The handler\<close>

record path_handler =
  pathStore :: path_store
  registeredPaths :: "string \<rightharpoonup> unit"

definition new_path_handler :: path_handler where
  "new_path_handler = \<lparr> pathStore = New_Store, registeredPaths = Map.empty \<rparr>"

definition pathHandler_OnAdd :: "kcpapi \<Rightarrow> kobject \<Rightarrow> path_handler \<Rightarrow> path_handler" where
  "pathHandler_OnAdd K ob p =
     (let cluster = lc_from K ob;
          path = gomap_read (ob_annotations ob) (lc_path_key K)
      in if path = [] then p
         else p\<lparr> pathStore := Store_Add path cluster (pathStore p),
                 registeredPaths := (registeredPaths p)(path \<mapsto> ()) \<rparr>)"

definition pathHandler_OnUpdate :: "kcpapi \<Rightarrow> kobject \<Rightarrow> kobject \<Rightarrow> path_handler \<Rightarrow> path_handler" where
  "pathHandler_OnUpdate K oldObj newObj p =
     (let newPath = gomap_read (ob_annotations newObj) (lc_path_key K)
      in if newPath = [] then p
         else if registeredPaths p newPath \<noteq> None then p
         else let cluster = lc_from K newObj
              in p\<lparr> pathStore := Store_Add newPath cluster (pathStore p),
                    registeredPaths := (registeredPaths p)(newPath \<mapsto> ()) \<rparr>)"

definition pathHandler_OnDelete :: "kcpapi \<Rightarrow> kobject \<Rightarrow> path_handler \<Rightarrow> path_handler" where
  "pathHandler_OnDelete K ob p =
     (case ob_annotations ob (lc_path_key K) of
        None \<Rightarrow> p
      | Some path \<Rightarrow> p\<lparr> pathStore := Store_Remove path (pathStore p),
                       registeredPaths := (registeredPaths p)(path := None) \<rparr>)"

definition pathHandler :: "kcpapi \<Rightarrow> path_handler handler" where
  "pathHandler K = \<lparr> OnAdd = pathHandler_OnAdd K, OnUpdate = pathHandler_OnUpdate K,
                     OnDelete = pathHandler_OnDelete K \<rparr>"

lemma pathHandler_sel [simp]:
  "OnAdd (pathHandler K) = pathHandler_OnAdd K"
  "OnUpdate (pathHandler K) = pathHandler_OnUpdate K"
  "OnDelete (pathHandler K) = pathHandler_OnDelete K"
  by (simp_all add: pathHandler_def)

lemmas path_handler_defs =
  pathHandler_OnAdd_def pathHandler_OnUpdate_def pathHandler_OnDelete_def

subsection \<open>The provider\<close>

text \<open>
  \<open>New\<close> appends the handler to the caller's handlers; \<open>new\<close> is the constructor of the
  wrapped provider. The path store pointer is nil only in a zero \<open>Provider\<close>.
\<close>

record 'p pathaware_provider =
  pa_provider :: 'p
  pa_pathStore :: "path_store option"

definition PathAware_New ::
  "(path_handler handler list \<Rightarrow> 'p result) \<Rightarrow> kcpapi \<Rightarrow> path_handler handler list
     \<Rightarrow> ('p pathaware_provider \<times> path_handler) result" where
  "PathAware_New new K handlers =
     (let h = new_path_handler in
      case new (handlers @ [pathHandler K]) of
        Inl e \<Rightarrow> Inl e
      | Inr p \<Rightarrow> Inr (\<lparr> pa_provider = p, pa_pathStore = Some (pathStore h) \<rparr>, h))"

text \<open>\<open>Get\<close>, over the wrapped provider's \<open>Get\<close>.\<close>

definition PathAware_Get :: "kcpapi \<Rightarrow> (string \<Rightarrow> 'r) \<Rightarrow> path_store option \<Rightarrow> string \<Rightarrow> 'r" where
  "PathAware_Get K get store clusterName =
     (case store of
        None \<Rightarrow> get clusterName
      | Some st \<Rightarrow>
          (case Store_Get st clusterName of
             (lcName, exists) \<Rightarrow> if exists then get (lc_string K lcName) else get clusterName))"

subsection \<open>The invariant\<close>

text \<open>\<open>registeredPaths\<close> holds exactly the paths of the store, and never the empty path.\<close>

definition path_inv :: "path_handler \<Rightarrow> bool" where
  "path_inv p \<longleftrightarrow> dom (registeredPaths p) = dom (ps_paths (pathStore p)) \<and>
                 registeredPaths p [] = None"

lemma path_inv_new: "path_inv new_path_handler"
  by (simp add: path_inv_def new_path_handler_def New_Store_def)

lemma path_inv_OnAdd: "path_inv p \<Longrightarrow> path_inv (pathHandler_OnAdd K ob p)"
  by (simp add: path_inv_def path_handler_defs Store_Add_def Let_def)

lemma path_inv_OnUpdate: "path_inv p \<Longrightarrow> path_inv (pathHandler_OnUpdate K old new p)"
  by (simp add: path_inv_def path_handler_defs Store_Add_def Let_def)

lemma path_inv_OnDelete: "path_inv p \<Longrightarrow> path_inv (pathHandler_OnDelete K ob p)"
  by (auto simp: path_inv_def path_handler_defs Store_Remove_def split: option.splits)

interpretation path_aware: keeping_handlers path_inv "[pathHandler K]" for K
  by unfold_locales (simp_all add: path_inv_OnAdd path_inv_OnUpdate path_inv_OnDelete)

lemma path_inv_empty:
  assumes "path_inv p"
  shows "Store_Get (pathStore p) [] = ([], False)"
proof (rule Store_Get_missing)
  from assms have "[] \<notin> dom (ps_paths (pathStore p))"
    unfolding path_inv_def by (metis domIff)
  then show "ps_paths (pathStore p) [] = None" by (simp add: domIff)
qed

definition path_run :: "kcpapi \<Rightarrow> lifecycle list \<Rightarrow> path_handler" where
  "path_run K es = fold (run_lifecycle [pathHandler K]) es new_path_handler"

lemma path_run_Nil [simp]: "path_run K [] = new_path_handler"
  by (simp add: path_run_def)

lemma path_run_snoc [simp]: "path_run K (es @ [e]) = run_lifecycle [pathHandler K] e (path_run K es)"
  by (simp add: path_run_def)

lemma path_run_inv: "path_inv (path_run K es)"
  unfolding path_run_def by (rule path_aware.keeps_events) (rule path_inv_new)

text \<open>
  Whatever adds, updates and deletes the path handler sees, from a new store
  on, the paths it has recorded as registered are exactly the paths the store resolves, and
  the empty path never resolves: \<open>Get\<close> on the empty name falls through to the wrapped
  provider unchanged.
\<close>

theorem path_handler_consistent:
  "dom (registeredPaths (path_run K es)) = dom (ps_paths (pathStore (path_run K es))) \<and>
   PathAware_Get K get (Some (pathStore (path_run K es))) [] = get []"
  using path_run_inv [of K es] by (simp add: path_inv_def PathAware_Get_def path_inv_empty)

subsection \<open>What a path resolves to\<close>

text \<open>
  The object an event announces, and the path an event removes: a delete takes the
  annotation of the deleted object as it is, an empty one included.
\<close>

fun announced :: "lifecycle \<Rightarrow> kobject option" where
  "announced (Add ob) = Some ob"
| "announced (Upd old new) = Some new"
| "announced (Rem ob) = None"

fun removed_path :: "kcpapi \<Rightarrow> lifecycle \<Rightarrow> string option" where
  "removed_path K (Rem ob) = ob_annotations ob (lc_path_key K)"
| "removed_path K _ = None"

definition announces :: "kcpapi \<Rightarrow> lifecycle \<Rightarrow> string \<Rightarrow> lcname \<Rightarrow> bool" where
  "announces K e path cl \<longleftrightarrow> (case announced e of None \<Rightarrow> False
     | Some ob \<Rightarrow> gomap_read (ob_annotations ob) (lc_path_key K) = path \<and> lc_from K ob = cl)"

lemma resolve_step_new:
  assumes "ps_paths (pathStore (run_lifecycle [pathHandler K] e p)) path = Some cl"
    and "ps_paths (pathStore p) path \<noteq> Some cl"
  shows "announces K e path cl"
  using assms
  by (cases e) (auto simp: path_handler_defs announces_def Store_Add_def Store_Remove_def Let_def
      split: if_splits option.splits)

lemma resolve_step_removed:
  "removed_path K e = Some path \<Longrightarrow> ps_paths (pathStore (run_lifecycle [pathHandler K] e p)) path = None"
  by (cases e) (auto simp: path_handler_defs Store_Remove_def)

text \<open>
  Property C9. \<open>Get\<close> never resolves a path to a cluster nobody announced under it: when
  the store resolves \<open>path\<close> to \<open>cl\<close> after the events \<open>es\<close>, one of them is an add or
  an update of an object of \<open>cl\<close> whose path annotation is \<open>path\<close>, and no later event
  deletes an object with that path.
\<close>

theorem path_resolution_sound:
  assumes "Store_Get (pathStore (path_run K es)) path = (cl, True)"
  shows "\<exists>es1 e es2. es = es1 @ e # es2 \<and> announces K e path cl \<and>
           Some path \<notin> removed_path K ` set es2"
  using assms unfolding Store_Get_iff
proof (induction es rule: rev_induct)
  case Nil
  then show ?case by (simp add: new_path_handler_def New_Store_def)
next
  case (snoc e es)
  show ?case
  proof (cases "ps_paths (pathStore (path_run K es)) path = Some cl")
    case True
    then obtain es1 e' es2 where "es = es1 @ e' # es2" "announces K e' path cl"
      "Some path \<notin> removed_path K ` set es2"
      using snoc.IH by blast
    moreover have "removed_path K e \<noteq> Some path"
      using snoc.prems resolve_step_removed [of K e path "path_run K es"] by auto
    ultimately have "es @ [e] = es1 @ e' # (es2 @ [e]) \<and> announces K e' path cl \<and>
        Some path \<notin> removed_path K ` set (es2 @ [e])" by auto
    then show ?thesis by blast
  next
    case False
    then have "announces K e path cl"
      using snoc.prems resolve_step_new [of K e "path_run K es" path cl] by simp
    then show ?thesis by (intro exI [of _ es] exI [of _ e] exI [of _ "[]"]) simp
  qed
qed

text \<open>
  The path of an added object resolves to its cluster until an event on the same path.
\<close>

fun event_path :: "kcpapi \<Rightarrow> lifecycle \<Rightarrow> string" where
  "event_path K (Add ob) = gomap_read (ob_annotations ob) (lc_path_key K)"
| "event_path K (Upd old new) = gomap_read (ob_annotations new) (lc_path_key K)"
| "event_path K (Rem ob) = gomap_read (ob_annotations ob) (lc_path_key K)"

lemma resolve_step_other:
  "event_path K e \<noteq> path \<Longrightarrow>
   ps_paths (pathStore (run_lifecycle [pathHandler K] e p)) path = ps_paths (pathStore p) path"
  by (cases e) (auto simp: path_handler_defs Store_Add_def Store_Remove_def Let_def gomap_read_def
      split: option.splits)

lemma resolve_others:
  "\<forall>e \<in> set es. event_path K e \<noteq> path \<Longrightarrow>
   ps_paths (pathStore (path_run K (xs @ es))) path = ps_paths (pathStore (path_run K xs)) path"
  by (induction es rule: rev_induct)
     (simp_all add: resolve_step_other append_assoc [symmetric] del: append_assoc)

text \<open>
  Property C10. Until the next event on that path, a non-empty path that an event announced
  resolves: \<open>Get\<close> is the wrapped provider's \<open>Get\<close> of a known cluster. After an add it is the
  cluster of the added object. After an update it is the cluster of the updated object only when
  the path did not resolve before; otherwise it is still the cluster it resolved to.
\<close>

theorem path_resolution_complete:
  assumes "announced e = Some ob" and "gomap_read (ob_annotations ob) (lc_path_key K) = path" and "path \<noteq> []"
    and "\<forall>e' \<in> set es2. event_path K e' \<noteq> path"
  shows "PathAware_Get K get (Some (pathStore (path_run K (es1 @ e # es2)))) path =
    get (lc_string K (case e of
        Upd old new \<Rightarrow> (case Store_Get (pathStore (path_run K es1)) path of (first, known) \<Rightarrow> if known then first else lc_from K new)
      | _ \<Rightarrow> lc_from K ob))"
proof -
  let ?cl = "case e of
        Upd old new \<Rightarrow> (case Store_Get (pathStore (path_run K es1)) path of (first, known) \<Rightarrow> if known then first else lc_from K new)
      | _ \<Rightarrow> lc_from K ob"
  have reg: "registeredPaths (path_run K es1) path = None \<longleftrightarrow> ps_paths (pathStore (path_run K es1)) path = None"
    using path_run_inv [of K es1] unfolding path_inv_def by (metis domIff)
  have "ps_paths (pathStore (path_run K (es1 @ [e]))) path = Some ?cl"
  proof (cases e)
    case (Add ob')
    then show ?thesis using assms(1-3) by (auto simp: pathHandler_OnAdd_def Store_Add_def Let_def)
  next
    case (Upd old new)
    then show ?thesis using assms(1-3) reg
      by (cases "ps_paths (pathStore (path_run K es1)) path")
         (auto simp: pathHandler_OnUpdate_def Store_Add_def Store_Get_def Let_def)
  next
    case (Rem ob')
    then show ?thesis using assms(1) by simp
  qed
  then have "ps_paths (pathStore (path_run K ((es1 @ [e]) @ es2))) path = Some ?cl"
    using resolve_others [OF assms(4), where xs = "es1 @ [e]"] by simp
  then show ?thesis by (simp add: PathAware_Get_def Store_Get_def)
qed

theorem path_resolution_complete_witness:
  "PathAware_Get demo_kcp (\<lambda>n. n) (Some (pathStore (path_run demo_kcp
     ([Add (demo_obj ''c1'' ''ns'' ''b'' ''root:a'')] @ Upd (demo_obj ''c2'' ''ns'' ''b'' ''root:b'') (demo_obj ''c2'' ''ns'' ''b'' ''root:a'') #
       [Add (demo_obj ''c2'' ''ns'' ''b'' ''root:b'')])))) ''root:a'' = ''c1''"
  by (subst path_resolution_complete [where ob = "demo_obj ''c2'' ''ns'' ''b'' ''root:a''"])
     (simp_all add: path_run_def pathHandler_OnAdd_def Store_Add_def Store_Get_def Let_def
       demo_kcp_def demo_obj_def new_path_handler_def New_Store_def)

theorem path_resolution_sound_witness:
  "\<exists>es1 e es2. [Add (demo_obj ''c1'' ''ns'' ''b'' ''root:a'')] = es1 @ e # es2 \<and>
     announces demo_kcp e ''root:a'' ''c1'' \<and> Some ''root:a'' \<notin> removed_path demo_kcp ` set es2"
  by (rule path_resolution_sound)
     (simp add: path_run_def pathHandler_OnAdd_def Store_Add_def Store_Get_def Let_def
       demo_kcp_def demo_obj_def new_path_handler_def New_Store_def)

text \<open>
  An update that announces an already registered path changes nothing, also
  when the object now belongs to another cluster: the path keeps resolving to the cluster
  it was registered for until a delete removes it.
\<close>

theorem path_update_keeps_first:
  assumes "ps_paths (pathStore (path_run K es)) path = Some cl"
    and "gomap_read (ob_annotations new) (lc_path_key K) = path"
  shows "path_run K (es @ [Upd old new]) = path_run K es"
proof -
  have "path \<in> dom (registeredPaths (path_run K es))"
    using assms(1) path_run_inv [of K es] by (auto simp: path_inv_def)
  with assms(2) show ?thesis by (auto simp: pathHandler_OnUpdate_def Let_def)
qed

theorem path_update_keeps_first_witness:
  "path_run demo_kcp ([Add (demo_obj ''c1'' ''ns'' ''b'' ''root:a'')] @
       [Upd (demo_obj ''c1'' ''ns'' ''b'' ''root:a'') (demo_obj ''c2'' ''ns'' ''b'' ''root:a'')])
   = path_run demo_kcp [Add (demo_obj ''c1'' ''ns'' ''b'' ''root:a'')]"
  by (rule path_update_keeps_first [where path = "''root:a''" and cl = "''c1''"])
     (simp_all add: path_run_def pathHandler_OnAdd_def Store_Add_def Let_def
       demo_kcp_def demo_obj_def new_path_handler_def New_Store_def)

end
