(* ===== verification/Indexes.thy ===== *)
theory Indexes
  imports Objects
begin

text \<open>
  \<^verbatim>\<open>pkg/cache/indexes.go\<close>: the two index functions every informer of a wildcard cache
  carries, and the indexer they feed. The indexer is client-go's (\<open>cache.Indexer\<close>):
  a record of the answers it gives on one snapshot of its content, with \<open>indexer_ok\<close>
  naming its documented behaviour. \<open>meta.Accessor\<close> is a parameter too.
\<close>

type_synonym accessor = "any_value \<Rightarrow> kobject result"

definition accessor_ok :: "accessor \<Rightarrow> bool" where
  "accessor_ok acc \<longleftrightarrow> (\<forall>ob. acc (Obj ob) = Inr ob)"

fun demo_accessor :: accessor where
  "demo_accessor (Obj ob) = Inr ob"
| "demo_accessor v = Inl (Foreign ''object does not implement the Object interfaces'')"

lemma demo_accessor_ok: "accessor_ok demo_accessor"
  by (simp add: accessor_ok_def)

subsection \<open>The index functions\<close>

definition ClusterIndexKey :: "kcpapi \<Rightarrow> lcname \<Rightarrow> string" where
  "ClusterIndexKey K clusterName = lc_string K clusterName"

definition ClusterIndexFunc :: "kcpapi \<Rightarrow> accessor \<Rightarrow> any_value \<Rightarrow> string list result" where
  "ClusterIndexFunc K acc ob =
     (case acc ob of
        Inl err \<Rightarrow> Inl (Errorf ''object has no meta: %w'' [] [err])
      | Inr m \<Rightarrow> Inr [ClusterIndexKey K (lc_from K m)])"

definition ClusterAndNamespaceIndexKey :: "kcpapi \<Rightarrow> lcname \<Rightarrow> string \<Rightarrow> string" where
  "ClusterAndNamespaceIndexKey K clusterName namespace = lc_string K clusterName @ ''/'' @ namespace"

definition ClusterAndNamespaceIndexFunc :: "kcpapi \<Rightarrow> accessor \<Rightarrow> any_value \<Rightarrow> string list result" where
  "ClusterAndNamespaceIndexFunc K acc ob =
     (case acc ob of
        Inl err \<Rightarrow> Inl (Errorf ''object has no meta: %w'' [] [err])
      | Inr m \<Rightarrow> Inr [ClusterAndNamespaceIndexKey K (lc_from K m) (ob_namespace m)])"

lemmas index_defs = ClusterIndexFunc_def ClusterIndexKey_def
  ClusterAndNamespaceIndexFunc_def ClusterAndNamespaceIndexKey_def

lemma index_func_values [simp]:
  assumes "accessor_ok acc"
  shows "ClusterIndexFunc K acc (Obj ob) = Inr [lc_string K (lc_from K ob)]"
    and "ClusterAndNamespaceIndexFunc K acc (Obj ob) =
         Inr [lc_string K (lc_from K ob) @ ''/'' @ ob_namespace ob]"
  using assms by (simp_all add: index_defs accessor_ok_def)

subsection \<open>The indexer\<close>

record indexer =
  GetByKey :: "string \<Rightarrow> any_value option result"
  ByIndex :: "string \<Rightarrow> string \<Rightarrow> any_value list result"
  IndexKeys :: "string \<Rightarrow> string \<Rightarrow> string list result"
  ListAll :: "any_value list"
  GetIndexers :: "string \<rightharpoonup> (any_value \<Rightarrow> string list result)"
  KeyOf :: "any_value \<Rightarrow> string"

text \<open>
  The documented behaviour: \<open>ByIndex\<close> of an existing index gives the stored values whose
  index function yields the value, of an unknown index an error; \<open>IndexKeys\<close> gives their
  store keys; \<open>GetByKey\<close> gives the stored value with that store key. \<open>KeyOf\<close> is the
  key function the store was built with.
\<close>

definition yields :: "(any_value \<Rightarrow> string list result) \<Rightarrow> string \<Rightarrow> any_value \<Rightarrow> bool" where
  "yields f v x \<longleftrightarrow> (case f x of Inl _ \<Rightarrow> False | Inr vs \<Rightarrow> v \<in> set vs)"

definition indexer_ok :: "indexer \<Rightarrow> bool" where
  "indexer_ok ix \<longleftrightarrow>
     (\<forall>n v. case GetIndexers ix n of
         None \<Rightarrow> is_err (ByIndex ix n v) \<and> is_err (IndexKeys ix n v)
       | Some f \<Rightarrow> \<exists>xs ks. ByIndex ix n v = Inr xs \<and> IndexKeys ix n v = Inr ks \<and>
            set xs = {x \<in> set (ListAll ix). yields f v x} \<and> set ks = KeyOf ix ` set xs) \<and>
     (\<forall>k. case GetByKey ix k of
         Inl _ \<Rightarrow> False
       | Inr None \<Rightarrow> k \<notin> KeyOf ix ` set (ListAll ix)
       | Inr (Some x) \<Rightarrow> x \<in> set (ListAll ix) \<and> KeyOf ix x = k)"

lemma indexer_ok_ByIndex:
  assumes "indexer_ok ix" and "GetIndexers ix n = Some f"
  obtains xs ks where "ByIndex ix n v = Inr xs" and "IndexKeys ix n v = Inr ks"
    and "set xs = {x \<in> set (ListAll ix). yields f v x}" and "set ks = KeyOf ix ` set xs"
proof -
  have "case GetIndexers ix n of
         None \<Rightarrow> is_err (ByIndex ix n v) \<and> is_err (IndexKeys ix n v)
       | Some f \<Rightarrow> \<exists>xs ks. ByIndex ix n v = Inr xs \<and> IndexKeys ix n v = Inr ks \<and>
            set xs = {x \<in> set (ListAll ix). yields f v x} \<and> set ks = KeyOf ix ` set xs"
    using assms(1) unfolding indexer_ok_def by blast
  with assms(2) that show thesis by auto
qed

lemma indexer_ok_GetByKey:
  assumes "indexer_ok ix"
  shows "GetByKey ix k = Inr (Some x) \<Longrightarrow> x \<in> set (ListAll ix) \<and> KeyOf ix x = k"
    and "GetByKey ix k = Inr None \<Longrightarrow> k \<notin> KeyOf ix ` set (ListAll ix)"
    and "GetByKey ix k \<noteq> Inl e"
proof -
  have law: "case GetByKey ix k of Inl _ \<Rightarrow> False
       | Inr None \<Rightarrow> k \<notin> KeyOf ix ` set (ListAll ix)
       | Inr (Some x) \<Rightarrow> x \<in> set (ListAll ix) \<and> KeyOf ix x = k"
    using assms unfolding indexer_ok_def by blast
  then show "GetByKey ix k = Inr (Some x) \<Longrightarrow> x \<in> set (ListAll ix) \<and> KeyOf ix x = k" by simp
  from law show "GetByKey ix k = Inr None \<Longrightarrow> k \<notin> KeyOf ix ` set (ListAll ix)" by simp
  from law show "GetByKey ix k \<noteq> Inl e" by auto
qed

text \<open>An indexer kept as a list of values, which satisfies the laws.\<close>

definition list_indexer ::
  "(any_value \<Rightarrow> string) \<Rightarrow> (string \<rightharpoonup> (any_value \<Rightarrow> string list result)) \<Rightarrow> any_value list \<Rightarrow> indexer" where
  "list_indexer key ixs xs =
     (let sel = (\<lambda>n v. case ixs n of
            None \<Rightarrow> Inl (Foreign ''Index with name does not exist'')
          | Some f \<Rightarrow> Inr (filter (yields f v) xs))
      in \<lparr> GetByKey = (\<lambda>k. Inr (List.find (\<lambda>x. key x = k) xs)), ByIndex = sel,
           IndexKeys = (\<lambda>n v. case sel n v of Inl e \<Rightarrow> Inl e | Inr ys \<Rightarrow> Inr (map key ys)),
           ListAll = xs, GetIndexers = ixs, KeyOf = key \<rparr>)"

lemma list_indexer_sel [simp]:
  "ListAll (list_indexer key ixs xs) = xs" "GetIndexers (list_indexer key ixs xs) = ixs"
  "KeyOf (list_indexer key ixs xs) = key"
  by (simp_all add: list_indexer_def Let_def)

lemma list_indexer_ok: "indexer_ok (list_indexer key ixs xs)"
  unfolding indexer_ok_def list_indexer_def Let_def
  by (auto simp: find_None_iff find_Some_iff split: option.splits)

subsection \<open>A cluster-aware indexer\<close>

text \<open>
  What \<open>NewWildcardCache\<close> sets up: an indexer with the two cluster indexes, whose store
  keys are the kcp keys: the cluster name, a bar, and the namespaced name.
\<close>

definition kcp_key :: "string \<Rightarrow> kobject \<Rightarrow> string" where
  "kcp_key cl ob = cl @ ''|'' @
     (if ob_namespace ob = [] then ob_name ob else ob_namespace ob @ ''/'' @ ob_name ob)"

definition cluster_indexed :: "kcpapi \<Rightarrow> accessor \<Rightarrow> indexer \<Rightarrow> bool" where
  "cluster_indexed K acc ix \<longleftrightarrow> indexer_ok ix \<and>
     GetIndexers ix (kc_cluster_index K) = Some (ClusterIndexFunc K acc) \<and>
     GetIndexers ix (kc_cluster_ns_index K) = Some (ClusterAndNamespaceIndexFunc K acc) \<and>
     (\<forall>x \<in> set (ListAll ix). \<exists>ob. x = Obj ob \<and> KeyOf ix x = kcp_key (lc_string K (lc_from K ob)) ob)"

text \<open>
  Names as Kubernetes and kcp accept them: a cluster name has no slash and no bar, a
  namespace and an object name have no slash.
\<close>

definition names_ok :: "kcpapi \<Rightarrow> kobject \<Rightarrow> bool" where
  "names_ok K ob \<longleftrightarrow> CHR ''/'' \<notin> set (lc_from K ob) \<and> CHR ''|'' \<notin> set (lc_from K ob) \<and>
     CHR ''/'' \<notin> set (ob_namespace ob) \<and> CHR ''/'' \<notin> set (ob_name ob)"

definition demo_key :: "any_value \<Rightarrow> string" where
  "demo_key x = (case x of Obj ob \<Rightarrow> kcp_key (lc_from demo_kcp ob) ob | _ \<Rightarrow> [])"

definition demo_indexer :: "kobject list \<Rightarrow> indexer" where
  "demo_indexer obs = list_indexer demo_key
     [kc_cluster_index demo_kcp \<mapsto> ClusterIndexFunc demo_kcp demo_accessor,
      kc_cluster_ns_index demo_kcp \<mapsto> ClusterAndNamespaceIndexFunc demo_kcp demo_accessor] (map Obj obs)"

lemma demo_indexer_sel [simp]:
  "ListAll (demo_indexer obs) = map Obj obs" "KeyOf (demo_indexer obs) = demo_key"
  by (simp_all add: demo_indexer_def)

lemma demo_indexer_ok: "cluster_indexed demo_kcp demo_accessor (demo_indexer obs)"
  unfolding cluster_indexed_def
  by (auto simp: demo_indexer_def list_indexer_ok demo_key_def)

end
