(* ===== verification/CacheReader.thy ===== *)
theory CacheReader
  imports Indexes
begin

text \<open>
  \<^verbatim>\<open>pkg/cache/forked_cache_reader.go\<close>: the reader over one indexer, scoped to one
  logical cluster (or to \<open>*\<close>, all of them). \<open>Get\<close> and \<open>List\<close> with their index lookups,
  key encodings and error branches; \<open>apimeta.SetList\<close>, which writes the objects found
  into the caller's list, is a parameter of \<open>List\<close>.
\<close>

subsection \<open>Keys\<close>

definition objectKeyToStoreKey :: "string \<Rightarrow> string \<Rightarrow> string" where
  "objectKeyToStoreKey namespace name = (if namespace = [] then name else namespace @ ''/'' @ name)"

definition fieldIndexName :: "string \<Rightarrow> string" where
  "fieldIndexName field = ''field:'' @ field"

definition allNamespacesNamespace :: string where
  "allNamespacesNamespace = ''__all_namespaces''"

definition keyToNamespacedKey :: "string \<Rightarrow> string \<Rightarrow> string" where
  "keyToNamespacedKey ns baseKey =
     (if ns \<noteq> [] then ns @ ''/'' @ baseKey else allNamespacesNamespace @ ''/'' @ baseKey)"

definition keyToClusteredKey :: "string \<Rightarrow> string \<Rightarrow> string \<Rightarrow> string" where
  "keyToClusteredKey clusterName ns baseKey =
     (if ns \<noteq> [] then ns @ ''/'' @ clusterName @ ''/'' @ baseKey
      else allNamespacesNamespace @ ''/'' @ clusterName @ ''/'' @ baseKey)"

lemma keyToClusteredKey_eq:
  "keyToClusteredKey cl ns v = keyToNamespacedKey ns (cl @ ''/'' @ v)"
  by (simp add: keyToClusteredKey_def keyToNamespacedKey_def)

subsection \<open>The reader and its options\<close>

datatype restscope = RESTScopeNameNamespace | RESTScopeNameRoot

record cacheReader =
  cr_indexer :: indexer
  cr_isClusterAware :: bool
  cr_groupVersionKind :: gvk
  cr_scopeName :: restscope
  cr_disableDeepCopy :: bool
  cr_clusterName :: lcname

text \<open>A requirement of a field selector (\<open>fields.Requirement\<close>) and its operator.\<close>

datatype sel_operator =
    DoesNotExist | Equals | DoubleEquals | In | NotEquals | NotIn | Exists | GreaterThan | LessThan

record requirement =
  rq_operator :: sel_operator
  rq_field :: string
  rq_value :: string

record list_options =
  lo_LabelSelector :: "((string \<rightharpoonup> string) \<Rightarrow> bool) option"
  lo_FieldSelector :: "requirement list option"
  lo_Namespace :: string
  lo_Limit :: int
  lo_Continue :: string
  lo_UnsafeDisableDeepCopy :: "bool option"

text \<open>
  Values are copied by assignment in the model, so \<open>DeepCopyObject\<close> is the identity; what
  remains of the copy is that a copied object gets the reader's kind.
\<close>

definition skip_copy :: "cacheReader \<Rightarrow> bool option \<Rightarrow> bool" where
  "skip_copy c unsafe \<longleftrightarrow> cr_disableDeepCopy c \<or> unsafe = Some True"

definition out_copy :: "cacheReader \<Rightarrow> bool option \<Rightarrow> kobject \<Rightarrow> kobject" where
  "out_copy c unsafe ob = (if skip_copy c unsafe then ob else ob\<lparr> ob_gvk := cr_groupVersionKind c \<rparr>)"

subsection \<open>Get\<close>

definition cacheReader_Get ::
  "kcpapi \<Rightarrow> cacheReader \<Rightarrow> string \<Rightarrow> string \<Rightarrow> string \<Rightarrow> bool option \<Rightarrow> kobject result" where
  "cacheReader_Get K c namespace name outType unsafe =
     (let namespace = (if cr_scopeName c = RESTScopeNameRoot then [] else namespace);
          storeKey = objectKeyToStoreKey namespace name
      in if cr_isClusterAware c \<and> lc_empty K (cr_clusterName c)
         then Inl (Errorf ''cluster-aware cache requires a cluster in context'' [] [])
         else
           let storeKey = (if cr_isClusterAware c
                           then lc_string K (cr_clusterName c) @ ''|'' @ storeKey else storeKey)
           in case GetByKey (cr_indexer c) storeKey of
                Inl err \<Rightarrow> Inl err
              | Inr None \<Rightarrow> Inl (NotFound (gvk_group (cr_groupVersionKind c))
                               (gvk_kind (cr_groupVersionKind c)) name)
              | Inr (Some (Obj ob)) \<Rightarrow>
                  if ob_type ob \<noteq> outType
                  then Inl (Errorf ''cache had type %s, but %s was asked for'' [ob_type ob, outType] [])
                  else Inr (out_copy c unsafe ob)
              | Inr (Some v) \<Rightarrow> Inl (Errorf ''cache contained %T, which is not an Object'' [] []))"

subsection \<open>List\<close>

definition requiresExactMatch :: "requirement list \<Rightarrow> bool" where
  "requiresExactMatch reqs \<longleftrightarrow> reqs \<noteq> [] \<and>
     list_all (\<lambda>req. rq_operator req = Equals \<or> rq_operator req = DoubleEquals) reqs"

fun filter_indexed :: "(any_value \<Rightarrow> string list result) \<Rightarrow> string \<Rightarrow> any_value list \<Rightarrow> any_value list result" where
  "filter_indexed fn v [] = Inr []"
| "filter_indexed fn v (x # xs) =
     (case fn x of
        Inl err \<Rightarrow> Inl err
      | Inr vals \<Rightarrow>
          (case filter_indexed fn v xs of
             Inl err \<Rightarrow> Inl err
           | Inr ys \<Rightarrow> Inr (if v \<in> set vals then x # ys else ys)))"

definition indexedValue :: "kcpapi \<Rightarrow> lcname \<Rightarrow> string \<Rightarrow> bool \<Rightarrow> requirement \<Rightarrow> string" where
  "indexedValue K clusterName namespace isClusterAware req =
     (if isClusterAware then keyToClusteredKey (lc_string K clusterName) namespace (rq_value req)
      else keyToNamespacedKey namespace (rq_value req))"

text \<open>The requirements after the first filter the snapshot the first one took.\<close>

fun byIndexes_rest :: "kcpapi \<Rightarrow> indexer \<Rightarrow> requirement list \<Rightarrow> lcname \<Rightarrow> string \<Rightarrow> bool
    \<Rightarrow> any_value list \<Rightarrow> any_value list result" where
  "byIndexes_rest K ix [] cl ns aware objs = Inr objs"
| "byIndexes_rest K ix (req # reqs) cl ns aware objs =
     (case GetIndexers ix (fieldIndexName (rq_field req)) of
        None \<Rightarrow> Inl (Errorf ''index with name %s does not exist'' [fieldIndexName (rq_field req)] [])
      | Some fn \<Rightarrow>
          (case filter_indexed fn (indexedValue K cl ns aware req) objs of
             Inl err \<Rightarrow> Inl err
           | Inr [] \<Rightarrow> Inr []
           | Inr (x # xs) \<Rightarrow> byIndexes_rest K ix reqs cl ns aware (x # xs)))"

fun byIndexes :: "kcpapi \<Rightarrow> indexer \<Rightarrow> requirement list \<Rightarrow> lcname \<Rightarrow> string \<Rightarrow> bool \<Rightarrow> any_value list result" where
  "byIndexes K ix [] cl ns aware = Inr []"
| "byIndexes K ix (req # reqs) cl ns aware =
     (case ByIndex ix (fieldIndexName (rq_field req)) (indexedValue K cl ns aware req) of
        Inl err \<Rightarrow> Inl err
      | Inr [] \<Rightarrow> Inr []
      | Inr (x # xs) \<Rightarrow> byIndexes_rest K ix reqs cl ns aware (x # xs))"

definition list_candidates :: "kcpapi \<Rightarrow> cacheReader \<Rightarrow> list_options \<Rightarrow> any_value list result" where
  "list_candidates K c lo =
     (case lo_FieldSelector lo of
        Some reqs \<Rightarrow>
          if \<not> requiresExactMatch reqs
          then Inl (Errorf ''non-exact field matches are not supported by the cache'' [] [])
          else byIndexes K (cr_indexer c) reqs (cr_clusterName c) (lo_Namespace lo) (cr_isClusterAware c)
      | None \<Rightarrow>
          if lo_Namespace lo \<noteq> [] then
            (if \<not> cr_isClusterAware c then
               ByIndex (cr_indexer c) (kc_namespace_index K) (lo_Namespace lo)
             else if lc_string K (cr_clusterName c) = ''*'' then
               ByIndex (cr_indexer c) (kc_namespace_index K) (lo_Namespace lo)
             else
               ByIndex (cr_indexer c) (kc_cluster_ns_index K)
                 (kc_cluster_ns_key K (cr_clusterName c) (lo_Namespace lo)))
          else
            (if \<not> cr_isClusterAware c then Inr (ListAll (cr_indexer c))
             else if lc_string K (cr_clusterName c) = ''*'' then Inr (ListAll (cr_indexer c))
             else ByIndex (cr_indexer c) (kc_cluster_index K) (kc_cluster_key K (cr_clusterName c))))"

text \<open>The loop over the candidates, with the objects collected so far.\<close>

fun list_loop :: "accessor \<Rightarrow> cacheReader \<Rightarrow> list_options \<Rightarrow> any_value list \<Rightarrow> kobject list \<Rightarrow> kobject list result" where
  "list_loop acc c lo [] runtimeObjs = Inr runtimeObjs"
| "list_loop acc c lo (item # items) runtimeObjs =
     (if lo_Limit lo > 0 \<and> int (length runtimeObjs) \<ge> lo_Limit lo then Inr runtimeObjs
      else case item of
          Obj ob \<Rightarrow>
            (case acc (Obj ob) of
               Inl err \<Rightarrow> Inl err
             | Inr m \<Rightarrow>
                 if (case lo_LabelSelector lo of None \<Rightarrow> True | Some sel \<Rightarrow> sel (ob_labels m))
                 then list_loop acc c lo items (runtimeObjs @ [out_copy c (lo_UnsafeDisableDeepCopy lo) ob])
                 else list_loop acc c lo items runtimeObjs)
        | _ \<Rightarrow> Inl (Errorf ''cache contained %T, which is not an Object'' [] []))"

definition cacheReader_objects ::
  "kcpapi \<Rightarrow> accessor \<Rightarrow> cacheReader \<Rightarrow> list_options \<Rightarrow> kobject list result" where
  "cacheReader_objects K acc c lo =
     (if lo_Continue lo \<noteq> [] then Inl (Errorf ''continue list option is not supported by the cache'' [] [])
      else if cr_isClusterAware c \<and> lc_empty K (cr_clusterName c)
      then Inl (Errorf ''cluster-aware cache requires a cluster name for listing'' [] [])
      else case list_candidates K c lo of
          Inl err \<Rightarrow> Inl err
        | Inr objs \<Rightarrow> list_loop acc c lo objs [])"

definition cacheReader_List ::
  "kcpapi \<Rightarrow> accessor \<Rightarrow> ('l \<Rightarrow> kobject list \<Rightarrow> 'l result) \<Rightarrow> cacheReader \<Rightarrow> 'l \<Rightarrow> list_options \<Rightarrow> 'l result" where
  "cacheReader_List K acc SetList c out lo =
     (case cacheReader_objects K acc c lo of Inl err \<Rightarrow> Inl err | Inr objs \<Rightarrow> SetList out objs)"

subsection \<open>The loop over the candidates\<close>

definition label_ok :: "list_options \<Rightarrow> kobject \<Rightarrow> bool" where
  "label_ok lo ob \<longleftrightarrow> (case lo_LabelSelector lo of None \<Rightarrow> True | Some sel \<Rightarrow> sel (ob_labels ob))"

definition take_limit :: "int \<Rightarrow> 'a list \<Rightarrow> 'a list" where
  "take_limit lim xs = (if lim > 0 then take (nat lim) xs else xs)"

lemma set_take_limit: "set (take_limit lim xs) \<subseteq> set xs"
  by (simp add: take_limit_def set_take_subset)

lemma list_loop_eq:
  assumes "accessor_ok acc" and "lo_Limit lo > 0 \<Longrightarrow> length rs \<le> nat (lo_Limit lo)"
  shows "list_loop acc c lo (map Obj obs) rs =
    Inr (take_limit (lo_Limit lo)
      (rs @ map (out_copy c (lo_UnsafeDisableDeepCopy lo)) (filter (label_ok lo) obs)))"
  using assms(2)
proof (induction obs arbitrary: rs)
  case Nil
  then show ?case by (auto simp: take_limit_def)
next
  case (Cons ob obs)
  show ?case
  proof (cases "lo_Limit lo > 0 \<and> int (length rs) \<ge> lo_Limit lo")
    case True
    with Cons.prems have "length rs = nat (lo_Limit lo)" by linarith
    with True show ?thesis by (simp add: take_limit_def)
  next
    case False
    have "lo_Limit lo > 0 \<Longrightarrow> length rs < nat (lo_Limit lo)" using False by simp
    then have step: "lo_Limit lo > 0 \<Longrightarrow> length (rs @ [y]) \<le> nat (lo_Limit lo)" for y
      by simp
    have acc: "acc (Obj ob) = Inr ob" using assms(1) by (simp add: accessor_ok_def)
    show ?thesis
      using Cons.IH [OF Cons.prems] Cons.IH [OF step] False acc
      by (auto simp: label_ok_def split: option.splits)
  qed
qed

lemma list_loop_empty:
  "accessor_ok acc \<Longrightarrow> list_loop acc c lo (map Obj obs) [] =
    Inr (take_limit (lo_Limit lo)
      (map (out_copy c (lo_UnsafeDisableDeepCopy lo)) (filter (label_ok lo) obs)))"
  using list_loop_eq [of acc lo "[]"] by simp

lemma all_objects:
  assumes "set xs \<subseteq> range Obj"
  obtains obs where "xs = map Obj obs"
  using assms by (metis ex_map_conv image_iff subsetD)

subsection \<open>A reader scoped to one logical cluster\<close>

text \<open>
  The readers \<open>scopedCache\<close> builds over a wildcard cache: the indexer is cluster-aware
  and the cluster name is a proper one, neither empty nor the wildcard.
\<close>

definition scoped_reader :: "kcpapi \<Rightarrow> accessor \<Rightarrow> cacheReader \<Rightarrow> bool" where
  "scoped_reader K acc c \<longleftrightarrow> kcp_ok K \<and> accessor_ok acc \<and>
     cluster_indexed K acc (cr_indexer c) \<and> cr_isClusterAware c \<and>
     cr_clusterName c \<noteq> [] \<and> cr_clusterName c \<noteq> ''*'' \<and>
     CHR ''/'' \<notin> set (cr_clusterName c) \<and> CHR ''|'' \<notin> set (cr_clusterName c) \<and>
     (\<forall>ob. Obj ob \<in> set (ListAll (cr_indexer c)) \<longrightarrow> names_ok K ob)"

definition stored :: "cacheReader \<Rightarrow> kobject set" where
  "stored c = {ob. Obj ob \<in> set (ListAll (cr_indexer c))}"

definition in_scope :: "kcpapi \<Rightarrow> cacheReader \<Rightarrow> string \<Rightarrow> kobject \<Rightarrow> bool" where
  "in_scope K c ns ob \<longleftrightarrow> lc_from K ob = cr_clusterName c \<and> (ns = [] \<or> ob_namespace ob = ns)"

lemma stored_objects:
  assumes "scoped_reader K acc c"
  shows "set (ListAll (cr_indexer c)) = Obj ` stored c"
  using assms unfolding scoped_reader_def cluster_indexed_def stored_def by auto

lemma scoped_by_index:
  assumes "scoped_reader K acc c" and "GetIndexers (cr_indexer c) n = Some f"
    and "\<And>ob. ob \<in> stored c \<Longrightarrow> yields f v (Obj ob) \<longleftrightarrow> P ob"
  shows "\<exists>obs. ByIndex (cr_indexer c) n v = Inr (map Obj obs) \<and> set obs = {ob \<in> stored c. P ob}"
proof -
  have ix: "indexer_ok (cr_indexer c)"
    using assms(1) by (simp add: scoped_reader_def cluster_indexed_def)
  obtain xs ks where xs: "ByIndex (cr_indexer c) n v = Inr xs"
      "set xs = {x \<in> set (ListAll (cr_indexer c)). yields f v x}"
    by (rule indexer_ok_ByIndex [OF ix assms(2), of v])
  have eq: "set xs = Obj ` {ob \<in> stored c. P ob}"
    using xs(2) assms(3) stored_objects [OF assms(1)] by auto
  then obtain obs where "xs = map Obj obs"
    by (metis all_objects image_mono top_greatest)
  moreover from this eq have "set obs = {ob \<in> stored c. P ob}"
    by (metis (no_types, lifting) any_value.inject(1) inj_image_eq_iff inj_on_def list.set_map)
  ultimately show ?thesis using xs(1) by blast
qed

lemma scoped_candidates:
  assumes R: "scoped_reader K acc c" and "lo_FieldSelector lo = None"
    and "CHR ''/'' \<notin> set (lo_Namespace lo)"
  shows "\<exists>obs. list_candidates K c lo = Inr (map Obj obs) \<and>
           set obs = {ob \<in> stored c. in_scope K c (lo_Namespace lo) ob}"
proof -
  note K = R [unfolded scoped_reader_def]
  have aware: "cr_isClusterAware c" and kok: "kcp_ok K" and aok: "accessor_ok acc"
    and ixs: "GetIndexers (cr_indexer c) (kc_cluster_index K) = Some (ClusterIndexFunc K acc)"
      "GetIndexers (cr_indexer c) (kc_cluster_ns_index K) = Some (ClusterAndNamespaceIndexFunc K acc)"
    and star: "lc_string K (cr_clusterName c) \<noteq> ''*''"
    using K by (simp_all add: cluster_indexed_def kcp_okD)
  show ?thesis
  proof (cases "lo_Namespace lo = []")
    case True
    have "yields (ClusterIndexFunc K acc) (kc_cluster_key K (cr_clusterName c)) (Obj ob) \<longleftrightarrow>
        in_scope K c (lo_Namespace lo) ob" for ob
      using True aok kok by (auto simp: yields_def in_scope_def kcp_okD)
    from scoped_by_index [OF R ixs(1) this] show ?thesis
      using assms(2) True aware star by (simp add: list_candidates_def)
  next
    case False
    have "yields (ClusterAndNamespaceIndexFunc K acc)
        (kc_cluster_ns_key K (cr_clusterName c) (lo_Namespace lo)) (Obj ob) \<longleftrightarrow>
        in_scope K c (lo_Namespace lo) ob" if "ob \<in> stored c" for ob
    proof -
      have "names_ok K ob" using K that by (simp add: stored_def)
      then have "CHR ''/'' \<notin> set (lc_from K ob)" by (simp add: names_ok_def)
      moreover have "CHR ''/'' \<notin> set (cr_clusterName c)" using K by simp
      ultimately show ?thesis
        using False aok kok split_at_sep [of "cr_clusterName c" "CHR ''/''" "lo_Namespace lo" "lc_from K ob"]
        by (auto simp: yields_def in_scope_def kcp_okD)
    qed
    from scoped_by_index [OF R ixs(2) this] show ?thesis
      using assms(2) False aware star by (simp add: list_candidates_def)
  qed
qed

lemma scoped_objects:
  assumes R: "scoped_reader K acc c" and "lo_FieldSelector lo = None" and "lo_Continue lo = []"
    and "CHR ''/'' \<notin> set (lo_Namespace lo)"
  obtains obs where "set obs = {ob \<in> stored c. in_scope K c (lo_Namespace lo) ob}"
    and "cacheReader_objects K acc c lo = Inr (take_limit (lo_Limit lo)
       (map (out_copy c (lo_UnsafeDisableDeepCopy lo)) (filter (label_ok lo) obs)))"
proof -
  obtain obs where obs: "list_candidates K c lo = Inr (map Obj obs)"
      "set obs = {ob \<in> stored c. in_scope K c (lo_Namespace lo) ob}"
    using scoped_candidates [OF R assms(2,4)] by blast
  have "\<not> lc_empty K (cr_clusterName c)" and "accessor_ok acc"
    using R by (auto simp: scoped_reader_def kcp_okD)
  then show thesis
    using that [OF obs(2)] obs(1) assms(3)
    by (simp add: cacheReader_objects_def list_loop_empty)
qed

text \<open>
  Property C1. Listing through a reader scoped to one logical cluster, without field
  selector and limit, returns exactly the stored objects of that cluster, in the asked
  namespace if one is given, that match the label selector: nothing of another cluster, and
  nothing missing.
\<close>

theorem scoped_list_exact:
  assumes "scoped_reader K acc c" and "lo_FieldSelector lo = None" and "lo_Continue lo = []"
    and "CHR ''/'' \<notin> set (lo_Namespace lo)" and "lo_Limit lo \<le> 0"
  shows "\<exists>objs. cacheReader_objects K acc c lo = Inr objs \<and>
    set objs = out_copy c (lo_UnsafeDisableDeepCopy lo) `
      {ob \<in> stored c. lc_from K ob = cr_clusterName c \<and>
         (lo_Namespace lo = [] \<or> ob_namespace ob = lo_Namespace lo) \<and> label_ok lo ob}"
proof -
  obtain obs where "set obs = {ob \<in> stored c. in_scope K c (lo_Namespace lo) ob}"
    and "cacheReader_objects K acc c lo = Inr (take_limit (lo_Limit lo)
       (map (out_copy c (lo_UnsafeDisableDeepCopy lo)) (filter (label_ok lo) obs)))"
    by (rule scoped_objects [OF assms(1-4)])
  then show ?thesis
    using assms(5) by (auto simp: take_limit_def in_scope_def)
qed

lemma list_loop_extends:
  "list_loop acc c lo items rs = Inr all \<Longrightarrow> \<exists>more. all = rs @ more"
proof (induction acc c lo items rs arbitrary: all rule: list_loop.induct)
  case (1 acc c lo rs)
  then show ?case by simp
next
  case (2 acc c lo item items rs)
  then show ?case by (fastforce split: if_splits any_value.splits sum.splits option.splits)
qed

lemma list_loop_limited:
  assumes "lo_Limit lo > 0" and "length rs \<le> nat (lo_Limit lo)"
    and "list_loop acc c (lo\<lparr> lo_Limit := 0 \<rparr>) items rs = Inr all"
  shows "list_loop acc c lo items rs = Inr (take (nat (lo_Limit lo)) all)"
  using assms(2,3)
proof (induction items arbitrary: rs)
  case Nil
  then show ?case by simp
next
  case (Cons item items)
  obtain more where all: "all = rs @ more"
    using list_loop_extends [OF Cons.prems(2)] by blast
  show ?case
  proof (cases "int (length rs) \<ge> lo_Limit lo")
    case True
    with Cons.prems(1) assms(1) have "length rs = nat (lo_Limit lo)" by linarith
    with all assms(1) True show ?thesis by simp
  next
    case False
    then have "length (rs @ [y]) \<le> nat (lo_Limit lo)" for y :: kobject by simp
    with False Cons show ?thesis
      by (auto simp del: length_append split: any_value.splits sum.splits option.splits if_splits)
  qed
qed

lemma list_candidates_limit [simp]:
  "list_candidates K c (lo\<lparr> lo_Limit := n \<rparr>) = list_candidates K c lo"
  by (simp add: list_candidates_def split: option.split)

text \<open>
  A limit only truncates: when the same listing without a limit returns
  \<open>all\<close>, the listing with limit \<open>n > 0\<close> returns the first \<open>n\<close> objects of \<open>all\<close>, for
  every reader and all other options.
\<close>

theorem list_limit_prefix:
  assumes "cacheReader_objects K acc c (lo\<lparr> lo_Limit := 0 \<rparr>) = Inr all" and "lo_Limit lo > 0"
  shows "cacheReader_objects K acc c lo = Inr (take (nat (lo_Limit lo)) all)"
  using assms list_loop_limited [OF assms(2), of "[]" acc c]
  by (auto simp: cacheReader_objects_def split: if_splits sum.splits)

text \<open>
  Without a cluster name a cluster-aware reader answers nothing: \<open>Get\<close> and
  \<open>List\<close> are errors whatever is stored and asked.
\<close>

theorem unscoped_reader_errs:
  assumes "cr_isClusterAware c" and "lc_empty K (cr_clusterName c)"
  shows "is_err (cacheReader_Get K c ns name outType unsafe) \<and>
         is_err (cacheReader_List K acc SetList c out lo)"
  using assms by (simp add: cacheReader_Get_def cacheReader_List_def cacheReader_objects_def Let_def)

subsection \<open>Get\<close>

lemma kcp_key_store:
  "kcp_key cl ob = cl @ CHR ''|'' # objectKeyToStoreKey (ob_namespace ob) (ob_name ob)"
  by (simp add: kcp_key_def objectKeyToStoreKey_def)

lemma kcp_key_eq:
  assumes "CHR ''|'' \<notin> set cl" and "CHR ''|'' \<notin> set cl'"
  shows "kcp_key cl ob = cl' @ ''|'' @ objectKeyToStoreKey ns name \<longleftrightarrow>
    cl = cl' \<and> objectKeyToStoreKey (ob_namespace ob) (ob_name ob) = objectKeyToStoreKey ns name"
  unfolding kcp_key_store using split_at_sep_iff [OF assms] by simp

lemma objectKeyToStoreKey_inj:
  assumes "objectKeyToStoreKey ns name = objectKeyToStoreKey ns' name'"
    and "CHR ''/'' \<notin> set ns" "CHR ''/'' \<notin> set name"
    and "CHR ''/'' \<notin> set ns'" "CHR ''/'' \<notin> set name'"
  shows "ns = ns' \<and> name = name'"
  using assms split_at_sep_iff [OF assms(2,4)]
  by (auto simp: objectKeyToStoreKey_def split: if_splits)

text \<open>The objects a \<open>Get\<close> asks for.\<close>

definition asked :: "kcpapi \<Rightarrow> cacheReader \<Rightarrow> string \<Rightarrow> string \<Rightarrow> kobject set" where
  "asked K c ns name = {ob \<in> stored c. lc_from K ob = cr_clusterName c \<and> ob_name ob = name \<and>
     ob_namespace ob = (if cr_scopeName c = RESTScopeNameRoot then [] else ns)}"

lemma key_of_stored:
  assumes "scoped_reader K acc c" and "ob \<in> stored c"
    and "CHR ''/'' \<notin> set ns" and "CHR ''/'' \<notin> set name"
  shows "KeyOf (cr_indexer c) (Obj ob) =
      lc_string K (cr_clusterName c) @ ''|'' @
        objectKeyToStoreKey (if cr_scopeName c = RESTScopeNameRoot then [] else ns) name \<longleftrightarrow>
    ob \<in> asked K c ns name"
proof -
  have n: "names_ok K ob" and k: "KeyOf (cr_indexer c) (Obj ob) = kcp_key (lc_from K ob) ob"
    and s: "lc_string K (cr_clusterName c) = cr_clusterName c" "CHR ''|'' \<notin> set (cr_clusterName c)"
    using assms(1,2) by (auto simp: scoped_reader_def cluster_indexed_def stored_def kcp_okD)
  have no: "CHR ''/'' \<notin> set (if cr_scopeName c = RESTScopeNameRoot then [] else ns)"
    using assms(3) by simp
  from n have "CHR ''|'' \<notin> set (lc_from K ob)" "CHR ''/'' \<notin> set (ob_namespace ob)"
      "CHR ''/'' \<notin> set (ob_name ob)"
    by (simp_all add: names_ok_def)
  then show ?thesis
    unfolding k s(1) kcp_key_eq [OF \<open>CHR ''|'' \<notin> set (lc_from K ob)\<close> s(2)]
    using objectKeyToStoreKey_inj [OF _ _ _ no assms(4)] assms(2)
    by (auto simp: asked_def)
qed

text \<open>
  Property C34. \<open>Get\<close> through a reader scoped to one logical cluster: a returned object is a
  copy of a stored one of that cluster with the asked name, namespace (none for a
  cluster-scoped kind) and Go type; the error is \<open>NotFound\<close> only when no such object is
  stored, and otherwise says that the stored one has another type.
\<close>

theorem scoped_get:
  assumes "scoped_reader K acc c" and "CHR ''/'' \<notin> set ns" and "CHR ''/'' \<notin> set name"
  shows "case cacheReader_Get K c ns name outType unsafe of
      Inr ob' \<Rightarrow> \<exists>ob \<in> asked K c ns name. ob_type ob = outType \<and> ob' = out_copy c unsafe ob
    | Inl e \<Rightarrow> (asked K c ns name = {} \<and>
           e = NotFound (gvk_group (cr_groupVersionKind c)) (gvk_kind (cr_groupVersionKind c)) name) \<or>
         (\<exists>ob \<in> asked K c ns name. ob_type ob \<noteq> outType \<and>
           e = Errorf ''cache had type %s, but %s was asked for'' [ob_type ob, outType] [])"
proof -
  let ?key = "lc_string K (cr_clusterName c) @ ''|'' @
    objectKeyToStoreKey (if cr_scopeName c = RESTScopeNameRoot then [] else ns) name"
  have ix: "indexer_ok (cr_indexer c)" and aware: "cr_isClusterAware c"
    and ne: "\<not> lc_empty K (cr_clusterName c)"
    using assms(1) by (auto simp: scoped_reader_def cluster_indexed_def kcp_okD)
  note law = indexer_ok_GetByKey [OF ix, of ?key]
  note key = key_of_stored [OF assms(1) _ assms(2,3)]
  show ?thesis
  proof (cases "GetByKey (cr_indexer c) ?key")
    case (Inl e)
    with law(3) show ?thesis by blast
  next
    case (Inr v)
    show ?thesis
    proof (cases v)
      case None
      have "asked K c ns name = {}"
      proof (rule equals0I)
        fix ob assume a: "ob \<in> asked K c ns name"
        then have st: "ob \<in> stored c" by (simp add: asked_def)
        then have "Obj ob \<in> set (ListAll (cr_indexer c))" by (simp add: stored_def)
        moreover have "KeyOf (cr_indexer c) (Obj ob) = ?key" using key [OF st] a by blast
        ultimately show False using law(2) Inr None by (metis imageI)
      qed
      with Inr None aware ne show ?thesis by (simp add: cacheReader_Get_def Let_def)
    next
      case (Some x)
      then have x: "x \<in> set (ListAll (cr_indexer c))" "KeyOf (cr_indexer c) x = ?key"
        using law(1) Inr by auto
      then obtain ob where ob: "x = Obj ob" "ob \<in> stored c"
        using stored_objects [OF assms(1)] by auto
      then have "ob \<in> asked K c ns name" using key x(2) by simp
      with Inr Some ob aware ne show ?thesis by (auto simp: cacheReader_Get_def Let_def)
    qed
  qed
qed

subsection \<open>An example\<close>

definition demo_reader :: "string \<Rightarrow> kobject list \<Rightarrow> cacheReader" where
  "demo_reader cl obs = \<lparr> cr_indexer = demo_indexer obs, cr_isClusterAware = True,
     cr_groupVersionKind = demo_gvk, cr_scopeName = RESTScopeNameNamespace,
     cr_disableDeepCopy = False, cr_clusterName = cl \<rparr>"

definition demo_objs :: "kobject list" where
  "demo_objs = [demo_obj ''c1'' ''ns'' ''b'' ''root:a'', demo_obj ''c2'' ''ns'' ''b'' ''root:b'',
                demo_obj ''c1'' ''other'' ''d'' ''root:a'']"

definition demo_opts :: "string \<Rightarrow> int \<Rightarrow> list_options" where
  "demo_opts ns lim = \<lparr> lo_LabelSelector = None, lo_FieldSelector = None, lo_Namespace = ns,
     lo_Limit = lim, lo_Continue = [], lo_UnsafeDisableDeepCopy = None \<rparr>"

lemma demo_reader_scoped: "scoped_reader demo_kcp demo_accessor (demo_reader ''c1'' demo_objs)"
  by (auto simp: scoped_reader_def demo_kcp_ok demo_accessor_ok demo_indexer_ok demo_reader_def
      demo_objs_def names_ok_def)

theorem scoped_list_exact_witness:
  "\<exists>objs. cacheReader_objects demo_kcp demo_accessor (demo_reader ''c1'' demo_objs) (demo_opts ''ns'' 0) = Inr objs \<and>
    set objs = out_copy (demo_reader ''c1'' demo_objs) (lo_UnsafeDisableDeepCopy (demo_opts ''ns'' 0)) `
      {ob \<in> stored (demo_reader ''c1'' demo_objs).
         lc_from demo_kcp ob = cr_clusterName (demo_reader ''c1'' demo_objs) \<and>
         (lo_Namespace (demo_opts ''ns'' 0) = [] \<or> ob_namespace ob = lo_Namespace (demo_opts ''ns'' 0)) \<and>
         label_ok (demo_opts ''ns'' 0) ob}"
  by (rule scoped_list_exact [OF demo_reader_scoped]) (simp_all add: demo_opts_def)

theorem list_limit_prefix_witness:
  "cacheReader_objects demo_kcp demo_accessor (demo_reader ''*'' demo_objs) (demo_opts [] 2) =
     Inr (take (nat (lo_Limit (demo_opts [] 2))) demo_objs)"
  by (rule list_limit_prefix)
     (simp_all add: cacheReader_objects_def list_candidates_def demo_opts_def demo_reader_def
        demo_objs_def out_copy_def skip_copy_def demo_obj_def)

theorem unscoped_reader_errs_witness:
  "is_err (cacheReader_Get demo_kcp (demo_reader [] demo_objs) ''ns'' ''b'' ''*APIBinding'' None) \<and>
   is_err (cacheReader_List demo_kcp demo_accessor (\<lambda>l obs. Inr (l @ obs)) (demo_reader [] demo_objs) [] (demo_opts [] 0))"
  by (rule unscoped_reader_errs) (simp_all add: demo_reader_def)

theorem scoped_get_witness:
  "case cacheReader_Get demo_kcp (demo_reader ''c1'' demo_objs) ''ns'' ''b'' ''*APIBinding'' None of
      Inr ob' \<Rightarrow> \<exists>ob \<in> asked demo_kcp (demo_reader ''c1'' demo_objs) ''ns'' ''b''.
         ob_type ob = ''*APIBinding'' \<and> ob' = out_copy (demo_reader ''c1'' demo_objs) None ob
    | Inl e \<Rightarrow> (asked demo_kcp (demo_reader ''c1'' demo_objs) ''ns'' ''b'' = {} \<and>
           e = NotFound (gvk_group (cr_groupVersionKind (demo_reader ''c1'' demo_objs)))
                 (gvk_kind (cr_groupVersionKind (demo_reader ''c1'' demo_objs))) ''b'') \<or>
         (\<exists>ob \<in> asked demo_kcp (demo_reader ''c1'' demo_objs) ''ns'' ''b''. ob_type ob \<noteq> ''*APIBinding'' \<and>
           e = Errorf ''cache had type %s, but %s was asked for'' [ob_type ob, ''*APIBinding''] [])"
  by (rule scoped_get [OF demo_reader_scoped]) simp_all

end
