(* ===== verification/Wildcard.thy ===== *)
theory Wildcard
  imports CacheReader
begin

text \<open>
  \<^verbatim>\<open>pkg/cache/wildcard.go\<close>: the cache over a \<open>/clusters/*\<close> endpoint. It prepares
  every informer with the two cluster indexes, keeps track of the field indexes, starts at
  most once, and hands out the shared informer of an object type. The embedded
  controller-runtime cache, the REST mapper and the scheme are a record of functions over
  the state \<open>'s\<close> they keep; \<open>'i\<close> are informers.
\<close>

record ('i, 's) crt =
  GVKForObject :: "kobject \<Rightarrow> gvk result"
  RESTMapping :: "string \<Rightarrow> string \<Rightarrow> string \<Rightarrow> restscope result"
  SchemeNew :: "gvk \<Rightarrow> any_value result"
  gvk_String :: "gvk \<Rightarrow> string"
  Cache_GetInformer :: "kobject \<Rightarrow> 's \<Rightarrow> 'i result \<times> 's"
  is_SharedIndexInformer :: "'i \<Rightarrow> bool"
  GetIndexer :: "'i \<Rightarrow> 's \<Rightarrow> indexer"
  Cache_IndexField :: "kobject \<Rightarrow> string \<Rightarrow> (kobject \<Rightarrow> string list) \<Rightarrow> 's \<Rightarrow> error option \<times> 's"
  Cache_Start :: "nat \<Rightarrow> 's \<Rightarrow> error option \<times> 's"

subsection \<open>Construction\<close>

text \<open>
  Schemes, HTTP clients, mappers and caches are opaque handles; the options fields that may
  be nil are options.
\<close>

record cache_options =
  co_Scheme :: "nat option"
  co_HTTPClient :: "nat option"
  co_Mapper :: "nat option"

record wildcard_env =
  default_scheme :: nat
  HTTPClientFor :: "rest_config \<Rightarrow> nat result"
  NewDynamicRESTMapper :: "rest_config \<Rightarrow> nat \<Rightarrow> nat result"
  cache_New :: "rest_config \<Rightarrow> cache_options \<Rightarrow> nat result"

record wildcardCache =
  wc_Cache :: nat
  wc_scheme :: nat
  wc_mapper :: nat
  wc_indexTracker :: "string \<rightharpoonup> unit"
  wc_startOnce :: "error option option"

definition wildcard_config :: "rest_config \<Rightarrow> rest_config" where
  "wildcard_config config = config\<lparr> cfg_host := trim_suffix (cfg_host config) ''/'' @ ''/clusters/*'' \<rparr>"

definition NewWildcardCache :: "wildcard_env \<Rightarrow> rest_config \<Rightarrow> cache_options \<Rightarrow> wildcardCache result" where
  "NewWildcardCache env config0 opts =
     (let config = wildcard_config config0;
          sch = (case co_Scheme opts of None \<Rightarrow> default_scheme env | Some x \<Rightarrow> x)
      in case (case co_HTTPClient opts of None \<Rightarrow> HTTPClientFor env config | Some h \<Rightarrow> Inr h) of
           Inl err \<Rightarrow> Inl (Errorf ''could not create HTTP client from config: %w'' [] [err])
         | Inr http \<Rightarrow>
             (case (case co_Mapper opts of None \<Rightarrow> NewDynamicRESTMapper env config http | Some m \<Rightarrow> Inr m) of
                Inl err \<Rightarrow> Inl (Errorf ''could not create RESTMapper from config: %w'' [] [err])
              | Inr mapper \<Rightarrow>
                  (case cache_New env config
                          \<lparr> co_Scheme = Some sch, co_HTTPClient = Some http, co_Mapper = Some mapper \<rparr> of
                     Inl err \<Rightarrow> Inl err
                   | Inr ca \<Rightarrow> Inr \<lparr> wc_Cache = ca, wc_scheme = sch, wc_mapper = mapper,
                                   wc_indexTracker = Map.empty, wc_startOnce = None \<rparr>)))"

text \<open>
  The \<open>NewInformer\<close> hook: a failure to add the indexers is reported (\<open>HandleError\<close>)
  and the informer is used all the same.
\<close>

definition cluster_indexers :: "kcpapi \<Rightarrow> accessor \<Rightarrow> (string \<rightharpoonup> (any_value \<Rightarrow> string list result))" where
  "cluster_indexers K acc = [kc_cluster_index K \<mapsto> ClusterIndexFunc K acc,
     kc_cluster_ns_index K \<mapsto> ClusterAndNamespaceIndexFunc K acc]"

definition NewInformer ::
  "((string \<rightharpoonup> (any_value \<Rightarrow> string list result)) \<Rightarrow> 'i \<Rightarrow> error option \<times> 'i)
     \<Rightarrow> kcpapi \<Rightarrow> accessor \<Rightarrow> 'i \<Rightarrow> 'i \<times> error list" where
  "NewInformer AddIndexers K acc informer =
     (case AddIndexers (cluster_indexers K acc) informer of
        (Some err, informer') \<Rightarrow> (informer', [Errorf ''unable to add cluster name indexers: %w'' [] [err]])
      | (None, informer') \<Rightarrow> (informer', []))"

subsection \<open>Start\<close>

text \<open>
  \<open>startOnce\<close> is a \<open>sync.OnceValue\<close>: the first caller runs the cache with its context,
  every caller gets that run's result.
\<close>

definition wildcard_Start ::
  "('i, 's) crt \<Rightarrow> nat \<Rightarrow> wildcardCache \<times> 's \<Rightarrow> error option \<times> wildcardCache \<times> 's" where
  "wildcard_Start R ctx = (\<lambda>(c, s).
     case wc_startOnce c of
       Some r \<Rightarrow> (r, c, s)
     | None \<Rightarrow> (case Cache_Start R ctx s of (r, s') \<Rightarrow> (r, c\<lparr> wc_startOnce := Some r \<rparr>, s')))"

fun wildcard_Starts ::
  "('i, 's) crt \<Rightarrow> nat list \<Rightarrow> wildcardCache \<times> 's \<Rightarrow> error option list \<times> wildcardCache \<times> 's" where
  "wildcard_Starts R [] cs = ([], cs)"
| "wildcard_Starts R (ctx # ctxs) cs =
     (case wildcard_Start R ctx cs of (r, cs') \<Rightarrow>
        (case wildcard_Starts R ctxs cs' of (rs, cs'') \<Rightarrow> (r # rs, cs'')))"

subsection \<open>Shared informers\<close>

definition nonlist_gvk :: "gvk \<Rightarrow> gvk" where
  "nonlist_gvk g = g\<lparr> gvk_kind := trim_suffix (gvk_kind g) ''List'' \<rparr>"

definition empty_object :: "objclass \<Rightarrow> gvk \<Rightarrow> kobject" where
  "empty_object cls g = \<lparr> ob_name = [], ob_namespace = [], ob_annotations = Map.empty,
     ob_labels = Map.empty,
     ob_type = (if cls = Unstructured then ''*unstructured.Unstructured'' else ''*metav1.PartialObjectMetadata''),
     ob_class = cls, ob_gvk = g, ob_data = 0 \<rparr>"

definition GetSharedInformer ::
  "('i, 's) crt \<Rightarrow> kobject \<Rightarrow> 's \<Rightarrow> ('i \<times> gvk \<times> restscope) result \<times> 's" where
  "GetSharedInformer R ob s =
     (case GVKForObject R ob of
        Inl err \<Rightarrow> (Inl (Errorf ''failed to get GVK for object: %w'' [] [err]), s)
      | Inr g0 \<Rightarrow>
          let g = nonlist_gvk g0 in
          case RESTMapping R (gvk_group g) (gvk_kind g) (gvk_version g) of
            Inl err \<Rightarrow> (Inl (Errorf ''failed to get REST mapping: %w'' [] [err]), s)
          | Inr scope \<Rightarrow>
              (case (case ob_class ob of
                       Unstructured \<Rightarrow> Inr (empty_object Unstructured g)
                     | PartialObjectMetadata \<Rightarrow> Inr (empty_object PartialObjectMetadata g)
                     | TypedObject \<Rightarrow>
                         (case SchemeNew R g of
                            Inl err \<Rightarrow> Inl (Errorf ''failed to create new object for GVK: %w'' [] [err])
                          | Inr (Obj e) \<Rightarrow> Inr e
                          | Inr _ \<Rightarrow> Inl (Errorf ''runtime.Object returned from scheme is not a client.Object'' [] []))) of
                 Inl err \<Rightarrow> (Inl err, s)
               | Inr emptyObject \<Rightarrow>
                   (case Cache_GetInformer R emptyObject s of
                      (Inl err, s') \<Rightarrow> (Inl (Errorf ''failed to get informer: %w'' [] [err]), s')
                    | (Inr informer, s') \<Rightarrow>
                        if \<not> is_SharedIndexInformer R informer
                        then (Inl (Errorf ''informer returned by cache is not a SharedIndexInformer'' [] []), s')
                        else (Inr (informer, g, scope), s'))))"

subsection \<open>List\<close>

definition indexer_aware :: "kcpapi \<Rightarrow> indexer \<Rightarrow> bool" where
  "indexer_aware K ix \<longleftrightarrow> GetIndexers ix (kc_cluster_ns_index K) \<noteq> None"

definition wildcard_List ::
  "kcpapi \<Rightarrow> accessor \<Rightarrow> ('i, 's) crt \<Rightarrow> (kobject \<Rightarrow> kobject list \<Rightarrow> kobject result)
     \<Rightarrow> kobject \<Rightarrow> list_options \<Rightarrow> 's \<Rightarrow> kobject result \<times> 's" where
  "wildcard_List K acc R SetList out lo s =
     (case GetSharedInformer R out s of
        (Inl err, s') \<Rightarrow> (Inl err, s')
      | (Inr (informer, g, scope), s') \<Rightarrow>
          let ix = GetIndexer R informer s';
              cr = \<lparr> cr_indexer = ix, cr_isClusterAware = indexer_aware K ix,
                     cr_groupVersionKind = g, cr_scopeName = scope, cr_disableDeepCopy = False,
                     cr_clusterName = ''*'' \<rparr>
          in (cacheReader_List K acc SetList cr out lo, s'))"

subsection \<open>Field indexes\<close>

text \<open>
  The extractor registered with the cache: each key twice, under the object's cluster and
  under the wildcard. The loop writes both halves of the slice it allocated.
\<close>

fun withCluster_loop :: "string \<Rightarrow> nat \<Rightarrow> string list \<Rightarrow> nat \<Rightarrow> string list \<Rightarrow> string list" where
  "withCluster_loop cl n [] i acc = acc"
| "withCluster_loop cl n (key # keys) i acc =
     withCluster_loop cl n keys (Suc i) ((acc[i := cl @ ''/'' @ key])[i + n := ''*/'' @ key])"

definition withCluster :: "kcpapi \<Rightarrow> (kobject \<Rightarrow> string list) \<Rightarrow> kobject \<Rightarrow> string list" where
  "withCluster K extractValue ob =
     (let keys = extractValue ob
      in withCluster_loop (lc_string K (lc_from K ob)) (length keys) keys 0 (replicate (length keys * 2) []))"

definition wildcard_IndexField ::
  "kcpapi \<Rightarrow> ('i, 's) crt \<Rightarrow> kobject \<Rightarrow> string \<Rightarrow> (kobject \<Rightarrow> string list)
     \<Rightarrow> wildcardCache \<times> 's \<Rightarrow> error option \<times> wildcardCache \<times> 's" where
  "wildcard_IndexField K R ob field extractValue = (\<lambda>(c, s).
     case GVKForObject R ob of
       Inl err \<Rightarrow> (Some (Errorf ''failed to get GVK for object: %w'' [] [err]), c, s)
     | Inr g \<Rightarrow>
         let key = gvk_String R g @ ''|'' @ field in
         if wc_indexTracker c key \<noteq> None then (None, c, s)
         else let c' = c\<lparr> wc_indexTracker := (wc_indexTracker c)(key \<mapsto> ()) \<rparr>
              in case Cache_IndexField R ob field (withCluster K extractValue) s of
                   (r, s') \<Rightarrow> (r, c', s'))"

subsection \<open>The registered extractor\<close>

lemma withCluster_loop_eq:
  assumes "length done1 = i" and "length done2 = i" and "length pad1 = length keys"
    and "length pad2 = length keys" and "n = i + length keys"
  shows "withCluster_loop cl n keys i (done1 @ pad1 @ done2 @ pad2) =
    (done1 @ map (\<lambda>k. cl @ ''/'' @ k) keys) @ (done2 @ map (\<lambda>k. ''*/'' @ k) keys)"
  using assms
proof (induction keys arbitrary: i done1 done2 pad1 pad2)
  case Nil
  then show ?case by simp
next
  case (Cons key keys)
  obtain x p1 where p1: "pad1 = x # p1" using Cons.prems(3) by (cases pad1) auto
  obtain y p2 where p2: "pad2 = y # p2" using Cons.prems(4) by (cases pad2) auto
  have upd: "((done1 @ pad1 @ done2 @ pad2)[i := cl @ ''/'' @ key])[i + n := ''*/'' @ key] =
      (done1 @ [cl @ ''/'' @ key]) @ p1 @ (done2 @ [''*/'' @ key]) @ p2"
    using Cons.prems p1 p2 by (simp add: list_update_append)
  show ?case
    unfolding withCluster_loop.simps upd
    by (subst Cons.IH) (use Cons.prems p1 p2 in simp_all)
qed

lemma withCluster_halves:
  "withCluster K extract ob =
     map (\<lambda>key. lc_string K (lc_from K ob) @ ''/'' @ key) (extract ob) @
     map (\<lambda>key. ''*/'' @ key) (extract ob)"
  using withCluster_loop_eq [of "[]" 0 "[]" "replicate (length (extract ob)) []"
      "extract ob" "replicate (length (extract ob)) []"]
  by (simp add: withCluster_def Let_def mult_2_right replicate_add)

lemma set_withCluster:
  "set (withCluster K extract ob) =
     (\<lambda>key. lc_string K (lc_from K ob) @ ''/'' @ key) ` set (extract ob) \<union>
     (\<lambda>key. ''*/'' @ key) ` set (extract ob)"
  by (simp add: withCluster_halves)

text \<open>
  The extractor a wildcard cache registers for a field gives, for every key
  the caller's extractor gives, that key under the object's cluster and then that key under
  \<open>*\<close>, each list in order: the loop fills every position of the slice exactly once.
\<close>

theorem withCluster_eq:
  "withCluster K extractValue ob =
     map (\<lambda>key. lc_string K (lc_from K ob) @ ''/'' @ key) (extractValue ob) @
     map (\<lambda>key. ''*/'' @ key) (extractValue ob)"
  by (rule withCluster_halves)

subsection \<open>Listing by field selector\<close>

text \<open>
  What controller-runtime documents of a field index: each value the registered extractor
  gives is stored under the object's namespace and under the fake namespace for all of
  them. \<open>extract field\<close> is the extractor the client of the wildcard cache passed for
  \<open>field\<close>.
\<close>

definition field_indexed ::
  "kcpapi \<Rightarrow> indexer \<Rightarrow> (string \<Rightarrow> kobject \<Rightarrow> string list) \<Rightarrow> string set \<Rightarrow> bool" where
  "field_indexed K ix extract F \<longleftrightarrow>
     (\<forall>field \<in> F. \<exists>fn. GetIndexers ix (fieldIndexName field) = Some fn \<and>
        (\<forall>ob. \<exists>vals. fn (Obj ob) = Inr vals \<and>
           set vals = {keyToNamespacedKey ns w |ns w.
             ns \<in> {ob_namespace ob, []} \<and> w \<in> set (withCluster K (extract field) ob)}))"

definition field_matches ::
  "(string \<Rightarrow> kobject \<Rightarrow> string list) \<Rightarrow> requirement \<Rightarrow> kobject \<Rightarrow> bool" where
  "field_matches extract req ob \<longleftrightarrow> rq_value req \<in> set (extract (rq_field req) ob)"

definition ns_ok :: "string \<Rightarrow> bool" where
  "ns_ok ns \<longleftrightarrow> CHR ''/'' \<notin> set ns \<and> ns \<noteq> allNamespacesNamespace"

lemma keyToNamespacedKey_inj:
  assumes "keyToNamespacedKey ns v = keyToNamespacedKey ns' v'" and "ns_ok ns" and "ns_ok ns'"
  shows "ns = ns' \<and> v = v'"
proof -
  define p where "p n = (if n \<noteq> [] then n else allNamespacesNamespace)" for n
  have key: "keyToNamespacedKey n w = p n @ CHR ''/'' # w" for n w
    by (simp add: keyToNamespacedKey_def p_def)
  have "CHR ''/'' \<notin> set (p ns)" and "CHR ''/'' \<notin> set (p ns')"
    using assms(2,3) by (simp_all add: p_def ns_ok_def allNamespacesNamespace_def)
  from split_at_sep [OF assms(1) [unfolded key] this] have "p ns = p ns'" and "v = v'"
    by simp_all
  then show ?thesis using assms(2,3) by (auto simp: p_def ns_ok_def split: if_splits)
qed

lemma clustered_key_in:
  assumes "ns_ok ns" and "ns_ok (ob_namespace ob)" and "kcp_ok K"
    and "CHR ''/'' \<notin> set cl" and "CHR ''/'' \<notin> set (lc_from K ob)" and "cl \<noteq> ''*''"
  shows "keyToClusteredKey cl ns v \<in> {keyToNamespacedKey n w |n w.
       n \<in> {ob_namespace ob, []} \<and> w \<in> set (withCluster K ex ob)} \<longleftrightarrow>
     lc_from K ob = cl \<and> (ns = [] \<or> ob_namespace ob = ns) \<and> v \<in> set (ex ob)"
proof -
  have nil: "ns_ok []" by (simp add: ns_ok_def allNamespacesNamespace_def)
  have inj: "keyToNamespacedKey ns w = keyToNamespacedKey n w' \<longleftrightarrow> ns = n \<and> w = w'"
    if "n \<in> {ob_namespace ob, []}" for n w w'
    using keyToNamespacedKey_inj [OF _ assms(1)] that assms(2) nil by blast
  have star: "CHR ''/'' \<notin> set ''*''" by simp
  have w: "cl @ ''/'' @ v \<in> set (withCluster K ex ob) \<longleftrightarrow> lc_from K ob = cl \<and> v \<in> set (ex ob)"
    using split_at_sep_iff [OF assms(4) star, of v] split_at_sep_iff [OF assms(4,5), of v] assms(3,6)
    by (auto simp: set_withCluster kcp_okD image_iff)
  have "keyToClusteredKey cl ns v \<in> {keyToNamespacedKey n w |n w.
       n \<in> {ob_namespace ob, []} \<and> w \<in> set (withCluster K ex ob)} \<longleftrightarrow>
    ns \<in> {ob_namespace ob, []} \<and> cl @ ''/'' @ v \<in> set (withCluster K ex ob)"
    (is "?L \<longleftrightarrow> ?R")
  proof
    assume ?L
    then obtain n u where n: "n \<in> {ob_namespace ob, []}" and u: "u \<in> set (withCluster K ex ob)"
      and eq: "keyToNamespacedKey ns (cl @ ''/'' @ v) = keyToNamespacedKey n u"
      unfolding keyToClusteredKey_eq by blast
    from inj [OF n] eq have "ns = n" and "cl @ ''/'' @ v = u" by simp_all
    with n u show ?R by simp
  next
    assume ?R
    then show ?L unfolding keyToClusteredKey_eq by blast
  qed
  then show ?thesis unfolding w by auto
qed

lemma filter_indexed_eq:
  assumes "\<And>ob. ob \<in> set obs \<Longrightarrow> \<exists>vals. fn (Obj ob) = Inr vals"
  shows "filter_indexed fn v (map Obj obs) = Inr (map Obj (filter (\<lambda>ob. yields fn v (Obj ob)) obs))"
  using assms
proof (induction obs)
  case (Cons ob obs)
  then obtain vals where "fn (Obj ob) = Inr vals" by force
  with Cons show ?case by (simp add: yields_def)
qed simp

lemma byIndexes_rest_eq:
  assumes "\<And>req. req \<in> set reqs \<Longrightarrow> \<exists>fn. GetIndexers ix (fieldIndexName (rq_field req)) = Some fn \<and>
      (\<forall>ob \<in> A. (\<exists>vals. fn (Obj ob) = Inr vals) \<and>
         (yields fn (indexedValue K cl ns aware req) (Obj ob) \<longleftrightarrow> P req ob))"
    and "set obs \<subseteq> A"
  shows "byIndexes_rest K ix reqs cl ns aware (map Obj obs) =
     Inr (map Obj (filter (\<lambda>ob. \<forall>req \<in> set reqs. P req ob) obs))"
  using assms
proof (induction reqs arbitrary: obs)
  case Nil
  then show ?case by simp
next
  case (Cons req reqs)
  obtain fn where fn: "GetIndexers ix (fieldIndexName (rq_field req)) = Some fn"
    and ok: "\<And>ob. ob \<in> A \<Longrightarrow> (\<exists>vals. fn (Obj ob) = Inr vals) \<and>
         (yields fn (indexedValue K cl ns aware req) (Obj ob) \<longleftrightarrow> P req ob)"
    using Cons.prems(1) by (metis list.set_intros(1))
  let ?obs = "filter (P req) obs"
  have "filter_indexed fn (indexedValue K cl ns aware req) (map Obj obs) =
      Inr (map Obj (filter (\<lambda>ob. yields fn (indexedValue K cl ns aware req) (Obj ob)) obs))"
    using ok Cons.prems(2) by (intro filter_indexed_eq) blast
  moreover have "filter (\<lambda>ob. yields fn (indexedValue K cl ns aware req) (Obj ob)) obs = ?obs"
    using ok Cons.prems(2) by (intro filter_cong) auto
  ultimately have f: "filter_indexed fn (indexedValue K cl ns aware req) (map Obj obs) = Inr (map Obj ?obs)"
    by simp
  have rest: "byIndexes_rest K ix reqs cl ns aware (map Obj ?obs) =
      Inr (map Obj (filter (\<lambda>ob. \<forall>req \<in> set reqs. P req ob) ?obs))"
    using Cons.prems by (intro Cons.IH) auto
  have ff: "filter (\<lambda>ob. \<forall>r \<in> set reqs. P r ob) ?obs = filter (\<lambda>ob. \<forall>r \<in> set (req # reqs). P r ob) obs"
    by (simp add: conj_commute)
  show ?case
  proof (cases ?obs)
    case Nil
    then show ?thesis using fn f ff by simp
  next
    case (Cons z zs)
    then have "byIndexes_rest K ix (req # reqs) cl ns aware (map Obj obs) =
        byIndexes_rest K ix reqs cl ns aware (map Obj ?obs)"
      using fn f by simp
    then show ?thesis unfolding rest ff .
  qed
qed

lemma scoped_select_candidates:
  assumes R: "scoped_reader K acc c" and sel: "lo_FieldSelector lo = Some reqs"
    and ex: "requiresExactMatch reqs"
    and F: "field_indexed K (cr_indexer c) extract (rq_field ` set reqs)"
    and ns: "ns_ok (lo_Namespace lo)" and nss: "\<forall>ob \<in> stored c. ns_ok (ob_namespace ob)"
  shows "\<exists>obs. list_candidates K c lo = Inr (map Obj obs) \<and>
     set obs = {ob \<in> stored c. in_scope K c (lo_Namespace lo) ob \<and>
                  (\<forall>req \<in> set reqs. field_matches extract req ob)}"
proof -
  let ?cl = "cr_clusterName c" and ?ns = "lo_Namespace lo" and ?ix = "cr_indexer c"
  let ?P = "\<lambda>req ob. in_scope K c ?ns ob \<and> field_matches extract req ob"
  obtain req reqs' where reqs: "reqs = req # reqs'"
    using ex by (cases reqs) (auto simp: requiresExactMatch_def)
  have kok: "kcp_ok K" and aware: "cr_isClusterAware c"
    and cl: "CHR ''/'' \<notin> set ?cl" "?cl \<noteq> ''*''" "lc_string K ?cl = ?cl"
    using R by (simp_all add: scoped_reader_def kcp_okD)
  have idx: "\<exists>fn. GetIndexers ?ix (fieldIndexName (rq_field r)) = Some fn \<and>
      (\<forall>ob \<in> stored c. (\<exists>vals. fn (Obj ob) = Inr vals) \<and>
         (yields fn (indexedValue K ?cl ?ns True r) (Obj ob) \<longleftrightarrow> ?P r ob))"
    if r: "r \<in> set reqs" for r
  proof -
    obtain fn where fn: "GetIndexers ?ix (fieldIndexName (rq_field r)) = Some fn"
      and vals: "\<And>ob. \<exists>vals. fn (Obj ob) = Inr vals \<and> set vals = {keyToNamespacedKey n w |n w.
             n \<in> {ob_namespace ob, []} \<and> w \<in> set (withCluster K (extract (rq_field r)) ob)}"
      using F r unfolding field_indexed_def by blast
    have "yields fn (indexedValue K ?cl ?ns True r) (Obj ob) \<longleftrightarrow> ?P r ob" if ob: "ob \<in> stored c" for ob
    proof -
      obtain vs where vs: "fn (Obj ob) = Inr vs" "set vs = {keyToNamespacedKey n w |n w.
             n \<in> {ob_namespace ob, []} \<and> w \<in> set (withCluster K (extract (rq_field r)) ob)}"
        using vals by blast
      have slash: "CHR ''/'' \<notin> set (lc_from K ob)"
        using R ob by (simp add: scoped_reader_def stored_def names_ok_def)
      have "yields fn (indexedValue K ?cl ?ns True r) (Obj ob) \<longleftrightarrow>
          keyToClusteredKey ?cl ?ns (rq_value r) \<in> set vs"
        using vs(1) cl(3) by (simp add: yields_def indexedValue_def)
      also have "\<dots> \<longleftrightarrow> ?P r ob"
        unfolding vs(2) clustered_key_in [OF ns nss [rule_format, OF ob] kok cl(1) slash cl(2)]
        by (auto simp: in_scope_def field_matches_def)
      finally show ?thesis .
    qed
    with fn vals show ?thesis by blast
  qed
  obtain f where f: "GetIndexers ?ix (fieldIndexName (rq_field req)) = Some f"
    and yf: "\<And>ob. ob \<in> stored c \<Longrightarrow> yields f (indexedValue K ?cl ?ns True req) (Obj ob) \<longleftrightarrow> ?P req ob"
    using idx [of req] reqs by auto
  obtain obs where obs: "ByIndex ?ix (fieldIndexName (rq_field req)) (indexedValue K ?cl ?ns True req) = Inr (map Obj obs)"
      "set obs = {ob \<in> stored c. ?P req ob}"
    using scoped_by_index [OF R f yf] by blast
  have rest: "byIndexes_rest K ?ix reqs' ?cl ?ns True (map Obj obs) =
      Inr (map Obj (filter (\<lambda>ob. \<forall>r \<in> set reqs'. ?P r ob) obs))"
    using idx reqs obs(2) by (intro byIndexes_rest_eq [where A = "stored c"]) auto
  have "byIndexes K ?ix reqs ?cl ?ns True =
      Inr (map Obj (filter (\<lambda>ob. \<forall>r \<in> set reqs'. ?P r ob) obs))"
  proof (cases obs)
    case Nil
    then show ?thesis using reqs obs(1) by simp
  next
    case (Cons x xs)
    then have "byIndexes K ?ix reqs ?cl ?ns True = byIndexes_rest K ?ix reqs' ?cl ?ns True (map Obj obs)"
      using reqs obs(1) by simp
    then show ?thesis using rest by simp
  qed
  moreover have "set (filter (\<lambda>ob. \<forall>r \<in> set reqs'. ?P r ob) obs) =
      {ob \<in> stored c. in_scope K c ?ns ob \<and> (\<forall>r \<in> set reqs. field_matches extract r ob)}"
    using obs(2) reqs by auto
  ultimately show ?thesis using sel ex aware by (auto simp: list_candidates_def)
qed

text \<open>
  Property C12. Listing by field selector through a reader scoped to one logical cluster:
  the clustered index keys select exactly the stored objects of that cluster (and namespace)
  whose extracted field values contain every required value. No value of another cluster,
  namespace or field can produce the same key.
\<close>

theorem scoped_select_exact:
  assumes "scoped_reader K acc c" and "lo_FieldSelector lo = Some reqs" and "requiresExactMatch reqs"
    and "field_indexed K (cr_indexer c) extract (rq_field ` set reqs)"
    and "ns_ok (lo_Namespace lo)" and "\<forall>ob \<in> stored c. ns_ok (ob_namespace ob)"
    and "lo_Continue lo = []" and "lo_Limit lo \<le> 0"
  shows "\<exists>objs. cacheReader_objects K acc c lo = Inr objs \<and>
    set objs = out_copy c (lo_UnsafeDisableDeepCopy lo) `
      {ob \<in> stored c. lc_from K ob = cr_clusterName c \<and>
         (lo_Namespace lo = [] \<or> ob_namespace ob = lo_Namespace lo) \<and> label_ok lo ob \<and>
         (\<forall>req \<in> set reqs. rq_value req \<in> set (extract (rq_field req) ob))}"
proof -
  obtain obs where obs: "list_candidates K c lo = Inr (map Obj obs)"
      "set obs = {ob \<in> stored c. in_scope K c (lo_Namespace lo) ob \<and>
                  (\<forall>req \<in> set reqs. field_matches extract req ob)}"
    using scoped_select_candidates [OF assms(1-6)] by blast
  have "\<not> lc_empty K (cr_clusterName c)" and "accessor_ok acc"
    using assms(1) by (auto simp: scoped_reader_def kcp_okD)
  then have "cacheReader_objects K acc c lo =
      Inr (map (out_copy c (lo_UnsafeDisableDeepCopy lo)) (filter (label_ok lo) obs))"
    using obs(1) assms(7,8) by (simp add: cacheReader_objects_def list_loop_empty take_limit_def)
  then show ?thesis using obs(2) by (auto simp: in_scope_def field_matches_def)
qed

definition demo_extract :: "string \<Rightarrow> kobject \<Rightarrow> string list" where
  "demo_extract field ob = (if field = ''metadata.name'' then [ob_name ob] else [])"

definition demo_field_fn :: "any_value \<Rightarrow> string list result" where
  "demo_field_fn x = (case x of
      Obj ob \<Rightarrow> Inr (concat (map (\<lambda>w. [keyToNamespacedKey (ob_namespace ob) w, keyToNamespacedKey [] w])
                        (withCluster demo_kcp (demo_extract ''metadata.name'') ob)))
    | _ \<Rightarrow> Inl (Foreign ''no object''))"

definition demo_select_reader :: cacheReader where
  "demo_select_reader = (demo_reader ''c1'' demo_objs)\<lparr> cr_indexer := list_indexer demo_key
     [''cluster'' \<mapsto> ClusterIndexFunc demo_kcp demo_accessor,
      ''cluster-ns'' \<mapsto> ClusterAndNamespaceIndexFunc demo_kcp demo_accessor,
      fieldIndexName ''metadata.name'' \<mapsto> demo_field_fn] (map Obj demo_objs) \<rparr>"

lemma demo_select_indexed:
  "field_indexed demo_kcp (cr_indexer demo_select_reader) demo_extract {''metadata.name''}"
  by (auto simp: field_indexed_def demo_select_reader_def demo_field_fn_def fieldIndexName_def)

lemma demo_select_scoped: "scoped_reader demo_kcp demo_accessor demo_select_reader"
  by (auto simp: scoped_reader_def demo_kcp_ok demo_accessor_ok cluster_indexed_def list_indexer_ok
      demo_select_reader_def demo_reader_def demo_objs_def names_ok_def demo_key_def fieldIndexName_def)

theorem scoped_select_exact_witness:
  "\<exists>objs. cacheReader_objects demo_kcp demo_accessor demo_select_reader
      ((demo_opts ''ns'' 0)\<lparr> lo_FieldSelector := Some [\<lparr> rq_operator = Equals, rq_field = ''metadata.name'', rq_value = ''b'' \<rparr>] \<rparr>)
        = Inr objs \<and>
    set objs = out_copy demo_select_reader None `
      {ob \<in> stored demo_select_reader. lc_from demo_kcp ob = cr_clusterName demo_select_reader \<and>
         ob_namespace ob = ''ns'' \<and> ''b'' \<in> set (demo_extract ''metadata.name'' ob)}"
proof -
  let ?reqs = "[\<lparr> rq_operator = Equals, rq_field = ''metadata.name'', rq_value = ''b'' \<rparr>]"
  let ?lo = "(demo_opts ''ns'' 0)\<lparr> lo_FieldSelector := Some ?reqs \<rparr>"
  have nss: "\<forall>ob \<in> stored demo_select_reader. ns_ok (ob_namespace ob)"
    by (auto simp: stored_def demo_select_reader_def demo_objs_def ns_ok_def allNamespacesNamespace_def)
  have ex: "requiresExactMatch ?reqs" by (simp add: requiresExactMatch_def)
  have ns: "ns_ok (lo_Namespace ?lo)" by (simp add: demo_opts_def ns_ok_def allNamespacesNamespace_def)
  show ?thesis
    using scoped_select_exact [OF demo_select_scoped _ ex _ ns nss, of demo_extract] demo_select_indexed
    by (simp add: demo_opts_def label_ok_def)
qed

subsection \<open>Starting, informers, field index bookkeeping\<close>

lemma wildcard_Starts_started:
  "wc_startOnce c = Some r \<Longrightarrow> wildcard_Starts R ctxs (c, s) = (replicate (length ctxs) r, c, s)"
  by (induction ctxs) (simp_all add: wildcard_Start_def)

text \<open>
  However many providers start the same wildcard cache, the underlying cache
  is started once, with the first caller's context, and every caller gets that start's result.
\<close>

theorem wildcard_started_once:
  assumes "wc_startOnce c = None"
  shows "wildcard_Starts R (ctx # ctxs) (c, s) =
    (replicate (Suc (length ctxs)) (fst (Cache_Start R ctx s)),
     c\<lparr> wc_startOnce := Some (fst (Cache_Start R ctx s)) \<rparr>, snd (Cache_Start R ctx s))"
  using assms by (simp add: wildcard_Start_def wildcard_Starts_started split: prod.split)

text \<open>
  A list object and an object of its element kind get the same informer, kind
  and scope: the wildcard cache drops the \<open>List\<close> suffix before it looks the mapping up, so
  listing reads the informer that single reads and watches use.
\<close>

theorem list_and_item_share_informer:
  assumes "GVKForObject R item = Inr g" and "GVKForObject R lst = Inr (g\<lparr> gvk_kind := gvk_kind g @ ''List'' \<rparr>)"
    and "ob_class lst = ob_class item" and "\<not> has_suffix (gvk_kind g) ''List''"
  shows "GetSharedInformer R lst s = GetSharedInformer R item s"
proof -
  have "nonlist_gvk (g\<lparr> gvk_kind := gvk_kind g @ ''List'' \<rparr>) = g"
    using trim_suffix_append [of "gvk_kind g" "''List''"] by (simp add: nonlist_gvk_def)
  moreover have "nonlist_gvk g = g"
    using assms(4) by (simp add: nonlist_gvk_def trim_suffix_other)
  ultimately show ?thesis
    using assms(1-3)
    by (cases "RESTMapping R (gvk_group g) (gvk_kind g) (gvk_version g)")
       (simp_all add: GetSharedInformer_def cong: sum.case_cong objclass.case_cong)
qed

lemma index_tracked:
  assumes "GVKForObject R ob = Inr g" and "wildcard_IndexField K R ob field ex (c, s) = (r, c', s')"
  shows "wc_indexTracker c' (gvk_String R g @ ''|'' @ field) = Some ()"
  using assms by (auto simp: wildcard_IndexField_def Let_def split: if_splits prod.splits)

text \<open>
  A field of a kind is handed to the underlying cache at most once: after one
  \<open>IndexField\<close> call, whatever it returned, another call for the same kind and field returns
  nil and changes neither the wildcard cache nor the underlying one.
\<close>

theorem index_field_once:
  assumes "GVKForObject R ob = Inr g" and "GVKForObject R ob2 = Inr g"
    and "wildcard_IndexField K R ob field ex (c, s) = (r, c', s')"
  shows "wildcard_IndexField K R ob2 field ex2 (c', s2) = (None, c', s2)"
  using index_tracked [OF assms(1,3)] assms(2) by (simp add: wildcard_IndexField_def)

text \<open>
  This includes a call that failed: when the underlying cache refuses the
  index, the first call returns its error, but the field stays marked as indexed, so the
  caller's retry returns nil although no index exists.
\<close>

theorem index_field_failure_sticks:
  assumes "GVKForObject R ob = Inr g" and "wc_indexTracker c (gvk_String R g @ ''|'' @ field) = None"
    and "Cache_IndexField R ob field (withCluster K ex) s = (Some e, s')"
  shows "\<exists>c'. wildcard_IndexField K R ob field ex (c, s) = (Some e, c', s') \<and>
    wildcard_IndexField K R ob field ex (c', s') = (None, c', s')"
  using assms by (simp add: wildcard_IndexField_def Let_def)

text \<open>An instance of the underlying cache, whose state counts what it was asked to do.\<close>

definition demo_crt :: "(nat, nat) crt" where
  "demo_crt = \<lparr> GVKForObject = (\<lambda>ob. Inr (ob_gvk ob)), RESTMapping = (\<lambda>_ _ _. Inr RESTScopeNameNamespace),
     SchemeNew = (\<lambda>g. Inr (Obj (empty_object TypedObject g))), gvk_String = (\<lambda>g. gvk_kind g),
     Cache_GetInformer = (\<lambda>_ n. (Inr 7, Suc n)), is_SharedIndexInformer = (\<lambda>_. True),
     GetIndexer = (\<lambda>_ _. demo_indexer demo_objs),
     Cache_IndexField = (\<lambda>_ field _ n. (if field = ''bad'' then Some (Foreign ''informer has already started'') else None, Suc n)),
     Cache_Start = (\<lambda>_ n. (None, Suc n)) \<rparr>"

definition demo_wildcard :: wildcardCache where
  "demo_wildcard = \<lparr> wc_Cache = 0, wc_scheme = 0, wc_mapper = 0,
     wc_indexTracker = Map.empty, wc_startOnce = None \<rparr>"

definition demo_list_obj :: kobject where
  "demo_list_obj = (empty_object TypedObject (demo_gvk\<lparr> gvk_kind := gvk_kind demo_gvk @ ''List'' \<rparr>))"

theorem wildcard_started_once_witness:
  "wildcard_Starts demo_crt [5, 6, 7] (demo_wildcard, 0) =
     ([None, None, None], demo_wildcard\<lparr> wc_startOnce := Some None \<rparr>, 1)"
  using wildcard_started_once [of demo_wildcard demo_crt 5 "[6, 7]" 0]
  by (simp add: demo_wildcard_def demo_crt_def)

theorem list_and_item_share_informer_witness:
  "GetSharedInformer demo_crt demo_list_obj 3 =
   GetSharedInformer demo_crt (demo_obj ''c1'' ''ns'' ''b'' ''root:a'') 3"
  by (rule list_and_item_share_informer [where g = demo_gvk])
     (simp_all add: demo_crt_def demo_list_obj_def empty_object_def demo_gvk_def has_suffix_def)

theorem index_field_once_witness:
  "wildcard_IndexField demo_kcp demo_crt (demo_obj ''c1'' ''ns'' ''b'' ''p'') ''spec.x'' (\<lambda>_. [])
     (fst (snd (wildcard_IndexField demo_kcp demo_crt (demo_obj ''c2'' ''ns'' ''b'' ''p'') ''spec.x'' (\<lambda>ob. [ob_name ob])
        (demo_wildcard, 0))), 9)
   = (None, fst (snd (wildcard_IndexField demo_kcp demo_crt (demo_obj ''c2'' ''ns'' ''b'' ''p'') ''spec.x'' (\<lambda>ob. [ob_name ob])
        (demo_wildcard, 0))), 9)"
  by (rule index_field_once [where g = demo_gvk and ob = "demo_obj ''c2'' ''ns'' ''b'' ''p''"
        and ex = "\<lambda>ob. [ob_name ob]" and c = demo_wildcard and s = 0 and r = None and s' = 1])
     (simp_all add: demo_crt_def wildcard_IndexField_def demo_wildcard_def)

theorem index_field_failure_sticks_witness:
  "\<exists>c'. wildcard_IndexField demo_kcp demo_crt (demo_obj ''c1'' ''ns'' ''b'' ''p'') ''bad'' (\<lambda>_. []) (demo_wildcard, 0)
      = (Some (Foreign ''informer has already started''), c', 1) \<and>
    wildcard_IndexField demo_kcp demo_crt (demo_obj ''c1'' ''ns'' ''b'' ''p'') ''bad'' (\<lambda>_. []) (c', 1) = (None, c', 1)"
  by (rule index_field_failure_sticks [where g = demo_gvk])
     (simp_all add: demo_crt_def demo_wildcard_def)

end
