(* ===== verification/ScopedCache.thy ===== *)
theory ScopedCache
  imports Wildcard
begin

text \<open>
  \<^verbatim>\<open>pkg/cache/cache.go\<close>: the view of one logical cluster on a wildcard cache. Reads go
  through a \<open>cacheReader\<close> for that cluster; informers are wrapped so that a handler sees
  the events of that cluster only; what would affect other clusters is refused.
\<close>

record scopedCache =
  sc_base :: nat
  sc_clusterName :: lcname

subsection \<open>Reads\<close>

definition scoped_cacheReader ::
  "kcpapi \<Rightarrow> ('i, 's) crt \<Rightarrow> scopedCache \<Rightarrow> kobject \<Rightarrow> 's \<Rightarrow> cacheReader result \<times> 's" where
  "scoped_cacheReader K R c ob s =
     (case GetSharedInformer R ob s of
        (Inl err, s') \<Rightarrow> (Inl (Errorf ''failed to get informer for %T %s: %w''
                            [ob_type ob, gvk_String R (ob_gvk ob)] [err]), s')
      | (Inr (informer, g, scope), s') \<Rightarrow>
          let ix = GetIndexer R informer s'
          in (Inr \<lparr> cr_indexer = ix, cr_isClusterAware = indexer_aware K ix,
                    cr_groupVersionKind = g, cr_scopeName = scope, cr_disableDeepCopy = False,
                    cr_clusterName = sc_clusterName c \<rparr>, s'))"

definition scoped_Get ::
  "kcpapi \<Rightarrow> ('i, 's) crt \<Rightarrow> scopedCache \<Rightarrow> string \<Rightarrow> string \<Rightarrow> kobject \<Rightarrow> bool option \<Rightarrow> 's
     \<Rightarrow> kobject result \<times> 's" where
  "scoped_Get K R c namespace name ob unsafe s =
     (case scoped_cacheReader K R c ob s of
        (Inl err, s') \<Rightarrow> (Inl err, s')
      | (Inr cr, s') \<Rightarrow> (cacheReader_Get K cr namespace name (ob_type ob) unsafe, s'))"

definition scoped_List ::
  "kcpapi \<Rightarrow> accessor \<Rightarrow> ('i, 's) crt \<Rightarrow> (kobject \<Rightarrow> kobject list \<Rightarrow> kobject result)
     \<Rightarrow> scopedCache \<Rightarrow> kobject \<Rightarrow> list_options \<Rightarrow> 's \<Rightarrow> kobject result \<times> 's" where
  "scoped_List K acc R SetList c out lo s =
     (case scoped_cacheReader K R c out s of
        (Inl err, s') \<Rightarrow> (Inl err, s')
      | (Inr cr, s') \<Rightarrow> (cacheReader_List K acc SetList cr out lo, s'))"

subsection \<open>What a scoped cache refuses or forwards\<close>

definition scoped_Start :: "scopedCache \<Rightarrow> nat \<Rightarrow> error option" where
  "scoped_Start c ctx = Some (Errorf ''scoped cache cannot be started'' [] [])"

definition scoped_RemoveInformer :: "scopedCache \<Rightarrow> kobject \<Rightarrow> error option" where
  "scoped_RemoveInformer c ob = Some (Errorf ''informer cannot be removed from scoped cache'' [] [])"

definition scoped_IndexField ::
  "kcpapi \<Rightarrow> ('i, 's) crt \<Rightarrow> scopedCache \<Rightarrow> kobject \<Rightarrow> string \<Rightarrow> (kobject \<Rightarrow> string list)
     \<Rightarrow> wildcardCache \<times> 's \<Rightarrow> error option \<times> wildcardCache \<times> 's" where
  "scoped_IndexField K R c ob field extractValue = wildcard_IndexField K R ob field extractValue"

subsection \<open>Scoped informers\<close>

record 'i scopedInformer =
  si_clusterName :: lcname
  si_informer :: 'i

definition scoped_GetInformer ::
  "('i, 's) crt \<Rightarrow> scopedCache \<Rightarrow> kobject \<Rightarrow> 's \<Rightarrow> 'i scopedInformer result \<times> 's" where
  "scoped_GetInformer R c ob s =
     (case Cache_GetInformer R ob s of
        (Inl err, s') \<Rightarrow> (Inl err, s')
      | (Inr informer, s') \<Rightarrow> (Inr \<lparr> si_clusterName = sc_clusterName c, si_informer = informer \<rparr>, s'))"

definition scoped_GetInformerForKind ::
  "(gvk \<Rightarrow> 's \<Rightarrow> 'i result \<times> 's) \<Rightarrow> scopedCache \<Rightarrow> gvk \<Rightarrow> 's \<Rightarrow> 'i scopedInformer result \<times> 's" where
  "scoped_GetInformerForKind GetInformerForKind c g s =
     (case GetInformerForKind g s of
        (Inl err, s') \<Rightarrow> (Inl err, s')
      | (Inr informer, s') \<Rightarrow> (Inr \<lparr> si_clusterName = sc_clusterName c, si_informer = informer \<rparr>, s'))"

definition scoped_AddIndexers :: "'i scopedInformer \<Rightarrow> error option" where
  "scoped_AddIndexers i = Some (Errorf ''AddIndexers is not supported on scoped informers'' [] [])"

text \<open>
  An event handler of client-go is its three callbacks, each over the state it mutates; a
  callback may panic. An event is the call an informer makes.
\<close>

record 's resource_handler =
  rh_OnAdd :: "any_value \<Rightarrow> bool \<Rightarrow> 's \<Rightarrow> 's outcome"
  rh_OnUpdate :: "any_value \<Rightarrow> any_value \<Rightarrow> 's \<Rightarrow> 's outcome"
  rh_OnDelete :: "any_value \<Rightarrow> 's \<Rightarrow> 's outcome"

datatype event = Added any_value bool | Updated any_value any_value | Deleted any_value

fun deliver :: "'s resource_handler \<Rightarrow> event \<Rightarrow> 's \<Rightarrow> 's outcome" where
  "deliver h (Added ob initial) s = rh_OnAdd h ob initial s"
| "deliver h (Updated oldObj newObj) s = rh_OnUpdate h oldObj newObj s"
| "deliver h (Deleted ob) s = rh_OnDelete h ob s"

fun deliver_all :: "'s resource_handler \<Rightarrow> event list \<Rightarrow> 's \<Rightarrow> 's outcome" where
  "deliver_all h [] s = Ret s"
| "deliver_all h (e # es) s = bind_outcome (deliver h e s) (deliver_all h es)"

text \<open>\<open>x.(client.Object)\<close>: the assertion without \<open>ok\<close> panics on any other type.\<close>

fun assert_object :: "any_value \<Rightarrow> kobject outcome" where
  "assert_object (Obj ob) = Ret ob"
| "assert_object (Tombstone k v) = Panic ''interface conversion: DeletedFinalStateUnknown is not client.Object''"
| "assert_object (Other t) = Panic ''interface conversion: not client.Object''"

definition deleted_object :: "any_value \<Rightarrow> kobject outcome" where
  "deleted_object ob = (case ob of Tombstone k v \<Rightarrow> assert_object v | _ \<Rightarrow> assert_object ob)"

definition scoped_handler :: "kcpapi \<Rightarrow> lcname \<Rightarrow> 's resource_handler \<Rightarrow> 's resource_handler" where
  "scoped_handler K clusterName handler =
     \<lparr> rh_OnAdd = (\<lambda>ob isInInitialList s. bind_outcome (assert_object ob) (\<lambda>cobj.
          if lc_from K cobj = clusterName then rh_OnAdd handler ob isInInitialList s else Ret s)),
       rh_OnUpdate = (\<lambda>oldObj newObj s. bind_outcome (assert_object newObj) (\<lambda>cobj.
          if lc_from K cobj = clusterName then rh_OnUpdate handler oldObj newObj s else Ret s)),
       rh_OnDelete = (\<lambda>ob s. bind_outcome (deleted_object ob) (\<lambda>cobj.
          if lc_from K cobj = clusterName then rh_OnDelete handler ob s else Ret s)) \<rparr>"

text \<open>
  The informer's own \<open>AddEventHandlerWithOptions\<close> is a parameter; an option record has
  only the resync period. The other two ways of adding a handler go through this one.
\<close>

definition scoped_AddEventHandlerWithOptions ::
  "('i \<Rightarrow> 's resource_handler \<Rightarrow> nat option \<Rightarrow> 'w \<Rightarrow> 'r result \<times> 'w) \<Rightarrow> kcpapi \<Rightarrow> 'i scopedInformer
     \<Rightarrow> 's resource_handler \<Rightarrow> nat option \<Rightarrow> 'w \<Rightarrow> 'r result \<times> 'w" where
  "scoped_AddEventHandlerWithOptions add K i handler options =
     add (si_informer i) (scoped_handler K (si_clusterName i) handler) options"

definition scoped_AddEventHandler ::
  "('i \<Rightarrow> 's resource_handler \<Rightarrow> nat option \<Rightarrow> 'w \<Rightarrow> 'r result \<times> 'w) \<Rightarrow> kcpapi \<Rightarrow> 'i scopedInformer
     \<Rightarrow> 's resource_handler \<Rightarrow> 'w \<Rightarrow> 'r result \<times> 'w" where
  "scoped_AddEventHandler add K i handler = scoped_AddEventHandlerWithOptions add K i handler None"

definition scoped_AddEventHandlerWithResyncPeriod ::
  "('i \<Rightarrow> 's resource_handler \<Rightarrow> nat option \<Rightarrow> 'w \<Rightarrow> 'r result \<times> 'w) \<Rightarrow> kcpapi \<Rightarrow> 'i scopedInformer
     \<Rightarrow> 's resource_handler \<Rightarrow> nat \<Rightarrow> 'w \<Rightarrow> 'r result \<times> 'w" where
  "scoped_AddEventHandlerWithResyncPeriod add K i handler resyncPeriod =
     scoped_AddEventHandlerWithOptions add K i handler (Some resyncPeriod)"

subsection \<open>What a scoped handler sees\<close>

fun event_object :: "event \<Rightarrow> kobject outcome" where
  "event_object (Added ob initial) = assert_object ob"
| "event_object (Updated oldObj newObj) = assert_object newObj"
| "event_object (Deleted ob) = deleted_object ob"

definition concerns :: "kcpapi \<Rightarrow> lcname \<Rightarrow> event \<Rightarrow> bool" where
  "concerns K cl e \<longleftrightarrow> (case event_object e of Ret ob \<Rightarrow> lc_from K ob = cl | Panic _ \<Rightarrow> False)"

lemma deliver_scoped:
  "deliver (scoped_handler K cl h) e s =
     bind_outcome (event_object e) (\<lambda>ob. if lc_from K ob = cl then deliver h e s else Ret s)"
  by (cases "event_object e"; cases e) (simp_all add: scoped_handler_def)

lemma deliver_scoped_all:
  "\<forall>e \<in> set es. returned (event_object e) \<Longrightarrow>
     deliver_all (scoped_handler K cl h) es s = deliver_all h (filter (concerns K cl) es) s"
proof (induction es arbitrary: s)
  case (Cons e es)
  then obtain ob where ob: "event_object e = Ret ob" by (cases "event_object e") auto
  have IH: "deliver_all (scoped_handler K cl h) es = deliver_all h (filter (concerns K cl) es)"
    using Cons by (intro ext) simp
  have "concerns K cl e \<longleftrightarrow> lc_from K ob = cl" by (simp add: concerns_def ob)
  then show ?case by (simp add: deliver_scoped ob IH)
qed simp

text \<open>
  The object an event is about: the object itself, or the last known object of a tombstone that
  stands for a missed deletion; no other value is about an object.
\<close>

fun event_about :: "event \<Rightarrow> kobject option" where
  "event_about (Added (Obj ob) initial) = Some ob"
| "event_about (Updated oldObj (Obj ob)) = Some ob"
| "event_about (Deleted (Obj ob)) = Some ob"
| "event_about (Deleted (Tombstone k (Obj ob))) = Some ob"
| "event_about _ = None"

lemma event_about_object: "event_about e = Some ob \<Longrightarrow> event_object e = Ret ob"
  by (cases e rule: event_about.cases) (auto simp: deleted_object_def)

lemma event_about_concerns:
  "event_about e \<noteq> None \<Longrightarrow> concerns K cl e \<longleftrightarrow> map_option (lc_from K) (event_about e) = Some cl"
  using event_about_object [of e] by (auto simp: concerns_def)

text \<open>What the informer promises: a registration runs the handler it was given.\<close>

definition runs_handlers ::
  "('i \<Rightarrow> 's resource_handler \<Rightarrow> nat option \<Rightarrow> 'w \<Rightarrow> 'r result \<times> 'w) \<Rightarrow> ('w \<Rightarrow> 'i \<Rightarrow> 'r \<Rightarrow> 's resource_handler option) \<Rightarrow> bool" where
  "runs_handlers add runs \<longleftrightarrow> (\<forall>i h options w r w'. add i h options w = (Inr r, w') \<longrightarrow> runs w' i r = Some h)"

text \<open>The three ways to add a handler to a scoped informer.\<close>

definition scoped_adds ::
  "('i \<Rightarrow> 's resource_handler \<Rightarrow> nat option \<Rightarrow> 'w \<Rightarrow> 'r result \<times> 'w) \<Rightarrow> kcpapi \<Rightarrow> 'i scopedInformer
     \<Rightarrow> 's resource_handler \<Rightarrow> ('w \<Rightarrow> 'r result \<times> 'w) set" where
  "scoped_adds add K i h = {scoped_AddEventHandler add K i h} \<union>
     {scoped_AddEventHandlerWithResyncPeriod add K i h period |period. True} \<union>
     {scoped_AddEventHandlerWithOptions add K i h options |options. True}"

lemma scoped_adds_handler:
  assumes "runs_handlers add runs" and "call \<in> scoped_adds add K i h" and "call w = (Inr r, w')"
  shows "runs w' (si_informer i) r = Some (scoped_handler K (si_clusterName i) h)"
  using assms by (auto simp: scoped_adds_def scoped_AddEventHandler_def scoped_AddEventHandlerWithResyncPeriod_def
      scoped_AddEventHandlerWithOptions_def runs_handlers_def)

text \<open>
  Property C30. A handler added, in any of the three ways, to an informer of a scoped cache is
  registered at the wildcard cache's own informer so that it runs exactly as if that informer had
  only the events of the cache's logical cluster: over any sequence of events about objects, where
  a deletion may carry the last known object in a tombstone, no call panics in the wrapper and the
  state reached is the one the handler itself reaches on the events about objects of that cluster,
  in order, with the values passed unchanged.
\<close>

theorem scoped_handler_sees_own_cluster:
  assumes "scoped_GetInformer R c ob s0 = (Inr i, s1)" and "runs_handlers add runs"
    and "call \<in> scoped_adds add K i h" and "call w = (Inr r, w')" and "list_all (\<lambda>e. event_about e \<noteq> None) es"
  shows "\<exists>informer g. fst (Cache_GetInformer R ob s0) = Inr informer \<and> runs w' informer r = Some g \<and>
    deliver_all g es s =
      deliver_all h (filter (\<lambda>e. map_option (lc_from K) (event_about e) = Some (sc_clusterName c)) es) s"
proof -
  have i: "fst (Cache_GetInformer R ob s0) = Inr (si_informer i)" "si_clusterName i = sc_clusterName c"
    using assms(1) by (auto simp: scoped_GetInformer_def split: prod.splits sum.splits)
  have objects: "\<forall>e \<in> set es. returned (event_object e)"
    using assms(5) event_about_object by (auto simp: list_all_iff)
  have "filter (concerns K (si_clusterName i)) es =
      filter (\<lambda>e. map_option (lc_from K) (event_about e) = Some (sc_clusterName c)) es"
    using assms(5) by (intro filter_cong refl) (simp add: event_about_concerns list_all_iff i(2))
  then have "deliver_all (scoped_handler K (si_clusterName i) h) es s =
      deliver_all h (filter (\<lambda>e. map_option (lc_from K) (event_about e) = Some (sc_clusterName c)) es) s"
    by (simp only: deliver_scoped_all [OF objects])
  with i(1) scoped_adds_handler [OF assms(2-4)] show ?thesis by blast
qed

text \<open>
  A tombstone whose last known object is itself not an object crashes the
  handler of a scoped informer whatever cluster it is for: the unchecked type assertion
  panics before the cluster is compared, and the inner handler is not called.
\<close>

theorem scoped_handler_tombstone_panics:
  assumes "\<not> returned (assert_object v)"
  shows "\<not> returned (deliver (scoped_handler K cl h) (Deleted (Tombstone k v)) s)"
  using assms unfolding deliver_scoped by (cases "assert_object v") (simp_all add: deleted_object_def)

subsection \<open>The wildcard list is the union of the scoped ones\<close>

lemma wildcard_reader_objects:
  assumes "cluster_indexed K acc (cr_indexer w)" and "accessor_ok acc" and "kcp_ok K"
    and "cr_clusterName w = ''*''" and "lo_FieldSelector lo = None" and "lo_Continue lo = []"
    and "lo_Namespace lo = []" and "lo_Limit lo \<le> 0"
  shows "\<exists>objs. cacheReader_objects K acc w lo = Inr objs \<and>
    set objs = out_copy w (lo_UnsafeDisableDeepCopy lo) ` {ob \<in> stored w. label_ok lo ob}"
proof -
  have "set (ListAll (cr_indexer w)) \<subseteq> range Obj"
    using assms(1) by (auto simp: cluster_indexed_def)
  then obtain obs where obs: "ListAll (cr_indexer w) = map Obj obs" by (rule all_objects)
  then have "stored w = set obs" by (auto simp: stored_def)
  moreover have "list_candidates K w lo = Inr (map Obj obs)"
    using assms obs by (simp add: list_candidates_def kcp_okD)
  ultimately show ?thesis
    using assms by (auto simp: cacheReader_objects_def list_loop_empty take_limit_def kcp_okD)
qed

text \<open>
  The readers of the scoped caches of one wildcard cache differ in the cluster name only.
\<close>

definition reader_over :: "kcpapi \<Rightarrow> indexer \<Rightarrow> gvk \<Rightarrow> restscope \<Rightarrow> lcname \<Rightarrow> cacheReader" where
  "reader_over K ix g scope cl = \<lparr> cr_indexer = ix, cr_isClusterAware = indexer_aware K ix,
     cr_groupVersionKind = g, cr_scopeName = scope, cr_disableDeepCopy = False, cr_clusterName = cl \<rparr>"

lemma reader_over_sel [simp]:
  "cr_indexer (reader_over K ix g scope cl) = ix" "cr_clusterName (reader_over K ix g scope cl) = cl"
  "cr_isClusterAware (reader_over K ix g scope cl) = indexer_aware K ix"
  "stored (reader_over K ix g scope cl) = {ob. Obj ob \<in> set (ListAll ix)}"
  "out_copy (reader_over K ix g scope cl) unsafe =
     (if unsafe = Some True then (\<lambda>ob. ob) else (\<lambda>ob. ob\<lparr> ob_gvk := g \<rparr>))"
  by (simp_all add: reader_over_def stored_def out_copy_def skip_copy_def fun_eq_iff)

lemma scoped_List_reader:
  assumes "GetSharedInformer R out s = (Inr (i, g, scope), s')"
  shows "scoped_List K acc R SetList c out lo s =
    (cacheReader_List K acc SetList (reader_over K (GetIndexer R i s') g scope (sc_clusterName c)) out lo, s')"
  using assms by (simp add: scoped_List_def scoped_cacheReader_def reader_over_def Let_def)

lemma wildcard_List_reader:
  assumes "GetSharedInformer R out s = (Inr (i, g, scope), s')"
  shows "wildcard_List K acc R SetList out lo s =
    (cacheReader_List K acc SetList (reader_over K (GetIndexer R i s') g scope ''*'') out lo, s')"
  using assms by (simp add: wildcard_List_def reader_over_def Let_def)

definition proper_names :: "kcpapi \<Rightarrow> indexer \<Rightarrow> bool" where
  "proper_names K ix \<longleftrightarrow> (\<forall>x \<in> set (ListAll ix). case x of
     Obj ob \<Rightarrow> names_ok K ob \<and> lc_from K ob \<noteq> [] \<and> lc_from K ob \<noteq> ''*'' | _ \<Rightarrow> True)"

lemma proper_scoped_reader:
  assumes "kcp_ok K" and "accessor_ok acc" and "cluster_indexed K acc ix" and "proper_names K ix"
    and "Obj ob \<in> set (ListAll ix)"
  shows "scoped_reader K acc (reader_over K ix g scope (lc_from K ob))"
  using assms by (auto simp: scoped_reader_def proper_names_def names_ok_def indexer_aware_def
      cluster_indexed_def)

text \<open>
  Property C20. Listing a type through the wildcard cache gives exactly the union of what
  the scoped caches of the logical clusters give, all served by the one shared informer: the
  scopes partition the wildcard view and lose no object.
\<close>

theorem wildcard_list_is_union_of_scopes:
  assumes "GetSharedInformer R out s = (Inr (i, g, scope), s')"
    and "kcp_ok K" and "accessor_ok acc"
    and "cluster_indexed K acc (GetIndexer R i s')" and "proper_names K (GetIndexer R i s')"
    and "lo_FieldSelector lo = None" and "lo_Continue lo = []" and "lo_Namespace lo = []" and "lo_Limit lo \<le> 0"
  shows "\<exists>all per. wildcard_List K acc R SetList out lo s = (SetList out all, s') \<and>
    (\<forall>cl \<in> lc_from K ` {ob. Obj ob \<in> set (ListAll (GetIndexer R i s'))}.
       scoped_List K acc R SetList \<lparr> sc_base = b, sc_clusterName = cl \<rparr> out lo s = (SetList out (per cl), s')) \<and>
    set all = (\<Union>cl \<in> lc_from K ` {ob. Obj ob \<in> set (ListAll (GetIndexer R i s'))}. set (per cl))"
proof -
  let ?ix = "GetIndexer R i s'"
  let ?X = "{ob. Obj ob \<in> set (ListAll ?ix)}" and ?r = "reader_over K ?ix g scope"
  obtain all where all: "cacheReader_objects K acc (?r ''*'') lo = Inr all"
      "set all = out_copy (?r ''*'') (lo_UnsafeDisableDeepCopy lo) ` {ob \<in> ?X. label_ok lo ob}"
    using wildcard_reader_objects [of K acc "?r ''*''" lo] assms by auto
  have "\<exists>objs. cacheReader_objects K acc (?r cl) lo = Inr objs \<and>
      set objs = out_copy (?r ''*'') (lo_UnsafeDisableDeepCopy lo) ` {ob \<in> ?X. lc_from K ob = cl \<and> label_ok lo ob}"
    if cl: "cl \<in> lc_from K ` ?X" for cl
  proof -
    obtain ob where ob: "Obj ob \<in> set (ListAll ?ix)" "cl = lc_from K ob"
      using cl by auto
    obtain obs where obs: "set obs = {ob \<in> stored (?r cl). in_scope K (?r cl) (lo_Namespace lo) ob}"
      "cacheReader_objects K acc (?r cl) lo = Inr (take_limit (lo_Limit lo)
         (map (out_copy (?r cl) (lo_UnsafeDisableDeepCopy lo)) (filter (label_ok lo) obs)))"
      by (rule scoped_objects [OF proper_scoped_reader [OF assms(2-5) ob(1), of g scope, folded ob(2)] assms(6,7)])
         (simp add: assms(8))
    then show ?thesis using assms(8,9) by (auto simp: take_limit_def in_scope_def)
  qed
  then have "\<forall>cl \<in> lc_from K ` ?X. \<exists>objs. cacheReader_objects K acc (?r cl) lo = Inr objs \<and>
      set objs = out_copy (?r ''*'') (lo_UnsafeDisableDeepCopy lo) ` {ob \<in> ?X. lc_from K ob = cl \<and> label_ok lo ob}"
    by (intro ballI)
  then obtain per where per: "\<forall>cl \<in> lc_from K ` ?X. cacheReader_objects K acc (?r cl) lo = Inr (per cl) \<and>
      set (per cl) = out_copy (?r ''*'') (lo_UnsafeDisableDeepCopy lo) ` {ob \<in> ?X. lc_from K ob = cl \<and> label_ok lo ob}"
    by (rule bchoice [THEN exE])
  have "set all = (\<Union>cl \<in> lc_from K ` ?X. set (per cl))"
    unfolding all(2) using per by (simp add: set_eq_iff) blast
  moreover have "wildcard_List K acc R SetList out lo s = (SetList out all, s')"
    by (simp add: wildcard_List_reader [OF assms(1)] cacheReader_List_def all(1))
  moreover have "scoped_List K acc R SetList \<lparr> sc_base = b, sc_clusterName = cl \<rparr> out lo s =
      (SetList out (per cl), s')" if "cl \<in> lc_from K ` ?X" for cl
    by (simp add: scoped_List_reader [OF assms(1)] cacheReader_List_def per [rule_format, OF that])
  ultimately show ?thesis by blast
qed

subsection \<open>Witnesses\<close>

text \<open>A handler that records the names of the objects it is called with.\<close>

definition name_of :: "any_value \<Rightarrow> string" where
  "name_of x = (case deleted_object x of Ret ob \<Rightarrow> ob_name ob | Panic _ \<Rightarrow> [])"

definition recording_handler :: "string list resource_handler" where
  "recording_handler = \<lparr> rh_OnAdd = (\<lambda>ob _ s. Ret (s @ [''add '' @ name_of ob])),
     rh_OnUpdate = (\<lambda>_ ob s. Ret (s @ [''update '' @ name_of ob])),
     rh_OnDelete = (\<lambda>ob s. Ret (s @ [''delete '' @ name_of ob])) \<rparr>"

text \<open>An informer whose state is the list of its handlers; a registration is a position.\<close>

definition demo_add ::
  "nat \<Rightarrow> string list resource_handler \<Rightarrow> nat option \<Rightarrow> string list resource_handler list
     \<Rightarrow> nat result \<times> string list resource_handler list" where
  "demo_add i h options w = (Inr (length w), w @ [h])"

definition demo_runs :: "string list resource_handler list \<Rightarrow> nat \<Rightarrow> nat \<Rightarrow> string list resource_handler option" where
  "demo_runs w i r = (if r < length w then Some (w ! r) else None)"

theorem scoped_handler_sees_own_cluster_witness:
  "\<exists>g. demo_runs (snd (scoped_AddEventHandler demo_add demo_kcp \<lparr> si_clusterName = ''c1'', si_informer = 7 \<rparr> recording_handler []))
      7 0 = Some g \<and> deliver_all g
     [Added (Obj (demo_obj ''c1'' ''ns'' ''a'' ''p'')) True, Added (Obj (demo_obj ''c2'' ''ns'' ''x'' ''p'')) True,
      Deleted (Tombstone ''k'' (Obj (demo_obj ''c1'' ''ns'' ''a'' ''p'')))] []
   = Ret [''add a'', ''delete a'']"
proof -
  let ?i = "\<lparr> si_clusterName = ''c1'', si_informer = 7 \<rparr> :: nat scopedInformer"
  let ?call = "scoped_AddEventHandler demo_add demo_kcp ?i recording_handler"
  let ?es = "[Added (Obj (demo_obj ''c1'' ''ns'' ''a'' ''p'')) True, Added (Obj (demo_obj ''c2'' ''ns'' ''x'' ''p'')) True,
      Deleted (Tombstone ''k'' (Obj (demo_obj ''c1'' ''ns'' ''a'' ''p'')))]"
  have inf7: "scoped_GetInformer demo_crt \<lparr> sc_base = 0, sc_clusterName = ''c1'' \<rparr> demo_list_obj 0 = (Inr ?i, 1)"
    by (simp add: scoped_GetInformer_def demo_crt_def)
  have law: "runs_handlers demo_add demo_runs" by (simp add: runs_handlers_def demo_add_def demo_runs_def)
  have one: "?call \<in> scoped_adds demo_add demo_kcp ?i recording_handler" by (simp add: scoped_adds_def)
  have run: "?call [] = (Inr 0, snd (?call []))"
    by (simp add: scoped_AddEventHandler_def scoped_AddEventHandlerWithOptions_def demo_add_def)
  have "list_all (\<lambda>e. event_about e \<noteq> None) ?es" by simp
  from scoped_handler_sees_own_cluster [OF inf7 law one run this, of "[]"] show ?thesis
    by (auto simp: demo_crt_def recording_handler_def name_of_def deleted_object_def)
qed

theorem scoped_handler_tombstone_panics_witness:
  "\<not> returned (deliver (scoped_handler demo_kcp ''c1'' recording_handler) (Deleted (Tombstone ''k'' (Other ''nil''))) [])"
  by (rule scoped_handler_tombstone_panics) simp

definition collect_list :: "kobject \<Rightarrow> kobject list \<Rightarrow> kobject result" where
  "collect_list out objs = Inr (out\<lparr> ob_data := length objs \<rparr>)"

theorem wildcard_list_is_union_of_scopes_witness:
  "\<exists>all a b. wildcard_List demo_kcp demo_accessor demo_crt collect_list demo_list_obj (demo_opts [] 0) 0 = (collect_list demo_list_obj all, 1) \<and>
    scoped_List demo_kcp demo_accessor demo_crt collect_list \<lparr> sc_base = 0, sc_clusterName = ''c1'' \<rparr> demo_list_obj (demo_opts [] 0) 0
      = (collect_list demo_list_obj a, 1) \<and>
    scoped_List demo_kcp demo_accessor demo_crt collect_list \<lparr> sc_base = 0, sc_clusterName = ''c2'' \<rparr> demo_list_obj (demo_opts [] 0) 0
      = (collect_list demo_list_obj b, 1) \<and> set all = set a \<union> set b"
proof -
  have share: "GetSharedInformer demo_crt demo_list_obj 0 = (Inr (7, demo_gvk, RESTScopeNameNamespace), 1)"
    by (simp add: GetSharedInformer_def demo_crt_def demo_list_obj_def empty_object_def demo_gvk_def
        nonlist_gvk_def trim_suffix_def has_suffix_def)
  have ix: "GetIndexer demo_crt i n = demo_indexer demo_objs" for i n by (simp add: demo_crt_def)
  have names: "proper_names demo_kcp (demo_indexer demo_objs)"
    by (auto simp: proper_names_def demo_objs_def names_ok_def)
  let ?X = "{ob. Obj ob \<in> set (ListAll (demo_indexer demo_objs))}"
  have X: "lc_from demo_kcp ` ?X = {''c1'', ''c2''}"
  proof -
    have "?X = {demo_obj ''c1'' ''ns'' ''b'' ''root:a'', demo_obj ''c2'' ''ns'' ''b'' ''root:b'',
        demo_obj ''c1'' ''other'' ''d'' ''root:a''}"
      by (auto simp: demo_indexer_def demo_objs_def)
    then show ?thesis by auto
  qed
  have "\<exists>all per. wildcard_List demo_kcp demo_accessor demo_crt collect_list demo_list_obj (demo_opts [] 0) 0 = (collect_list demo_list_obj all, 1) \<and>
    (\<forall>cl \<in> lc_from demo_kcp ` ?X.
       scoped_List demo_kcp demo_accessor demo_crt collect_list \<lparr> sc_base = 0, sc_clusterName = cl \<rparr> demo_list_obj (demo_opts [] 0) 0
         = (collect_list demo_list_obj (per cl), 1)) \<and> set all = (\<Union>cl \<in> lc_from demo_kcp ` ?X. set (per cl))"
    by (rule wildcard_list_is_union_of_scopes [OF share demo_kcp_ok demo_accessor_ok, of "demo_opts [] 0" collect_list 0,
          unfolded ix]) (simp_all add: demo_indexer_ok names demo_opts_def)
  then show ?thesis unfolding X by auto
qed

end
