(* ===== verification/ScopedCluster.thy ===== *)
theory ScopedCluster
  imports ScopedCache
begin

text \<open>
  \<^verbatim>\<open>pkg/cache/cluster.go\<close>: the cluster object of one logical cluster, with its scoped
  rest configuration, client, mapper and cache. The library constructors are a record of
  functions; an \<open>EventRecorderGetter\<close> is its two methods, and a nil one is \<open>None\<close>.
\<close>

record 'c cluster_env =
  JoinPath :: "string \<Rightarrow> string \<Rightarrow> string result"
  client_New :: "rest_config \<Rightarrow> scopedCache option \<Rightarrow> nat \<Rightarrow> 'c result"
  ce_HTTPClientFor :: "rest_config \<Rightarrow> nat result"
  ce_NewDynamicRESTMapper :: "rest_config \<Rightarrow> nat \<Rightarrow> nat result"

record ('d, 'e) eventRecorderGetter =
  eg_GetEventRecorderFor :: "string \<Rightarrow> 'd"
  eg_GetEventRecorder :: "string \<Rightarrow> 'e"

record ('c, 'd, 'e) scopedCluster =
  scl_clusterName :: lcname
  scl_scheme :: nat
  scl_config :: rest_config
  scl_httpClient :: nat
  scl_client :: 'c
  scl_mapper :: nat
  scl_cache :: scopedCache
  scl_eventRecorderGetter :: "('d, 'e) eventRecorderGetter option"

subsection \<open>Construction\<close>

definition NewScopedCluster ::
  "kcpapi \<Rightarrow> 'c cluster_env \<Rightarrow> rest_config \<Rightarrow> lcname \<Rightarrow> nat \<Rightarrow> nat
     \<Rightarrow> ('d, 'e) eventRecorderGetter option \<Rightarrow> ('c, 'd, 'e) scopedCluster result" where
  "NewScopedCluster K env cfg clusterName wildcardCA scheme getter =
     (case JoinPath env (cfg_host cfg) (lc_request_path K clusterName) of
        Inl err \<Rightarrow> Inl (Errorf ''failed to construct scoped cluster URL: %w'' [] [err])
      | Inr host \<Rightarrow>
          let cfg = cfg\<lparr> cfg_host := host \<rparr>;
              ca = \<lparr> sc_base = wildcardCA, sc_clusterName = clusterName \<rparr>
          in case client_New env cfg (Some ca) scheme of
               Inl err \<Rightarrow> Inl err
             | Inr cli \<Rightarrow>
                 (case ce_HTTPClientFor env cfg of
                    Inl err \<Rightarrow> Inl err
                  | Inr httpClient \<Rightarrow>
                      (case ce_NewDynamicRESTMapper env cfg httpClient of
                         Inl err \<Rightarrow> Inl err
                       | Inr mapper \<Rightarrow>
                           Inr \<lparr> scl_clusterName = clusterName, scl_scheme = scheme, scl_config = cfg,
                                 scl_httpClient = httpClient, scl_client = cli, scl_mapper = mapper,
                                 scl_cache = ca, scl_eventRecorderGetter = getter \<rparr>)))"

text \<open>For workspaces being initialized: the client does not read from the cache, and the
  struct literal leaves \<open>eventRecorderGetter\<close> nil.\<close>

definition NewScopedInitializingCluster ::
  "kcpapi \<Rightarrow> 'c cluster_env \<Rightarrow> rest_config \<Rightarrow> lcname \<Rightarrow> nat \<Rightarrow> nat \<Rightarrow> ('c, 'd, 'e) scopedCluster result" where
  "NewScopedInitializingCluster K env cfg clusterName wildcardCA scheme =
     (case JoinPath env (cfg_host cfg) (lc_request_path K clusterName) of
        Inl err \<Rightarrow> Inl (Errorf ''failed to construct scoped cluster URL: %w'' [] [err])
      | Inr host \<Rightarrow>
          let cfg = cfg\<lparr> cfg_host := host \<rparr>;
              ca = \<lparr> sc_base = wildcardCA, sc_clusterName = clusterName \<rparr>
          in case client_New env cfg None scheme of
               Inl err \<Rightarrow> Inl err
             | Inr cli \<Rightarrow>
                 (case ce_HTTPClientFor env cfg of
                    Inl err \<Rightarrow> Inl err
                  | Inr httpClient \<Rightarrow>
                      (case ce_NewDynamicRESTMapper env cfg httpClient of
                         Inl err \<Rightarrow> Inl err
                       | Inr mapper \<Rightarrow>
                           Inr \<lparr> scl_clusterName = clusterName, scl_scheme = scheme, scl_config = cfg,
                                 scl_httpClient = httpClient, scl_client = cli, scl_mapper = mapper,
                                 scl_cache = ca, scl_eventRecorderGetter = None \<rparr>)))"

subsection \<open>Accessors\<close>

definition scl_GetFieldIndexer :: "('c, 'd, 'e) scopedCluster \<Rightarrow> scopedCache" where
  "scl_GetFieldIndexer c = scl_cache c"

definition scl_GetAPIReader :: "('c, 'd, 'e) scopedCluster \<Rightarrow> scopedCache" where
  "scl_GetAPIReader c = scl_cache c"

definition scl_GetEventRecorderFor :: "('c, 'd, 'e) scopedCluster \<Rightarrow> string \<Rightarrow> 'd outcome" where
  "scl_GetEventRecorderFor c name =
     (case scl_eventRecorderGetter c of
        None \<Rightarrow> Panic ''invalid memory address or nil pointer dereference''
      | Some g \<Rightarrow> Ret (eg_GetEventRecorderFor g name))"

definition scl_GetEventRecorder :: "('c, 'd, 'e) scopedCluster \<Rightarrow> string \<Rightarrow> 'e outcome" where
  "scl_GetEventRecorder c name =
     (case scl_eventRecorderGetter c of
        None \<Rightarrow> Panic ''invalid memory address or nil pointer dereference''
      | Some g \<Rightarrow> Ret (eg_GetEventRecorder g name))"

text \<open>\<open>Start\<close> waits for its context; it has returned iff the context is done.\<close>

definition scl_Start :: "('c, 'd, 'e) scopedCluster \<Rightarrow> bool \<Rightarrow> error option option" where
  "scl_Start c done = (if done then Some None else None)"

subsection \<open>Properties\<close>

lemma NewScopedCluster_Inr:
  assumes "NewScopedCluster K env cfg cl ca sch getter = Inr c"
  shows "JoinPath env (cfg_host cfg) (lc_request_path K cl) = Inr (cfg_host (scl_config c))"
    and "cfg_rest (scl_config c) = cfg_rest cfg"
    and "client_New env (scl_config c) (Some (scl_cache c)) sch = Inr (scl_client c)"
    and "ce_HTTPClientFor env (scl_config c) = Inr (scl_httpClient c)"
    and "ce_NewDynamicRESTMapper env (scl_config c) (scl_httpClient c) = Inr (scl_mapper c)"
    and "scl_cache c = \<lparr> sc_base = ca, sc_clusterName = cl \<rparr>"
    and "scl_clusterName c = cl" and "scl_eventRecorderGetter c = getter" and "scl_scheme c = sch"
  using assms by (auto simp: NewScopedCluster_def Let_def split: sum.splits)

lemma NewScopedInitializingCluster_Inr:
  assumes "NewScopedInitializingCluster K env cfg cl ca sch = Inr c"
  shows "JoinPath env (cfg_host cfg) (lc_request_path K cl) = Inr (cfg_host (scl_config c))"
    and "client_New env (scl_config c) None sch = Inr (scl_client c)"
    and "scl_clusterName c = cl" and "scl_eventRecorderGetter c = None"
    and "scl_cache c = \<lparr> sc_base = ca, sc_clusterName = cl \<rparr>"
  using assms by (auto simp: NewScopedInitializingCluster_def Let_def split: sum.splits)

text \<open>
  Everything a scoped cluster hands out is scoped to its logical cluster: the
  configuration points at the cluster's URL and is the one the client, the HTTP client and
  the mapper were built with; the client, the API reader and the field indexer all go
  through the one scoped cache of that cluster over the given wildcard cache; the rest of
  the configuration is untouched.
\<close>

theorem scoped_cluster_is_scoped:
  assumes "NewScopedCluster K env cfg cl ca sch getter = Inr c"
  shows "JoinPath env (cfg_host cfg) (lc_request_path K cl) = Inr (cfg_host (scl_config c)) \<and>
    cfg_rest (scl_config c) = cfg_rest cfg \<and>
    client_New env (scl_config c) (Some (scl_GetAPIReader c)) sch = Inr (scl_client c) \<and>
    ce_HTTPClientFor env (scl_config c) = Inr (scl_httpClient c) \<and>
    ce_NewDynamicRESTMapper env (scl_config c) (scl_httpClient c) = Inr (scl_mapper c) \<and>
    scl_GetAPIReader c = scl_GetFieldIndexer c \<and>
    scl_GetAPIReader c = \<lparr> sc_base = ca, sc_clusterName = scl_clusterName c \<rparr> \<and> scl_clusterName c = cl"
  using NewScopedCluster_Inr [OF assms] by (simp add: scl_GetAPIReader_def scl_GetFieldIndexer_def)

text \<open>
  A cluster for an initializing workspace has no event recorder: on every
  cluster \<open>NewScopedInitializingCluster\<close> returns, both recorder accessors dereference nil
  and panic, while a cluster built with a recorder getter answers with that getter's recorder.
\<close>

theorem initializing_cluster_recorder_panics:
  assumes "NewScopedInitializingCluster K env cfg cl ca sch = Inr (c :: ('c, 'd, 'e) scopedCluster)"
    and "NewScopedCluster K env cfg cl ca sch (Some g) = Inr (d :: ('c, 'd, 'e) scopedCluster)"
  shows "\<not> returned (scl_GetEventRecorderFor c name) \<and> \<not> returned (scl_GetEventRecorder c name) \<and>
    scl_GetEventRecorderFor d name = Ret (eg_GetEventRecorderFor g name) \<and>
    scl_GetEventRecorder d name = Ret (eg_GetEventRecorder g name)"
  by (simp add: scl_GetEventRecorderFor_def scl_GetEventRecorder_def
      NewScopedInitializingCluster_Inr [OF assms(1)] NewScopedCluster_Inr [OF assms(2)])

definition demo_cluster_env :: "nat cluster_env" where
  "demo_cluster_env = \<lparr> JoinPath = (\<lambda>h p. Inr (h @ p)),
     client_New = (\<lambda>_ ca _. Inr (case ca of None \<Rightarrow> 0 | Some _ \<Rightarrow> 1)),
     ce_HTTPClientFor = (\<lambda>_. Inr 4), ce_NewDynamicRESTMapper = (\<lambda>_ h. Inr (h + 1)) \<rparr>"

definition demo_getter :: "(string, string) eventRecorderGetter" where
  "demo_getter = \<lparr> eg_GetEventRecorderFor = (\<lambda>n. n), eg_GetEventRecorder = (\<lambda>n. ''new '' @ n) \<rparr>"

definition demo_cluster :: "(string, string) eventRecorderGetter option \<Rightarrow> nat \<Rightarrow> (nat, string, string) scopedCluster" where
  "demo_cluster g cli = \<lparr> scl_clusterName = ''c1'', scl_scheme = 2,
     scl_config = \<lparr> cfg_host = ''https://h/clusters/c1'', cfg_rest = 9 \<rparr>, scl_httpClient = 4, scl_client = cli,
     scl_mapper = 5, scl_cache = \<lparr> sc_base = 3, sc_clusterName = ''c1'' \<rparr>, scl_eventRecorderGetter = g \<rparr>"

lemma demo_new_cluster:
  "NewScopedCluster demo_kcp demo_cluster_env \<lparr> cfg_host = ''https://h'', cfg_rest = 9 \<rparr> ''c1'' 3 2 g
     = Inr (demo_cluster g 1)"
  "NewScopedInitializingCluster demo_kcp demo_cluster_env \<lparr> cfg_host = ''https://h'', cfg_rest = 9 \<rparr> ''c1'' 3 2
     = Inr (demo_cluster None 0)"
  by (simp_all add: NewScopedCluster_def NewScopedInitializingCluster_def demo_cluster_env_def demo_cluster_def)

theorem scoped_cluster_is_scoped_witness:
  "cfg_host (scl_config (demo_cluster None 1)) = ''https://h/clusters/c1'' \<and>
   scl_GetAPIReader (demo_cluster None 1) = \<lparr> sc_base = 3, sc_clusterName = ''c1'' \<rparr>"
  using scoped_cluster_is_scoped [OF demo_new_cluster(1) [of None]]
  by (simp add: demo_cluster_env_def demo_cluster_def scl_GetAPIReader_def)

theorem initializing_cluster_recorder_panics_witness:
  "\<not> returned (scl_GetEventRecorder (demo_cluster None 0) ''ctl'') \<and>
   scl_GetEventRecorder (demo_cluster (Some demo_getter) 1) ''ctl'' = Ret ''new ctl''"
  using initializing_cluster_recorder_panics [OF demo_new_cluster(2) demo_new_cluster(1) [of "Some demo_getter"],
      of "''ctl''"]
  by (simp add: demo_getter_def)

end
