(* ===== verification/Extractors.thy ===== *)
theory Extractors
  imports Objects
begin

text \<open>
  \<^verbatim>\<open>pkg/provider/urls.go\<close> and \<^verbatim>\<open>pkg/provider/condition.go\<close>: what is read from objects
  in their unstructured form. The converter, the nested accessors of apimachinery and the
  JSONPath evaluator are a record of functions; \<open>'m\<close> are maps, \<open>'u\<close> are field values, and
  the type switches of the sources are \<open>as_map\<close>, \<open>as_string\<close> and the kind of a value.
\<close>

datatype value_kind = KindString | KindInterface | KindOther

record ('m, 'u, 'q) unstructured_api =
  ToUnstructured :: "kobject \<Rightarrow> 'm result"
  NestedSlice :: "'m \<Rightarrow> string list \<Rightarrow> ('u list \<times> bool) result"
  NestedString :: "'m \<Rightarrow> string list \<Rightarrow> (string \<times> bool) result"
  as_map :: "'u \<Rightarrow> 'm option"
  jp_Parse :: "string \<Rightarrow> 'q result"
  jp_FindResults :: "'q \<Rightarrow> 'm \<Rightarrow> 'u list list result"
  value_Kind :: "'u \<Rightarrow> value_kind"
  value_String :: "'u \<Rightarrow> string"
  as_string :: "'u \<Rightarrow> string option"

subsection \<open>URLs of an endpoint slice\<close>

fun endpoint_urls :: "('m, 'u, 'q) unstructured_api \<Rightarrow> 'u list \<Rightarrow> string list \<Rightarrow> string list result" where
  "endpoint_urls U [] urls = Inr urls"
| "endpoint_urls U (epRaw # eps) urls =
     (case as_map U epRaw of
        None \<Rightarrow> endpoint_urls U eps urls
      | Some ep \<Rightarrow>
          (case NestedString U ep [''url''] of
             Inl err \<Rightarrow> Inl (Errorf ''error getting url from endpoint %v: %w'' [] [err])
           | Inr (url, _) \<Rightarrow> endpoint_urls U eps (if url \<noteq> [] then urls @ [url] else urls)))"

definition DefaultExtractURLsFromEndpointSlice ::
  "('m, 'u, 'q) unstructured_api \<Rightarrow> kobject \<Rightarrow> string list result" where
  "DefaultExtractURLsFromEndpointSlice U ob =
     (case ToUnstructured U ob of
        Inl err \<Rightarrow> Inl (Errorf ''unable to convert object to unstructured map: %w'' [] [err])
      | Inr unstructuredMap \<Rightarrow>
          (case NestedSlice U unstructuredMap [''status'', ''endpoints''] of
             Inl err \<Rightarrow> Inl (Errorf ''error getting status.endpoints from unstructured map: %w'' [] [err])
           | Inr (endpoints, found) \<Rightarrow> if \<not> found then Inr [] else endpoint_urls U endpoints []))"

definition jsonpath_string :: "('m, 'u, 'q) unstructured_api \<Rightarrow> 'u \<Rightarrow> string list" where
  "jsonpath_string U v =
     (case value_Kind U v of
        KindString \<Rightarrow> if value_String U v \<noteq> [] then [value_String U v] else []
      | KindInterface \<Rightarrow> (case as_string U v of
           Some s \<Rightarrow> if s \<noteq> [] then [s] else []
         | None \<Rightarrow> [])
      | KindOther \<Rightarrow> [])"

text \<open>The two nested loops over results and values.\<close>

fun jsonpath_values :: "('m, 'u, 'q) unstructured_api \<Rightarrow> 'u list \<Rightarrow> string list \<Rightarrow> string list" where
  "jsonpath_values U [] urls = urls"
| "jsonpath_values U (v # vs) urls = jsonpath_values U vs (urls @ jsonpath_string U v)"

fun jsonpath_results :: "('m, 'u, 'q) unstructured_api \<Rightarrow> 'u list list \<Rightarrow> string list \<Rightarrow> string list" where
  "jsonpath_results U [] urls = urls"
| "jsonpath_results U (r # rs) urls = jsonpath_results U rs (jsonpath_values U r urls)"

definition ExtractURLsByJSONPath ::
  "('m, 'u, 'q) unstructured_api \<Rightarrow> string \<Rightarrow> (kobject \<Rightarrow> string list result) result" where
  "ExtractURLsByJSONPath U path =
     (case jp_Parse U path of
        Inl err \<Rightarrow> Inl (Errorf ''invalid jsonpath expression %q: %w'' [path] [err])
      | Inr q \<Rightarrow> Inr (\<lambda>ob.
          case ToUnstructured U ob of
            Inl err \<Rightarrow> Inl (Errorf ''unable to convert object to unstructured map: %w'' [] [err])
          | Inr unstructuredMap \<Rightarrow>
              (case jp_FindResults U q unstructuredMap of
                 Inl err \<Rightarrow> Inl (Errorf ''jsonpath %q failed: %w'' [path] [err])
               | Inr results \<Rightarrow> Inr (jsonpath_results U results []))))"

subsection \<open>Readiness of an object\<close>

fun condition_loop :: "('m, 'u, 'q) unstructured_api \<Rightarrow> string \<Rightarrow> 'u list \<Rightarrow> bool result" where
  "condition_loop U conditionType [] = Inr False"
| "condition_loop U conditionType (condRaw # conds) =
     (case as_map U condRaw of
        None \<Rightarrow> condition_loop U conditionType conds
      | Some cond \<Rightarrow>
          (case NestedString U cond [''type''] of
             Inl err \<Rightarrow> Inl (Errorf ''error getting type from unstructured condition %v: %w'' [] [err])
           | Inr (condType, _) \<Rightarrow>
               (case NestedString U cond [''status''] of
                  Inl err \<Rightarrow> Inl (Errorf ''error getting status from unstructured condition %v: %w'' [] [err])
                | Inr (condStatus, _) \<Rightarrow>
                    if condType = conditionType \<and> condStatus = ''True'' then Inr True
                    else condition_loop U conditionType conds)))"

definition ConditionReadyFunc :: "('m, 'u, 'q) unstructured_api \<Rightarrow> string \<Rightarrow> kobject \<Rightarrow> bool result" where
  "ConditionReadyFunc U conditionType ob =
     (case ToUnstructured U ob of
        Inl err \<Rightarrow> Inl (Errorf ''unable to convert object to unstructured map: %w'' [] [err])
      | Inr unstructuredMap \<Rightarrow>
          (case NestedSlice U unstructuredMap [''status'', ''conditions''] of
             Inl err \<Rightarrow> Inl (Errorf ''error getting conditions from unstructured map: %w'' [] [err])
           | Inr (conditions, found) \<Rightarrow> if \<not> found then Inr False else condition_loop U conditionType conditions))"

subsection \<open>The contract of a URL extractor\<close>

text \<open>What the provider relies on: no extracted URL is empty.\<close>

locale url_extractor =
  fixes extractor :: "kobject \<Rightarrow> string list result"
  assumes no_empty_url: "extractor ob = Inr urls \<Longrightarrow> [] \<notin> set urls"
begin

lemma extracted_nonempty: "extractor ob = Inr urls \<Longrightarrow> u \<in> set urls \<Longrightarrow> u \<noteq> []"
  using no_empty_url by blast

end

text \<open>The URL an endpoint contributes, if any.\<close>

definition endpoint_url :: "('m, 'u, 'q) unstructured_api \<Rightarrow> 'u \<Rightarrow> string option" where
  "endpoint_url U ep = (case as_map U ep of
      None \<Rightarrow> None
    | Some m \<Rightarrow> (case NestedString U m [''url''] of
         Inl _ \<Rightarrow> None
       | Inr (u, _) \<Rightarrow> if u = [] then None else Some u))"

lemma endpoint_urls_result:
  "endpoint_urls U eps urls = Inr res \<Longrightarrow> res = urls @ List.map_filter (endpoint_url U) eps"
proof (induction eps arbitrary: urls)
  case (Cons ep eps)
  show ?case
  proof (cases "as_map U ep")
    case None
    then show ?thesis using Cons by (simp add: endpoint_url_def List.map_filter_simps)
  next
    case (Some m)
    then obtain u f where "NestedString U m [''url''] = Inr (u, f)"
      using Cons.prems by (auto split: sum.splits)
    then show ?thesis
      using Cons.IH [of "urls @ [u]"] Cons.IH [of urls] Cons.prems Some
      by (simp add: endpoint_url_def List.map_filter_simps split: if_splits)
  qed
qed (simp add: List.map_filter_simps)

lemma endpoint_urls_ok:
  "\<forall>ep \<in> set eps. \<forall>m. as_map U ep = Some m \<longrightarrow> \<not> is_err (NestedString U m [''url'']) \<Longrightarrow>
     \<exists>res. endpoint_urls U eps urls = Inr res"
proof (induction eps arbitrary: urls)
  case (Cons ep eps)
  have "\<forall>ep \<in> set eps. \<forall>m. as_map U ep = Some m \<longrightarrow> \<not> is_err (NestedString U m [''url''])"
    using Cons.prems by simp
  note IH = Cons.IH [OF this]
  show ?case
  proof (cases "as_map U ep")
    case None
    then show ?thesis using IH by simp
  next
    case (Some m)
    then have "\<not> is_err (NestedString U m [''url''])" using Cons.prems by simp
    then show ?thesis using Some IH by (cases "NestedString U m [''url'']") (simp_all split: prod.split)
  qed
qed simp

lemma set_map_filter: "set (List.map_filter f xs) = {y. \<exists>x \<in> set xs. f x = Some y}"
  by (induction xs) (auto simp: List.map_filter_simps split: option.splits)

lemma endpoint_urls_nonempty:
  assumes "endpoint_urls U eps urls = Inr res" and "[] \<notin> set urls"
  shows "[] \<notin> set res"
  using endpoint_urls_result [OF assms(1)] assms(2)
  by (auto simp: set_map_filter endpoint_url_def split: option.splits sum.splits if_splits)

interpretation default_urls: url_extractor "DefaultExtractURLsFromEndpointSlice U" for U
  by unfold_locales
     (auto simp: DefaultExtractURLsFromEndpointSlice_def endpoint_urls_nonempty split: sum.splits if_splits)

lemma jsonpath_values_eq: "jsonpath_values U vs urls = urls @ concat (map (jsonpath_string U) vs)"
  by (induction vs arbitrary: urls) simp_all

lemma jsonpath_results_eq:
  "jsonpath_results U rs urls = urls @ concat (map (jsonpath_string U) (concat rs))"
  by (induction rs arbitrary: urls) (simp_all add: jsonpath_values_eq)

lemma jsonpath_string_nonempty: "[] \<notin> set (jsonpath_string U v)"
  by (simp add: jsonpath_string_def split: value_kind.split option.split)

text \<open>An extractor for a JSONPath that did not parse is none; it is made total here.\<close>

definition jsonpath_extractor :: "('m, 'u, 'q) unstructured_api \<Rightarrow> string \<Rightarrow> kobject \<Rightarrow> string list result" where
  "jsonpath_extractor U path ob =
     (case ExtractURLsByJSONPath U path of Inl err \<Rightarrow> Inl err | Inr f \<Rightarrow> f ob)"

interpretation jsonpath_urls: url_extractor "jsonpath_extractor U path" for U path
  by unfold_locales
     (auto simp: jsonpath_extractor_def ExtractURLsByJSONPath_def jsonpath_results_eq jsonpath_string_nonempty
       split: sum.splits)

text \<open>
  What the default extractor returns for an endpoint slice: no URLs when
  there is no list of endpoints, else the non-empty \<open>url\<close> of every endpoint that is a map,
  in order; entries of another type are skipped and a malformed \<open>url\<close> is an error, not a
  shorter list.
\<close>

theorem default_urls_exact:
  assumes "ToUnstructured U ob = Inr m" and "NestedSlice U m [''status'', ''endpoints''] = Inr (eps, found)"
  shows "case DefaultExtractURLsFromEndpointSlice U ob of
      Inl _ \<Rightarrow> found \<and> (\<exists>ep \<in> set eps. \<exists>m. as_map U ep = Some m \<and> is_err (NestedString U m [''url'']))
    | Inr urls \<Rightarrow> urls = (if found then List.map_filter (endpoint_url U) eps else [])"
proof (cases found)
  case False
  with assms show ?thesis by (simp add: DefaultExtractURLsFromEndpointSlice_def)
next
  case True
  then have eq: "DefaultExtractURLsFromEndpointSlice U ob = endpoint_urls U eps []"
    using assms by (simp add: DefaultExtractURLsFromEndpointSlice_def)
  show ?thesis
  proof (cases "endpoint_urls U eps []")
    case (Inl err)
    then have "\<exists>ep \<in> set eps. \<exists>m. as_map U ep = Some m \<and> is_err (NestedString U m [''url''])"
      using endpoint_urls_ok [of eps U "[]"] by auto
    then show ?thesis using eq Inl True by simp
  next
    case (Inr urls)
    then show ?thesis using eq True endpoint_urls_result [OF Inr] by simp
  qed
qed

subsection \<open>Readiness\<close>

definition well_formed :: "('m, 'u, 'q) unstructured_api \<Rightarrow> 'u list \<Rightarrow> bool" where
  "well_formed U conds \<longleftrightarrow> (\<forall>c \<in> set conds. \<forall>m. as_map U c = Some m \<longrightarrow>
     \<not> is_err (NestedString U m [''type'']) \<and> \<not> is_err (NestedString U m [''status'']))"

definition has_condition :: "('m, 'u, 'q) unstructured_api \<Rightarrow> string \<Rightarrow> 'u \<Rightarrow> bool" where
  "has_condition U ty c \<longleftrightarrow> (\<exists>m a b. as_map U c = Some m \<and> NestedString U m [''type''] = Inr (ty, a) \<and>
     NestedString U m [''status''] = Inr (''True'', b))"

lemma condition_loop_iff:
  "well_formed U conds \<Longrightarrow> condition_loop U ty conds = Inr (\<exists>c \<in> set conds. has_condition U ty c)"
proof (induction conds)
  case (Cons c conds)
  have IH: "condition_loop U ty conds = Inr (\<exists>c \<in> set conds. has_condition U ty c)"
    using Cons by (simp add: well_formed_def)
  show ?case
  proof (cases "as_map U c")
    case None
    then show ?thesis using IH by (simp add: has_condition_def)
  next
    case (Some m)
    then obtain t a s b where "NestedString U m [''type''] = Inr (t, a)" "NestedString U m [''status''] = Inr (s, b)"
      using Cons.prems by (cases "NestedString U m [''type'']"; cases "NestedString U m [''status'']")
        (auto simp: well_formed_def)
    then show ?thesis using Some IH by (auto simp: has_condition_def)
  qed
qed simp

text \<open>What the object itself shows, and whether every condition of it can be read.\<close>

definition shows_condition :: "('m, 'u, 'q) unstructured_api \<Rightarrow> string \<Rightarrow> kobject \<Rightarrow> bool" where
  "shows_condition U ty ob \<longleftrightarrow> (\<exists>m conds. ToUnstructured U ob = Inr m \<and>
     NestedSlice U m [''status'', ''conditions''] = Inr (conds, True) \<and> (\<exists>c \<in> set conds. has_condition U ty c))"

definition readable_conditions :: "('m, 'u, 'q) unstructured_api \<Rightarrow> kobject \<Rightarrow> bool" where
  "readable_conditions U ob \<longleftrightarrow> (\<forall>m conds found. ToUnstructured U ob = Inr m \<longrightarrow>
     NestedSlice U m [''status'', ''conditions''] = Inr (conds, found) \<longrightarrow> well_formed U conds)"

lemma condition_loop_sound: "condition_loop U ty conds = Inr True \<Longrightarrow> \<exists>c \<in> set conds. has_condition U ty c"
  by (induction conds) (auto simp: has_condition_def split: option.splits sum.splits if_splits)

lemma condition_ready_sound: "ConditionReadyFunc U ty ob = Inr True \<Longrightarrow> shows_condition U ty ob"
  using condition_loop_sound [of U ty]
  by (auto simp: ConditionReadyFunc_def shows_condition_def split: sum.splits if_splits)

lemma condition_ready_complete:
  assumes "shows_condition U ty ob" and "readable_conditions U ob"
  shows "ConditionReadyFunc U ty ob = Inr True"
proof -
  obtain m conds where m: "ToUnstructured U ob = Inr m" "NestedSlice U m [''status'', ''conditions''] = Inr (conds, True)"
    and c: "\<exists>c \<in> set conds. has_condition U ty c" using assms(1) unfolding shows_condition_def by blast
  have "well_formed U conds" using assms(2) m unfolding readable_conditions_def by blast
  from condition_loop_iff [OF this, of ty] show ?thesis using m c by (simp add: ConditionReadyFunc_def)
qed

text \<open>
  A readiness filter accepts an object exactly when it has a list of conditions
  and one of them has the asked type and status \<open>True\<close>, whatever the other conditions are.
\<close>

theorem condition_ready_iff:
  assumes "ToUnstructured U ob = Inr m" and "NestedSlice U m [''status'', ''conditions''] = Inr (conds, found)"
    and "well_formed U conds"
  shows "ConditionReadyFunc U ty ob = Inr (found \<and> (\<exists>c \<in> set conds. has_condition U ty c))"
  using assms condition_loop_iff [OF assms(3), of ty] by (simp add: ConditionReadyFunc_def)

subsection \<open>Witnesses\<close>

text \<open>An instance whose values are maps of strings or plain strings.\<close>

type_synonym demo_map = "string \<rightharpoonup> string"

definition demo_unstructured :: "(demo_map + string) list \<Rightarrow> (demo_map, demo_map + string, nat) unstructured_api" where
  "demo_unstructured vals = \<lparr> ToUnstructured = (\<lambda>_. Inr Map.empty), NestedSlice = (\<lambda>_ _. Inr (vals, True)),
     NestedString = (\<lambda>m p. case m (hd p) of None \<Rightarrow> Inr ([], False) | Some s \<Rightarrow> Inr (s, True)),
     as_map = (\<lambda>v. case v of Inl m \<Rightarrow> Some m | Inr _ \<Rightarrow> None), jp_Parse = (\<lambda>_. Inr 0),
     jp_FindResults = (\<lambda>_ _. Inr [vals]), value_Kind = (\<lambda>_. KindInterface), value_String = (\<lambda>_. []),
     as_string = (\<lambda>v. case v of Inl _ \<Rightarrow> None | Inr s \<Rightarrow> Some s) \<rparr>"

theorem default_urls_exact_witness:
  "DefaultExtractURLsFromEndpointSlice
     (demo_unstructured [Inl [''url'' \<mapsto> ''https://a''], Inr ''x'', Inl Map.empty, Inl [''url'' \<mapsto> ''https://b'']])
     (demo_obj ''c1'' [] ''slice'' []) = Inr [''https://a'', ''https://b'']"
  using default_urls_exact [of "demo_unstructured [Inl [''url'' \<mapsto> ''https://a''], Inr ''x'', Inl Map.empty,
      Inl [''url'' \<mapsto> ''https://b'']]" "demo_obj ''c1'' [] ''slice'' []" Map.empty]
  by (simp add: demo_unstructured_def DefaultExtractURLsFromEndpointSlice_def List.map_filter_simps)

theorem condition_ready_iff_witness:
  "ConditionReadyFunc (demo_unstructured [Inl [''type'' \<mapsto> ''Bound'', ''status'' \<mapsto> ''False''],
      Inl [''type'' \<mapsto> ''Ready'', ''status'' \<mapsto> ''True'']]) ''Ready'' (demo_obj ''c1'' [] ''b'' []) = Inr True"
proof -
  let ?conds = "[Inl [''type'' \<mapsto> ''Bound'', ''status'' \<mapsto> ''False''],
      Inl [''type'' \<mapsto> ''Ready'', ''status'' \<mapsto> ''True'']] :: (demo_map + string) list"
  let ?U = "demo_unstructured ?conds" and ?ob = "demo_obj ''c1'' [] ''b'' []"
  have wf: "well_formed ?U ?conds"
    by (auto simp: well_formed_def demo_unstructured_def split: option.split)
  have "has_condition ?U ''Ready'' (?conds ! 1)"
    unfolding has_condition_def
    by (intro exI [of _ "[''type'' \<mapsto> ''Ready'', ''status'' \<mapsto> ''True'']"] exI [of _ True]) (simp add: demo_unstructured_def)
  then have ready: "\<exists>c \<in> set ?conds. has_condition ?U ''Ready'' c" by simp
  have "ToUnstructured ?U ?ob = Inr Map.empty"
    and "NestedSlice ?U Map.empty [''status'', ''conditions''] = Inr (?conds, True)"
    by (simp_all add: demo_unstructured_def)
  from condition_ready_iff [OF this wf] ready show ?thesis by simp
qed

end
