(* ===== verification/Endpoint.thy ===== *)
theory Endpoint
  imports Interfaces ScopedCluster Handlers Extractors
begin

text \<open>
  \<^verbatim>\<open>pkg/provider/provider.go\<close>, first part: the options and their defaults, and one
  watched endpoint, that is the callbacks that engage and disengage logical clusters as
  objects come and go behind a wildcard URL. The library's set of clusters, the recorder
  manager's two functions and the wildcard cache are fields of the endpoint, as in the
  struct, over the state \<open>'s\<close> they all keep; \<open>'p\<close> are recorder providers, \<open>'c\<close> clusters.
\<close>

subsection \<open>Options\<close>

record ('nc, 's) options =
  op_Scheme :: "nat option"
  op_EndpointSliceObject :: "kobject option"
  op_ExtractURLs :: "(kobject \<Rightarrow> string list result) option"
  op_ObjectToWatch :: "kobject option"
  op_Log :: "nat option"
  op_NewCluster :: "'nc option"
  op_AddFilter :: "(kobject \<Rightarrow> bool result) option"
  op_UpdateFilter :: "(kobject \<Rightarrow> bool result) option"
  op_Handlers :: "'s handler list"

text \<open>After \<open>defaults\<close> only the filters may still be nil.\<close>

record ('nc, 's) resolved_options =
  ro_Scheme :: nat
  ro_EndpointSliceObject :: kobject
  ro_ExtractURLs :: "kobject \<Rightarrow> string list result"
  ro_ObjectToWatch :: kobject
  ro_Log :: nat
  ro_NewCluster :: 'nc
  ro_AddFilter :: "(kobject \<Rightarrow> bool result) option"
  ro_UpdateFilter :: "(kobject \<Rightarrow> bool result) option"
  ro_Handlers :: "'s handler list"

text \<open>What the defaults are taken from.\<close>

record 'nc default_values =
  dv_scheme :: nat
  dv_slice :: kobject
  dv_extract :: "kobject \<Rightarrow> string list result"
  dv_binding :: kobject
  dv_log :: nat
  dv_new_cluster :: 'nc

definition or_default :: "'a option \<Rightarrow> 'a \<Rightarrow> 'a" where
  "or_default x d = (case x of None \<Rightarrow> d | Some v \<Rightarrow> v)"

definition options_defaults :: "'nc default_values \<Rightarrow> ('nc, 's) options \<Rightarrow> ('nc, 's) resolved_options" where
  "options_defaults D opts = \<lparr> ro_Scheme = or_default (op_Scheme opts) (dv_scheme D),
     ro_EndpointSliceObject = or_default (op_EndpointSliceObject opts) (dv_slice D),
     ro_ExtractURLs = or_default (op_ExtractURLs opts) (dv_extract D),
     ro_ObjectToWatch = or_default (op_ObjectToWatch opts) (dv_binding D),
     ro_Log = or_default (op_Log opts) (dv_log D),
     ro_NewCluster = or_default (op_NewCluster opts) (dv_new_cluster D),
     ro_AddFilter = op_AddFilter opts, ro_UpdateFilter = op_UpdateFilter opts,
     ro_Handlers = op_Handlers opts \<rparr>"

subsection \<open>The watched endpoint\<close>

type_synonym ('p, 'c) new_cluster = "rest_config \<Rightarrow> lcname \<Rightarrow> nat \<Rightarrow> nat \<Rightarrow> 'p \<Rightarrow> 'c result"

text \<open>\<open>we_cache\<close> is the wildcard cache's handle, \<open>we_crt\<close> its operations.\<close>

record ('p, 'c, 'i, 's) watchedEndpoint =
  we_ctx :: nat
  we_opts :: "(('p, 'c) new_cluster, 's) resolved_options"
  we_config :: rest_config
  we_cache :: nat
  we_crt :: "('i, 's) crt"
  we_getCluster :: "string \<Rightarrow> 's \<Rightarrow> 'c result"
  we_addCluster :: "string \<Rightarrow> 'c \<Rightarrow> 's \<Rightarrow> error option \<times> 's"
  we_removeCluster :: "string \<Rightarrow> 's \<Rightarrow> 's"
  we_getRecorderProvider :: "rest_config \<Rightarrow> lcname \<Rightarrow> 's \<Rightarrow> 'p result \<times> 's"
  we_stopRecorderProvider :: "lcname \<Rightarrow> 's \<Rightarrow> 's outcome"

text \<open>\<open>logObject\<close> calls the object's methods, so a nil interface panics.\<close>

definition logObject :: "kobject option \<Rightarrow> (string \<rightharpoonup> string) outcome" where
  "logObject ob0 =
     (case ob0 of
        None \<Rightarrow> Panic ''invalid memory address or nil pointer dereference''
      | Some ob \<Rightarrow>
          let data = [''name'' \<mapsto> ob_name ob, ''namespace'' \<mapsto> ob_namespace ob];
              data = (if gomap_read (ob_annotations ob) ''kcp.io/cluster'' \<noteq> []
                      then data(''cluster'' \<mapsto> gomap_read (ob_annotations ob) ''kcp.io/cluster'') else data);
              data = (if gomap_read (ob_annotations ob) ''kcp.io/path'' \<noteq> []
                      then data(''workspace'' \<mapsto> gomap_read (ob_annotations ob) ''kcp.io/path'') else data)
          in Ret data)"

definition we_update ::
  "kcpapi \<Rightarrow> ('p, 'c, 'i, 's) watchedEndpoint \<Rightarrow> kobject \<Rightarrow> 's \<Rightarrow> error option \<times> 's" where
  "we_update K W ob s =
     (let clusterName = lc_from K ob
      in case we_getCluster W (lc_string K clusterName) s of
           Inr _ \<Rightarrow> (None, s)
         | Inl _ \<Rightarrow>
             (case we_getRecorderProvider W (we_config W) clusterName s of
                (Inl err, s1) \<Rightarrow> (Some (Errorf ''failed to get broadcaster: %w'' [] [err]), s1)
              | (Inr recorder, s1) \<Rightarrow>
                  (case ro_NewCluster (we_opts W) (we_config W) clusterName (we_cache W)
                          (ro_Scheme (we_opts W)) recorder of
                     Inl err \<Rightarrow> (Some (Errorf ''failed to create cluster %q: %w'' [clusterName] [err]), s1)
                   | Inr cl \<Rightarrow>
                       (case we_addCluster W (lc_string K clusterName) cl s1 of
                          (Some err, s2) \<Rightarrow>
                            (Some (Errorf ''failed to add cluster %q: %w'' [clusterName] [err]), s2)
                        | (None, s2) \<Rightarrow> (None, s2)))))"

text \<open>A filter that fails or refuses ends the callback; no filter accepts everything.\<close>

definition accepts :: "(kobject \<Rightarrow> bool result) option \<Rightarrow> kobject \<Rightarrow> bool" where
  "accepts filter0 t \<longleftrightarrow> (case filter0 of None \<Rightarrow> True | Some f \<Rightarrow> f t = Inr True)"

definition we_AddFunc ::
  "kcpapi \<Rightarrow> ('p, 'c, 'i, 's) watchedEndpoint \<Rightarrow> any_value \<Rightarrow> 's \<Rightarrow> 's outcome" where
  "we_AddFunc K W ob s =
     bind_outcome (assert_object ob) (\<lambda>t. bind_outcome (logObject (Some t)) (\<lambda>_.
       if \<not> accepts (ro_AddFilter (we_opts W)) t then Ret s
       else case we_update K W t s of (_, s') \<Rightarrow> Ret (RunOnAdd (ro_Handlers (we_opts W)) t s')))"

definition we_UpdateFunc ::
  "kcpapi \<Rightarrow> ('p, 'c, 'i, 's) watchedEndpoint \<Rightarrow> any_value \<Rightarrow> any_value \<Rightarrow> 's \<Rightarrow> 's outcome" where
  "we_UpdateFunc K W oldObj newObj s =
     bind_outcome (assert_object newObj) (\<lambda>t. bind_outcome (logObject (Some t)) (\<lambda>_.
       if \<not> accepts (ro_UpdateFilter (we_opts W)) t then Ret s
       else case we_update K W t s of (_, s') \<Rightarrow>
         bind_outcome (assert_object oldObj) (\<lambda>old.
           Ret (RunOnUpdate (ro_Handlers (we_opts W)) old t s'))))"

text \<open>
  The nested assertions of \<open>DeleteFunc\<close>: when one fails, \<open>t\<close> is the nil interface and is
  passed to \<open>logObject\<close>.
\<close>

definition delete_target :: "any_value \<Rightarrow> kobject option outcome" where
  "delete_target ob =
     (case ob of
        Obj t \<Rightarrow> Ret (Some t)
      | Tombstone _ (Obj t) \<Rightarrow> Ret (Some t)
      | Tombstone _ _ \<Rightarrow> bind_outcome (logObject None) (\<lambda>_. Ret None)
      | Other _ \<Rightarrow> bind_outcome (logObject None) (\<lambda>_. Ret None))"

definition we_DeleteFunc ::
  "kcpapi \<Rightarrow> ('p, 'c, 'i, 's) watchedEndpoint \<Rightarrow> any_value \<Rightarrow> 's \<Rightarrow> 's outcome" where
  "we_DeleteFunc K W ob s =
     bind_outcome (delete_target ob) (\<lambda>target.
       case target of
         None \<Rightarrow> Ret s
       | Some t \<Rightarrow>
           bind_outcome (logObject (Some t)) (\<lambda>_.
             let clusterName = lc_from K t
             in case GetSharedInformer (we_crt W) (ro_ObjectToWatch (we_opts W)) s of
                  (Inl err, s1) \<Rightarrow> Ret s1
                | (Inr (shInf, _, _), s1) \<Rightarrow>
                    (case IndexKeys (GetIndexer (we_crt W) shInf s1) (kc_cluster_index K)
                            (lc_string K clusterName) of
                       Inl err \<Rightarrow> Ret s1
                     | Inr keys \<Rightarrow>
                         if length keys > 0 then Ret s1
                         else bind_outcome (we_stopRecorderProvider W clusterName s1) (\<lambda>s2.
                           let s3 = we_removeCluster W (lc_string K clusterName) s2
                           in Ret (RunOnDelete (ro_Handlers (we_opts W)) t s3)))))"

text \<open>
  \<open>start\<close> gets the informer of the watched object, adds the three callbacks as its handler
  and starts the cache in the background; \<open>add\<close> is the informer's \<open>AddEventHandler\<close>.
\<close>

definition we_start ::
  "('i \<Rightarrow> ('p, 'c, 'i, 's) watchedEndpoint \<Rightarrow> 's \<Rightarrow> error option \<times> 's) \<Rightarrow> (nat \<Rightarrow> 's \<Rightarrow> 's)
     \<Rightarrow> ('p, 'c, 'i, 's) watchedEndpoint \<Rightarrow> 's \<Rightarrow> error option \<times> 's" where
  "we_start add go_cache_start W s =
     (case Cache_GetInformer (we_crt W) (ro_ObjectToWatch (we_opts W)) s of
        (Inl err, s1) \<Rightarrow>
          (Some (Errorf ''failed to get %T informer: %w'' [ob_type (ro_ObjectToWatch (we_opts W))] [err]), s1)
      | (Inr informer, s1) \<Rightarrow>
          (case add informer W s1 of
             (Some err, s2) \<Rightarrow> (Some (Errorf ''error adding event handler: %w'' [] [err]), s2)
           | (None, s2) \<Rightarrow> (None, go_cache_start (we_ctx W) s2)))"

text \<open>
  \<open>newWatchedEndpoint\<close>: a context of its own, cancelled on every failure. \<open>with_cancel\<close>
  makes a context, \<open>cancel\<close> cancels one, \<open>crt_of\<close> are the operations of the cache created.
\<close>

definition newWatchedEndpoint ::
  "('s \<Rightarrow> nat \<times> 's) \<Rightarrow> (nat \<Rightarrow> 's \<Rightarrow> 's) \<Rightarrow> wildcard_env \<Rightarrow> (nat \<Rightarrow> ('i, 's) crt)
     \<Rightarrow> ('i \<Rightarrow> ('p, 'c, 'i, 's) watchedEndpoint \<Rightarrow> 's \<Rightarrow> error option \<times> 's) \<Rightarrow> (nat \<Rightarrow> 's \<Rightarrow> 's)
     \<Rightarrow> rest_config \<Rightarrow> ('p, 'c, 'i, 's) watchedEndpoint \<Rightarrow> 's
     \<Rightarrow> ('p, 'c, 'i, 's) watchedEndpoint result \<times> 's" where
  "newWatchedEndpoint with_cancel cancel wenv crt_of add go_cache_start cfg we s =
     (case with_cancel s of
        (ctx, s1) \<Rightarrow>
          let we = we\<lparr> we_ctx := ctx, we_config := cfg \<rparr>
          in case NewWildcardCache wenv (we_config we)
                    \<lparr> co_Scheme = Some (ro_Scheme (we_opts we)), co_HTTPClient = None, co_Mapper = None \<rparr> of
               Inl err \<Rightarrow> (Inl (Errorf ''error starting cache: %w'' [] [err]), cancel ctx s1)
             | Inr wc \<Rightarrow>
                 let we = we\<lparr> we_cache := wc_Cache wc, we_crt := crt_of (wc_Cache wc) \<rparr>
                 in case we_start add go_cache_start we s1 of
                      (Some err, s2) \<Rightarrow> (Inl err, cancel ctx s2)
                    | (None, s2) \<Rightarrow> (Inr we, s2))"

subsection \<open>What the callbacks rely on\<close>

definition engaged :: "('p, 'c, 'i, 's) watchedEndpoint \<Rightarrow> 's \<Rightarrow> string set" where
  "engaged W s = {n. \<not> is_err (we_getCluster W n s)}"

text \<open>
  The documented behaviour of the collaborators, when nothing fails: adding and removing a
  cluster changes the set of clusters by that name, getting and stopping recorder providers
  and the handlers do not change it; and \<open>objs s\<close>, the objects in the watched informer's
  store, are the ones its cluster index knows. \<open>put\<close> and \<open>del\<close> are the informer's own
  updates of its store, made before it calls back.
\<close>

definition endpoint_ok ::
  "kcpapi \<Rightarrow> accessor \<Rightarrow> ('p, 'c, 'i, 's) watchedEndpoint \<Rightarrow> ('s \<Rightarrow> kobject set)
     \<Rightarrow> (kobject \<Rightarrow> 's \<Rightarrow> 's) \<Rightarrow> (kobject \<Rightarrow> 's \<Rightarrow> 's) \<Rightarrow> bool" where
  "endpoint_ok K acc W objs put del \<longleftrightarrow> kcp_ok K \<and> accessor_ok acc \<and>
     (\<forall>ob s. engaged W (put ob s) = engaged W s \<and> objs (put ob s) = insert ob (objs s)) \<and>
     (\<forall>ob s. engaged W (del ob s) = engaged W s \<and> objs (del ob s) = objs s - {ob}) \<and>
     (\<forall>n c s. \<exists>s'. we_addCluster W n c s = (None, s') \<and> engaged W s' = insert n (engaged W s) \<and> objs s' = objs s) \<and>
     (\<forall>n s. engaged W (we_removeCluster W n s) = engaged W s - {n} \<and> objs (we_removeCluster W n s) = objs s) \<and>
     (\<forall>cfg n s. \<exists>p s'. we_getRecorderProvider W cfg n s = (Inr p, s') \<and> engaged W s' = engaged W s \<and> objs s' = objs s) \<and>
     (\<forall>n s. \<exists>s'. we_stopRecorderProvider W n s = Ret s' \<and> engaged W s' = engaged W s \<and> objs s' = objs s) \<and>
     (\<forall>cfg n ca sch p. \<exists>c. ro_NewCluster (we_opts W) cfg n ca sch p = Inr c) \<and>
     (\<forall>E S. keeping_handlers (\<lambda>s. engaged W s = E \<and> objs s = S) (ro_Handlers (we_opts W))) \<and>
     (\<forall>s. \<exists>i g sc s'. GetSharedInformer (we_crt W) (ro_ObjectToWatch (we_opts W)) s = (Inr (i, g, sc), s') \<and>
        engaged W s' = engaged W s \<and> objs s' = objs s \<and>
        cluster_indexed K acc (GetIndexer (we_crt W) i s') \<and>
        set (ListAll (GetIndexer (we_crt W) i s')) = Obj ` objs s)"

lemma endpoint_okD:
  assumes "endpoint_ok K acc W objs put del"
  shows "kcp_ok K" and "accessor_ok acc"
    and "engaged W (put ob s) = engaged W s" and "objs (put ob s) = insert ob (objs s)"
    and "engaged W (del ob s) = engaged W s" and "objs (del ob s) = objs s - {ob}"
    and "\<exists>s'. we_addCluster W n c s = (None, s') \<and> engaged W s' = insert n (engaged W s) \<and> objs s' = objs s"
    and "engaged W (we_removeCluster W n s) = engaged W s - {n}" and "objs (we_removeCluster W n s) = objs s"
    and "\<exists>p s'. we_getRecorderProvider W cfg n s = (Inr p, s') \<and> engaged W s' = engaged W s \<and> objs s' = objs s"
    and "\<exists>s'. we_stopRecorderProvider W n s = Ret s' \<and> engaged W s' = engaged W s \<and> objs s' = objs s"
    and "\<exists>c. ro_NewCluster (we_opts W) cfg n ca sch p = Inr c"
    and "keeping_handlers (\<lambda>s. engaged W s = E \<and> objs s = S) (ro_Handlers (we_opts W))"
    and "\<exists>i g sc s'. GetSharedInformer (we_crt W) (ro_ObjectToWatch (we_opts W)) s = (Inr (i, g, sc), s') \<and>
        engaged W s' = engaged W s \<and> objs s' = objs s \<and>
        cluster_indexed K acc (GetIndexer (we_crt W) i s') \<and>
        set (ListAll (GetIndexer (we_crt W) i s')) = Obj ` objs s"
  using assms by (simp_all add: endpoint_ok_def)

subsection \<open>The callbacks when nothing fails\<close>

lemma we_update_fine:
  assumes "endpoint_ok K acc W objs put del"
  shows "\<exists>s'. we_update K W ob s = (None, s') \<and> engaged W s' = insert (lc_from K ob) (engaged W s) \<and> objs s' = objs s"
proof -
  have str: "lc_string K (lc_from K ob) = lc_from K ob" using endpoint_okD(1) [OF assms] by (rule kcp_okD)
  show ?thesis
  proof (cases "we_getCluster W (lc_from K ob) s")
    case (Inr c)
    then have "lc_from K ob \<in> engaged W s" by (simp add: engaged_def)
    then show ?thesis using Inr by (simp add: we_update_def str insert_absorb)
  next
    case (Inl err)
    obtain p s1 where p: "we_getRecorderProvider W (we_config W) (lc_from K ob) s = (Inr p, s1)"
      "engaged W s1 = engaged W s" "objs s1 = objs s"
      using endpoint_okD(10) [OF assms] by blast
    obtain c where c: "ro_NewCluster (we_opts W) (we_config W) (lc_from K ob) (we_cache W) (ro_Scheme (we_opts W)) p = Inr c"
      using endpoint_okD(12) [OF assms] by blast
    obtain s2 where "we_addCluster W (lc_from K ob) c s1 = (None, s2)"
      "engaged W s2 = insert (lc_from K ob) (engaged W s1)" "objs s2 = objs s1"
      using endpoint_okD(7) [OF assms] by blast
    then show ?thesis using Inl p c by (simp add: we_update_def str)
  qed
qed

lemma logObject_Some: "\<exists>d. logObject (Some t) = Ret d"
  by (simp add: logObject_def Let_def)

lemma handlers_keep:
  assumes "endpoint_ok K acc W objs put del"
  shows "engaged W (RunOnAdd (ro_Handlers (we_opts W)) ob s) = engaged W s"
    and "objs (RunOnAdd (ro_Handlers (we_opts W)) ob s) = objs s"
    and "engaged W (RunOnUpdate (ro_Handlers (we_opts W)) old ob s) = engaged W s"
    and "objs (RunOnUpdate (ro_Handlers (we_opts W)) old ob s) = objs s"
    and "engaged W (RunOnDelete (ro_Handlers (we_opts W)) ob s) = engaged W s"
    and "objs (RunOnDelete (ro_Handlers (we_opts W)) ob s) = objs s"
  using keeping_handlers.keeps_RunOnAdd_sub [OF endpoint_okD(13) [OF assms], of "ro_Handlers (we_opts W)" s "engaged W s" "objs s" ob]
    keeping_handlers.keeps_RunOnUpdate_sub [OF endpoint_okD(13) [OF assms], of "ro_Handlers (we_opts W)" s "engaged W s" "objs s" old ob]
    keeping_handlers.keeps_RunOnDelete_sub [OF endpoint_okD(13) [OF assms], of "ro_Handlers (we_opts W)" s "engaged W s" "objs s" ob]
  by simp_all

lemma AddFunc_fine:
  assumes "endpoint_ok K acc W objs put del"
  shows "\<exists>s'. we_AddFunc K W (Obj ob) s = Ret s' \<and> objs s' = objs s \<and>
    engaged W s' = (if accepts (ro_AddFilter (we_opts W)) ob then insert (lc_from K ob) (engaged W s) else engaged W s)"
proof -
  obtain d where "logObject (Some ob) = Ret d" using logObject_Some by blast
  moreover obtain s1 where "we_update K W ob s = (None, s1)"
    "engaged W s1 = insert (lc_from K ob) (engaged W s)" "objs s1 = objs s"
    using we_update_fine [OF assms] by blast
  ultimately show ?thesis by (simp add: we_AddFunc_def handlers_keep [OF assms])
qed

lemma UpdateFunc_fine:
  assumes "endpoint_ok K acc W objs put del"
  shows "\<exists>s'. we_UpdateFunc K W (Obj old) (Obj ob) s = Ret s' \<and> objs s' = objs s \<and>
    engaged W s' = (if accepts (ro_UpdateFilter (we_opts W)) ob then insert (lc_from K ob) (engaged W s) else engaged W s)"
proof -
  obtain d where "logObject (Some ob) = Ret d" using logObject_Some by blast
  moreover obtain s1 where "we_update K W ob s = (None, s1)"
    "engaged W s1 = insert (lc_from K ob) (engaged W s)" "objs s1 = objs s"
    using we_update_fine [OF assms] by blast
  ultimately show ?thesis by (simp add: we_UpdateFunc_def handlers_keep [OF assms])
qed

lemma cluster_keys:
  assumes "kcp_ok K" and "accessor_ok acc" and "cluster_indexed K acc ix" and "set (ListAll ix) = Obj ` S"
  shows "\<exists>ks. IndexKeys ix (kc_cluster_index K) cl = Inr ks \<and> (ks = [] \<longleftrightarrow> (\<forall>ob \<in> S. lc_from K ob \<noteq> cl))"
proof -
  have ix: "indexer_ok ix" "GetIndexers ix (kc_cluster_index K) = Some (ClusterIndexFunc K acc)"
    using assms(3) by (simp_all add: cluster_indexed_def)
  obtain xs ks where ks: "IndexKeys ix (kc_cluster_index K) cl = Inr ks"
    "set xs = {x \<in> set (ListAll ix). yields (ClusterIndexFunc K acc) cl x}" "set ks = KeyOf ix ` set xs"
    by (rule indexer_ok_ByIndex [OF ix, of cl])
  have "yields (ClusterIndexFunc K acc) cl (Obj ob) \<longleftrightarrow> lc_from K ob = cl" for ob
    using assms(1,2) by (auto simp: yields_def kcp_okD)
  then have xs: "set xs = Obj ` {ob \<in> S. lc_from K ob = cl}" using ks(2) assms(4) by auto
  have "set ks = {} \<longleftrightarrow> {ob \<in> S. lc_from K ob = cl} = {}" unfolding ks(3) xs by simp
  then have "ks = [] \<longleftrightarrow> {ob \<in> S. lc_from K ob = cl} = {}"
    by simp
  then show ?thesis using ks(1) by auto
qed

text \<open>Whether the callback goes on to remove the cluster.\<close>

lemma DeleteFunc_eval:
  assumes "endpoint_ok K acc W objs put del" and "delete_target x = Ret (Some ob)"
  obtains s1 s2 where "snd (GetSharedInformer (we_crt W) (ro_ObjectToWatch (we_opts W)) s) = s1"
    and "engaged W s1 = engaged W s" and "objs s1 = objs s"
    and "we_stopRecorderProvider W (lc_from K ob) s1 = Ret s2" and "engaged W s2 = engaged W s" and "objs s2 = objs s"
    and "we_DeleteFunc K W x s = Ret (if \<exists>o' \<in> objs s. lc_from K o' = lc_from K ob then s1
      else RunOnDelete (ro_Handlers (we_opts W)) ob (we_removeCluster W (lc_from K ob) s2))"
proof -
  note ok = assms(1)
  have str: "lc_string K (lc_from K ob) = lc_from K ob" using endpoint_okD(1) [OF ok] by (rule kcp_okD)
  obtain d where d: "logObject (Some ob) = Ret d" using logObject_Some by blast
  obtain i g sc s1 where i: "GetSharedInformer (we_crt W) (ro_ObjectToWatch (we_opts W)) s = (Inr (i, g, sc), s1)"
    "engaged W s1 = engaged W s" "objs s1 = objs s"
    "cluster_indexed K acc (GetIndexer (we_crt W) i s1)" "set (ListAll (GetIndexer (we_crt W) i s1)) = Obj ` objs s"
    by (insert endpoint_okD(14) [OF ok, of s], elim exE conjE, rule that)
  obtain ks where ks: "IndexKeys (GetIndexer (we_crt W) i s1) (kc_cluster_index K) (lc_from K ob) = Inr ks"
    "ks = [] \<longleftrightarrow> (\<forall>o' \<in> objs s. lc_from K o' \<noteq> lc_from K ob)"
    using cluster_keys [OF endpoint_okD(1,2) [OF ok] i(4,5)] by blast
  obtain s2 where s2: "we_stopRecorderProvider W (lc_from K ob) s1 = Ret s2" "engaged W s2 = engaged W s1" "objs s2 = objs s1"
    using endpoint_okD(11) [OF ok] by blast
  have "we_DeleteFunc K W x s = Ret (if \<exists>o' \<in> objs s. lc_from K o' = lc_from K ob then s1
      else RunOnDelete (ro_Handlers (we_opts W)) ob (we_removeCluster W (lc_from K ob) s2))"
    using ks s2(1) i(1) d assms(2) by (auto simp add: we_DeleteFunc_def str)
  then show thesis using that i(1-3) s2 by simp
qed

lemma DeleteFunc_fine:
  assumes "endpoint_ok K acc W objs put del" and "delete_target x = Ret (Some ob)"
  shows "\<exists>s'. we_DeleteFunc K W x s = Ret s' \<and> objs s' = objs s \<and>
    engaged W s' = (if \<exists>o' \<in> objs s. lc_from K o' = lc_from K ob then engaged W s
                    else engaged W s - {lc_from K ob})"
  by (rule DeleteFunc_eval [OF assms, of s])
     (simp add: handlers_keep [OF assms(1)] endpoint_okD(8,9) [OF assms(1)])

subsection \<open>Clusters follow objects\<close>

text \<open>
  One change of the informer's store and the callback for it; a deletion may come with the
  object or with a tombstone of it.
\<close>

datatype change = NewObject kobject | ChangedObject kobject kobject | GoneObject kobject | MissedDelete string kobject

fun observe ::
  "kcpapi \<Rightarrow> ('p, 'c, 'i, 's) watchedEndpoint \<Rightarrow> (kobject \<Rightarrow> 's \<Rightarrow> 's) \<Rightarrow> (kobject \<Rightarrow> 's \<Rightarrow> 's)
     \<Rightarrow> change \<Rightarrow> 's \<Rightarrow> 's outcome" where
  "observe K W put del (NewObject ob) s = we_AddFunc K W (Obj ob) (put ob s)"
| "observe K W put del (ChangedObject old ob) s = we_UpdateFunc K W (Obj old) (Obj ob) (put ob (del old s))"
| "observe K W put del (GoneObject ob) s = we_DeleteFunc K W (Obj ob) (del ob s)"
| "observe K W put del (MissedDelete key ob) s = we_DeleteFunc K W (Tombstone key (Obj ob)) (del ob s)"

fun observe_all ::
  "kcpapi \<Rightarrow> ('p, 'c, 'i, 's) watchedEndpoint \<Rightarrow> (kobject \<Rightarrow> 's \<Rightarrow> 's) \<Rightarrow> (kobject \<Rightarrow> 's \<Rightarrow> 's)
     \<Rightarrow> change list \<Rightarrow> 's \<Rightarrow> 's outcome" where
  "observe_all K W put del [] s = Ret s"
| "observe_all K W put del (x # xs) s = bind_outcome (observe K W put del x s) (observe_all K W put del xs)"

text \<open>An object that changes stays in its logical cluster.\<close>

fun stays :: "kcpapi \<Rightarrow> change \<Rightarrow> bool" where
  "stays K (ChangedObject old ob) \<longleftrightarrow> lc_from K old = lc_from K ob"
| "stays K _ \<longleftrightarrow> True"

definition no_filters :: "('p, 'c, 'i, 's) watchedEndpoint \<Rightarrow> bool" where
  "no_filters W \<longleftrightarrow> ro_AddFilter (we_opts W) = None \<and> ro_UpdateFilter (we_opts W) = None"

definition tracks :: "kcpapi \<Rightarrow> ('p, 'c, 'i, 's) watchedEndpoint \<Rightarrow> ('s \<Rightarrow> kobject set) \<Rightarrow> 's \<Rightarrow> bool" where
  "tracks K W objs s \<longleftrightarrow> engaged W s \<subseteq> lc_from K ` objs s \<and>
     (no_filters W \<longrightarrow> engaged W s = lc_from K ` objs s)"

lemma tracks_grow:
  assumes "tracks K W objs s" and "lc_from K ` objs s' = insert c (lc_from K ` objs s)"
    and "engaged W s' = (if b then insert c (engaged W s) else engaged W s)" and "no_filters W \<Longrightarrow> b"
  shows "tracks K W objs s'"
  using assms(1,4) unfolding tracks_def assms(2,3) by (cases b) auto

lemma tracks_shrink:
  assumes "tracks K W objs s" and "objs s' = objs s - {ob}"
    and "engaged W s' = (if \<exists>o' \<in> objs s'. lc_from K o' = lc_from K ob then engaged W s
                         else engaged W s - {lc_from K ob})"
  shows "tracks K W objs s'"
proof (cases "\<exists>o' \<in> objs s'. lc_from K o' = lc_from K ob")
  case True
  then obtain o' where o': "o' \<in> objs s'" "lc_from K o' = lc_from K ob" by blast
  have "insert ob (objs s') = insert ob (objs s)" using assms(2) by auto
  then have "insert (lc_from K ob) (lc_from K ` objs s') = insert (lc_from K ob) (lc_from K ` objs s)"
    by (metis image_insert)
  moreover have "lc_from K ob \<in> lc_from K ` objs s'"
    by (rule image_eqI [where x = o']) (simp_all add: o')
  moreover have "lc_from K ob \<in> lc_from K ` objs s"
    by (rule image_eqI [where x = o']) (use o' assms(2) in simp_all)
  ultimately have "lc_from K ` objs s' = lc_from K ` objs s" by (simp add: insert_absorb)
  then show ?thesis using assms(1,3) True by (simp add: tracks_def)
next
  case False
  then have "lc_from K ` objs s' = lc_from K ` objs s - {lc_from K ob}" using assms(2) by auto
  then show ?thesis using assms(1,3) False by (auto simp: tracks_def)
qed

text \<open>The store and the engaged clusters after a change, computed.\<close>

fun objs_after :: "change \<Rightarrow> kobject set \<Rightarrow> kobject set" where
  "objs_after (NewObject ob) S = insert ob S"
| "objs_after (ChangedObject old ob) S = insert ob (S - {old})"
| "objs_after (GoneObject ob) S = S - {ob}"
| "objs_after (MissedDelete key ob) S = S - {ob}"

fun engaged_after ::
  "kcpapi \<Rightarrow> ('p, 'c, 'i, 's) watchedEndpoint \<Rightarrow> change \<Rightarrow> kobject set \<Rightarrow> string set \<Rightarrow> string set" where
  "engaged_after K W (NewObject ob) S C = (if accepts (ro_AddFilter (we_opts W)) ob then insert (lc_from K ob) C else C)"
| "engaged_after K W (ChangedObject old ob) S C =
     (if accepts (ro_UpdateFilter (we_opts W)) ob then insert (lc_from K ob) C else C)"
| "engaged_after K W (GoneObject ob) S C = (if \<exists>o' \<in> S - {ob}. lc_from K o' = lc_from K ob then C else C - {lc_from K ob})"
| "engaged_after K W (MissedDelete key ob) S C =
     (if \<exists>o' \<in> S - {ob}. lc_from K o' = lc_from K ob then C else C - {lc_from K ob})"

lemma observe_eval:
  assumes "endpoint_ok K acc W objs put del"
  shows "\<exists>s'. observe K W put del x s = Ret s' \<and> objs s' = objs_after x (objs s) \<and>
    engaged W s' = engaged_after K W x (objs s) (engaged W s)"
proof (cases x)
  case (NewObject ob)
  then show ?thesis using AddFunc_fine [OF assms, of ob "put ob s"] by (simp add: endpoint_okD(3,4) [OF assms] cong: if_cong split del: if_split)
next
  case (ChangedObject old ob)
  then show ?thesis using UpdateFunc_fine [OF assms, of old ob "put ob (del old s)"]
    by (simp add: endpoint_okD(3-6) [OF assms] cong: if_cong split del: if_split)
next
  case (GoneObject ob)
  then show ?thesis using DeleteFunc_fine [OF assms, of "Obj ob" ob "del ob s"]
    by (simp add: endpoint_okD(5,6) [OF assms] delete_target_def cong: if_cong split del: if_split)
next
  case (MissedDelete key ob)
  then show ?thesis using DeleteFunc_fine [OF assms, of "Tombstone key (Obj ob)" ob "del ob s"]
    by (simp add: endpoint_okD(5,6) [OF assms] delete_target_def cong: if_cong split del: if_split)
qed

lemma observe_result:
  assumes "endpoint_ok K acc W objs put del"
  shows "returned (observe K W put del x s)"
    and "observe K W put del x s = Ret s' \<Longrightarrow> objs s' = objs_after x (objs s)"
    and "observe K W put del x s = Ret s' \<Longrightarrow> engaged W s' = engaged_after K W x (objs s) (engaged W s)"
  using observe_eval [OF assms, of x s] by auto

lemma observe_tracks:
  assumes ok: "endpoint_ok K acc W objs put del" and tr: "tracks K W objs s" and "stays K x"
  shows "\<exists>s'. observe K W put del x s = Ret s' \<and> tracks K W objs s'"
proof -
  obtain s' where s': "observe K W put del x s = Ret s'" "objs s' = objs_after x (objs s)"
    "engaged W s' = engaged_after K W x (objs s) (engaged W s)"
    using observe_eval [OF ok] by blast
  have "tracks K W objs s'"
  proof (cases x)
    case (NewObject ob)
    then have e: "engaged W s' = (if accepts (ro_AddFilter (we_opts W)) ob then insert (lc_from K ob) (engaged W s) else engaged W s)"
      using s'(3) by (simp split del: if_split)
    show ?thesis
      by (rule tracks_grow [OF tr _ e]) (simp_all add: s'(2) NewObject no_filters_def accepts_def)
  next
    case (ChangedObject old ob)
    then have "lc_from K ` objs s' = insert (lc_from K ob) (lc_from K ` objs s)" using assms(3) s'(2) by auto
    moreover have "engaged W s' = (if accepts (ro_UpdateFilter (we_opts W)) ob then insert (lc_from K ob) (engaged W s) else engaged W s)"
      using s'(3) ChangedObject by (simp split del: if_split)
    ultimately show ?thesis by (rule tracks_grow [OF tr]) (simp add: no_filters_def accepts_def)
  next
    case (GoneObject ob)
    then show ?thesis using s'(2,3) by (intro tracks_shrink [OF tr, of s' ob]) (simp_all split del: if_split)
  next
    case (MissedDelete key ob)
    then show ?thesis using s'(2,3) by (intro tracks_shrink [OF tr, of s' ob]) (simp_all split del: if_split)
  qed
  then show ?thesis using s'(1) by blast
qed

lemma observe_all_tracks:
  assumes "endpoint_ok K acc W objs put del" and "tracks K W objs s" and "\<forall>x \<in> set xs. stays K x"
  shows "\<exists>s'. observe_all K W put del xs s = Ret s' \<and> tracks K W objs s'"
  using assms(2,3)
proof (induction xs arbitrary: s)
  case (Cons x xs)
  obtain s1 where "observe K W put del x s = Ret s1" "tracks K W objs s1"
    using observe_tracks [OF assms(1) Cons.prems(1), of x] Cons.prems(2) by auto
  then show ?case using Cons.IH [of s1] Cons.prems(2) by simp
qed simp

text \<open>
  Property C6. As objects appear, change and disappear behind an endpoint, the engaged
  clusters follow: no callback panics, a cluster is engaged only while the endpoint has an
  object of it, and without filters exactly then; deleting one of several objects of a
  cluster does not disengage it.
\<close>

theorem engaged_clusters_follow_objects:
  assumes "endpoint_ok K acc W objs put del" and "tracks K W objs s" and "\<forall>x \<in> set xs. stays K x"
  shows "\<exists>s'. observe_all K W put del xs s = Ret s' \<and> engaged W s' \<subseteq> lc_from K ` objs s' \<and>
    (no_filters W \<longrightarrow> engaged W s' = lc_from K ` objs s')"
  using observe_all_tracks [OF assms] by (auto simp: tracks_def)

subsection \<open>What the callbacks may change\<close>

text \<open>
  The collaborators a callback calls for a change, each of which goes from one state to another
  only as \<open>R\<close> allows. \<open>add\<close> is asked only about the cluster of the changed object and about
  clusters \<open>NewCluster\<close> built.
\<close>

fun changed_object :: "change \<Rightarrow> kobject" where
  "changed_object (NewObject ob) = ob"
| "changed_object (ChangedObject old ob) = ob"
| "changed_object (GoneObject ob) = ob"
| "changed_object (MissedDelete key ob) = ob"

definition built :: "('p, 'c, 'i, 's) watchedEndpoint \<Rightarrow> lcname \<Rightarrow> 'c \<Rightarrow> bool" where
  "built W cl c \<longleftrightarrow> (\<exists>p. ro_NewCluster (we_opts W) (we_config W) cl (we_cache W) (ro_Scheme (we_opts W)) p = Inr c)"

definition allowed_by ::
  "kcpapi \<Rightarrow> ('s \<Rightarrow> 's \<Rightarrow> bool) \<Rightarrow> ('p, 'c, 'i, 's) watchedEndpoint \<Rightarrow> (kobject \<Rightarrow> 's \<Rightarrow> 's) \<Rightarrow> (kobject \<Rightarrow> 's \<Rightarrow> 's)
     \<Rightarrow> kobject \<Rightarrow> bool" where
  "allowed_by K R W put del ob \<longleftrightarrow> step_relation R \<and> (\<forall>ob s. R s (put ob s)) \<and> (\<forall>ob s. R s (del ob s)) \<and>
     (\<forall>c s. built W (lc_from K ob) c \<longrightarrow> R s (snd (we_addCluster W (lc_string K (lc_from K ob)) c s))) \<and>
     (\<forall>s. R s (we_removeCluster W (lc_string K (lc_from K ob)) s)) \<and>
     (\<forall>cfg n s. R s (snd (we_getRecorderProvider W cfg n s))) \<and>
     (\<forall>s s'. we_stopRecorderProvider W (lc_from K ob) s = Ret s' \<longrightarrow> R s s') \<and>
     (\<forall>ob s. R s (RunOnAdd (ro_Handlers (we_opts W)) ob s)) \<and>
     (\<forall>old ob s. R s (RunOnUpdate (ro_Handlers (we_opts W)) old ob s)) \<and>
     (\<forall>ob s. R s (RunOnDelete (ro_Handlers (we_opts W)) ob s)) \<and>
     (\<forall>ob s. R s (snd (GetSharedInformer (we_crt W) ob s)))"

lemma allowed_byD:
  assumes "allowed_by K R W put del ob"
  shows "step_relation R" and "R s (put ob' s)" and "R s (del ob' s)"
    and "built W (lc_from K ob) c \<Longrightarrow> we_addCluster W (lc_string K (lc_from K ob)) c s = (r, s') \<Longrightarrow> R s s'"
    and "R s (we_removeCluster W (lc_string K (lc_from K ob)) s)"
    and "we_getRecorderProvider W cfg n s = (q, s') \<Longrightarrow> R s s'"
    and "we_stopRecorderProvider W (lc_from K ob) s = Ret s' \<Longrightarrow> R s s'"
    and "R s (RunOnAdd (ro_Handlers (we_opts W)) ob' s)" and "R s (RunOnUpdate (ro_Handlers (we_opts W)) old ob' s)"
    and "R s (RunOnDelete (ro_Handlers (we_opts W)) ob' s)"
    and "GetSharedInformer (we_crt W) ob' s = (i, s') \<Longrightarrow> R s s'"
  using assms unfolding allowed_by_def by (metis snd_conv)+

lemma we_update_allowed:
  assumes "allowed_by K R W put del ob" and "we_update K W ob s = (e, s')"
  shows "R s s'"
proof (cases "we_getCluster W (lc_string K (lc_from K ob)) s")
  case (Inr c)
  then have "s' = s" using assms(2) by (simp add: we_update_def)
  then show ?thesis using step_relation.R_refl [OF allowed_byD(1) [OF assms(1)]] by simp
next
  case (Inl err)
  obtain r s1 where r: "we_getRecorderProvider W (we_config W) (lc_from K ob) s = (r, s1)" by fastforce
  note rec = allowed_byD(6) [OF assms(1) r]
  show ?thesis
  proof (cases "s' = s1")
    case True
    then show ?thesis using rec by simp
  next
    case False
    then obtain p c where "r = Inr p"
      "ro_NewCluster (we_opts W) (we_config W) (lc_from K ob) (we_cache W) (ro_Scheme (we_opts W)) p = Inr c"
      "snd (we_addCluster W (lc_string K (lc_from K ob)) c s1) = s'"
      using assms(2) Inl r by (auto simp: we_update_def Let_def split: sum.splits prod.splits option.splits)
    then have "R s1 s'" using allowed_byD(4) [OF assms(1)] unfolding built_def by (metis prod.collapse)
    then show ?thesis by (rule step_relation.R_trans [OF allowed_byD(1) [OF assms(1)] rec])
  qed
qed

lemma DeleteFunc_allowed:
  assumes "allowed_by K R W put del ob" and "delete_target v = Ret (Some ob)" and "we_DeleteFunc K W v s = Ret s'"
  shows "R s s'"
proof -
  note trans = step_relation.R_trans [OF allowed_byD(1) [OF assms(1)]]
  obtain d where d: "logObject (Some ob) = Ret d" using logObject_Some by blast
  obtain i s1 where i: "GetSharedInformer (we_crt W) (ro_ObjectToWatch (we_opts W)) s = (i, s1)" by fastforce
  note look = allowed_byD(11) [OF assms(1) i]
  show ?thesis
  proof (cases "s' = s1")
    case True
    then show ?thesis using look by simp
  next
    case False
    then obtain s2 where s2: "we_stopRecorderProvider W (lc_from K ob) s1 = Ret s2"
      "s' = RunOnDelete (ro_Handlers (we_opts W)) ob (we_removeCluster W (lc_string K (lc_from K ob)) s2)"
      using assms(2,3) d i
      by (cases "we_stopRecorderProvider W (lc_from K ob) s1")
         (auto simp: we_DeleteFunc_def Let_def split: sum.splits prod.splits if_splits)
    have "R s s2" by (rule trans [OF look allowed_byD(7) [OF assms(1) s2(1)]])
    then have "R s (we_removeCluster W (lc_string K (lc_from K ob)) s2)"
      by (rule trans) (rule allowed_byD(5) [OF assms(1)])
    then show ?thesis unfolding s2(2) by (rule trans) (rule allowed_byD(10) [OF assms(1)])
  qed
qed

lemma observe_allowed:
  assumes "allowed_by K R W put del (changed_object x)" and "observe K W put del x s = Ret s'"
  shows "R s s'"
proof -
  note trans = step_relation.R_trans [OF allowed_byD(1) [OF assms(1)]]
  show ?thesis
  proof (cases x)
    case (NewObject ob)
    obtain d where d: "logObject (Some ob) = Ret d" using logObject_Some by blast
    obtain e s1 where u: "we_update K W ob (put ob s) = (e, s1)" by fastforce
    have up: "R (put ob s) s1" using we_update_allowed [OF _ u] assms(1) NewObject by simp
    have "s' = put ob s \<or> s' = RunOnAdd (ro_Handlers (we_opts W)) ob s1"
      using assms(2) NewObject d u by (auto simp: we_AddFunc_def split: if_splits)
    then have "R (put ob s) s'"
      using trans [OF up allowed_byD(8) [OF assms(1)], of ob] step_relation.R_refl [OF allowed_byD(1) [OF assms(1)]] by metis
    then show ?thesis by (rule trans [OF allowed_byD(2) [OF assms(1)]])
  next
    case (ChangedObject old ob)
    let ?s = "put ob (del old s)"
    obtain d where d: "logObject (Some ob) = Ret d" using logObject_Some by blast
    obtain e s1 where u: "we_update K W ob ?s = (e, s1)" by fastforce
    have up: "R ?s s1" using we_update_allowed [OF _ u] assms(1) ChangedObject by simp
    have "s' = ?s \<or> s' = RunOnUpdate (ro_Handlers (we_opts W)) old ob s1"
      using assms(2) ChangedObject d u by (auto simp: we_UpdateFunc_def split: if_splits)
    then have "R ?s s'"
      using trans [OF up allowed_byD(9) [OF assms(1)], of old ob] step_relation.R_refl [OF allowed_byD(1) [OF assms(1)]] by metis
    then show ?thesis using trans allowed_byD(2,3) [OF assms(1)] by metis
  next
    case (GoneObject ob)
    then have "R (del ob s) s'"
      using DeleteFunc_allowed [of K R W put del ob "Obj ob"] assms by (simp add: delete_target_def)
    then show ?thesis by (rule trans [OF allowed_byD(3) [OF assms(1)]])
  next
    case (MissedDelete key ob)
    then have "R (del ob s) s'"
      using DeleteFunc_allowed [of K R W put del ob "Tombstone key (Obj ob)"] assms by (simp add: delete_target_def)
    then show ?thesis by (rule trans [OF allowed_byD(3) [OF assms(1)]])
  qed
qed

subsection \<open>Values that are no objects\<close>

lemma delete_target_deleted:
  "delete_target x = Ret (Some ob) \<longleftrightarrow> deleted_object x = Ret ob"
  "\<not> returned (deleted_object x) \<Longrightarrow> \<not> returned (delete_target x)"
  by (auto simp: delete_target_def deleted_object_def logObject_def split: any_value.splits)

lemma deleted_object_cases: "returned (deleted_object x) \<Longrightarrow> \<exists>ob. deleted_object x = Ret ob"
  by (cases "deleted_object x") auto

text \<open>
  The delete callback means to log and ignore a value that is neither an object
  nor a tombstone of one, but it passes the nil result of the failed assertion to
  \<open>logObject\<close> and panics: with working collaborators, it returns exactly for objects and
  tombstones of objects.
\<close>

theorem delete_callback_returns_iff:
  assumes "endpoint_ok K acc W objs put del"
  shows "returned (we_DeleteFunc K W x s) \<longleftrightarrow> returned (deleted_object x)"
proof (cases "returned (deleted_object x)")
  case True
  then obtain ob where "deleted_object x = Ret ob" using deleted_object_cases by blast
  then have "delete_target x = Ret (Some ob)" by (simp add: delete_target_deleted(1))
  then obtain s' where "we_DeleteFunc K W x s = Ret s'" using DeleteFunc_fine [OF assms, of x ob s] by blast
  then show ?thesis using True by simp
next
  case False
  then have "\<not> returned (delete_target x)" by (rule delete_target_deleted(2))
  then have "\<not> returned (we_DeleteFunc K W x s)"
    by (cases "delete_target x") (simp_all add: we_DeleteFunc_def)
  then show ?thesis using False by simp
qed

subsection \<open>Starting an endpoint\<close>

text \<open>
  A new endpoint owns one context: every way of failing cancels it, so no
  watch is left behind, and the error is returned; on success the endpoint carries that
  context and the configuration it was started with, its wildcard cache was built from that
  configuration, its callbacks were added to the informer of the watched object, and the
  cache runs under that context.
\<close>

theorem new_endpoint_owns_its_context:
  "case newWatchedEndpoint with_cancel cancel wenv crt_of add go_cache_start cfg we s of
     (Inl err, s') \<Rightarrow> \<exists>s1. s' = cancel (fst (with_cancel s)) s1
   | (Inr W, s') \<Rightarrow>
       we_ctx W = fst (with_cancel s) \<and> we_config W = cfg \<and> we_opts W = we_opts we \<and>
       (\<exists>wc informer s1 s2. NewWildcardCache wenv cfg
             \<lparr> co_Scheme = Some (ro_Scheme (we_opts we)), co_HTTPClient = None, co_Mapper = None \<rparr> = Inr wc \<and>
          we_cache W = wc_Cache wc \<and> we_crt W = crt_of (wc_Cache wc) \<and>
          Cache_GetInformer (we_crt W) (ro_ObjectToWatch (we_opts W)) (snd (with_cancel s)) = (Inr informer, s1) \<and>
          add informer W s1 = (None, s2) \<and> s' = go_cache_start (we_ctx W) s2)"
  by (auto simp: newWatchedEndpoint_def we_start_def Let_def split: prod.splits sum.splits option.splits)

subsection \<open>Witnesses\<close>

record demo_we_state =
  dw_clusters :: "string \<rightharpoonup> nat"
  dw_objs :: "kobject list"
  dw_log :: "string list"

definition demo_we_handler :: "demo_we_state handler" where
  "demo_we_handler = \<lparr> OnAdd = (\<lambda>ob s. s\<lparr> dw_log := ob_name ob # dw_log s \<rparr>),
     OnUpdate = (\<lambda>_ ob s. s), OnDelete = (\<lambda>ob s. s\<lparr> dw_log := [] \<rparr>) \<rparr>"

definition demo_we_crt :: "(nat, demo_we_state) crt" where
  "demo_we_crt = \<lparr> GVKForObject = (\<lambda>ob. Inr (ob_gvk ob)), RESTMapping = (\<lambda>_ _ _. Inr RESTScopeNameNamespace),
     SchemeNew = (\<lambda>g. Inr (Obj (empty_object TypedObject g))), gvk_String = (\<lambda>g. gvk_kind g),
     Cache_GetInformer = (\<lambda>_ s. (Inr 7, s)), is_SharedIndexInformer = (\<lambda>_. True),
     GetIndexer = (\<lambda>_ s. demo_indexer (dw_objs s)), Cache_IndexField = (\<lambda>_ _ _ s. (None, s)),
     Cache_Start = (\<lambda>_ s. (None, s)) \<rparr>"

definition demo_endpoint :: "(nat, nat, nat, demo_we_state) watchedEndpoint" where
  "demo_endpoint = \<lparr> we_ctx = 0,
     we_opts = \<lparr> ro_Scheme = 0, ro_EndpointSliceObject = demo_obj ''c1'' [] ''slice'' [], ro_ExtractURLs = (\<lambda>_. Inr []),
        ro_ObjectToWatch = demo_obj [] [] [] [], ro_Log = 0, ro_NewCluster = (\<lambda>_ _ _ _ p. Inr p),
        ro_AddFilter = None, ro_UpdateFilter = None, ro_Handlers = [demo_we_handler] \<rparr>,
     we_config = \<lparr> cfg_host = ''https://shard'', cfg_rest = 0 \<rparr>, we_cache = 0, we_crt = demo_we_crt,
     we_getCluster = (\<lambda>n s. case dw_clusters s n of None \<Rightarrow> Inl (Foreign ''not found'') | Some c \<Rightarrow> Inr c),
     we_addCluster = (\<lambda>n c s. (None, s\<lparr> dw_clusters := (dw_clusters s)(n \<mapsto> c) \<rparr>)),
     we_removeCluster = (\<lambda>n s. s\<lparr> dw_clusters := (dw_clusters s)(n := None) \<rparr>),
     we_getRecorderProvider = (\<lambda>_ _ s. (Inr 3, s)), we_stopRecorderProvider = (\<lambda>_ s. Ret s) \<rparr>"

definition demo_we_put :: "kobject \<Rightarrow> demo_we_state \<Rightarrow> demo_we_state" where
  "demo_we_put ob s = s\<lparr> dw_objs := ob # dw_objs s \<rparr>"

definition demo_we_del :: "kobject \<Rightarrow> demo_we_state \<Rightarrow> demo_we_state" where
  "demo_we_del ob s = s\<lparr> dw_objs := removeAll ob (dw_objs s) \<rparr>"

definition demo_we_objs :: "demo_we_state \<Rightarrow> kobject set" where
  "demo_we_objs s = set (dw_objs s)"

lemma demo_engaged: "engaged demo_endpoint s = dom (dw_clusters s)"
  by (auto simp: engaged_def demo_endpoint_def split: option.splits)

lemma demo_we_shared:
  "GetSharedInformer demo_we_crt (demo_obj [] [] [] []) s = (Inr (7, nonlist_gvk demo_gvk, RESTScopeNameNamespace), s)"
  by (simp add: GetSharedInformer_def demo_we_crt_def)

lemma demo_endpoint_ok:
  "endpoint_ok demo_kcp demo_accessor demo_endpoint demo_we_objs demo_we_put demo_we_del"
  unfolding endpoint_ok_def demo_engaged
proof (intro conjI allI)
  fix s
  show "\<exists>i g sc s'. GetSharedInformer (we_crt demo_endpoint) (ro_ObjectToWatch (we_opts demo_endpoint)) s = (Inr (i, g, sc), s') \<and>
      dom (dw_clusters s') = dom (dw_clusters s) \<and> demo_we_objs s' = demo_we_objs s \<and>
      cluster_indexed demo_kcp demo_accessor (GetIndexer (we_crt demo_endpoint) i s') \<and>
      set (ListAll (GetIndexer (we_crt demo_endpoint) i s')) = Obj ` demo_we_objs s"
    by (simp add: demo_endpoint_def demo_we_shared demo_we_objs_def)
       (simp add: demo_we_crt_def demo_indexer_ok)
next
  fix E S
  show "keeping_handlers (\<lambda>s. dom (dw_clusters s) = E \<and> demo_we_objs s = S) (ro_Handlers (we_opts demo_endpoint))"
    by unfold_locales (simp_all add: demo_endpoint_def demo_we_handler_def demo_we_objs_def)
qed (auto simp: demo_kcp_ok demo_accessor_ok demo_endpoint_def demo_we_put_def demo_we_del_def demo_we_objs_def)

definition demo_we_start :: demo_we_state where
  "demo_we_start = \<lparr> dw_clusters = Map.empty, dw_objs = [], dw_log = [] \<rparr>"

theorem engaged_clusters_follow_objects_witness:
  "\<exists>s'. observe_all demo_kcp demo_endpoint demo_we_put demo_we_del
      [NewObject (demo_obj ''c1'' [] ''a'' ''p''), NewObject (demo_obj ''c1'' [] ''b'' ''p''),
       NewObject (demo_obj ''c2'' [] ''a'' ''q''), GoneObject (demo_obj ''c1'' [] ''a'' ''p''),
       MissedDelete ''k'' (demo_obj ''c2'' [] ''a'' ''q'')] demo_we_start = Ret s' \<and>
     engaged demo_endpoint s' = lc_from demo_kcp ` demo_we_objs s'"
proof -
  have "tracks demo_kcp demo_endpoint demo_we_objs demo_we_start"
    by (simp add: tracks_def demo_engaged demo_we_start_def demo_we_objs_def)
  moreover have "no_filters demo_endpoint" by (simp add: no_filters_def demo_endpoint_def)
  ultimately show ?thesis
    using engaged_clusters_follow_objects [OF demo_endpoint_ok, of demo_we_start
      "[NewObject (demo_obj ''c1'' [] ''a'' ''p''), NewObject (demo_obj ''c1'' [] ''b'' ''p''),
       NewObject (demo_obj ''c2'' [] ''a'' ''q''), GoneObject (demo_obj ''c1'' [] ''a'' ''p''),
       MissedDelete ''k'' (demo_obj ''c2'' [] ''a'' ''q'')]"] by auto
qed

theorem delete_callback_returns_iff_witness:
  "\<not> returned (we_DeleteFunc demo_kcp demo_endpoint (Tombstone ''k'' (Other ''nil'')) demo_we_start)"
  unfolding delete_callback_returns_iff [OF demo_endpoint_ok] by (simp add: deleted_object_def)

end
