(* ===== verification/PathEndpoint.thy ===== *)
theory PathEndpoint
  imports PathAware Endpoint
begin

text \<open>
  The path-aware provider over a watched endpoint: the path handler of
  \<^verbatim>\<open>path-aware/provider.go\<close> is one of the lifecycle handlers the callbacks of
  \<^verbatim>\<open>pkg/provider/provider.go\<close> run, and \<open>Get\<close> resolves names over both. Shown: the paths that
  resolve are exactly the paths of the engaged clusters.
\<close>

subsection \<open>The path handler inside an endpoint\<close>

text \<open>A handler over a part of the state.\<close>

definition lift_handler :: "('s \<Rightarrow> 't) \<Rightarrow> ('t \<Rightarrow> 's \<Rightarrow> 's) \<Rightarrow> 't handler \<Rightarrow> 's handler" where
  "lift_handler get upd h = \<lparr> OnAdd = (\<lambda>ob s. upd (OnAdd h ob (get s)) s),
     OnUpdate = (\<lambda>old new s. upd (OnUpdate h old new (get s)) s),
     OnDelete = (\<lambda>ob s. upd (OnDelete h ob (get s)) s) \<rparr>"

text \<open>
  The path handler comes last, as \<open>New\<close> of the path-aware provider appends it to the caller's
  handlers; nobody else writes its state \<open>ph\<close>.
\<close>

definition path_handled ::
  "kcpapi \<Rightarrow> ('p, 'c, 'i, 's) watchedEndpoint \<Rightarrow> (kobject \<Rightarrow> 's \<Rightarrow> 's) \<Rightarrow> (kobject \<Rightarrow> 's \<Rightarrow> 's)
     \<Rightarrow> ('s \<Rightarrow> path_handler) \<Rightarrow> (path_handler \<Rightarrow> 's \<Rightarrow> 's) \<Rightarrow> 's handler list \<Rightarrow> bool" where
  "path_handled K W put del ph upd hs \<longleftrightarrow>
     ro_Handlers (we_opts W) = hs @ [lift_handler ph upd (pathHandler K)] \<and>
     (\<forall>q. keeping_handlers (\<lambda>s. ph s = q) hs) \<and> (\<forall>q s. ph (upd q s) = q) \<and>
     (\<forall>ob s. ph (put ob s) = ph s) \<and> (\<forall>ob s. ph (del ob s) = ph s) \<and>
     (\<forall>n c s. ph (snd (we_addCluster W n c s)) = ph s) \<and> (\<forall>n s. ph (we_removeCluster W n s) = ph s) \<and>
     (\<forall>cfg n s. ph (snd (we_getRecorderProvider W cfg n s)) = ph s) \<and>
     (\<forall>n s s'. we_stopRecorderProvider W n s = Ret s' \<longrightarrow> ph s' = ph s) \<and>
     (\<forall>ob s. ph (snd (GetSharedInformer (we_crt W) ob s)) = ph s)"

lemma path_handledD:
  assumes "path_handled K W put del ph upd hs"
  shows "ro_Handlers (we_opts W) = hs @ [lift_handler ph upd (pathHandler K)]"
    and "keeping_handlers (\<lambda>s. ph s = q) hs" and "ph (upd q s) = q"
    and "ph (put ob s) = ph s" and "ph (del ob s) = ph s"
    and "ph (snd (we_addCluster W n c s)) = ph s" and "ph (we_removeCluster W n s) = ph s"
    and "ph (snd (we_getRecorderProvider W cfg n s)) = ph s"
    and "we_stopRecorderProvider W n s = Ret s' \<Longrightarrow> ph s' = ph s"
    and "ph (snd (GetSharedInformer (we_crt W) ob s)) = ph s"
  using assms unfolding path_handled_def by simp_all

lemma path_handlers_run:
  assumes "path_handled K W put del ph upd hs"
  shows "ph (RunOnAdd (ro_Handlers (we_opts W)) ob s) = pathHandler_OnAdd K ob (ph s)"
    and "ph (RunOnUpdate (ro_Handlers (we_opts W)) old ob s) = pathHandler_OnUpdate K old ob (ph s)"
    and "ph (RunOnDelete (ro_Handlers (we_opts W)) ob s) = pathHandler_OnDelete K ob (ph s)"
  using keeping_handlers.keeps_RunOnAdd_sub [OF path_handledD(2) [OF assms, of "ph s"], of hs s ob]
    keeping_handlers.keeps_RunOnUpdate_sub [OF path_handledD(2) [OF assms, of "ph s"], of hs s old ob]
    keeping_handlers.keeps_RunOnDelete_sub [OF path_handledD(2) [OF assms, of "ph s"], of hs s ob]
  by (simp_all add: path_handledD(1,3) [OF assms] lift_handler_def)

lemma we_update_path:
  assumes "path_handled K W put del ph upd hs"
  shows "ph (snd (we_update K W ob s)) = ph s"
proof -
  note kept = path_handledD [OF assms]
  obtain r s1 where r: "we_getRecorderProvider W (we_config W) (lc_from K ob) s = (r, s1)" by fastforce
  then have s1: "ph s1 = ph s" using kept(8) [of "we_config W" "lc_from K ob" s] by simp
  have add: "ph s2 = ph s" if "we_addCluster W n c s1 = (e, s2)" for n c e s2
    using that s1 kept(6) [of n c s1] by simp
  show ?thesis
    by (auto simp: we_update_def r s1 Let_def dest: add split: sum.split prod.split option.split)
qed

subsection \<open>Paths of engaged clusters\<close>

text \<open>
  Every object of a logical cluster carries the path of that cluster, \<open>P\<close>, which may be empty;
  two clusters have different paths.
\<close>

definition carries :: "kcpapi \<Rightarrow> (lcname \<Rightarrow> string) \<Rightarrow> kobject \<Rightarrow> bool" where
  "carries K P ob \<longleftrightarrow> gomap_read (ob_annotations ob) (lc_path_key K) = P (lc_from K ob)"

fun change_carries :: "kcpapi \<Rightarrow> (lcname \<Rightarrow> string) \<Rightarrow> change \<Rightarrow> bool" where
  "change_carries K P (NewObject ob) \<longleftrightarrow> carries K P ob"
| "change_carries K P (ChangedObject old ob) \<longleftrightarrow> carries K P ob"
| "change_carries K P (GoneObject ob) \<longleftrightarrow> carries K P ob"
| "change_carries K P (MissedDelete key ob) \<longleftrightarrow> carries K P ob"

definition paths_apart :: "(lcname \<Rightarrow> string) \<Rightarrow> bool" where
  "paths_apart P \<longleftrightarrow> (\<forall>c d. P c = P d \<and> P c \<noteq> [] \<longrightarrow> c = d)"

text \<open>The handler's state holds the paths of the clusters in \<open>C\<close>.\<close>

definition holds_paths :: "(lcname \<Rightarrow> string) \<Rightarrow> lcname set \<Rightarrow> path_handler \<Rightarrow> bool" where
  "holds_paths P C h \<longleftrightarrow> path_inv h \<and>
     (\<forall>path cl. ps_paths (pathStore h) path = Some cl \<longleftrightarrow> path \<noteq> [] \<and> cl \<in> C \<and> P cl = path)"

lemma holds_paths_start: "holds_paths P {} new_path_handler"
  by (simp add: holds_paths_def path_inv_new) (simp add: new_path_handler_def New_Store_def)

lemma holds_paths_add:
  assumes "holds_paths P C h" and "carries K P ob" and "paths_apart P"
  shows "holds_paths P (insert (lc_from K ob) C) (pathHandler_OnAdd K ob h)"
proof -
  have paths: "ps_paths (pathStore (pathHandler_OnAdd K ob h)) path =
      (if path = P (lc_from K ob) \<and> path \<noteq> [] then Some (lc_from K ob) else ps_paths (pathStore h) path)" for path
    using assms(2) by (simp add: carries_def pathHandler_OnAdd_def Store_Add_def Let_def)
  have held: "ps_paths (pathStore h) path = Some cl \<longleftrightarrow> path \<noteq> [] \<and> cl \<in> C \<and> P cl = path" for path cl
    using assms(1) unfolding holds_paths_def by blast
  have "path_inv (pathHandler_OnAdd K ob h)" using assms(1) by (simp add: holds_paths_def path_inv_OnAdd)
  moreover have "ps_paths (pathStore (pathHandler_OnAdd K ob h)) path = Some cl \<longleftrightarrow>
      path \<noteq> [] \<and> cl \<in> insert (lc_from K ob) C \<and> P cl = path" for path cl
  proof (cases "path = P (lc_from K ob) \<and> path \<noteq> []")
    case True
    then have "P cl = path \<longleftrightarrow> cl = lc_from K ob" using assms(3) unfolding paths_apart_def by metis
    then show ?thesis unfolding paths using True by auto
  next
    case False
    then show ?thesis unfolding paths using held [of path cl] by auto
  qed
  ultimately show ?thesis unfolding holds_paths_def by blast
qed

lemma holds_paths_update:
  assumes "holds_paths P C h" and "carries K P ob" and "paths_apart P"
  shows "holds_paths P (insert (lc_from K ob) C) (pathHandler_OnUpdate K old ob h)"
proof (cases "registeredPaths h (P (lc_from K ob)) = None")
  case True
  then have "pathHandler_OnUpdate K old ob h = pathHandler_OnAdd K ob h"
    using assms(2) by (simp add: carries_def pathHandler_OnUpdate_def pathHandler_OnAdd_def Let_def)
  then show ?thesis using holds_paths_add [OF assms] by simp
next
  case False
  have inv: "path_inv h" using assms(1) by (simp add: holds_paths_def)
  have path: "P (lc_from K ob) \<noteq> []" using False inv by (auto simp: path_inv_def)
  have "P (lc_from K ob) \<in> dom (registeredPaths h)" using False by blast
  then have "P (lc_from K ob) \<in> dom (ps_paths (pathStore h))" using inv by (simp add: path_inv_def)
  then obtain cl where "cl \<in> C" "P cl = P (lc_from K ob)"
    using assms(1) unfolding holds_paths_def by blast
  then have "lc_from K ob \<in> C" using assms(3) path unfolding paths_apart_def by metis
  moreover have "pathHandler_OnUpdate K old ob h = h"
    using assms(2) False by (simp add: carries_def pathHandler_OnUpdate_def Let_def)
  ultimately show ?thesis using assms(1) by (simp add: insert_absorb)
qed

lemma holds_paths_delete:
  assumes "holds_paths P C h" and "carries K P ob" and "paths_apart P"
  shows "holds_paths P (C - {lc_from K ob}) (pathHandler_OnDelete K ob h)"
proof (cases "ob_annotations ob (lc_path_key K)")
  case None
  then have "P (lc_from K ob) = []" using assms(2) by (simp add: carries_def)
  then show ?thesis using assms(1) None by (auto simp: holds_paths_def pathHandler_OnDelete_def)
next
  case (Some path)
  then have "path = P (lc_from K ob)" using assms(2) by (simp add: carries_def)
  then have paths: "ps_paths (pathStore (pathHandler_OnDelete K ob h)) q =
      (if q = P (lc_from K ob) then None else ps_paths (pathStore h) q)" for q
    using Some by (simp add: pathHandler_OnDelete_def Store_Remove_def)
  have held: "ps_paths (pathStore h) q = Some cl \<longleftrightarrow> q \<noteq> [] \<and> cl \<in> C \<and> P cl = q" for q cl
    using assms(1) unfolding holds_paths_def by blast
  have "path_inv (pathHandler_OnDelete K ob h)" using assms(1) by (simp add: holds_paths_def path_inv_OnDelete)
  moreover have "ps_paths (pathStore (pathHandler_OnDelete K ob h)) q = Some cl \<longleftrightarrow>
      q \<noteq> [] \<and> cl \<in> C - {lc_from K ob} \<and> P cl = q" for q cl
    unfolding paths using assms(3) held [of q cl] unfolding paths_apart_def
    by (metis Diff_iff option.distinct(1) singletonD singletonI)
  ultimately show ?thesis unfolding holds_paths_def by blast
qed

subsection \<open>The callbacks\<close>

lemma AddFunc_path:
  assumes "path_handled K W put del ph upd hs" and "we_AddFunc K W (Obj ob) s = Ret s'"
  shows "ph s' = (if accepts (ro_AddFilter (we_opts W)) ob then pathHandler_OnAdd K ob (ph s) else ph s)"
proof -
  obtain d where d: "logObject (Some ob) = Ret d" using logObject_Some by blast
  obtain e s1 where u: "we_update K W ob s = (e, s1)" by fastforce
  have "ph s1 = ph s" using we_update_path [OF assms(1), of ob s] u by simp
  then show ?thesis using assms(2) d u by (auto simp: we_AddFunc_def path_handlers_run [OF assms(1)])
qed

lemma UpdateFunc_path:
  assumes "path_handled K W put del ph upd hs" and "we_UpdateFunc K W (Obj old) (Obj ob) s = Ret s'"
  shows "ph s' = (if accepts (ro_UpdateFilter (we_opts W)) ob then pathHandler_OnUpdate K old ob (ph s) else ph s)"
proof -
  obtain d where d: "logObject (Some ob) = Ret d" using logObject_Some by blast
  obtain e s1 where u: "we_update K W ob s = (e, s1)" by fastforce
  have "ph s1 = ph s" using we_update_path [OF assms(1), of ob s] u by simp
  then show ?thesis using assms(2) d u by (auto simp: we_UpdateFunc_def path_handlers_run [OF assms(1)])
qed

definition path_state ::
  "(lcname \<Rightarrow> string) \<Rightarrow> ('p, 'c, 'i, 's) watchedEndpoint \<Rightarrow> ('s \<Rightarrow> path_handler) \<Rightarrow> 's \<Rightarrow> bool" where
  "path_state P W ph s \<longleftrightarrow> holds_paths P (engaged W s) (ph s)"

lemma DeleteFunc_holds:
  assumes "endpoint_ok K acc W objs put del" and "path_handled K W put del ph upd hs" and "paths_apart P"
    and "path_state P W ph s" and "delete_target x = Ret (Some ob)" and "carries K P ob"
  shows "\<exists>s'. we_DeleteFunc K W x s = Ret s' \<and> path_state P W ph s'"
proof (rule DeleteFunc_eval [OF assms(1,5), of s])
  fix s1 s2
  assume del: "snd (GetSharedInformer (we_crt W) (ro_ObjectToWatch (we_opts W)) s) = s1"
    "engaged W s1 = engaged W s" "we_stopRecorderProvider W (lc_from K ob) s1 = Ret s2" "engaged W s2 = engaged W s"
    "we_DeleteFunc K W x s = Ret (if \<exists>o' \<in> objs s. lc_from K o' = lc_from K ob then s1
      else RunOnDelete (ro_Handlers (we_opts W)) ob (we_removeCluster W (lc_from K ob) s2))"
  note kept = path_handledD [OF assms(2)]
  let ?s3 = "we_removeCluster W (lc_from K ob) s2"
  have "ph s1 = ph s" using kept(10) [of "ro_ObjectToWatch (we_opts W)" s] del(1) by simp
  moreover from this have "ph ?s3 = ph s" using kept(7) kept(9) [OF del(3)] by simp
  ultimately have "path_state P W ph s1"
    "path_state P W ph (RunOnDelete (ro_Handlers (we_opts W)) ob ?s3)"
    using assms(4) holds_paths_delete [OF _ assms(6,3), of "engaged W s" "ph s"]
    unfolding path_state_def path_handlers_run [OF assms(2)] handlers_keep [OF assms(1)]
      endpoint_okD(8) [OF assms(1)] del(2,4) by simp_all
  then show ?thesis unfolding del(5) by simp
qed

lemma observe_holds:
  assumes "endpoint_ok K acc W objs put del" and "path_handled K W put del ph upd hs" and "paths_apart P"
    and "path_state P W ph s" and "change_carries K P x"
  shows "\<exists>s'. observe K W put del x s = Ret s' \<and> path_state P W ph s'"
proof (cases x)
  case (NewObject ob)
  have held: "holds_paths P (engaged W (put ob s)) (ph (put ob s))"
    using assms(4) by (simp add: path_state_def endpoint_okD(3) [OF assms(1)] path_handledD(4) [OF assms(2)])
  obtain s' where s': "we_AddFunc K W (Obj ob) (put ob s) = Ret s'"
    "engaged W s' = (if accepts (ro_AddFilter (we_opts W)) ob then insert (lc_from K ob) (engaged W (put ob s)) else engaged W (put ob s))"
    using AddFunc_fine [OF assms(1), of ob "put ob s"] by blast
  have "carries K P ob" using assms(5) NewObject by simp
  then have "path_state P W ph s'"
    using held holds_paths_add [OF held _ assms(3)] by (simp add: path_state_def s'(2) AddFunc_path [OF assms(2) s'(1)])
  then show ?thesis using s'(1) NewObject by simp
next
  case (ChangedObject old ob)
  let ?s = "put ob (del old s)"
  have held: "holds_paths P (engaged W ?s) (ph ?s)"
    using assms(4) by (simp add: path_state_def endpoint_okD(3,5) [OF assms(1)] path_handledD(4,5) [OF assms(2)])
  obtain s' where s': "we_UpdateFunc K W (Obj old) (Obj ob) ?s = Ret s'"
    "engaged W s' = (if accepts (ro_UpdateFilter (we_opts W)) ob then insert (lc_from K ob) (engaged W ?s) else engaged W ?s)"
    using UpdateFunc_fine [OF assms(1), of old ob ?s] by blast
  have "carries K P ob" using assms(5) ChangedObject by simp
  then have "path_state P W ph s'"
    using held holds_paths_update [OF held _ assms(3)] by (simp add: path_state_def s'(2) UpdateFunc_path [OF assms(2) s'(1)])
  then show ?thesis using s'(1) ChangedObject by simp
next
  case (GoneObject ob)
  have "path_state P W ph (del ob s)"
    using assms(4) by (simp add: path_state_def endpoint_okD(5) [OF assms(1)] path_handledD(5) [OF assms(2)])
  from DeleteFunc_holds [OF assms(1-3) this, of "Obj ob" ob] assms(5) GoneObject
  show ?thesis by (simp add: delete_target_def)
next
  case (MissedDelete key ob)
  have "path_state P W ph (del ob s)"
    using assms(4) by (simp add: path_state_def endpoint_okD(5) [OF assms(1)] path_handledD(5) [OF assms(2)])
  from DeleteFunc_holds [OF assms(1-3) this, of "Tombstone key (Obj ob)" ob] assms(5) MissedDelete
  show ?thesis by (simp add: delete_target_def)
qed

lemma observe_all_holds:
  assumes "endpoint_ok K acc W objs put del" and "path_handled K W put del ph upd hs" and "paths_apart P"
    and "path_state P W ph s" and "list_all (change_carries K P) xs"
  shows "\<exists>s'. observe_all K W put del xs s = Ret s' \<and> path_state P W ph s'"
  using assms(4,5)
proof (induction xs arbitrary: s)
  case (Cons x xs)
  obtain s1 where "observe K W put del x s = Ret s1" "path_state P W ph s1"
    using observe_holds [OF assms(1-3) Cons.prems(1), of x] Cons.prems(2) by auto
  then show ?case using Cons.IH [of s1] Cons.prems(2) by simp
qed simp

text \<open>
  Property C8. The path-aware provider answers for exactly the engaged clusters, for objects whose
  path annotation is that of their logical cluster: every object that is added or deleted, and the
  new object of every update, carries the path \<open>P\<close> of its cluster, and no two clusters share a
  non-empty path; an update that changes a path is not covered. The endpoint's handlers include
  the path handler, and its collaborators do not fail (\<open>endpoint_ok\<close>). However such objects come,
  change and go, filtered or not, no callback panics, and afterwards \<open>Get\<close> succeeds for a name
  exactly if it is the name or the path of an engaged cluster; a path gives the cluster it belongs
  to. (Where an update moves a path from one cluster to another this fails: see
  \<open>path_update_keeps_first\<close>.)
\<close>

theorem get_answers_for_engaged:
  assumes "endpoint_ok K acc W objs put del" and "path_handled K W put del ph upd hs" and "paths_apart P"
    and "engaged W s = {}" and "ph s = new_path_handler" and "list_all (change_carries K P) xs"
  shows "\<exists>s'. observe_all K W put del xs s = Ret s' \<and>
    (\<forall>n. \<not> is_err (PathAware_Get K (\<lambda>n. we_getCluster W n s') (Some (pathStore (ph s'))) n) \<longleftrightarrow>
       n \<in> engaged W s' \<or> n \<noteq> [] \<and> n \<in> P ` engaged W s') \<and>
    (\<forall>cl \<in> engaged W s'. P cl \<noteq> [] \<longrightarrow>
       PathAware_Get K (\<lambda>n. we_getCluster W n s') (Some (pathStore (ph s'))) (P cl) = we_getCluster W cl s')"
proof -
  have "path_state P W ph s" by (simp add: path_state_def assms(4,5) holds_paths_start)
  then obtain s' where s': "observe_all K W put del xs s = Ret s'" "path_state P W ph s'"
    using observe_all_holds [OF assms(1-3) _ assms(6)] by blast
  have str: "lc_string K cl = cl" for cl using endpoint_okD(1) [OF assms(1)] by (rule kcp_okD)
  have held: "ps_paths (pathStore (ph s')) n = Some cl \<longleftrightarrow> n \<noteq> [] \<and> cl \<in> engaged W s' \<and> P cl = n" for n cl
    using s'(2) unfolding path_state_def holds_paths_def by blast
  have get: "PathAware_Get K (\<lambda>n. we_getCluster W n s') (Some (pathStore (ph s'))) n =
      (case ps_paths (pathStore (ph s')) n of None \<Rightarrow> we_getCluster W n s' | Some cl \<Rightarrow> we_getCluster W cl s')" for n
    by (simp add: PathAware_Get_def Store_Get_def str split: option.split)
  have "\<not> is_err (PathAware_Get K (\<lambda>n. we_getCluster W n s') (Some (pathStore (ph s'))) n) \<longleftrightarrow>
      n \<in> engaged W s' \<or> n \<noteq> [] \<and> n \<in> P ` engaged W s'" for n
  proof (cases "ps_paths (pathStore (ph s')) n")
    case None
    then have "\<not> (n \<noteq> [] \<and> n \<in> P ` engaged W s')" using held by (metis imageE option.distinct(1))
    moreover have "n \<in> engaged W s' \<longleftrightarrow> \<not> is_err (we_getCluster W n s')" by (simp add: engaged_def)
    ultimately show ?thesis unfolding get None option.case by blast
  next
    case (Some cl)
    then have "n \<noteq> []" "cl \<in> engaged W s'" "P cl = n" using held by simp_all
    then show ?thesis unfolding get Some by (auto simp: engaged_def)
  qed
  moreover have "PathAware_Get K (\<lambda>n. we_getCluster W n s') (Some (pathStore (ph s'))) (P cl) = we_getCluster W cl s'"
    if "cl \<in> engaged W s'" and "P cl \<noteq> []" for cl
    using that held [of "P cl" cl] unfolding get by simp
  ultimately show ?thesis using s'(1) by (intro exI [of _ s']) blast
qed

subsection \<open>Witness\<close>

text \<open>The endpoint of the other witness, with a path handler beside its clusters.\<close>

type_synonym demo_path_state = "demo_we_state \<times> path_handler"

definition demo_path_crt :: "(nat, demo_path_state) crt" where
  "demo_path_crt = \<lparr> GVKForObject = (\<lambda>ob. Inr (ob_gvk ob)), RESTMapping = (\<lambda>_ _ _. Inr RESTScopeNameNamespace),
     SchemeNew = (\<lambda>g. Inr (Obj (empty_object TypedObject g))), gvk_String = (\<lambda>g. gvk_kind g),
     Cache_GetInformer = (\<lambda>_ s. (Inr 7, s)), is_SharedIndexInformer = (\<lambda>_. True),
     GetIndexer = (\<lambda>_ s. demo_indexer (dw_objs (fst s))), Cache_IndexField = (\<lambda>_ _ _ s. (None, s)),
     Cache_Start = (\<lambda>_ s. (None, s)) \<rparr>"

definition demo_path_endpoint :: "(nat, nat, nat, demo_path_state) watchedEndpoint" where
  "demo_path_endpoint = \<lparr> we_ctx = 0,
     we_opts = \<lparr> ro_Scheme = 0, ro_EndpointSliceObject = demo_obj ''c1'' [] ''slice'' [], ro_ExtractURLs = (\<lambda>_. Inr []),
        ro_ObjectToWatch = demo_obj [] [] [] [], ro_Log = 0, ro_NewCluster = (\<lambda>_ _ _ _ p. Inr p),
        ro_AddFilter = None, ro_UpdateFilter = None,
        ro_Handlers = [] @ [lift_handler snd (\<lambda>q s. (fst s, q)) (pathHandler demo_kcp)] \<rparr>,
     we_config = \<lparr> cfg_host = ''https://shard'', cfg_rest = 0 \<rparr>, we_cache = 0, we_crt = demo_path_crt,
     we_getCluster = (\<lambda>n s. we_getCluster demo_endpoint n (fst s)),
     we_addCluster = (\<lambda>n c s. (None, ((fst s)\<lparr> dw_clusters := (dw_clusters (fst s))(n \<mapsto> c) \<rparr>, snd s))),
     we_removeCluster = (\<lambda>n s. ((fst s)\<lparr> dw_clusters := (dw_clusters (fst s))(n := None) \<rparr>, snd s)),
     we_getRecorderProvider = (\<lambda>_ _ s. (Inr 3, s)), we_stopRecorderProvider = (\<lambda>_ s. Ret s) \<rparr>"

definition demo_path_put :: "kobject \<Rightarrow> demo_path_state \<Rightarrow> demo_path_state" where
  "demo_path_put ob s = (demo_we_put ob (fst s), snd s)"

definition demo_path_del :: "kobject \<Rightarrow> demo_path_state \<Rightarrow> demo_path_state" where
  "demo_path_del ob s = (demo_we_del ob (fst s), snd s)"

lemma demo_path_engaged: "engaged demo_path_endpoint s = dom (dw_clusters (fst s))"
  by (auto simp: engaged_def demo_path_endpoint_def demo_endpoint_def split: option.splits)

lemma demo_path_shared:
  "GetSharedInformer demo_path_crt (demo_obj [] [] [] []) s = (Inr (7, nonlist_gvk demo_gvk, RESTScopeNameNamespace), s)"
  by (simp add: GetSharedInformer_def demo_path_crt_def)

lemma demo_path_endpoint_ok:
  "endpoint_ok demo_kcp demo_accessor demo_path_endpoint (\<lambda>s. demo_we_objs (fst s)) demo_path_put demo_path_del"
  unfolding endpoint_ok_def demo_path_engaged
proof (intro conjI allI)
  fix s
  show "\<exists>i g sc s'. GetSharedInformer (we_crt demo_path_endpoint) (ro_ObjectToWatch (we_opts demo_path_endpoint)) s = (Inr (i, g, sc), s') \<and>
      dom (dw_clusters (fst s')) = dom (dw_clusters (fst s)) \<and> demo_we_objs (fst s') = demo_we_objs (fst s) \<and>
      cluster_indexed demo_kcp demo_accessor (GetIndexer (we_crt demo_path_endpoint) i s') \<and>
      set (ListAll (GetIndexer (we_crt demo_path_endpoint) i s')) = Obj ` demo_we_objs (fst s)"
    by (simp add: demo_path_endpoint_def demo_path_shared demo_we_objs_def)
       (simp add: demo_path_crt_def demo_indexer_ok)
next
  fix E S
  show "keeping_handlers (\<lambda>s. dom (dw_clusters (fst s)) = E \<and> demo_we_objs (fst s) = S)
      (ro_Handlers (we_opts demo_path_endpoint))"
    by unfold_locales (simp_all add: demo_path_endpoint_def lift_handler_def)
qed (auto simp: demo_kcp_ok demo_accessor_ok demo_path_endpoint_def demo_path_put_def demo_path_del_def
    demo_we_put_def demo_we_del_def demo_we_objs_def)

lemma demo_path_handled:
  "path_handled demo_kcp demo_path_endpoint demo_path_put demo_path_del snd (\<lambda>q s. (fst s, q)) []"
  unfolding path_handled_def
proof (intro conjI allI)
  show "keeping_handlers (\<lambda>s :: demo_path_state. snd s = q) []" for q by unfold_locales simp_all
  fix ob s
  show "snd (snd (GetSharedInformer (we_crt demo_path_endpoint) ob s)) = snd s"
    by (auto simp: GetSharedInformer_def demo_path_endpoint_def demo_path_crt_def Let_def
        split: objclass.splits sum.splits prod.splits)
qed (simp_all add: demo_path_endpoint_def demo_path_put_def demo_path_del_def)

definition demo_paths :: "lcname \<Rightarrow> string" where
  "demo_paths c = (if c = ''c1'' then ''root:a'' else if c = ''c2'' then ''root:b'' else [])"

definition demo_path_changes :: "change list" where
  "demo_path_changes = [NewObject (demo_obj ''c1'' [] ''a'' ''root:a''), NewObject (demo_obj ''c2'' [] ''b'' ''root:b''),
     GoneObject (demo_obj ''c1'' [] ''a'' ''root:a'')]"

text \<open>Without filters the store behind the endpoint tells the engaged clusters.\<close>

lemma observe_all_objs:
  assumes "endpoint_ok K acc W objs put del"
  shows "observe_all K W put del xs s = Ret s' \<Longrightarrow> objs s' = fold objs_after xs (objs s)"
proof (induction xs arbitrary: s)
  case (Cons x xs)
  then obtain s1 where s1: "observe K W put del x s = Ret s1" "observe_all K W put del xs s1 = Ret s'"
    by (cases "observe K W put del x s") auto
  show ?case using Cons.IH [OF s1(2)] observe_result(2) [OF assms s1(1)] by simp
qed simp

lemma demo_path_clusters:
  assumes "observe_all demo_kcp demo_path_endpoint demo_path_put demo_path_del demo_path_changes (demo_we_start, new_path_handler) = Ret s'"
  shows "engaged demo_path_endpoint s' = {''c2''}"
proof -
  let ?objs = "\<lambda>s :: demo_path_state. demo_we_objs (fst s)"
  have start: "tracks demo_kcp demo_path_endpoint ?objs (demo_we_start, new_path_handler)"
    by (simp add: tracks_def demo_path_engaged demo_we_start_def demo_we_objs_def)
  have "\<forall>x \<in> set demo_path_changes. stays demo_kcp x" by (simp add: demo_path_changes_def)
  then have "tracks demo_kcp demo_path_endpoint ?objs s'"
    using observe_all_tracks [OF demo_path_endpoint_ok start, of demo_path_changes] assms by auto
  moreover have "no_filters demo_path_endpoint" by (simp add: no_filters_def demo_path_endpoint_def)
  moreover have "?objs s' = {demo_obj ''c2'' [] ''b'' ''root:b''}"
    using observe_all_objs [OF demo_path_endpoint_ok assms]
    by (simp add: demo_path_changes_def demo_we_start_def demo_we_objs_def demo_obj_def) auto
  ultimately show ?thesis by (simp add: tracks_def)
qed

text \<open>The path of the cluster that is gone no longer resolves, that of the other one does.\<close>

theorem get_answers_for_engaged_witness:
  "\<exists>s'. observe_all demo_kcp demo_path_endpoint demo_path_put demo_path_del demo_path_changes
       (demo_we_start, new_path_handler) = Ret s' \<and>
     is_err (PathAware_Get demo_kcp (\<lambda>n. we_getCluster demo_path_endpoint n s') (Some (pathStore (snd s'))) ''root:a'') \<and>
     \<not> is_err (PathAware_Get demo_kcp (\<lambda>n. we_getCluster demo_path_endpoint n s') (Some (pathStore (snd s'))) ''root:b'')"
proof -
  have apart: "paths_apart demo_paths" by (auto simp: paths_apart_def demo_paths_def)
  have fresh: "engaged demo_path_endpoint (demo_we_start, new_path_handler) = {}"
    by (simp add: demo_path_engaged demo_we_start_def)
  have carried: "list_all (change_carries demo_kcp demo_paths) demo_path_changes"
    by (simp add: carries_def demo_paths_def demo_path_changes_def)
  obtain s' where run: "observe_all demo_kcp demo_path_endpoint demo_path_put demo_path_del demo_path_changes
      (demo_we_start, new_path_handler) = Ret s'"
    and get: "\<forall>n. \<not> is_err (PathAware_Get demo_kcp (\<lambda>n. we_getCluster demo_path_endpoint n s') (Some (pathStore (snd s'))) n) \<longleftrightarrow>
       n \<in> engaged demo_path_endpoint s' \<or> n \<noteq> [] \<and> n \<in> demo_paths ` engaged demo_path_endpoint s'"
    using get_answers_for_engaged [OF demo_path_endpoint_ok demo_path_handled apart fresh _ carried] by auto
  have "''c1'' \<notin> engaged demo_path_endpoint s'" "''c2'' \<in> engaged demo_path_endpoint s'" "''root:a'' \<notin> engaged demo_path_endpoint s'"
    using demo_path_clusters [OF run] by simp_all
  moreover have "demo_paths c = ''root:a'' \<Longrightarrow> c = ''c1''" for c by (simp add: demo_paths_def split: if_splits)
  moreover have "demo_paths ''c2'' = ''root:b''" by (simp add: demo_paths_def)
  ultimately have "''root:a'' \<notin> demo_paths ` engaged demo_path_endpoint s'" "''root:b'' \<in> demo_paths ` engaged demo_path_endpoint s'"
    using demo_path_clusters [OF run] by auto
  then show ?thesis using run get [THEN spec, of "''root:a''"] get [THEN spec, of "''root:b''"]
      \<open>''root:a'' \<notin> engaged demo_path_endpoint s'\<close> by (intro exI [of _ s'] conjI) simp_all
qed

end
