(* ===== verification/Aggregate.thy ===== *)
theory Aggregate
  imports CacheReader Interfaces
begin

text \<open>
  \<^verbatim>\<open>pkg/cache/aggregate.go\<close> and \<^verbatim>\<open>pkg/cache/aggregate_informer.go\<close>: the view across the
  wildcard caches of all shards. A shard's cache is a handle \<open>'c\<close>; what the code calls on
  it is the record \<open>shard_api\<close> over the state \<open>'w\<close> of all shards. \<open>'h\<close> are event
  handlers, \<open>'r\<close> registrations, \<open>'i\<close> shared informers. A range over a Go map takes its
  visiting order as a list of keys.
\<close>

record ('c, 'i, 'h, 'r, 'w) shard_api =
  sh_informer :: "'c \<Rightarrow> kobject \<Rightarrow> 'w \<Rightarrow> 'i result \<times> 'w"
  sh_add :: "'i \<Rightarrow> 'h \<Rightarrow> nat \<Rightarrow> 'w \<Rightarrow> 'r result \<times> 'w"
  sh_remove :: "'i \<Rightarrow> 'r \<Rightarrow> 'w \<Rightarrow> error option \<times> 'w"
  sh_synced :: "'i \<Rightarrow> 'w \<Rightarrow> bool"
  sh_reg_synced :: "'r \<Rightarrow> 'w \<Rightarrow> bool"

record ('h, 'r) handlerEntry =
  he_handler :: 'h
  he_resyncPeriod :: nat
  he_registrations :: "string \<rightharpoonup> 'r"

record ('h, 'r) aggregateInformer =
  ai_obj :: kobject
  ai_handlers :: "('h, 'r) handlerEntry list"

record ('c, 'h, 'r) aggregateCache =
  ac_caches :: "string \<rightharpoonup> 'c"
  ac_informers :: "gvk \<rightharpoonup> ('h, 'r) aggregateInformer"

definition NewAggregateCache :: "('c, 'h, 'r) aggregateCache" where
  "NewAggregateCache = \<lparr> ac_caches = Map.empty, ac_informers = Map.empty \<rparr>"

definition newAggregateSharedIndexInformer :: "kobject \<Rightarrow> ('h, 'r) aggregateInformer" where
  "newAggregateSharedIndexInformer ob = \<lparr> ai_obj = ob, ai_handlers = [] \<rparr>"

subsection \<open>Adding a handler to an aggregate informer\<close>

text \<open>\<open>cleanupRegistrations\<close>, along an order of the entry's registrations.\<close>

fun cleanupRegistrations ::
  "('c, 'i, 'h, 'r, 'w) shard_api \<Rightarrow> kobject \<Rightarrow> (string \<rightharpoonup> 'c) \<Rightarrow> (string \<rightharpoonup> 'r) \<Rightarrow> string list \<Rightarrow> 'w \<Rightarrow> 'w" where
  "cleanupRegistrations A ob caches regs [] w = w"
| "cleanupRegistrations A ob caches regs (cid # ids) w =
     cleanupRegistrations A ob caches regs ids
       (case (regs cid, caches cid) of
          (Some reg, Some c) \<Rightarrow>
            (case sh_informer A c ob w of
               (Inl err, w') \<Rightarrow> w'
             | (Inr i, w') \<Rightarrow> snd (sh_remove A i reg w'))
        | _ \<Rightarrow> w)"

text \<open>
  The loop of \<open>AddEventHandlerWithResyncPeriod\<close> over the caches; \<open>cord\<close> is the order
  in which a clean-up ranges over the registrations made so far.
\<close>

fun add_handler_loop ::
  "('c, 'i, 'h, 'r, 'w) shard_api \<Rightarrow> ((string \<rightharpoonup> 'r) \<Rightarrow> string list) \<Rightarrow> kobject \<Rightarrow> (string \<rightharpoonup> 'c) \<Rightarrow> 'h \<Rightarrow> nat
     \<Rightarrow> string list \<Rightarrow> (string \<rightharpoonup> 'r) \<Rightarrow> 'w \<Rightarrow> (string \<rightharpoonup> 'r) result \<times> 'w" where
  "add_handler_loop A cord ob caches h p [] regs w = (Inr regs, w)"
| "add_handler_loop A cord ob caches h p (cid # ids) regs w =
     (case caches cid of
        None \<Rightarrow> add_handler_loop A cord ob caches h p ids regs w
      | Some c \<Rightarrow>
          (case sh_informer A c ob w of
             (Inl err, w') \<Rightarrow>
               (Inl (Errorf ''cache %q: failed to get informer: %w'' [cid] [err]),
                cleanupRegistrations A ob caches regs (cord regs) w')
           | (Inr i, w') \<Rightarrow>
               (case sh_add A i h p w' of
                  (Inl err, w'') \<Rightarrow>
                    (Inl (Errorf ''cache %q: failed to add handler: %w'' [cid] [err]),
                     cleanupRegistrations A ob caches regs (cord regs) w'')
                | (Inr reg, w'') \<Rightarrow>
                    add_handler_loop A cord ob caches h p ids (regs(cid \<mapsto> reg)) w'')))"

text \<open>
  The handlers of an informer are only ever appended, so an \<open>aggregateRegistration\<close>, which
  points to the informer and the entry, is the informer's kind and the entry's position.
\<close>

definition AddEventHandlerWithResyncPeriod ::
  "('c, 'i, 'h, 'r, 'w) shard_api \<Rightarrow> ((string \<rightharpoonup> 'r) \<Rightarrow> string list) \<Rightarrow> string list \<Rightarrow> gvk \<Rightarrow> 'h \<Rightarrow> nat
     \<Rightarrow> ('c, 'h, 'r) aggregateCache \<Rightarrow> 'w \<Rightarrow> (gvk \<times> nat) result option \<times> ('c, 'h, 'r) aggregateCache \<times> 'w" where
  "AddEventHandlerWithResyncPeriod A cord ids g h p st w =
     (case ac_informers st g of
        None \<Rightarrow> (None, st, w)
      | Some inf0 \<Rightarrow>
          (case add_handler_loop A cord (ai_obj inf0) (ac_caches st) h p ids Map.empty w of
             (Inl err, w') \<Rightarrow> (Some (Inl err), st, w')
           | (Inr regs, w') \<Rightarrow>
               (Some (Inr (g, length (ai_handlers inf0))),
                st\<lparr> ac_informers := (ac_informers st)(g \<mapsto> inf0\<lparr> ai_handlers := ai_handlers inf0 @
                     [\<lparr> he_handler = h, he_resyncPeriod = p, he_registrations = regs \<rparr>] \<rparr>) \<rparr>, w')))"

definition AddEventHandler ::
  "('c, 'i, 'h, 'r, 'w) shard_api \<Rightarrow> ((string \<rightharpoonup> 'r) \<Rightarrow> string list) \<Rightarrow> string list \<Rightarrow> gvk \<Rightarrow> 'h
     \<Rightarrow> ('c, 'h, 'r) aggregateCache \<Rightarrow> 'w \<Rightarrow> (gvk \<times> nat) result option \<times> ('c, 'h, 'r) aggregateCache \<times> 'w" where
  "AddEventHandler A cord ids g h = AddEventHandlerWithResyncPeriod A cord ids g h 0"

subsection \<open>Adding and removing caches\<close>

fun onCacheAdded_loop ::
  "('c, 'i, 'h, 'r, 'w) shard_api \<Rightarrow> string \<Rightarrow> 'i \<Rightarrow> ('h, 'r) handlerEntry list \<Rightarrow> 'w
     \<Rightarrow> ('h, 'r) handlerEntry list \<times> 'w" where
  "onCacheAdded_loop A cacheID i [] w = ([], w)"
| "onCacheAdded_loop A cacheID i (entry # entries) w =
     (case sh_add A i (he_handler entry) (he_resyncPeriod entry) w of
        (Inl err, w') \<Rightarrow> (case onCacheAdded_loop A cacheID i entries w' of (es, w'') \<Rightarrow> (entry # es, w''))
      | (Inr reg, w') \<Rightarrow> (case onCacheAdded_loop A cacheID i entries w' of (es, w'') \<Rightarrow>
           (entry\<lparr> he_registrations := (he_registrations entry)(cacheID \<mapsto> reg) \<rparr> # es, w'')))"

definition onCacheAdded ::
  "('c, 'i, 'h, 'r, 'w) shard_api \<Rightarrow> string \<Rightarrow> 'c \<Rightarrow> ('h, 'r) aggregateInformer \<Rightarrow> 'w
     \<Rightarrow> ('h, 'r) aggregateInformer \<times> 'w" where
  "onCacheAdded A cacheID c a w =
     (case sh_informer A c (ai_obj a) w of
        (Inl err, w') \<Rightarrow> (a, w')
      | (Inr i, w') \<Rightarrow> (case onCacheAdded_loop A cacheID i (ai_handlers a) w' of
           (es, w'') \<Rightarrow> (a\<lparr> ai_handlers := es \<rparr>, w'')))"

definition onCacheRemoved :: "string \<Rightarrow> ('h, 'r) aggregateInformer \<Rightarrow> ('h, 'r) aggregateInformer" where
  "onCacheRemoved cacheID a = a\<lparr> ai_handlers :=
     map (\<lambda>entry. entry\<lparr> he_registrations := (he_registrations entry)(cacheID := None) \<rparr>) (ai_handlers a) \<rparr>"

text \<open>
  \<open>AddCache\<close> and \<open>RemoveCache\<close> work under two different locks one after the other, so
  each is two steps that other operations may come between.
\<close>

definition AddCache_store :: "string \<Rightarrow> 'c \<Rightarrow> ('c, 'h, 'r) aggregateCache \<Rightarrow> ('c, 'h, 'r) aggregateCache" where
  "AddCache_store cid c st = st\<lparr> ac_caches := (ac_caches st)(cid \<mapsto> c) \<rparr>"

fun AddCache_notify ::
  "('c, 'i, 'h, 'r, 'w) shard_api \<Rightarrow> string \<Rightarrow> 'c \<Rightarrow> gvk list \<Rightarrow> ('c, 'h, 'r) aggregateCache \<Rightarrow> 'w
     \<Rightarrow> ('c, 'h, 'r) aggregateCache \<times> 'w" where
  "AddCache_notify A cid c [] st w = (st, w)"
| "AddCache_notify A cid c (g # gs) st w =
     (case ac_informers st g of
        None \<Rightarrow> AddCache_notify A cid c gs st w
      | Some a \<Rightarrow> (case onCacheAdded A cid c a w of (a', w') \<Rightarrow>
           AddCache_notify A cid c gs (st\<lparr> ac_informers := (ac_informers st)(g \<mapsto> a') \<rparr>) w'))"

definition AddCache ::
  "('c, 'i, 'h, 'r, 'w) shard_api \<Rightarrow> gvk list \<Rightarrow> string \<Rightarrow> 'c \<Rightarrow> ('c, 'h, 'r) aggregateCache \<Rightarrow> 'w
     \<Rightarrow> ('c, 'h, 'r) aggregateCache \<times> 'w" where
  "AddCache A gs cid c st w = AddCache_notify A cid c gs (AddCache_store cid c st) w"

definition RemoveCache_store :: "string \<Rightarrow> ('c, 'h, 'r) aggregateCache \<Rightarrow> ('c, 'h, 'r) aggregateCache" where
  "RemoveCache_store cid st = st\<lparr> ac_caches := (ac_caches st)(cid := None) \<rparr>"

text \<open>Each informer's clean-up is independent of the others, so their order does not show.\<close>

definition RemoveCache_notify :: "string \<Rightarrow> ('c, 'h, 'r) aggregateCache \<Rightarrow> ('c, 'h, 'r) aggregateCache" where
  "RemoveCache_notify cid st = st\<lparr> ac_informers := (\<lambda>g. map_option (onCacheRemoved cid) (ac_informers st g)) \<rparr>"

definition RemoveCache :: "string \<Rightarrow> ('c, 'h, 'r) aggregateCache \<Rightarrow> ('c, 'h, 'r) aggregateCache" where
  "RemoveCache cid st = RemoveCache_notify cid (RemoveCache_store cid st)"

subsection \<open>Informers and synchronisation\<close>

definition informer_for :: "kobject \<Rightarrow> gvk \<Rightarrow> ('c, 'h, 'r) aggregateCache \<Rightarrow> ('c, 'h, 'r) aggregateCache" where
  "informer_for ob g st =
     (if ac_informers st g \<noteq> None then st
      else st\<lparr> ac_informers := (ac_informers st)(g \<mapsto> newAggregateSharedIndexInformer ob) \<rparr>)"

definition GetAggregateInformer ::
  "(kobject \<Rightarrow> gvk result) \<Rightarrow> kobject \<Rightarrow> ('c, 'h, 'r) aggregateCache \<Rightarrow> gvk result \<times> ('c, 'h, 'r) aggregateCache" where
  "GetAggregateInformer GVKForObj ob st =
     (case GVKForObj ob of
        Inl err \<Rightarrow> (Inl (Errorf ''failed to get GVK for object: %w'' [] [err]), st)
      | Inr g \<Rightarrow> (Inr g, informer_for ob g st))"

fun HasSynced_loop ::
  "('c, 'i, 'h, 'r, 'w) shard_api \<Rightarrow> kobject \<Rightarrow> (string \<rightharpoonup> 'c) \<Rightarrow> string list \<Rightarrow> 'w \<Rightarrow> bool \<times> 'w" where
  "HasSynced_loop A ob caches [] w = (True, w)"
| "HasSynced_loop A ob caches (cid # ids) w =
     (case caches cid of
        None \<Rightarrow> HasSynced_loop A ob caches ids w
      | Some c \<Rightarrow>
          (case sh_informer A c ob w of
             (Inl err, w') \<Rightarrow> (False, w')
           | (Inr i, w') \<Rightarrow> if \<not> sh_synced A i w' then (False, w') else HasSynced_loop A ob caches ids w'))"

definition Registration_HasSynced ::
  "('c, 'i, 'h, 'r, 'w) shard_api \<Rightarrow> (string \<rightharpoonup> 'r) \<Rightarrow> string list \<Rightarrow> 'w \<Rightarrow> bool" where
  "Registration_HasSynced A regs ids w \<longleftrightarrow>
     list_all (\<lambda>cid. case regs cid of None \<Rightarrow> True | Some r \<Rightarrow> sh_reg_synced A r w) ids"

subsection \<open>List\<close>

text \<open>
  \<open>'l\<close> are list objects: \<open>DeepCopyObject\<close> with its assertion to a list type, a cache's
  \<open>List\<close> into one, \<open>ExtractList\<close> and \<open>SetList\<close>. \<open>kerrors.NewAggregate\<close> is nil for no error, and
  otherwise the list of errors, as \<open>errors.Join\<close> is.
\<close>

record ('c, 'l, 'w) list_api =
  la_copy :: "'l \<Rightarrow> 'l option"
  la_type :: "'l \<Rightarrow> string"
  la_list :: "'c \<Rightarrow> 'l \<Rightarrow> 'w \<Rightarrow> 'l result \<times> 'w"
  la_extract :: "'l \<Rightarrow> kobject list result"
  la_set :: "'l \<Rightarrow> kobject list \<Rightarrow> 'l result"

definition list_one ::
  "('c, 'l, 'w) list_api \<Rightarrow> 'l \<Rightarrow> string \<Rightarrow> 'c \<Rightarrow> 'w \<Rightarrow> kobject list result \<times> 'w" where
  "list_one L lst cid c w =
     (case la_copy L lst of
        None \<Rightarrow> (Inl (Errorf ''cache for %q failed: list object %T does not implement DeepCopyObject correctly''
                    [cid, la_type L lst] []), w)
      | Some perCacheList \<Rightarrow>
          (case la_list L c perCacheList w of
             (Inl err, w') \<Rightarrow> (Inl (Errorf ''cache for %q failed: listing objects failed: %w'' [cid] [err]), w')
           | (Inr filled, w') \<Rightarrow>
               (case la_extract L filled of
                  Inl err \<Rightarrow> (Inl (Errorf ''cache for %q failed: extracting items failed: %w'' [cid] [err]), w')
                | Inr items \<Rightarrow> (Inr items, w'))))"

fun list_all_caches ::
  "('c, 'l, 'w) list_api \<Rightarrow> 'l \<Rightarrow> (string \<rightharpoonup> 'c) \<Rightarrow> string list \<Rightarrow> kobject list \<Rightarrow> error list \<Rightarrow> 'w
     \<Rightarrow> kobject list \<times> error list \<times> 'w" where
  "list_all_caches L lst caches [] allItems errs w = (allItems, errs, w)"
| "list_all_caches L lst caches (cid # ids) allItems errs w =
     (case caches cid of
        None \<Rightarrow> list_all_caches L lst caches ids allItems errs w
      | Some c \<Rightarrow>
          (case list_one L lst cid c w of
             (Inl err, w') \<Rightarrow> list_all_caches L lst caches ids allItems (errs @ [err]) w'
           | (Inr items, w') \<Rightarrow> list_all_caches L lst caches ids (allItems @ items) errs w'))"

definition Aggregate_List ::
  "('c, 'l, 'w) list_api \<Rightarrow> string list \<Rightarrow> ('c, 'h, 'r) aggregateCache \<Rightarrow> 'l \<Rightarrow> 'w \<Rightarrow> ('l \<times> error option) \<times> 'w" where
  "Aggregate_List L ids st lst w =
     (case list_all_caches L lst (ac_caches st) ids [] [] w of
        (allItems, errs, w') \<Rightarrow>
          (case la_set L lst allItems of
             Inl err \<Rightarrow> ((lst, errors_Join (errs @
               [Errorf ''error setting aggregated items on passed object list: %w'' [] [err]])), w')
           | Inr filled \<Rightarrow> ((filled, errors_Join errs), w')))"

subsection \<open>What the code relies on in the shards\<close>

text \<open>
  The documented behaviour of the shared informers of a shard. \<open>live w i\<close> are the handlers
  registered at informer \<open>i\<close> with their registrations, in order; a cache has one informer
  per object type (\<open>inf_of\<close>) and keeps handing it out once it has (\<open>has\<close>); adding a
  handler makes a registration that is new at that informer; removing one removes just it.
\<close>

definition shards_ok ::
  "('c, 'i, 'h, 'r, 'w) shard_api \<Rightarrow> ('w \<Rightarrow> 'i \<Rightarrow> ('h \<times> 'r) list) \<Rightarrow> ('c \<Rightarrow> kobject \<Rightarrow> 'i)
     \<Rightarrow> ('w \<Rightarrow> 'c \<Rightarrow> kobject \<Rightarrow> bool) \<Rightarrow> bool" where
  "shards_ok A live inf_of has \<longleftrightarrow>
     (\<forall>c ob w. live (snd (sh_informer A c ob w)) = live w \<and>
        (\<forall>d x. has w d x \<longrightarrow> has (snd (sh_informer A c ob w)) d x) \<and>
        (case fst (sh_informer A c ob w) of
           Inl _ \<Rightarrow> \<not> has w c ob
         | Inr i \<Rightarrow> i = inf_of c ob \<and> has (snd (sh_informer A c ob w)) c ob)) \<and>
     (\<forall>i h p w. has (snd (sh_add A i h p w)) = has w \<and>
        (case fst (sh_add A i h p w) of
           Inl _ \<Rightarrow> live (snd (sh_add A i h p w)) = live w
         | Inr r \<Rightarrow> live (snd (sh_add A i h p w)) = (live w)(i := live w i @ [(h, r)]) \<and>
                   r \<notin> snd ` set (live w i))) \<and>
     (\<forall>i r w. has (snd (sh_remove A i r w)) = has w \<and>
        live (snd (sh_remove A i r w)) = (live w)(i := filter (\<lambda>x. snd x \<noteq> r) (live w i)))"

lemma shards_ok_informer:
  assumes "shards_ok A live inf_of has"
  shows "sh_informer A c ob w = (Inr i, w') \<Longrightarrow> i = inf_of c ob \<and> has w' c ob \<and> live w' = live w"
    and "sh_informer A c ob w = (Inl err, w') \<Longrightarrow> \<not> has w c ob \<and> live w' = live w"
    and "sh_informer A c ob w = (res, w') \<Longrightarrow> has w d x \<Longrightarrow> has w' d x"
proof -
  have law: "live (snd (sh_informer A c ob w)) = live w \<and>
        (\<forall>d x. has w d x \<longrightarrow> has (snd (sh_informer A c ob w)) d x) \<and>
        (case fst (sh_informer A c ob w) of
           Inl _ \<Rightarrow> \<not> has w c ob
         | Inr i \<Rightarrow> i = inf_of c ob \<and> has (snd (sh_informer A c ob w)) c ob)"
    using assms unfolding shards_ok_def by blast
  then show "sh_informer A c ob w = (Inr i, w') \<Longrightarrow> i = inf_of c ob \<and> has w' c ob \<and> live w' = live w"
    and "sh_informer A c ob w = (Inl err, w') \<Longrightarrow> \<not> has w c ob \<and> live w' = live w"
    and "sh_informer A c ob w = (res, w') \<Longrightarrow> has w d x \<Longrightarrow> has w' d x"
    by simp_all
qed

lemma shards_ok_add:
  assumes "shards_ok A live inf_of has"
  shows "sh_add A i h p w = (Inr r, w') \<Longrightarrow>
      live w' = (live w)(i := live w i @ [(h, r)]) \<and> r \<notin> snd ` set (live w i)"
    and "sh_add A i h p w = (Inl err, w') \<Longrightarrow> live w' = live w"
    and "sh_add A i h p w = (res, w') \<Longrightarrow> has w' = has w"
proof -
  have law: "has (snd (sh_add A i h p w)) = has w \<and>
        (case fst (sh_add A i h p w) of
           Inl _ \<Rightarrow> live (snd (sh_add A i h p w)) = live w
         | Inr r \<Rightarrow> live (snd (sh_add A i h p w)) = (live w)(i := live w i @ [(h, r)]) \<and>
                   r \<notin> snd ` set (live w i))"
    using assms unfolding shards_ok_def by blast
  then show "sh_add A i h p w = (Inr r, w') \<Longrightarrow>
      live w' = (live w)(i := live w i @ [(h, r)]) \<and> r \<notin> snd ` set (live w i)"
    and "sh_add A i h p w = (Inl err, w') \<Longrightarrow> live w' = live w"
    and "sh_add A i h p w = (res, w') \<Longrightarrow> has w' = has w"
    by simp_all
qed

lemma shards_ok_remove:
  assumes "shards_ok A live inf_of has"
  shows "live (snd (sh_remove A i r w)) = (live w)(i := filter (\<lambda>x. snd x \<noteq> r) (live w i))"
    and "has (snd (sh_remove A i r w)) = has w"
  using assms unfolding shards_ok_def by blast+

subsection \<open>All or nothing: adding a handler\<close>

lemma cleanup_live:
  assumes ok: "shards_ok A live inf_of has"
    and "\<forall>k \<in> set ids. \<exists>c r. caches k = Some c \<and> regs k = Some r \<and> has w c ob"
  shows "live (cleanupRegistrations A ob caches regs ids w) i =
    filter (\<lambda>x. \<forall>k \<in> set ids. inf_of (the (caches k)) ob = i \<longrightarrow> snd x \<noteq> the (regs k)) (live w i)"
  using assms(2)
proof (induction ids arbitrary: w)
  case Nil
  then show ?case by simp
next
  case (Cons k ids)
  obtain c r where c: "caches k = Some c" "regs k = Some r" and has: "has w c ob"
    using Cons.prems by auto
  obtain j w1 where inf1: "sh_informer A c ob w = (Inr j, w1)"
    using shards_ok_informer(2) [OF ok] has by (metis obj_sumE prod.collapse)
  have j: "j = inf_of c ob" and live1: "live w1 = live w"
    using shards_ok_informer(1) [OF ok inf1] by simp_all
  let ?w2 = "snd (sh_remove A j r w1)"
  have has2: "has ?w2 d x" if "has w d x" for d x
    using shards_ok_informer(3) [OF ok inf1 that] shards_ok_remove(2) [OF ok] by simp
  have "\<forall>k \<in> set ids. \<exists>c r. caches k = Some c \<and> regs k = Some r \<and> has ?w2 c ob"
    using Cons.prems has2 by (meson list.set_intros(2))
  note IH = Cons.IH [OF this]
  show ?case
    using IH c j live1 by (simp add: inf1 shards_ok_remove(1) [OF ok] fun_upd_def conj_commute)
qed

text \<open>
  The invariant of the loop: \<open>done\<close> are the caches visited, in order; the handler is live at
  the informer of each of them, once, under the registration recorded, and elsewhere nothing
  changed.
\<close>

definition adding ::
  "('w \<Rightarrow> 'i \<Rightarrow> ('h \<times> 'r) list) \<Rightarrow> ('c \<Rightarrow> kobject \<Rightarrow> 'i) \<Rightarrow> ('w \<Rightarrow> 'c \<Rightarrow> kobject \<Rightarrow> bool) \<Rightarrow> kobject
     \<Rightarrow> (string \<rightharpoonup> 'c) \<Rightarrow> 'h \<Rightarrow> ('i \<Rightarrow> ('h \<times> 'r) list) \<Rightarrow> string list \<Rightarrow> (string \<rightharpoonup> 'r) \<Rightarrow> 'w \<Rightarrow> bool" where
  "adding live inf_of has ob caches h live0 visited regs w \<longleftrightarrow>
     dom regs = set visited \<and>
     (\<forall>i. live w i = live0 i @ map (\<lambda>k. (h, the (regs k)))
        (filter (\<lambda>k. inf_of (the (caches k)) ob = i) visited)) \<and>
     (\<forall>k \<in> set visited. \<exists>c. caches k = Some c \<and> has w c ob \<and> the (regs k) \<notin> snd ` set (live0 (inf_of c ob)))"

lemma adding_informer:
  assumes "adding live inf_of has ob caches h live0 vis regs w" and "shards_ok A live inf_of has"
    and "sh_informer A c ob w = (res, w')"
  shows "adding live inf_of has ob caches h live0 vis regs w'"
proof -
  have "live w' = live w"
    using shards_ok_informer(1,2) [OF assms(2), of c ob w] assms(3) by (cases res) auto
  then show ?thesis
    using assms(1) shards_ok_informer(3) [OF assms(2,3)] unfolding adding_def by metis
qed

lemma adding_rollback:
  assumes ad: "adding live inf_of has ob caches h live0 vis regs w" and ok: "shards_ok A live inf_of has"
    and "range_of regs ids"
  shows "live (cleanupRegistrations A ob caches regs ids w) = live0"
proof
  fix i
  have ids: "set ids = set vis" using ad assms(3) by (simp add: adding_def range_of_def)
  have "\<forall>k \<in> set ids. \<exists>c r. caches k = Some c \<and> regs k = Some r \<and> has w c ob"
    using ad ids unfolding adding_def by (metis domD)
  note cl = cleanup_live [OF ok this, of i]
  have keep: "snd x \<noteq> the (regs k)"
    if x: "x \<in> set (live0 i)" and k: "k \<in> set vis" "inf_of (the (caches k)) ob = i" for x k
  proof -
    obtain c where "caches k = Some c" "the (regs k) \<notin> snd ` set (live0 (inf_of c ob))"
      using ad k(1) unfolding adding_def by blast
    then show ?thesis using x k(2) by (metis imageI option.sel)
  qed
  have gone: "\<exists>k \<in> set vis. inf_of (the (caches k)) ob = i \<and> snd x = the (regs k)"
    if "x \<in> set (map (\<lambda>k. (h, the (regs k))) (filter (\<lambda>k. inf_of (the (caches k)) ob = i) vis))" for x
    using that by auto
  have "live w i = live0 i @ map (\<lambda>k. (h, the (regs k))) (filter (\<lambda>k. inf_of (the (caches k)) ob = i) vis)"
    using ad unfolding adding_def by blast
  then show "live (cleanupRegistrations A ob caches regs ids w) i = live0 i"
    unfolding cl ids using keep gone by (auto simp: filter_empty_conv intro!: filter_True)
qed

lemma adding_add:
  assumes ad: "adding live inf_of has ob caches h live0 vis regs w" and ok: "shards_ok A live inf_of has"
    and c: "caches k = Some c" and has: "has w c ob" and new: "k \<notin> set vis"
    and add: "sh_add A (inf_of c ob) h p w = (Inr r, w')"
  shows "adding live inf_of has ob caches h live0 (vis @ [k]) (regs(k \<mapsto> r)) w'"
proof -
  have live': "live w' = (live w)(inf_of c ob := live w (inf_of c ob) @ [(h, r)])"
    and fresh: "r \<notin> snd ` set (live w (inf_of c ob))" and has': "has w' = has w"
    using shards_ok_add(1,3) [OF ok add] by simp_all
  have live: "live w i = live0 i @ map (\<lambda>k. (h, the (regs k)))
        (filter (\<lambda>k. inf_of (the (caches k)) ob = i) vis)" for i
    using ad unfolding adding_def by blast
  have same: "map (\<lambda>j. (h, the ((regs(k \<mapsto> r)) j))) (filter Q vis) = map (\<lambda>j. (h, the (regs j))) (filter Q vis)" for Q
    using new by (auto intro!: map_cong)
  have "live w' i = live0 i @ map (\<lambda>j. (h, the ((regs(k \<mapsto> r)) j)))
        (filter (\<lambda>j. inf_of (the (caches j)) ob = i) (vis @ [k]))" for i
    using same by (simp add: live' live c)
  moreover have "r \<notin> snd ` set (live0 (inf_of c ob))"
    using fresh live [of "inf_of c ob"] by auto
  moreover have "the ((regs(k \<mapsto> r)) j) = the (regs j)" if "j \<in> set vis" for j
    using that new by auto
  ultimately show ?thesis
    using ad c has unfolding adding_def has' by auto
qed

lemma add_handler_loop_result:
  assumes ok: "shards_ok A live inf_of has" and cord: "\<And>regs. finite (dom regs) \<Longrightarrow> range_of regs (cord regs)"
    and "adding live inf_of has ob caches h live0 vis regs w"
    and "distinct ids" and "set vis \<inter> set ids = {}" and "set ids \<subseteq> dom caches"
    and "add_handler_loop A cord ob caches h p ids regs w = (res, w')"
  shows "case res of Inl _ \<Rightarrow> live w' = live0
     | Inr regs' \<Rightarrow> adding live inf_of has ob caches h live0 (vis @ ids) regs' w'"
  using assms(3-)
proof (induction ids arbitrary: vis regs w)
  case Nil
  then show ?case by auto
next
  case (Cons k ids)
  obtain c where c: "caches k = Some c" using Cons.prems by auto
  have fin: "finite (dom regs)" using Cons.prems(1) by (simp add: adding_def)
  obtain res1 w1 where inf1: "sh_informer A c ob w = (res1, w1)" by (cases "sh_informer A c ob w")
  have ad1: "adding live inf_of has ob caches h live0 vis regs w1"
    by (rule adding_informer [OF Cons.prems(1) ok inf1])
  show ?case
  proof (cases res1)
    case (Inl err)
    with Cons.prems(5) c inf1 adding_rollback [OF ad1 ok cord [OF fin]] show ?thesis by auto
  next
    case (Inr i)
    have i: "i = inf_of c ob" and has1: "has w1 c ob"
      using shards_ok_informer(1) [OF ok inf1 [unfolded Inr]] by simp_all
    obtain res2 w2 where add2: "sh_add A i h p w1 = (res2, w2)" by (cases "sh_add A i h p w1")
    show ?thesis
    proof (cases res2)
      case (Inl err)
      have "live w2 = live w1" "has w2 = has w1"
        using shards_ok_add(2,3) [OF ok] add2 Inl by auto
      then have "adding live inf_of has ob caches h live0 vis regs w2"
        using ad1 by (simp add: adding_def)
      from adding_rollback [OF this ok cord [OF fin]] show ?thesis
        using Cons.prems(5) c inf1 Inr add2 Inl by auto
    next
      case (Inr r)
      have ad2: "adding live inf_of has ob caches h live0 (vis @ [k]) (regs(k \<mapsto> r)) w2"
        using adding_add [OF ad1 ok c has1, of p r w2] Cons.prems(3) add2 Inr i by simp
      have "distinct ids" "set (vis @ [k]) \<inter> set ids = {}" "set ids \<subseteq> dom caches"
        using Cons.prems(2-4) by auto
      moreover have "add_handler_loop A cord ob caches h p ids (regs(k \<mapsto> r)) w2 = (res, w')"
        using Cons.prems(5) c inf1 \<open>res1 = Inr i\<close> add2 Inr by simp
      ultimately have "case res of Inl _ \<Rightarrow> live w' = live0
          | Inr regs' \<Rightarrow> adding live inf_of has ob caches h live0 ((vis @ [k]) @ ids) regs' w'"
        by (rule Cons.IH [OF ad2])
      then show ?thesis by (simp only: append_assoc append_Cons append_Nil)
    qed
  qed
qed

lemma adding_start: "adding live inf_of has ob caches h (live w) [] Map.empty w"
  by (simp add: adding_def)

text \<open>
  Property C31. Adding a handler to an aggregate informer is all or nothing. If it fails on
  any shard, the aggregate cache is unchanged and every shard has exactly the handlers it had
  before, whatever the order in which the caches were visited and cleaned up. If it succeeds,
  the handler was added once at the informer of every cache, under the registration the new
  entry records for that cache, and nothing else changed.
\<close>

theorem add_handler_all_or_nothing:
  assumes "shards_ok A live inf_of has" and "\<And>regs. finite (dom regs) \<Longrightarrow> range_of regs (cord regs)"
    and "range_of (ac_caches st) ids" and "ac_informers st g = Some a"
    and "AddEventHandlerWithResyncPeriod A cord ids g h p st w = (Some res, st', w')"
  shows "case res of
      Inl err \<Rightarrow> st' = st \<and> live w' = live w
    | Inr registration \<Rightarrow> \<exists>regs. dom regs = dom (ac_caches st) \<and>
        registration = (g, length (ai_handlers a)) \<and>
        st' = st\<lparr> ac_informers := (ac_informers st)(g \<mapsto> a\<lparr> ai_handlers := ai_handlers a @
                [\<lparr> he_handler = h, he_resyncPeriod = p, he_registrations = regs \<rparr>] \<rparr>) \<rparr> \<and>
        (\<forall>i. live w' i = live w i @ map (\<lambda>k. (h, the (regs k)))
              (filter (\<lambda>k. inf_of (the (ac_caches st k)) (ai_obj a) = i) ids))"
proof -
  obtain lres w1 where loop: "add_handler_loop A cord (ai_obj a) (ac_caches st) h p ids Map.empty w = (lres, w1)"
    by (cases "add_handler_loop A cord (ai_obj a) (ac_caches st) h p ids Map.empty w")
  have ids: "distinct ids" "set ids = dom (ac_caches st)" using assms(3) by (simp_all add: range_of_def)
  note r = add_handler_loop_result [OF assms(1,2) adding_start ids(1) _ _ loop]
  show ?thesis
  proof (cases lres)
    case (Inl err)
    with assms(4,5) loop r ids show ?thesis by (auto simp: AddEventHandlerWithResyncPeriod_def)
  next
    case (Inr regs)
    then have res: "res = Inr (g, length (ai_handlers a))"
      "st' = st\<lparr> ac_informers := (ac_informers st)(g \<mapsto> a\<lparr> ai_handlers := ai_handlers a @
                [\<lparr> he_handler = h, he_resyncPeriod = p, he_registrations = regs \<rparr>] \<rparr>) \<rparr>" "w' = w1"
      using assms(4,5) loop by (simp_all add: AddEventHandlerWithResyncPeriod_def)
    have "adding live inf_of has (ai_obj a) (ac_caches st) h (live w) ids regs w'"
      using r ids Inr res(3) by simp
    then show ?thesis unfolding res adding_def sum.case ids(2) by (intro exI [of _ regs]) simp
  qed
qed

end
