(* ===== verification/AggregateInv.thy ===== *)
theory AggregateInv
  imports Aggregate "HOL-Library.List_Lexorder" "HOL-Library.Char_ord"
begin

text \<open>
  What holds of the aggregate cache over all histories of its operations: a handler's
  registrations are live ones at the informers of the current caches; and what the interleavings that the two locks
  of \<open>AddCache\<close> allow do to a handler. The listing is proved to be the multiset sum of what
  the caches list.
\<close>

subsection \<open>Histories\<close>

text \<open>
  \<open>AddCache\<close> and \<open>RemoveCache\<close> change the map of caches under one lock and then the informers
  under another, so a history has their halves as separate steps; between them handlers are added
  and informers looked up. Only one cache is being added or removed at a time, and only under an
  id that is not in use: the provider's one queue worker makes all these calls, for URLs it does
  not watch. The visiting orders are arbitrary at every step. On its own a shard loses no handler.
\<close>

datatype 'c cache_change = Idle | Adding string 'c | Removing string

inductive agg_step ::
  "('c, 'i, 'h, 'r, 'w) shard_api \<Rightarrow> ('w \<Rightarrow> 'i \<Rightarrow> ('h \<times> 'r) list)
     \<Rightarrow> ('c, 'h, 'r) aggregateCache \<times> 'w \<times> 'c cache_change \<Rightarrow> ('c, 'h, 'r) aggregateCache \<times> 'w \<times> 'c cache_change \<Rightarrow> bool"
  for A live where
  add_store: "ac_caches st k = None \<Longrightarrow> agg_step A live (st, w, Idle) (AddCache_store k c st, w, Adding k c)"
| add_notify: "range_of (ac_informers st) gs \<Longrightarrow> AddCache_notify A k c gs st w = (st', w') \<Longrightarrow>
     agg_step A live (st, w, Adding k c) (st', w', Idle)"
| remove_store: "agg_step A live (st, w, Idle) (RemoveCache_store k st, w, Removing k)"
| remove_notify: "agg_step A live (st, w, Removing k) (RemoveCache_notify k st, w, Idle)"
| get_informer: "GetAggregateInformer G ob st = (res, st') \<Longrightarrow> agg_step A live (st, w, q) (st', w, q)"
| add_handler: "range_of (ac_caches st) ids \<Longrightarrow> (\<And>regs. finite (dom regs) \<Longrightarrow> range_of regs (cord regs)) \<Longrightarrow>
     AddEventHandlerWithResyncPeriod A cord ids g h p st w = (res, st', w') \<Longrightarrow>
     agg_step A live (st, w, q) (st', w', q)"
| shards: "(\<And>i. set (live w i) \<subseteq> set (live w' i)) \<Longrightarrow> agg_step A live (st, w, q) (st, w', q)"

inductive agg_reach ::
  "('c, 'i, 'h, 'r, 'w) shard_api \<Rightarrow> ('w \<Rightarrow> 'i \<Rightarrow> ('h \<times> 'r) list)
     \<Rightarrow> ('c, 'h, 'r) aggregateCache \<times> 'w \<times> 'c cache_change \<Rightarrow> bool" for A live where
  start: "agg_reach A live (NewAggregateCache, w, Idle)"
| more: "agg_reach A live s \<Longrightarrow> agg_step A live s t \<Longrightarrow> agg_reach A live t"

subsection \<open>Who is registered where\<close>

definition never_fails :: "('c, 'i, 'h, 'r, 'w) shard_api \<Rightarrow> bool" where
  "never_fails A \<longleftrightarrow> (\<forall>c ob w. \<not> is_err (fst (sh_informer A c ob w))) \<and>
     (\<forall>i h p w. \<not> is_err (fst (sh_add A i h p w)))"

lemma never_failsD:
  assumes "never_fails A"
  shows "sh_informer A c ob w \<noteq> (Inl err, w')" and "sh_add A i h p w \<noteq> (Inl err, w')"
proof -
  have "\<not> is_err (fst (sh_informer A c ob w))" and "\<not> is_err (fst (sh_add A i h p w))"
    using assms unfolding never_fails_def by blast+
  then show "sh_informer A c ob w \<noteq> (Inl err, w')" and "sh_add A i h p w \<noteq> (Inl err, w')"
    by auto
qed

text \<open>
  Every registration of an entry, except under the key that is being removed, is live at the
  informer of the current cache with the entry's own handler; and when \<open>full\<close>, every current cache
  has one, except the one being added.
\<close>

definition entry_ok ::
  "bool \<Rightarrow> ('i \<Rightarrow> ('h \<times> 'r) list) \<Rightarrow> ('c \<Rightarrow> kobject \<Rightarrow> 'i) \<Rightarrow> string set \<Rightarrow> string set \<Rightarrow> (string \<rightharpoonup> 'c) \<Rightarrow> kobject
     \<Rightarrow> ('h, 'r) handlerEntry \<Rightarrow> bool" where
  "entry_ok full lv inf_of stale lacking caches ob e \<longleftrightarrow>
     (\<forall>k r. he_registrations e k = Some r \<longrightarrow> k \<notin> stale \<longrightarrow>
        (\<exists>c. caches k = Some c \<and> (he_handler e, r) \<in> set (lv (inf_of c ob)))) \<and>
     (full \<longrightarrow> dom caches - lacking \<subseteq> dom (he_registrations e))"

definition entries_ok ::
  "bool \<Rightarrow> ('i \<Rightarrow> ('h \<times> 'r) list) \<Rightarrow> ('c \<Rightarrow> kobject \<Rightarrow> 'i) \<Rightarrow> string set \<Rightarrow> string set \<Rightarrow> (string \<rightharpoonup> 'c)
     \<Rightarrow> ('h, 'r) aggregateInformer \<Rightarrow> bool" where
  "entries_ok full lv inf_of stale lacking caches a \<longleftrightarrow>
     (\<forall>e \<in> set (ai_handlers a). entry_ok full lv inf_of stale lacking caches (ai_obj a) e)"

fun stale_key :: "'c cache_change \<Rightarrow> string set" where
  "stale_key (Removing k) = {k}"
| "stale_key _ = {}"

fun lacking_key :: "'c cache_change \<Rightarrow> string set" where
  "lacking_key (Adding k c) = {k}"
| "lacking_key _ = {}"

definition registered ::
  "bool \<Rightarrow> ('w \<Rightarrow> 'i \<Rightarrow> ('h \<times> 'r) list) \<Rightarrow> ('c \<Rightarrow> kobject \<Rightarrow> 'i) \<Rightarrow> ('c, 'h, 'r) aggregateCache \<times> 'w \<times> 'c cache_change \<Rightarrow> bool" where
  "registered full live inf_of x \<longleftrightarrow> (case x of (st, w, q) \<Rightarrow>
     (\<forall>k c. q = Adding k c \<longrightarrow> ac_caches st k = Some c) \<and> (\<forall>k. q = Removing k \<longrightarrow> ac_caches st k = None) \<and>
     (\<forall>g a. ac_informers st g = Some a \<longrightarrow> entries_ok full (live w) inf_of (stale_key q) (lacking_key q) (ac_caches st) a))"

definition grows :: "('i \<Rightarrow> ('h \<times> 'r) list) \<Rightarrow> ('i \<Rightarrow> ('h \<times> 'r) list) \<Rightarrow> bool" where
  "grows lv lv' \<longleftrightarrow> (\<forall>i. set (lv i) \<subseteq> set (lv' i))"

lemma grows_refl [simp]: "grows lv lv"
  by (simp add: grows_def)

lemma grows_trans: "grows a b \<Longrightarrow> grows b c \<Longrightarrow> grows a c"
  unfolding grows_def by blast

lemma entries_ok_grows:
  "grows lv lv' \<Longrightarrow> entries_ok full lv inf_of S L caches a \<Longrightarrow> entries_ok full lv' inf_of S L caches a"
  unfolding entries_ok_def entry_ok_def grows_def by (meson subsetD)

lemma sh_add_grows:
  assumes "shards_ok A live inf_of has" and "sh_add A i h p w = (res, w')"
  shows "grows (live w) (live w')" and "res = Inr r \<Longrightarrow> (h, r) \<in> set (live w' i)"
proof -
  show "grows (live w) (live w')"
  proof (cases res)
    case (Inl err)
    then show ?thesis using shards_ok_add(2) [OF assms(1)] assms(2) by simp
  next
    case (Inr q)
    then have "live w' = (live w)(i := live w i @ [(h, q)])" using shards_ok_add(1) [OF assms(1)] assms(2) by blast
    then show ?thesis by (auto simp: grows_def)
  qed
  show "res = Inr r \<Longrightarrow> (h, r) \<in> set (live w' i)" using shards_ok_add(1) [OF assms(1)] assms(2) by fastforce
qed

lemma sh_informer_live:
  assumes "shards_ok A live inf_of has" and "sh_informer A c ob w = (res, w')"
  shows "live w' = live w"
  using shards_ok_informer(1,2) [OF assms(1), of c ob w] assms(2) by (cases res) auto

text \<open>The entries after a new cache was made known to an informer.\<close>

definition with_registration :: "string \<Rightarrow> 'r \<Rightarrow> ('h, 'r) handlerEntry \<Rightarrow> ('h, 'r) handlerEntry" where
  "with_registration k r e = e\<lparr> he_registrations := (he_registrations e)(k \<mapsto> r) \<rparr>"

lemma onCacheAdded_loop_entries:
  assumes ok: "shards_ok A live inf_of has" and full: "full \<longrightarrow> never_fails A"
    and "onCacheAdded_loop A k i es w = (es', w')"
  shows "grows (live w) (live w') \<and> (\<forall>e' \<in> set es'. \<exists>e \<in> set es. \<not> full \<and> e' = e \<or>
    (\<exists>r. e' = with_registration k r e \<and> (he_handler e, r) \<in> set (live w' i)))"
  using assms(3)
proof (induction es arbitrary: w es' w')
  case (Cons e es)
  obtain res w1 where add: "sh_add A i (he_handler e) (he_resyncPeriod e) w = (res, w1)"
    by (cases "sh_add A i (he_handler e) (he_resyncPeriod e) w")
  obtain es1 w2 where rest: "onCacheAdded_loop A k i es w1 = (es1, w2)"
    by (cases "onCacheAdded_loop A k i es w1")
  note IH = Cons.IH [OF rest]
  have w': "w' = w2" using Cons.prems add rest by (cases res) simp_all
  have mono: "grows (live w) (live w')"
    using grows_trans [OF sh_add_grows(1) [OF ok add] conjunct1 [OF IH]] w' by simp
  show ?case
  proof (cases res)
    case (Inl err)
    then have "\<not> full" using add never_failsD(2) [of A] full by auto
    moreover have "es' = e # es1" using Cons.prems add rest Inl by simp
    ultimately show ?thesis using IH mono w' by auto
  next
    case (Inr r)
    have "(he_handler e, r) \<in> set (live w1 i)" by (rule sh_add_grows(2) [OF ok add Inr])
    then have "(he_handler e, r) \<in> set (live w' i)" using conjunct1 [OF IH] w' by (auto simp: grows_def)
    moreover have "es' = with_registration k r e # es1"
      using Cons.prems add rest Inr by (simp add: with_registration_def)
    ultimately show ?thesis using IH mono w' by auto
  qed
qed simp

lemma onCacheAdded_entries:
  assumes ok: "shards_ok A live inf_of has" and full: "full \<longrightarrow> never_fails A" and c: "caches k = Some c"
    and ent: "entries_ok full (live w) inf_of {} {k} caches a" and run: "onCacheAdded A k c a w = (a', w')"
  shows "grows (live w) (live w') \<and> entries_ok full (live w') inf_of {} {} caches a'"
proof -
  obtain res w1 where inf1: "sh_informer A c (ai_obj a) w = (res, w1)"
    by (cases "sh_informer A c (ai_obj a) w")
  note same = sh_informer_live [OF ok inf1]
  show ?thesis
  proof (cases res)
    case (Inl err)
    then have "\<not> full" using inf1 never_failsD(1) [of A] full by auto
    moreover have "a' = a" "w' = w1" using run inf1 Inl by (simp_all add: onCacheAdded_def)
    ultimately show ?thesis using ent same by (simp add: entries_ok_def entry_ok_def)
  next
    case (Inr i)
    have i: "i = inf_of c (ai_obj a)" using shards_ok_informer(1) [OF ok inf1 [unfolded Inr]] by blast
    obtain es w2 where loop: "onCacheAdded_loop A k i (ai_handlers a) w1 = (es, w2)"
      by (cases "onCacheAdded_loop A k i (ai_handlers a) w1")
    have eq: "a' = a\<lparr> ai_handlers := es \<rparr>" "w' = w2" using run inf1 Inr loop by (simp_all add: onCacheAdded_def)
    note L = onCacheAdded_loop_entries [OF ok full loop]
    have mono: "grows (live w) (live w')" using L same eq(2) by simp
    have "entry_ok full (live w') inf_of {} {} caches (ai_obj a) e'" if new: "e' \<in> set es" for e'
    proof -
      obtain e where e: "e \<in> set (ai_handlers a)" "\<not> full \<and> e' = e \<or>
          (\<exists>r. e' = with_registration k r e \<and> (he_handler e, r) \<in> set (live w' i))"
        using bspec [OF conjunct2 [OF L] new] unfolding eq(2) [symmetric] by (elim bexE) (rule that)
      have "entry_ok full (live w') inf_of {} {k} caches (ai_obj a) e"
        using entries_ok_grows [OF mono ent] e(1) unfolding entries_ok_def by blast
      then show ?thesis using e(2) i c unfolding entry_ok_def with_registration_def by (auto split: if_splits)
    qed
    then show ?thesis using mono eq(1) by (simp add: entries_ok_def)
  qed
qed

lemma AddCache_notify_caches:
  "AddCache_notify A k c gs st w = (st', w') \<Longrightarrow> ac_caches st' = ac_caches st"
proof (induction gs arbitrary: st w)
  case (Cons g gs)
  show ?case
  proof (cases "ac_informers st g")
    case None
    with Cons show ?thesis by simp
  next
    case (Some a)
    obtain a1 w1 where a1: "onCacheAdded A k c a w = (a1, w1)" by (cases "onCacheAdded A k c a w")
    show ?thesis using Cons.IH [of "st\<lparr> ac_informers := (ac_informers st)(g \<mapsto> a1) \<rparr>" w1] Cons.prems Some a1
      by simp
  qed
qed simp

lemma AddCache_notify_entries:
  assumes ok: "shards_ok A live inf_of has" and full: "full \<longrightarrow> never_fails A" and "distinct gs"
    and "ac_caches st k = Some c"
    and "\<forall>g a. ac_informers st g = Some a \<longrightarrow>
       entries_ok full (live w) inf_of {} (if g \<in> set gs then {k} else {}) (ac_caches st) a"
    and "AddCache_notify A k c gs st w = (st', w')"
  shows "\<forall>g a. ac_informers st' g = Some a \<longrightarrow> entries_ok full (live w') inf_of {} {} (ac_caches st) a"
  using assms(3-)
proof (induction gs arbitrary: st w)
  case Nil
  then show ?case by simp
next
  case (Cons g gs)
  have dist: "distinct gs" "g \<notin> set gs" using Cons.prems(1) by simp_all
  show ?case
  proof (cases "ac_informers st g")
    case None
    have "\<forall>g a. ac_informers st g = Some a \<longrightarrow>
        entries_ok full (live w) inf_of {} (if g \<in> set gs then {k} else {}) (ac_caches st) a"
    proof (intro allI impI)
      fix g' a
      assume a: "ac_informers st g' = Some a"
      then have "g' \<noteq> g" using None by auto
      then show "entries_ok full (live w) inf_of {} (if g' \<in> set gs then {k} else {}) (ac_caches st) a"
        using Cons.prems(3) [rule_format, OF a] by simp
    qed
    from Cons.IH [OF dist(1) Cons.prems(2) this] show ?thesis using Cons.prems(4) None by simp
  next
    case (Some a)
    obtain a1 w1 where a1: "onCacheAdded A k c a w = (a1, w1)" by (cases "onCacheAdded A k c a w")
    have "entries_ok full (live w) inf_of {} {k} (ac_caches st) a"
      using Cons.prems(3) [rule_format, of g a] Some by simp
    note new = onCacheAdded_entries [where caches = "ac_caches st", OF ok full Cons.prems(2) this a1]
    let ?st = "st\<lparr> ac_informers := (ac_informers st)(g \<mapsto> a1) \<rparr>"
    have "\<forall>g a. ac_informers ?st g = Some a \<longrightarrow>
        entries_ok full (live w1) inf_of {} (if g \<in> set gs then {k} else {}) (ac_caches ?st) a"
    proof (intro allI impI)
      fix g' b
      assume b: "ac_informers ?st g' = Some b"
      show "entries_ok full (live w1) inf_of {} (if g' \<in> set gs then {k} else {}) (ac_caches ?st) b"
      proof (cases "g' = g")
        case True
        then show ?thesis using b new dist(2) by simp
      next
        case False
        then have "entries_ok full (live w) inf_of {} (if g' \<in> set gs then {k} else {}) (ac_caches st) b"
          using b Cons.prems(3) [rule_format, of g' b] by simp
        then show ?thesis using entries_ok_grows conjunct1 [OF new] by auto
      qed
    qed
    note IH = Cons.IH [of ?st w1, OF dist(1) _ this]
    have "AddCache_notify A k c gs ?st w1 = (st', w')" using Cons.prems(4) Some a1 by simp
    then show ?thesis using IH Cons.prems(2) by simp
  qed
qed

lemma add_handler_entries:
  assumes ok: "shards_ok A live inf_of has" and cord: "\<And>regs. finite (dom regs) \<Longrightarrow> range_of regs (cord regs)"
    and ids: "range_of (ac_caches st) ids" and reg: "registered full live inf_of (st, w, q)"
    and run: "AddEventHandlerWithResyncPeriod A cord ids g h p st w = (res, st', w')"
  shows "registered full live inf_of (st', w', q)"
proof (cases "ac_informers st g")
  case None
  with reg run show ?thesis by (simp add: AddEventHandlerWithResyncPeriod_def)
next
  case (Some a)
  obtain lres w1 where loop: "add_handler_loop A cord (ai_obj a) (ac_caches st) h p ids Map.empty w = (lres, w1)"
    by (cases "add_handler_loop A cord (ai_obj a) (ac_caches st) h p ids Map.empty w")
  have d: "distinct ids" "set ids = dom (ac_caches st)" using ids by (simp_all add: range_of_def)
  note r = add_handler_loop_result [OF ok cord adding_start d(1) _ _ loop]
  show ?thesis
  proof (cases lres)
    case (Inl err)
    then have "st' = st" "w' = w1" "live w1 = live w"
      using run Some loop r d(2) by (simp_all add: AddEventHandlerWithResyncPeriod_def)
    then show ?thesis using reg by (simp add: registered_def)
  next
    case (Inr regs)
    let ?e = "\<lparr> he_handler = h, he_resyncPeriod = p, he_registrations = regs \<rparr>"
    have st': "st' = st\<lparr> ac_informers := (ac_informers st)(g \<mapsto> a\<lparr> ai_handlers := ai_handlers a @ [?e] \<rparr>) \<rparr>" "w' = w1"
      using run Some loop Inr by (simp_all add: AddEventHandlerWithResyncPeriod_def)
    have ad: "adding live inf_of has (ai_obj a) (ac_caches st) h (live w) ids regs w1" using r Inr d(2) by simp
    have lv: "live w1 i = live w i @ map (\<lambda>k. (h, the (regs k))) (filter (\<lambda>k. inf_of (the (ac_caches st k)) (ai_obj a) = i) ids)" for i
      using ad unfolding adding_def by blast
    have mono: "grows (live w) (live w1)" by (simp add: grows_def lv)
    have "\<exists>c. ac_caches st k = Some c \<and> (h, r) \<in> set (live w1 (inf_of c (ai_obj a)))" if k: "regs k = Some r" for k r
    proof -
      have "k \<in> set ids" using ad k unfolding adding_def by blast
      moreover obtain c where "ac_caches st k = Some c" using \<open>k \<in> set ids\<close> d(2) by blast
      ultimately show ?thesis using k by (intro exI [of _ c]) (force simp: lv)
    qed
    moreover have "dom regs = dom (ac_caches st)" using ad d(2) unfolding adding_def by simp
    ultimately have "entry_ok full (live w1) inf_of (stale_key q) (lacking_key q) (ac_caches st) (ai_obj a) ?e"
      by (simp add: entry_ok_def)
    moreover have old: "entries_ok full (live w1) inf_of (stale_key q) (lacking_key q) (ac_caches st) b"
      if "ac_informers st g' = Some b" for g' b
      using reg that entries_ok_grows [OF mono] unfolding registered_def prod.case by blast
    ultimately have "entries_ok full (live w1) inf_of (stale_key q) (lacking_key q) (ac_caches st)
        (a\<lparr> ai_handlers := ai_handlers a @ [?e] \<rparr>)"
      using old [OF Some] by (simp add: entries_ok_def ball_Un)
    then show ?thesis using reg old st' by (simp add: registered_def)
  qed
qed

lemma agg_step_registered:
  assumes ok: "shards_ok A live inf_of has" and full: "full \<longrightarrow> never_fails A"
    and "agg_step A live x y" and "registered full live inf_of x"
  shows "registered full live inf_of y"
  using assms(3,4)
proof cases
  case (add_store st k w c)
  have "entries_ok full (live w) inf_of {} {k} ((ac_caches st)(k \<mapsto> c)) a" if "ac_informers st g = Some a" for g a
  proof -
    have "entries_ok full (live w) inf_of {} {} (ac_caches st) a"
      using assms(4) that add_store(1) by (simp add: registered_def)
    then show ?thesis using add_store(3) unfolding entries_ok_def entry_ok_def by fastforce
  qed
  then show ?thesis using add_store(2) by (simp add: registered_def AddCache_store_def)
next
  case (add_notify st gs k c w st' w')
  have r: "ac_caches st k = Some c" "entries_ok full (live w) inf_of {} {k} (ac_caches st) a"
    if "ac_informers st g = Some a" for g a using assms(4) that add_notify(1) by (simp_all add: registered_def)
  have c: "ac_caches st k = Some c" using assms(4) add_notify(1) by (simp add: registered_def)
  have "\<forall>g a. ac_informers st g = Some a \<longrightarrow>
      entries_ok full (live w) inf_of {} (if g \<in> set gs then {k} else {}) (ac_caches st) a"
    using r(2) range_ofD [OF add_notify(3)] by (auto simp: domIff)
  from AddCache_notify_entries [OF ok full _ c this add_notify(4)] add_notify(3)
  show ?thesis unfolding add_notify(2) registered_def prod.case AddCache_notify_caches [OF add_notify(4)]
    by (simp add: range_of_def)
next
  case (remove_store st w k)
  have "entries_ok full (live w) inf_of {k} {} ((ac_caches st)(k := None)) a" if "ac_informers st g = Some a" for g a
  proof -
    have "entries_ok full (live w) inf_of {} {} (ac_caches st) a"
      using assms(4) that remove_store(1) by (simp add: registered_def)
    then show ?thesis unfolding entries_ok_def entry_ok_def by (auto simp: subset_iff)
  qed
  then show ?thesis using remove_store(2) by (simp add: registered_def RemoveCache_store_def)
next
  case (remove_notify st w k)
  have gone: "ac_caches st k = None" using assms(4) remove_notify(1) by (simp add: registered_def)
  have "entries_ok full (live w) inf_of {} {} (ac_caches st) (onCacheRemoved k a)" if "ac_informers st g = Some a" for g a
  proof -
    have "entries_ok full (live w) inf_of {k} {} (ac_caches st) a"
      using assms(4) that remove_notify(1) by (simp add: registered_def)
    then show ?thesis using gone unfolding entries_ok_def entry_ok_def onCacheRemoved_def
      by (auto simp: subset_iff)
  qed
  then show ?thesis using remove_notify(2) by (auto simp: registered_def RemoveCache_notify_def)
next
  case (get_informer G ob st res st' w q)
  have "st' = st \<or> (\<exists>g. ac_informers st g = None \<and>
      st' = st\<lparr> ac_informers := (ac_informers st)(g \<mapsto> newAggregateSharedIndexInformer ob) \<rparr>)"
    using get_informer(3) by (auto simp: GetAggregateInformer_def informer_for_def split: sum.splits if_splits)
  then show ?thesis using assms(4) get_informer(1,2)
    by (auto simp: registered_def entries_ok_def newAggregateSharedIndexInformer_def split: if_splits)
next
  case (add_handler st ids cord g h p w res st' w' q)
  then show ?thesis using add_handler_entries [OF ok] assms(4) by blast
next
  case (shards w w' st q)
  then have mono: "grows (live w) (live w')" by (simp add: grows_def)
  have reg: "registered full live inf_of (st, w, q)" using assms(4) unfolding shards(1) .
  have "entries_ok full (live w') inf_of (stale_key q) (lacking_key q) (ac_caches st) a" if "ac_informers st g = Some a" for g a
    by (rule entries_ok_grows [OF mono]) (use reg that in \<open>simp add: registered_def\<close>)
  then show ?thesis using reg unfolding shards(2) by (simp add: registered_def)
qed

lemma agg_reach_registered:
  assumes "shards_ok A live inf_of has" and "full \<longrightarrow> never_fails A" and "agg_reach A live x"
  shows "registered full live inf_of x"
  using assms(3)
proof induction
  case (start w)
  show ?case by (simp add: registered_def NewAggregateCache_def)
next
  case (more x y)
  then show ?case using agg_step_registered [OF assms(1,2)] by blast
qed

text \<open>
  Property C7. Over every history of adding and removing caches, one at a time and each in its two
  halves, of creating informers and of adding handlers in between: every registration a handler
  entry remembers for a cache is a live registration of the entry's own handler at the informer that
  the current cache of that id has for the informer's type, unless that cache is just being
  removed; and if no shard refuses an informer or a handler, the entry has one for every current
  cache, including caches added after the handler, except one that is just being added.
\<close>

theorem handlers_follow_caches:
  assumes "shards_ok A live inf_of has" and "agg_reach A live (st, w, q)"
    and "ac_informers st g = Some a" and "e \<in> set (ai_handlers a)"
  shows "(\<forall>k r. he_registrations e k = Some r \<longrightarrow> q \<noteq> Removing k \<longrightarrow>
       (\<exists>c. ac_caches st k = Some c \<and> (he_handler e, r) \<in> set (live w (inf_of c (ai_obj a))))) \<and>
    (never_fails A \<longrightarrow> (\<forall>k c. ac_caches st k = Some c \<longrightarrow> q \<noteq> Adding k c \<longrightarrow> he_registrations e k \<noteq> None))"
proof -
  have ent: "entry_ok full (live w) inf_of (stale_key q) (lacking_key q) (ac_caches st) (ai_obj a) e"
    if "full \<longrightarrow> never_fails A" for full
    using agg_reach_registered [OF assms(1) that assms(2)] assms(3,4) unfolding registered_def entries_ok_def prod.case by blast
  have adding: "ac_caches st k = Some c" if "q = Adding k c" for k c
    using agg_reach_registered [OF assms(1) _ assms(2), of False] that by (simp add: registered_def)
  have "k \<in> stale_key q \<longleftrightarrow> q = Removing k" for k by (cases q) auto
  moreover have "k \<in> lacking_key q \<Longrightarrow> ac_caches st k = Some c \<Longrightarrow> q = Adding k c" for k c
    using adding by (cases q) auto
  ultimately show ?thesis using ent [of False] ent [of True] unfolding entry_ok_def subset_iff Diff_iff domIff by blast
qed

subsection \<open>How often a handler is registered\<close>

definition times_live :: "('w \<Rightarrow> 'i \<Rightarrow> ('h \<times> 'r) list) \<Rightarrow> 'w \<Rightarrow> 'i \<Rightarrow> 'h \<Rightarrow> nat" where
  "times_live live w i h = length (filter (\<lambda>x. fst x = h) (live w i))"

definition times_entered :: "('h, 'r) aggregateInformer \<Rightarrow> 'h \<Rightarrow> nat" where
  "times_entered a h = length (filter (\<lambda>e. he_handler e = h) (ai_handlers a))"

lemma onCacheAdded_loop_live:
  assumes "shards_ok A live inf_of has" and "never_fails A"
    and "onCacheAdded_loop A k i es w = (es', w')"
  shows "times_live live w' j h = times_live live w j h +
           (if j = i then length (filter (\<lambda>e. he_handler e = h) es) else 0)"
  using assms(3)
proof (induction es arbitrary: w es' w')
  case Nil
  then show ?case by simp
next
  case (Cons e es)
  obtain r w1 where add: "sh_add A i (he_handler e) (he_resyncPeriod e) w = (Inr r, w1)"
    using never_failsD(2) [OF assms(2)] by (metis obj_sumE prod.collapse)
  obtain es1 w2 where rest: "onCacheAdded_loop A k i es w1 = (es1, w2)"
    by (cases "onCacheAdded_loop A k i es w1")
  have "w' = w2" using Cons.prems add rest by simp
  then show ?case
    using Cons.IH [OF rest] shards_ok_add(1) [OF assms(1) add] by (simp add: times_live_def)
qed

lemma onCacheAdded_live:
  assumes "shards_ok A live inf_of has" and "never_fails A" and "onCacheAdded A k c a w = (a', w')"
  shows "times_live live w' j h = times_live live w j h +
           (if j = inf_of c (ai_obj a) then times_entered a h else 0)"
proof -
  obtain i w1 where inf1: "sh_informer A c (ai_obj a) w = (Inr i, w1)"
    using never_failsD(1) [OF assms(2)] by (metis obj_sumE prod.collapse)
  obtain es w2 where loop: "onCacheAdded_loop A k i (ai_handlers a) w1 = (es, w2)"
    by (cases "onCacheAdded_loop A k i (ai_handlers a) w1")
  have "w' = w2" using assms(3) inf1 loop by (simp add: onCacheAdded_def)
  then show ?thesis
    using onCacheAdded_loop_live [OF assms(1,2) loop, of j h] shards_ok_informer(1) [OF assms(1) inf1]
    by (simp add: times_live_def times_entered_def)
qed

lemma add_handler_loop_no_error:
  assumes "never_fails A"
  shows "add_handler_loop A cord ob caches h p ids regs w \<noteq> (Inl err, w')"
proof (induction ids arbitrary: regs w)
  case (Cons j ids)
  then show ?case
    using never_failsD [OF assms] by (auto split: option.splits prod.splits sum.splits)
qed simp

text \<open>What one \<open>AddCache\<close> adds at the informer \<open>j\<close>, over the informers it notifies.\<close>

fun notified :: "('c \<Rightarrow> kobject \<Rightarrow> 'i) \<Rightarrow> 'c \<Rightarrow> (gvk \<rightharpoonup> ('h, 'r) aggregateInformer) \<Rightarrow> 'i \<Rightarrow> 'h \<Rightarrow> gvk list \<Rightarrow> nat" where
  "notified inf_of c infs j h [] = 0"
| "notified inf_of c infs j h (g # gs) =
     (case infs g of None \<Rightarrow> 0 | Some a \<Rightarrow> if j = inf_of c (ai_obj a) then times_entered a h else 0)
       + notified inf_of c infs j h gs"

lemma notified_other [simp]: "g \<notin> set gs \<Longrightarrow> notified inf_of c (infs(g \<mapsto> a)) j h gs = notified inf_of c infs j h gs"
  by (induction gs) auto

lemma notified_at:
  "g \<in> set gs \<Longrightarrow> infs g = Some a \<Longrightarrow> j = inf_of c (ai_obj a) \<Longrightarrow>
     times_entered a h \<le> notified inf_of c infs j h gs"
  by (induction gs) auto

lemma AddCache_notify_live:
  assumes "shards_ok A live inf_of has" and "never_fails A" and "distinct gs"
    and "AddCache_notify A k c gs st w = (st', w')"
  shows "times_live live w' j h = times_live live w j h + notified inf_of c (ac_informers st) j h gs"
  using assms(3,4)
proof (induction gs arbitrary: st w)
  case Nil
  then show ?case by simp
next
  case (Cons g gs)
  show ?case
  proof (cases "ac_informers st g")
    case None
    then show ?thesis using Cons.IH [of st w] Cons.prems by simp
  next
    case (Some a)
    obtain a1 w1 where a1: "onCacheAdded A k c a w = (a1, w1)" by (cases "onCacheAdded A k c a w")
    let ?st = "st\<lparr> ac_informers := (ac_informers st)(g \<mapsto> a1) \<rparr>"
    have "AddCache_notify A k c gs ?st w1 = (st', w')" using Cons.prems(2) Some a1 by simp
    then have "times_live live w' j h = times_live live w1 j h + notified inf_of c (ac_informers ?st) j h gs"
      using Cons.IH Cons.prems(1) by simp
    also have "notified inf_of c (ac_informers ?st) j h gs = notified inf_of c (ac_informers st) j h gs"
      using Cons.prems(1) by simp
    finally show ?thesis
      using onCacheAdded_live [OF assms(1,2) a1, of j h] Some by simp
  qed
qed

text \<open>
  Adding a cache registers every handler once at the new cache's informer: when
  no shard refuses, the number of registrations of a handler at an informer grows by exactly
  the number of entries with that handler in the aggregate informers it belongs to.
\<close>

theorem add_cache_registers_each_handler_once:
  assumes "shards_ok A live inf_of has" and "never_fails A" and "range_of (ac_informers st) gs"
    and "AddCache A gs k c st w = (st', w')"
  shows "times_live live w' j h = times_live live w j h + notified inf_of c (ac_informers st) j h gs"
proof -
  have "distinct gs" using assms(3) by (simp add: range_of_def)
  then show ?thesis
    using AddCache_notify_live [OF assms(1,2) _ assms(4) [unfolded AddCache_def]]
    by (simp add: AddCache_store_def)
qed

text \<open>
  Removing a cache does not take its handlers off the shard, it only forgets
  the registrations. If the same wildcard cache is added again, every handler is registered
  with it a second time, and would get every event twice.
\<close>

theorem readded_cache_duplicates_handlers:
  assumes "shards_ok A live inf_of has" and "never_fails A" and "ac_informers st g = Some a"
    and "range_of (ac_informers (RemoveCache k st)) gs"
    and "AddCache A gs k c (RemoveCache k st) w = (st', w')"
  shows "times_live live w (inf_of c (ai_obj a)) h + times_entered a h
           \<le> times_live live w' (inf_of c (ai_obj a)) h"
proof -
  have a: "ac_informers (RemoveCache k st) g = Some (onCacheRemoved k a)"
    using assms(3) by (simp add: RemoveCache_def RemoveCache_store_def RemoveCache_notify_def)
  have same: "times_entered (onCacheRemoved k a) h = times_entered a h"
    "ai_obj (onCacheRemoved k a) = ai_obj a"
    by (simp_all add: times_entered_def onCacheRemoved_def filter_map o_def)
  have "g \<in> set gs" and "distinct gs" using a range_ofD [OF assms(4), of g] assms(4) by (auto simp: range_of_def)
  then have "times_entered (onCacheRemoved k a) h \<le>
      notified inf_of c (ac_informers (RemoveCache k st)) (inf_of c (ai_obj a)) h gs"
    using notified_at [of g gs "ac_informers (RemoveCache k st)" "onCacheRemoved k a" _ inf_of c h] a same(2)
    by simp
  moreover have "times_live live w' (inf_of c (ai_obj a)) h = times_live live w (inf_of c (ai_obj a)) h +
      notified inf_of c (ac_informers (RemoveCache k st)) (inf_of c (ai_obj a)) h gs"
    using AddCache_notify_live [OF assms(1,2) \<open>distinct gs\<close> assms(5) [unfolded AddCache_def]]
    by (simp add: AddCache_store_def)
  ultimately show ?thesis using same(1) by linarith
qed

text \<open>
  Property C37. \<open>AddCache\<close> releases the cache lock before it notifies the informers. A
  handler added in between finds the new cache in the map and registers with it, and the
  notification then registers it there again: two live registrations at the same informer,
  of which the entry remembers the second.
\<close>

theorem add_cache_race_registers_twice:
  assumes "shards_ok A live inf_of has" and "never_fails A"
    and "\<And>regs. finite (dom regs) \<Longrightarrow> range_of regs (cord regs)" and "ac_informers st g = Some a"
    and "range_of (ac_caches (AddCache_store k c st)) ids"
    and "AddEventHandlerWithResyncPeriod A cord ids g h p (AddCache_store k c st) w = (res, st1, w1)"
    and "range_of (ac_informers st1) gs" and "AddCache_notify A k c gs st1 w1 = (st2, w2)"
  shows "times_live live w (inf_of c (ai_obj a)) h + 2 \<le> times_live live w2 (inf_of c (ai_obj a)) h"
proof -
  let ?i = "inf_of c (ai_obj a)" and ?st = "AddCache_store k c st"
  have a: "ac_informers ?st g = Some a" using assms(4) by (simp add: AddCache_store_def)
  obtain lres w' where loop: "add_handler_loop A cord (ai_obj a) (ac_caches ?st) h p ids Map.empty w = (lres, w')"
    by (cases "add_handler_loop A cord (ai_obj a) (ac_caches ?st) h p ids Map.empty w")
  have ids: "distinct ids" "set ids = dom (ac_caches ?st)" using assms(5) by (simp_all add: range_of_def)
  have "lres \<noteq> Inl err" for err
    using loop add_handler_loop_no_error [OF assms(2)] by blast
  then obtain regs where regs: "lres = Inr regs" by (cases lres) auto
  have st1: "st1 = ?st\<lparr> ac_informers := (ac_informers ?st)(g \<mapsto> a\<lparr> ai_handlers := ai_handlers a @
        [\<lparr> he_handler = h, he_resyncPeriod = p, he_registrations = regs \<rparr>] \<rparr>) \<rparr>" and w1: "w1 = w'"
    using assms(6) a loop regs by (simp_all add: AddEventHandlerWithResyncPeriod_def)
  have "live w1 ?i = live w ?i @ map (\<lambda>j. (h, the (regs j)))
        (filter (\<lambda>j. inf_of (the (ac_caches ?st j)) (ai_obj a) = ?i) ids)"
    using add_handler_loop_result [OF assms(1,3) adding_start ids(1) _ _ loop] regs ids w1
    by (simp add: adding_def)
  moreover have "k \<in> set (filter (\<lambda>j. inf_of (the (ac_caches ?st j)) (ai_obj a) = ?i) ids)"
    using ids(2) by (simp add: AddCache_store_def)
  then have "1 \<le> length (filter (\<lambda>j. inf_of (the (ac_caches ?st j)) (ai_obj a) = ?i) ids)"
    by (cases "filter (\<lambda>j. inf_of (the (ac_caches ?st j)) (ai_obj a) = ?i) ids") simp_all
  ultimately have first: "times_live live w ?i h + 1 \<le> times_live live w1 ?i h"
    by (simp add: times_live_def filter_map o_def)
  have "times_live live w2 ?i h = times_live live w1 ?i h + notified inf_of c (ac_informers st1) ?i h gs"
    using AddCache_notify_live [OF assms(1,2) _ assms(8)] assms(7) by (simp add: range_of_def)
  moreover have "1 \<le> notified inf_of c (ac_informers st1) ?i h gs"
  proof -
    let ?a = "a\<lparr> ai_handlers := ai_handlers a @ [\<lparr> he_handler = h, he_resyncPeriod = p, he_registrations = regs \<rparr>] \<rparr>"
    have "ac_informers st1 g = Some ?a" by (simp add: st1)
    moreover from this have "g \<in> set gs" using range_ofD [OF assms(7)] by blast
    ultimately have "times_entered ?a h \<le> notified inf_of c (ac_informers st1) ?i h gs"
      by (intro notified_at) simp_all
    then show ?thesis by (simp add: times_entered_def)
  qed
  ultimately show ?thesis using first by linarith
qed

subsection \<open>Synchronisation\<close>

text \<open>Looking an informer up does not change what is synced.\<close>

definition synced_ok :: "('c, 'i, 'h, 'r, 'w) shard_api \<Rightarrow> ('c \<Rightarrow> kobject \<Rightarrow> 'i result) \<Rightarrow> bool" where
  "synced_ok A found \<longleftrightarrow> (\<forall>c ob w. fst (sh_informer A c ob w) = found c ob \<and>
     (\<forall>i. sh_synced A i (snd (sh_informer A c ob w)) = sh_synced A i w))"

lemma HasSynced_loop_iff:
  assumes "synced_ok A found"
  shows "fst (HasSynced_loop A ob caches ids w) \<longleftrightarrow>
    (\<forall>k \<in> set ids. \<forall>c. caches k = Some c \<longrightarrow> (\<exists>i. found c ob = Inr i \<and> sh_synced A i w))"
proof (induction ids arbitrary: w)
  case Nil
  then show ?case by simp
next
  case (Cons k ids)
  have law: "fst (sh_informer A c ob w) = found c ob"
    "sh_synced A i (snd (sh_informer A c ob w)) = sh_synced A i w" for c i w
    using assms unfolding synced_ok_def by blast+
  show ?case
  proof (cases "caches k")
    case None
    then show ?thesis using Cons.IH by simp
  next
    case (Some c)
    obtain res w1 where inf1: "sh_informer A c ob w = (res, w1)" by (cases "sh_informer A c ob w")
    then have "found c ob = res" "sh_synced A i w1 = sh_synced A i w" for i
      using law(1) [of c w] law(2) [of i c w] by simp_all
    then show ?thesis using Cons.IH [of w1] Some inf1 by (cases res) auto
  qed
qed

text \<open>
  An aggregate informer has synced exactly when the informers of all current
  shards exist and have synced, in whatever order they are asked; without shards it has.
\<close>

theorem aggregate_has_synced_iff:
  assumes "synced_ok A found" and "range_of (ac_caches st) ids"
  shows "fst (HasSynced_loop A ob (ac_caches st) ids w) \<longleftrightarrow>
    (\<forall>k c. ac_caches st k = Some c \<longrightarrow> (\<exists>i. found c ob = Inr i \<and> sh_synced A i w))"
  using HasSynced_loop_iff [OF assms(1), of ob "ac_caches st" ids w] range_ofD [OF assms(2)] by blast

subsection \<open>Listing\<close>

fun items_of :: "kobject list result \<Rightarrow> kobject list" where
  "items_of (Inl _) = []"
| "items_of (Inr items) = items"

fun errors_of :: "kobject list result \<Rightarrow> error list" where
  "errors_of (Inl err) = [err]"
| "errors_of (Inr _) = []"

lemma list_all_caches_eq:
  assumes "\<And>k c w. caches k = Some c \<Longrightarrow> fst (list_one L lst k c w) = out k" and "set ids \<subseteq> dom caches"
  shows "\<exists>w'. list_all_caches L lst caches ids xs es w =
     (xs @ concat (map (\<lambda>k. items_of (out k)) ids), es @ concat (map (\<lambda>k. errors_of (out k)) ids), w')"
  using assms(2)
proof (induction ids arbitrary: xs es w)
  case (Cons k ids)
  then obtain c where c: "caches k = Some c" by auto
  obtain res w1 where one: "list_one L lst k c w = (res, w1)" by (cases "list_one L lst k c w")
  then have "res = out k" using assms(1) [OF c, of w] by simp
  then show ?case
    using Cons.IH [of xs "es @ errors_of (out k)" w1] Cons.IH [of "xs @ items_of (out k)" es w1]
      Cons.prems c one by (cases "out k") simp_all
qed simp

lemma mset_concat_range:
  assumes "range_of m ks"
  shows "mset (concat (map f ks)) = (\<Sum>k \<in> dom m. mset (f k))"
proof -
  have "mset (concat (map f ks)) = sum_list (map (\<lambda>k. mset (f k)) ks)"
    by (induction ks) simp_all
  also have "\<dots> = (\<Sum>k \<in> set ks. mset (f k))"
    using assms by (simp add: range_of_def sum_list_distinct_conv_sum_set)
  finally show ?thesis using assms by (simp add: range_of_def)
qed

text \<open>
  Property C33. Listing through the aggregate cache, in whatever order the shards come out of
  the map: the list is filled with the items of every shard that could be listed, counted
  with multiplicity, even when others failed; the error carries one entry per failed shard
  and is nil exactly when none failed.
\<close>

theorem aggregate_list_sums_shards:
  assumes "range_of (ac_caches st) ids"
    and "\<And>k c w. ac_caches st k = Some c \<Longrightarrow> fst (list_one L lst k c w) = out k"
    and "\<And>items. la_set L lst items = Inr (fill items)"
  shows "\<exists>items errs. fst (Aggregate_List L ids st lst w) = (fill items, errors_Join errs) \<and>
    mset items = (\<Sum>k \<in> dom (ac_caches st). mset (items_of (out k))) \<and>
    mset errs = (\<Sum>k \<in> dom (ac_caches st). mset (errors_of (out k))) \<and>
    (snd (fst (Aggregate_List L ids st lst w)) = None \<longleftrightarrow> (\<forall>k \<in> dom (ac_caches st). \<not> is_err (out k)))"
proof -
  have ids: "set ids = dom (ac_caches st)" using assms(1) by (simp add: range_of_def)
  obtain w' where "list_all_caches L lst (ac_caches st) ids [] [] w =
      (concat (map (\<lambda>k. items_of (out k)) ids), concat (map (\<lambda>k. errors_of (out k)) ids), w')"
    using list_all_caches_eq [of "ac_caches st" L lst out ids "[]" "[]" w, OF assms(2)] ids by auto
  then have eq: "fst (Aggregate_List L ids st lst w) =
      (fill (concat (map (\<lambda>k. items_of (out k)) ids)), errors_Join (concat (map (\<lambda>k. errors_of (out k)) ids)))"
    by (simp add: Aggregate_List_def assms(3))
  have none: "errors_of r = [] \<longleftrightarrow> \<not> is_err r" for r :: "kobject list result" by (cases r) simp_all
  have "errors_Join (concat (map (\<lambda>k. errors_of (out k)) ids)) = None \<longleftrightarrow> (\<forall>k \<in> dom (ac_caches st). \<not> is_err (out k))"
    unfolding ids [symmetric] errors_Join_def by (simp add: none)
  then show ?thesis
    using eq by (intro exI [of _ "concat (map (\<lambda>k. items_of (out k)) ids)"]
        exI [of _ "concat (map (\<lambda>k. errors_of (out k)) ids)"])
      (simp add: mset_concat_range [OF assms(1)])
qed

subsection \<open>One informer per kind\<close>

definition informer_obj :: "('c, 'h, 'r) aggregateCache \<Rightarrow> gvk \<Rightarrow> kobject option" where
  "informer_obj st g = map_option ai_obj (ac_informers st g)"

definition informer_goc :: "kobject \<Rightarrow> gvk \<Rightarrow> ('c, 'h, 'r) aggregateCache \<Rightarrow> kobject option \<times> ('c, 'h, 'r) aggregateCache" where
  "informer_goc ob g st = (informer_obj (informer_for ob g st) g, informer_for ob g st)"

interpretation agg_informers: get_or_create informer_obj "informer_goc ob" for ob
  by unfold_locales (auto simp: informer_goc_def informer_obj_def informer_for_def split: if_splits)

interpretation agg_caches: keyed_store "NewAggregateCache :: ('c, 'h, 'r) aggregateCache"
    AddCache_store RemoveCache_store ac_caches
  by unfold_locales (simp_all add: NewAggregateCache_def AddCache_store_def RemoveCache_store_def)

text \<open>
  The informer \<open>GetAggregateInformer\<close> returns for a kind is the same one ever
  after, with the handlers it has: any number of later calls for any kinds leaves the entry
  of the kind in place, and a call for an object of the kind returns it.
\<close>

theorem aggregate_informer_is_stable:
  assumes "G ob = Inr g" and "G ob2 = Inr g"
    and "GetAggregateInformer G ob st = (Inr g, st1)"
    and "st2 = fold (\<lambda>x s. snd (GetAggregateInformer G x s)) obs st1"
  shows "GetAggregateInformer G ob2 st2 = (Inr g, st2) \<and> ac_informers st2 g = ac_informers st1 g"
proof -
  have here: "ac_informers st1 g \<noteq> None"
    using assms(1,3) by (auto simp: GetAggregateInformer_def informer_for_def)
  have keep: "ac_informers (snd (GetAggregateInformer G x s)) g = ac_informers s g"
    if "ac_informers s g \<noteq> None" for x s
    using that by (cases "G x") (auto simp: GetAggregateInformer_def informer_for_def)
  have "ac_informers st1 g \<noteq> None \<Longrightarrow>
      ac_informers (fold (\<lambda>x s. snd (GetAggregateInformer G x s)) obs st1) g = ac_informers st1 g" for st1
    by (induction obs arbitrary: st1) (simp_all add: keep)
  then have "ac_informers st2 g = ac_informers st1 g" using here assms(4) by simp
  then show ?thesis using here assms(2) by (simp add: GetAggregateInformer_def informer_for_def)
qed

subsection \<open>Witnesses\<close>

text \<open>
  Shards whose state is the list of their live registrations: cache \<open>c\<close> is served by
  informer \<open>c\<close>, a new registration exceeds all old ones, and the informers in \<open>bad\<close> refuse
  handlers.
\<close>

type_synonym demo_world = "(nat \<times> string \<times> nat) list"

definition demo_live :: "demo_world \<Rightarrow> nat \<Rightarrow> (string \<times> nat) list" where
  "demo_live w i = map snd (filter (\<lambda>x. fst x = i) w)"

definition demo_shards :: "nat list \<Rightarrow> (nat, nat, string, nat, demo_world) shard_api" where
  "demo_shards bad = \<lparr> sh_informer = (\<lambda>c _ w. (Inr c, w)),
     sh_add = (\<lambda>i h _ w. if i \<in> set bad then (Inl (Foreign ''stopped''), w)
        else let r = Suc (sum_list (map (\<lambda>x. snd (snd x)) w)) in (Inr r, w @ [(i, h, r)])),
     sh_remove = (\<lambda>i r w. (None, filter (\<lambda>x. \<not> (fst x = i \<and> snd (snd x) = r)) w)),
     sh_synced = (\<lambda>i _. i < 5), sh_reg_synced = (\<lambda>_ _. True) \<rparr>"

lemma demo_shards_sel [simp]:
  "sh_informer (demo_shards bad) c ob w = (Inr c, w)"
  "sh_add (demo_shards bad) i h p w = (if i \<in> set bad then (Inl (Foreign ''stopped''), w)
     else (Inr (Suc (sum_list (map (\<lambda>x. snd (snd x)) w))), w @ [(i, h, Suc (sum_list (map (\<lambda>x. snd (snd x)) w)))]))"
  "sh_remove (demo_shards bad) i r w = (None, filter (\<lambda>x. \<not> (fst x = i \<and> snd (snd x) = r)) w)"
  "sh_synced (demo_shards bad) i w \<longleftrightarrow> i < 5"
  by (simp_all add: demo_shards_def Let_def)

lemma demo_fresh: "(i, h, r) \<in> set (w :: demo_world) \<Longrightarrow> r \<le> sum_list (map (\<lambda>x. snd (snd x)) w)"
  by (induction w) auto

lemma demo_shards_ok: "shards_ok (demo_shards bad) demo_live (\<lambda>c _. c) (\<lambda>_ _ _. True)"
  unfolding shards_ok_def
proof (intro conjI allI)
  fix i h p w
  show "case fst (sh_add (demo_shards bad) i h p w) of
      Inl _ \<Rightarrow> demo_live (snd (sh_add (demo_shards bad) i h p w)) = demo_live w
    | Inr r \<Rightarrow> demo_live (snd (sh_add (demo_shards bad) i h p w)) =
          (demo_live w)(i := demo_live w i @ [(h, r)]) \<and> r \<notin> snd ` set (demo_live w i)"
    using demo_fresh by (fastforce simp: demo_live_def)
next
  fix i r w
  show "demo_live (snd (sh_remove (demo_shards bad) i r w)) =
      (demo_live w)(i := filter (\<lambda>x. snd x \<noteq> r) (demo_live w i))"
    by (auto simp: demo_live_def fun_eq_iff filter_map o_def intro!: arg_cong [where f = "map snd"] filter_cong)
qed simp_all

lemma demo_shards_never_fail: "never_fails (demo_shards [])"
  by (simp add: never_fails_def)

definition demo_order :: "(string \<rightharpoonup> nat) \<Rightarrow> string list" where
  "demo_order m = sorted_list_of_set (dom m)"

lemma demo_order: "finite (dom m) \<Longrightarrow> range_of m (demo_order m)"
  by (simp add: range_of_def demo_order_def)

definition demo_informer :: "(string \<rightharpoonup> nat) \<Rightarrow> (string, nat) aggregateInformer" where
  "demo_informer regs = \<lparr> ai_obj = demo_obj ''c1'' ''ns'' ''b'' ''p'', ai_handlers =
     [\<lparr> he_handler = ''h'', he_resyncPeriod = 0, he_registrations = regs \<rparr>] \<rparr>"

definition demo_agg :: "(string \<rightharpoonup> nat) \<Rightarrow> (nat, string, nat) aggregateCache" where
  "demo_agg caches = \<lparr> ac_caches = caches,
     ac_informers = [demo_gvk \<mapsto> demo_informer [''a'' \<mapsto> 1]] \<rparr>"

lemma range_of_one: "range_of [k \<mapsto> v] [k]"
  by (simp add: range_of_def)

lemma range_of_two: "k \<noteq> j \<Longrightarrow> range_of [k \<mapsto> v, j \<mapsto> u] [k, j]"
  by (auto simp: range_of_def)

theorem add_handler_all_or_nothing_witness:
  "demo_live (snd (snd (AddEventHandlerWithResyncPeriod (demo_shards [9]) demo_order [''a'', ''b''] demo_gvk
      ''new'' 0 (demo_agg [''a'' \<mapsto> 1, ''b'' \<mapsto> 9]) [(1, ''h'', 1)]))) = demo_live [(1, ''h'', 1)]"
proof -
  let ?t = "AddEventHandlerWithResyncPeriod (demo_shards [9]) demo_order [''a'', ''b''] demo_gvk
      ''new'' 0 (demo_agg [''a'' \<mapsto> 1, ''b'' \<mapsto> 9]) [(1, ''h'', 1)]"
  have "fst ?t = Some (Inl (Errorf ''cache %q: failed to add handler: %w'' [''b''] [Foreign ''stopped'']))"
    by (simp add: AddEventHandlerWithResyncPeriod_def demo_agg_def)
  then obtain st' w' where t: "?t = (Some (Inl (Errorf ''cache %q: failed to add handler: %w'' [''b''] [Foreign ''stopped''])), st', w')"
    by (metis prod.collapse)
  have r: "range_of (ac_caches (demo_agg [''a'' \<mapsto> 1, ''b'' \<mapsto> 9])) [''a'', ''b'']"
    by (simp add: demo_agg_def range_of_two)
  show ?thesis
    using add_handler_all_or_nothing [OF demo_shards_ok demo_order r _ t, of "demo_informer [''a'' \<mapsto> 1]"]
    unfolding t by (simp add: demo_agg_def)
qed

lemma demo_agg_reached: "agg_reach (demo_shards []) demo_live (demo_agg [''a'' \<mapsto> 1], [(1, ''h'', 1)], Idle)"
proof -
  let ?A = "demo_shards []" and ?ob = "demo_obj ''c1'' ''ns'' ''b'' ''p''"
  let ?s1 = "\<lparr> ac_caches = Map.empty, ac_informers = [demo_gvk \<mapsto> newAggregateSharedIndexInformer ?ob] \<rparr>
      :: (nat, string, nat) aggregateCache"
  let ?s2 = "\<lparr> ac_caches = Map.empty, ac_informers = [demo_gvk \<mapsto> demo_informer Map.empty] \<rparr>
      :: (nat, string, nat) aggregateCache"
  have "agg_reach ?A demo_live (NewAggregateCache, [], Idle)" by (rule agg_reach.start)
  moreover have "agg_step ?A demo_live (NewAggregateCache, [], Idle) (?s1, [], Idle)"
    by (rule agg_step.get_informer [where G = "\<lambda>ob. Inr (ob_gvk ob)" and ob = ?ob and res = "Inr demo_gvk"])
       (simp add: GetAggregateInformer_def informer_for_def NewAggregateCache_def)
  ultimately have "agg_reach ?A demo_live (?s1, [], Idle)" by (rule agg_reach.more)
  moreover have "agg_step ?A demo_live (?s1, [], Idle) (?s2, [], Idle)"
    by (rule agg_step.add_handler [where ids = "[]" and cord = demo_order and g = demo_gvk and h = "''h''" and p = 0, OF _ demo_order])
       (simp_all add: AddEventHandlerWithResyncPeriod_def newAggregateSharedIndexInformer_def demo_informer_def)
  ultimately have "agg_reach ?A demo_live (?s2, [], Idle)" by (rule agg_reach.more)
  moreover have "agg_step ?A demo_live (?s2, [], Idle) (AddCache_store ''a'' 1 ?s2, [], Adding ''a'' 1)"
    by (rule agg_step.add_store) simp
  ultimately have "agg_reach ?A demo_live (AddCache_store ''a'' 1 ?s2, [], Adding ''a'' 1)" by (rule agg_reach.more)
  moreover have "agg_step ?A demo_live (AddCache_store ''a'' 1 ?s2, [], Adding ''a'' 1) (demo_agg [''a'' \<mapsto> 1], [(1, ''h'', 1)], Idle)"
    by (rule agg_step.add_notify [where gs = "[demo_gvk]"])
       (simp_all add: range_of_one AddCache_store_def onCacheAdded_def demo_informer_def demo_agg_def)
  ultimately show ?thesis by (rule agg_reach.more)
qed

theorem handlers_follow_caches_witness:
  "list_all (\<lambda>e. \<exists>r. he_registrations e ''a'' = Some r \<and> (he_handler e, r) \<in> set (demo_live [(1, ''h'', 1)] 1))
     (ai_handlers (demo_informer [''a'' \<mapsto> 1]))"
proof -
  have a: "ac_informers (demo_agg [''a'' \<mapsto> 1]) demo_gvk = Some (demo_informer [''a'' \<mapsto> 1])" by (simp add: demo_agg_def)
  note H = handlers_follow_caches [OF demo_shards_ok demo_agg_reached a]
  have c: "ac_caches (demo_agg [''a'' \<mapsto> 1]) ''a'' = Some 1" by (simp add: demo_agg_def)
  have "\<exists>r. he_registrations e ''a'' = Some r \<and> (he_handler e, r) \<in> set (demo_live [(1, ''h'', 1)] 1)"
    if e: "e \<in> set (ai_handlers (demo_informer [''a'' \<mapsto> 1]))" for e
  proof -
    have "he_registrations e ''a'' \<noteq> None"
      using conjunct2 [OF H [OF e], rule_format, OF demo_shards_never_fail c] by simp
    then obtain r where r: "he_registrations e ''a'' = Some r" by blast
    from conjunct1 [OF H [OF e], rule_format, OF r] c r show ?thesis by simp
  qed
  then show ?thesis by (simp add: list_all_iff)
qed

theorem add_cache_registers_each_handler_once_witness:
  "times_live demo_live (snd (AddCache (demo_shards []) [demo_gvk] ''b'' 2 (demo_agg [''a'' \<mapsto> 1]) [(1, ''h'', 1)])) 2 ''h''
     = 0 + 1"
proof -
  have r: "range_of (ac_informers (demo_agg [''a'' \<mapsto> 1])) [demo_gvk]"
    by (simp add: demo_agg_def range_of_one)
  show ?thesis
    using add_cache_registers_each_handler_once [OF demo_shards_ok demo_shards_never_fail r surjective_pairing,
        of "''b''" 2 "[(1, ''h'', 1)]" 2 "''h''"]
    by (simp add: times_live_def demo_live_def demo_agg_def demo_informer_def times_entered_def)
qed

theorem readded_cache_duplicates_handlers_witness:
  "2 \<le> times_live demo_live (snd (AddCache (demo_shards []) [demo_gvk] ''a'' 1 (RemoveCache ''a'' (demo_agg [''a'' \<mapsto> 1]))
     [(1, ''h'', 1)])) 1 ''h''"
proof -
  have a: "ac_informers (demo_agg [''a'' \<mapsto> 1]) demo_gvk = Some (demo_informer [''a'' \<mapsto> 1])"
    by (simp add: demo_agg_def)
  have r: "range_of (ac_informers (RemoveCache ''a'' (demo_agg [''a'' \<mapsto> 1]))) [demo_gvk]"
    by (auto simp: range_of_def demo_agg_def RemoveCache_def RemoveCache_store_def RemoveCache_notify_def split: if_splits)
  show ?thesis
    using readded_cache_duplicates_handlers [OF demo_shards_ok demo_shards_never_fail a r surjective_pairing,
        where c = 1 and w = "[(1, ''h'', 1)]" and h = "''h''"]
    by (simp add: times_live_def demo_live_def demo_informer_def times_entered_def)
qed

theorem add_cache_race_registers_twice_witness:
  "\<exists>res st1 w1 w2. AddEventHandlerWithResyncPeriod (demo_shards []) demo_order [''a'', ''b''] demo_gvk ''new'' 0
       (AddCache_store ''b'' 2 (demo_agg [''a'' \<mapsto> 1])) [(1, ''h'', 1)] = (res, st1, w1) \<and>
     w2 = snd (AddCache_notify (demo_shards []) ''b'' 2 [demo_gvk] st1 w1) \<and>
     2 \<le> times_live demo_live w2 2 ''new''"
proof -
  let ?st = "AddCache_store ''b'' 2 (demo_agg [''a'' \<mapsto> 1])"
  obtain res st1 w1 where add: "AddEventHandlerWithResyncPeriod (demo_shards []) demo_order [''a'', ''b''] demo_gvk
      ''new'' 0 ?st [(1, ''h'', 1)] = (res, st1, w1)" by (metis prod.collapse)
  obtain st2 w2 where notify: "AddCache_notify (demo_shards []) ''b'' 2 [demo_gvk] st1 w1 = (st2, w2)"
    by (metis prod.collapse)
  have a: "ac_informers (demo_agg [''a'' \<mapsto> 1]) demo_gvk = Some (demo_informer [''a'' \<mapsto> 1])"
    by (simp add: demo_agg_def)
  have r: "range_of (ac_caches ?st) [''a'', ''b'']"
    by (simp add: AddCache_store_def demo_agg_def range_of_two)
  have r1: "range_of (ac_informers st1) [demo_gvk]"
    using add by (auto simp: AddEventHandlerWithResyncPeriod_def AddCache_store_def demo_agg_def range_of_def
        split: if_splits)
  have "0 + 2 \<le> times_live demo_live w2 2 ''new''"
    using add_cache_race_registers_twice [OF demo_shards_ok demo_shards_never_fail demo_order a r add r1 notify]
    by (simp add: times_live_def demo_live_def)
  then show ?thesis using add notify by simp
qed

theorem aggregate_has_synced_iff_witness:
  "\<not> fst (HasSynced_loop (demo_shards []) (demo_obj ''c1'' ''ns'' ''b'' ''p'')
      (ac_caches (demo_agg [''a'' \<mapsto> 1, ''b'' \<mapsto> 9])) [''a'', ''b''] [])"
proof -
  have s: "synced_ok (demo_shards []) (\<lambda>c _. Inr c)" by (simp add: synced_ok_def)
  have r: "range_of (ac_caches (demo_agg [''a'' \<mapsto> 1, ''b'' \<mapsto> 9])) [''a'', ''b'']"
    by (simp add: demo_agg_def range_of_two)
  have b: "ac_caches (demo_agg [''a'' \<mapsto> 1, ''b'' \<mapsto> 9]) ''b'' = Some 9" by (simp add: demo_agg_def)
  show ?thesis
  proof
    assume "fst (HasSynced_loop (demo_shards []) (demo_obj ''c1'' ''ns'' ''b'' ''p'')
      (ac_caches (demo_agg [''a'' \<mapsto> 1, ''b'' \<mapsto> 9])) [''a'', ''b''] [])"
    from this [unfolded aggregate_has_synced_iff [OF s r], rule_format, OF b] show False by simp
  qed
qed

text \<open>List objects are their items; the cache 9 cannot be listed.\<close>

definition demo_list_api :: "(nat, kobject list, unit) list_api" where
  "demo_list_api = \<lparr> la_copy = Some, la_type = (\<lambda>_. ''List''),
     la_list = (\<lambda>c _ w. (if c = 9 then Inl (Foreign ''gone'') else Inr [demo_obj ''c1'' ''ns'' ''b'' ''p''], w)),
     la_extract = Inr, la_set = (\<lambda>_ items. Inr items) \<rparr>"

definition demo_out :: "string \<Rightarrow> kobject list result" where
  "demo_out k = (if k = ''b'' then Inl (Errorf ''cache for %q failed: listing objects failed: %w'' [k] [Foreign ''gone''])
     else Inr [demo_obj ''c1'' ''ns'' ''b'' ''p''])"

theorem aggregate_list_sums_shards_witness:
  "\<exists>items errs. fst (Aggregate_List demo_list_api [''a'', ''b''] (demo_agg [''a'' \<mapsto> 1, ''b'' \<mapsto> 9]) [] ()) = (items, errors_Join errs) \<and>
     mset items = {#demo_obj ''c1'' ''ns'' ''b'' ''p''#} \<and> size (mset errs) = 1"
proof -
  have r: "range_of (ac_caches (demo_agg [''a'' \<mapsto> 1, ''b'' \<mapsto> 9])) [''a'', ''b'']"
    by (simp add: demo_agg_def range_of_two)
  have out: "fst (list_one demo_list_api [] k c w) = demo_out k"
    if "ac_caches (demo_agg [''a'' \<mapsto> 1, ''b'' \<mapsto> 9]) k = Some c" for k c w
    using that by (auto simp: demo_agg_def list_one_def demo_list_api_def demo_out_def split: if_splits)
  have fill: "la_set demo_list_api [] items = Inr (id items)" for items by (simp add: demo_list_api_def)
  have d: "dom (ac_caches (demo_agg [''a'' \<mapsto> 1, ''b'' \<mapsto> 9])) = {''a'', ''b''}"
    by (auto simp: demo_agg_def)
  show ?thesis
    using aggregate_list_sums_shards [of _ _ demo_list_api "[]" demo_out id, OF r out fill, of "()"]
    unfolding d by (auto simp: demo_out_def)
qed

theorem aggregate_informer_is_stable_witness:
  "fst (GetAggregateInformer (\<lambda>ob. Inr (ob_gvk ob)) (demo_obj ''c2'' ''x'' ''y'' ''q'')
      (fold (\<lambda>x s. snd (GetAggregateInformer (\<lambda>ob. Inr (ob_gvk ob)) x s))
        [demo_obj ''c3'' ''x'' ''y'' ''q''] (demo_agg [''a'' \<mapsto> 1]))) = Inr demo_gvk"
proof -
  have "GetAggregateInformer (\<lambda>ob. Inr (ob_gvk ob)) (demo_obj ''c1'' ''ns'' ''b'' ''p'') (demo_agg [''a'' \<mapsto> 1])
      = (Inr demo_gvk, demo_agg [''a'' \<mapsto> 1])"
    by (simp add: GetAggregateInformer_def informer_for_def demo_agg_def)
  from aggregate_informer_is_stable [OF _ _ this refl, of "demo_obj ''c2'' ''x'' ''y'' ''q''"
      "[demo_obj ''c3'' ''x'' ''y'' ''q'']"] show ?thesis by simp
qed

end
