(* ===== verification/Recorder.thy ===== *)
theory Recorder
  imports Objects
begin

text \<open>
  \<^verbatim>\<open>pkg/events/recorder/forked_recorder.go\<close>: the provider of event recorders of one
  cluster. It starts its two broadcasters with the first event or with \<open>Stop\<close>, whichever
  comes first, hands out recorders that create their concrete recorder on first use, and
  drops events once it is stopped. The broadcasters are client-go's: the model keeps the
  calls made on them, in order, and takes what they answer as a parameter.
\<close>

datatype bcall =
    DepStartRecordingToSink | DepStartEventWatcher
  | StartRecordingToSinkWithContext | StartEventWatcher
  | NewRecorder string | DepNewRecorder string
  | Emit string string | DepEmit string string
  | Shutdown | CancelSinkRecording | StopWatcher | DepShutdown

text \<open>
  \<open>ev_watch\<close> is the result of \<open>StartEventWatcher\<close>: whether the returned stop function is
  non-nil, and the error.
\<close>

record events_env =
  ev_stopWithProvider :: bool
  ev_sink_err :: "error option"
  ev_watch :: "bool \<times> error option"

record recorderProvider =
  rp_config :: rest_config
  rp_stopped :: bool
  rp_once :: bool
  rp_cancelSet :: bool
  rp_stopWatcherSet :: bool
  rp_stopBroadcaster :: bool
  rp_calls :: "bcall list"
  rp_errors :: "error list"

definition new_recorderProvider :: "rest_config \<Rightarrow> recorderProvider" where
  "new_recorderProvider cfg = \<lparr> rp_config = cfg, rp_stopped = False, rp_once = False,
     rp_cancelSet = False, rp_stopWatcherSet = False, rp_stopBroadcaster = False,
     rp_calls = [], rp_errors = [] \<rparr>"

text \<open>\<open>NewProvider\<close>: the client constructor of client-go is a parameter.\<close>

definition NewProvider ::
  "(rest_config \<Rightarrow> nat \<Rightarrow> unit result) \<Rightarrow> rest_config \<Rightarrow> nat option \<Rightarrow> recorderProvider result outcome" where
  "NewProvider NewForConfigAndClient cfg httpClient =
     (case httpClient of
        None \<Rightarrow> Panic ''httpClient must not be nil''
      | Some h \<Rightarrow>
          (case NewForConfigAndClient cfg h of
             Inl err \<Rightarrow> Ret (Inl (Errorf ''failed to init client: %w'' [] [err]))
           | Inr _ \<Rightarrow> Ret (Inr (new_recorderProvider cfg))))"

definition call :: "bcall \<Rightarrow> recorderProvider \<Rightarrow> recorderProvider" where
  "call c p = p\<lparr> rp_calls := rp_calls p @ [c] \<rparr>"

definition log_error :: "error option \<Rightarrow> recorderProvider \<Rightarrow> recorderProvider" where
  "log_error e p = (case e of None \<Rightarrow> p | Some err \<Rightarrow> p\<lparr> rp_errors := rp_errors p @ [err] \<rparr>)"

definition getBroadcaster :: "events_env \<Rightarrow> recorderProvider \<Rightarrow> recorderProvider" where
  "getBroadcaster E p =
     (if rp_once p then p
      else
        let p = p\<lparr> rp_once := True, rp_stopBroadcaster := ev_stopWithProvider E \<rparr>;
            p = call DepStartEventWatcher (call DepStartRecordingToSink p);
            p = p\<lparr> rp_cancelSet := True \<rparr>;
            p = call StartRecordingToSinkWithContext p
        in case ev_sink_err E of
             Some err \<Rightarrow> log_error (Some err) p
           | None \<Rightarrow>
               let p = call StartEventWatcher p
               in (log_error (snd (ev_watch E)) p)\<lparr> rp_stopWatcherSet := fst (ev_watch E) \<rparr>)"

text \<open>
  The body of the goroutine \<open>Stop\<close> starts. A call of a nil function panics; nothing recovers
  it, so it ends the process.
\<close>

definition Stop_body :: "events_env \<Rightarrow> recorderProvider \<Rightarrow> recorderProvider outcome" where
  "Stop_body E p0 =
     (let p = getBroadcaster E p0
      in if \<not> rp_stopBroadcaster p then Ret p
         else
           let p = call Shutdown p
           in if \<not> rp_cancelSet p then Panic ''nil cancelSinkRecordingFunc''
              else
                let p = call CancelSinkRecording p
                in if \<not> rp_stopWatcherSet p then Panic ''nil stopWatcherFunc''
                   else Ret ((call DepShutdown (call StopWatcher p))\<lparr> rp_stopped := True \<rparr>))"

text \<open>
  \<open>Stop\<close> itself waits for the goroutine or for its context, so it has returned when either
  is done.
\<close>

definition Stop_returned :: "bool \<Rightarrow> bool \<Rightarrow> bool" where
  "Stop_returned ctx_done goroutine_done \<longleftrightarrow> ctx_done \<or> goroutine_done"

subsection \<open>Recorders\<close>

text \<open>A recorder of either API: its component name and whether its concrete recorder exists.\<close>

record recorder =
  lr_name :: string
  lr_deprecated :: bool
  lr_made :: bool

definition GetEventRecorderFor :: "string \<Rightarrow> recorder" where
  "GetEventRecorderFor name = \<lparr> lr_name = name, lr_deprecated = True, lr_made = False \<rparr>"

definition GetEventRecorder :: "string \<Rightarrow> recorder" where
  "GetEventRecorder name = \<lparr> lr_name = name, lr_deprecated = False, lr_made = False \<rparr>"

definition ensureRecording ::
  "events_env \<Rightarrow> recorder \<times> recorderProvider \<Rightarrow> recorder \<times> recorderProvider" where
  "ensureRecording E = (\<lambda>(l, p).
     if lr_made l then (l, p)
     else (l\<lparr> lr_made := True \<rparr>,
           call (if lr_deprecated l then DepNewRecorder (lr_name l) else NewRecorder (lr_name l))
             (getBroadcaster E p)))"

text \<open>\<open>Eventf\<close>, \<open>Event\<close> and \<open>AnnotatedEventf\<close> differ in the method of the concrete
  recorder they forward to; the event's content is one string here.\<close>

definition recorder_Eventf ::
  "events_env \<Rightarrow> string \<Rightarrow> recorder \<times> recorderProvider \<Rightarrow> recorder \<times> recorderProvider" where
  "recorder_Eventf E msg lp =
     (case ensureRecording E lp of (l, p) \<Rightarrow>
        (l, if \<not> rp_stopped p
            then call (if lr_deprecated l then DepEmit (lr_name l) msg else Emit (lr_name l) msg) p
            else p))"

subsection \<open>A provider in use\<close>

datatype rec_op = RGet bool string | REvent nat string | RStop

text \<open>The recorders handed out so far, by position; an operation on an unknown one is none.\<close>

fun rec_step :: "events_env \<Rightarrow> rec_op \<Rightarrow> recorder list \<times> recorderProvider \<Rightarrow> (recorder list \<times> recorderProvider) outcome" where
  "rec_step E (RGet dep name) (ls, p) =
     Ret (ls @ [if dep then GetEventRecorderFor name else GetEventRecorder name], p)"
| "rec_step E (REvent i msg) (ls, p) =
     (if i < length ls
      then (case recorder_Eventf E msg (ls ! i, p) of (l, p') \<Rightarrow> Ret (ls[i := l], p'))
      else Ret (ls, p))"
| "rec_step E RStop (ls, p) = bind_outcome (Stop_body E p) (\<lambda>p'. Ret (ls, p'))"

fun rec_run :: "events_env \<Rightarrow> rec_op list \<Rightarrow> recorder list \<times> recorderProvider \<Rightarrow> (recorder list \<times> recorderProvider) outcome" where
  "rec_run E [] s = Ret s"
| "rec_run E (x # xs) s = bind_outcome (rec_step E x s) (rec_run E xs)"

subsection \<open>What reaches the broadcasters\<close>

fun is_emit :: "bcall \<Rightarrow> bool" where
  "is_emit (Emit n m) = True"
| "is_emit (DepEmit n m) = True"
| "is_emit _ = False"

definition emitted :: "recorderProvider \<Rightarrow> bcall list" where
  "emitted p = filter is_emit (rp_calls p)"

text \<open>The events an observer expects: those before the first stop, in order.\<close>

fun expected :: "(bool \<times> string) list \<Rightarrow> rec_op list \<Rightarrow> bcall list" where
  "expected ns [] = []"
| "expected ns (RGet dep name # xs) = expected (ns @ [(dep, name)]) xs"
| "expected ns (REvent i msg # xs) =
     (if i < length ns
      then [if fst (ns ! i) then DepEmit (snd (ns ! i)) msg else Emit (snd (ns ! i)) msg] else [])
       @ expected ns xs"
| "expected ns (RStop # xs) = []"

definition env_fine :: "events_env \<Rightarrow> bool" where
  "env_fine E \<longleftrightarrow> ev_stopWithProvider E \<and> ev_sink_err E = None \<and> fst (ev_watch E)"

text \<open>Once started without error, every function \<open>Stop\<close> calls is set.\<close>

definition prov_inv :: "recorderProvider \<Rightarrow> bool" where
  "prov_inv p \<longleftrightarrow> (rp_once p \<longrightarrow> rp_stopBroadcaster p \<and> rp_cancelSet p \<and> rp_stopWatcherSet p)"

lemma call_sel [simp]:
  "rp_stopped (call c p) = rp_stopped p" "rp_once (call c p) = rp_once p"
  "rp_cancelSet (call c p) = rp_cancelSet p" "rp_stopWatcherSet (call c p) = rp_stopWatcherSet p"
  "rp_stopBroadcaster (call c p) = rp_stopBroadcaster p" "rp_config (call c p) = rp_config p"
  "emitted (call c p) = emitted p @ (if is_emit c then [c] else [])"
  by (simp_all add: call_def emitted_def)

lemma log_error_sel [simp]:
  "rp_stopped (log_error e p) = rp_stopped p" "rp_once (log_error e p) = rp_once p"
  "rp_cancelSet (log_error e p) = rp_cancelSet p" "rp_stopWatcherSet (log_error e p) = rp_stopWatcherSet p"
  "rp_stopBroadcaster (log_error e p) = rp_stopBroadcaster p" "emitted (log_error e p) = emitted p"
  "rp_config (log_error e p) = rp_config p" "rp_calls (log_error e p) = rp_calls p"
  by (cases e; simp add: log_error_def emitted_def)+

lemma emitted_upd [simp]:
  "emitted (p\<lparr> rp_stopped := a \<rparr>) = emitted p" "emitted (p\<lparr> rp_once := a \<rparr>) = emitted p"
  "emitted (p\<lparr> rp_cancelSet := a \<rparr>) = emitted p" "emitted (p\<lparr> rp_stopWatcherSet := a \<rparr>) = emitted p"
  "emitted (p\<lparr> rp_stopBroadcaster := a \<rparr>) = emitted p"
  by (simp_all add: emitted_def)

lemma getBroadcaster_sel [simp]:
  "rp_once (getBroadcaster E p)" "rp_stopped (getBroadcaster E p) = rp_stopped p"
  "emitted (getBroadcaster E p) = emitted p" "rp_config (getBroadcaster E p) = rp_config p"
  by (simp_all add: getBroadcaster_def Let_def split: option.split)

lemma getBroadcaster_inv: "env_fine E \<Longrightarrow> prov_inv p \<Longrightarrow> prov_inv (getBroadcaster E p)"
  by (simp add: getBroadcaster_def Let_def prov_inv_def env_fine_def)

lemma call_inv [simp]: "prov_inv (call c p) = prov_inv p"
  by (simp add: prov_inv_def)

lemma Stop_body_fine:
  assumes "env_fine E" and "prov_inv p"
  obtains p' where "Stop_body E p = Ret p'" and "prov_inv p'" and "rp_stopped p'"
    and "emitted p' = emitted p"
proof -
  have inv: "prov_inv (getBroadcaster E p)" by (rule getBroadcaster_inv [OF assms])
  then have set: "rp_stopBroadcaster (getBroadcaster E p)" "rp_cancelSet (getBroadcaster E p)"
      "rp_stopWatcherSet (getBroadcaster E p)"
    by (simp_all add: prov_inv_def)
  show thesis
    by (rule that [of "(call DepShutdown (call StopWatcher (call CancelSinkRecording
        (call Shutdown (getBroadcaster E p)))))\<lparr> rp_stopped := True \<rparr>"])
       (simp_all add: Stop_body_def Let_def set prov_inv_def)
qed

definition roster :: "recorder list \<Rightarrow> (bool \<times> string) list" where
  "roster ls = map (\<lambda>l. (lr_deprecated l, lr_name l)) ls"

lemma roster_update:
  assumes "i < length ls" and "lr_deprecated l = lr_deprecated (ls ! i)" and "lr_name l = lr_name (ls ! i)"
  shows "roster (ls[i := l]) = roster ls"
proof -
  have "(lr_deprecated l, lr_name l) = roster ls ! i" using assms by (simp add: roster_def)
  then show ?thesis by (simp add: roster_def map_update list_update_id)
qed

lemma rec_event_result:
  assumes "recorder_Eventf E msg (l, p) = (l', p')"
  shows "lr_deprecated l' = lr_deprecated l" and "lr_name l' = lr_name l" and "lr_made l'"
    and "rp_stopped p' = rp_stopped p" and "env_fine E \<Longrightarrow> prov_inv p \<Longrightarrow> prov_inv p'"
    and "emitted p' = emitted p @ (if rp_stopped p then []
           else [if lr_deprecated l then DepEmit (lr_name l) msg else Emit (lr_name l) msg])"
  using assms
  by (auto simp: recorder_Eventf_def ensureRecording_def getBroadcaster_inv split: if_splits)

lemma stopped_emits_nothing:
  assumes "env_fine E" and "prov_inv p" and "rp_stopped p"
  shows "\<exists>ls' p'. rec_run E xs (ls, p) = Ret (ls', p') \<and> emitted p' = emitted p"
  using assms(2,3)
proof (induction xs arbitrary: ls p)
  case Nil
  then show ?case by simp
next
  case (Cons x xs)
  show ?case
  proof (cases x)
    case (RGet dep name)
    then show ?thesis using Cons by simp
  next
    case (REvent i msg)
    obtain l p1 where ev: "recorder_Eventf E msg (ls ! i, p) = (l, p1)"
      by (cases "recorder_Eventf E msg (ls ! i, p)")
    note r = rec_event_result [OF ev]
    show ?thesis
      using REvent ev r(4,6) r(5) [OF assms(1) Cons.prems(1)] Cons.prems Cons.IH [of p1 "ls[i := l]"]
        Cons.IH [of p ls] by simp
  next
    case RStop
    obtain p1 where p1: "Stop_body E p = Ret p1" "prov_inv p1" "rp_stopped p1" "emitted p1 = emitted p"
      by (rule Stop_body_fine [OF assms(1) Cons.prems(1)])
    then show ?thesis using RStop Cons.IH [of p1 ls] by simp
  qed
qed

lemma rec_run_expected:
  assumes "env_fine E" and "prov_inv p" and "\<not> rp_stopped p"
  shows "\<exists>ls' p'. rec_run E xs (ls, p) = Ret (ls', p') \<and> emitted p' = emitted p @ expected (roster ls) xs"
  using assms(2,3)
proof (induction xs arbitrary: ls p)
  case Nil
  then show ?case by simp
next
  case (Cons x xs)
  show ?case
  proof (cases x)
    case (RGet dep name)
    then show ?thesis
      using Cons.IH [of p "ls @ [if dep then GetEventRecorderFor name else GetEventRecorder name]"] Cons.prems
      by (simp add: roster_def GetEventRecorderFor_def GetEventRecorder_def split: if_splits)
  next
    case (REvent i msg)
    show ?thesis
    proof (cases "i < length ls")
      case False
      then show ?thesis using REvent Cons.IH [of p ls] Cons.prems by (simp add: roster_def)
    next
      case True
      obtain l p1 where ev: "recorder_Eventf E msg (ls ! i, p) = (l, p1)"
        by (cases "recorder_Eventf E msg (ls ! i, p)")
      note r = rec_event_result [OF ev]
      have "roster (ls[i := l]) = roster ls"
        by (rule roster_update [OF True r(1,2)])
      then show ?thesis
        using REvent True ev r(4,6) r(5) [OF assms(1) Cons.prems(1)] Cons.prems Cons.IH [of p1 "ls[i := l]"]
        by (cases "lr_deprecated (ls ! i)") (simp_all add: roster_def)
    qed
  next
    case RStop
    obtain p1 where p1: "Stop_body E p = Ret p1" "prov_inv p1" "rp_stopped p1" "emitted p1 = emitted p"
      by (rule Stop_body_fine [OF assms(1) Cons.prems(1)])
    then show ?thesis using RStop stopped_emits_nothing [OF assms(1) p1(2,3), of xs ls] by simp
  qed
qed

subsection \<open>The broadcasters start once\<close>

definition start_calls :: "bcall list" where
  "start_calls = [DepStartRecordingToSink, DepStartEventWatcher, StartRecordingToSinkWithContext, StartEventWatcher]"

definition begun :: "recorderProvider \<Rightarrow> bool" where
  "begun p \<longleftrightarrow> (if rp_once p then \<exists>rest. rp_calls p = start_calls @ rest \<and> set rest \<inter> set start_calls = {} else rp_calls p = [])"

text \<open>Whether a history records an event with a recorder it was given, of which there are \<open>n\<close> so far, or stops.\<close>

fun uses_broadcasters :: "nat \<Rightarrow> rec_op list \<Rightarrow> bool" where
  "uses_broadcasters n [] \<longleftrightarrow> False"
| "uses_broadcasters n (RGet dep name # xs) \<longleftrightarrow> uses_broadcasters (Suc n) xs"
| "uses_broadcasters n (REvent i msg # xs) \<longleftrightarrow> i < n \<or> uses_broadcasters n xs"
| "uses_broadcasters n (RStop # xs) \<longleftrightarrow> True"

lemma begun_call:
  assumes "begun p" and "rp_once p" and "c \<notin> set start_calls"
  shows "begun (call c p)"
  using assms by (auto simp: begun_def call_def)

lemma begun_stopped: "begun p \<Longrightarrow> begun (p\<lparr> rp_stopped := True \<rparr>)"
  by (simp add: begun_def)

lemma begun_getBroadcaster: "env_fine E \<Longrightarrow> begun p \<Longrightarrow> begun (getBroadcaster E p)"
  by (auto simp: begun_def getBroadcaster_def env_fine_def start_calls_def Let_def call_def log_error_def
      split: option.split)

lemma begun_event:
  assumes "env_fine E" and "begun p" and "lr_made l \<longrightarrow> rp_once p" and "recorder_Eventf E msg (l, p) = (l', p')"
  shows "begun p' \<and> rp_once p'"
proof -
  obtain q where q: "ensureRecording E (l, p) = (l', q)" "p' = q \<or> (\<exists>c. is_emit c \<and> p' = call c q)"
    using assms(4) by (auto simp: recorder_Eventf_def split: prod.splits if_splits) (metis is_emit.simps(1,2))+
  have "begun q" "rp_once q"
    using q(1) assms(2,3) begun_getBroadcaster [OF assms(1,2)]
    by (auto simp: ensureRecording_def start_calls_def intro!: begun_call split: if_splits)
  moreover have "c \<notin> set start_calls" if "is_emit c" for c using that by (auto simp: start_calls_def)
  ultimately show ?thesis using q(2) begun_call by auto
qed

lemma begun_Stop:
  assumes "env_fine E" and "begun p" and "Stop_body E p = Ret p'"
  shows "begun p' \<and> rp_once p'"
proof -
  note b = begun_getBroadcaster [OF assms(1,2)]
  show ?thesis
    using assms(3) b
    by (auto simp: Stop_body_def Let_def start_calls_def intro!: begun_stopped begun_call split: if_splits)
qed

lemma rec_run_begun:
  assumes "env_fine E" and "begun p" and "\<forall>l \<in> set ls. lr_made l \<longrightarrow> rp_once p"
    and "rec_run E xs (ls, p) = Ret (ls', p')"
  shows "begun p' \<and> (rp_once p' \<longleftrightarrow> rp_once p \<or> uses_broadcasters (length ls) xs)"
  using assms(2-)
proof (induction xs arbitrary: ls p)
  case (Cons x xs)
  show ?case
  proof (cases x)
    case (RGet dep name)
    let ?l = "if dep then GetEventRecorderFor name else GetEventRecorder name"
    have "\<not> lr_made ?l" by (simp add: GetEventRecorderFor_def GetEventRecorder_def)
    then show ?thesis using Cons.IH [of p "ls @ [?l]"] Cons.prems RGet by simp
  next
    case (REvent i msg)
    show ?thesis
    proof (cases "i < length ls")
      case True
      obtain l p1 where ev: "recorder_Eventf E msg (ls ! i, p) = (l, p1)"
        by (cases "recorder_Eventf E msg (ls ! i, p)")
      have "begun p1" "rp_once p1" using begun_event [OF assms(1) Cons.prems(1) _ ev] Cons.prems(2) True by auto
      then show ?thesis using Cons.IH [of p1 "ls[i := l]"] Cons.prems REvent True ev by simp
    qed (use Cons REvent in simp)
  next
    case RStop
    then obtain p1 where p1: "Stop_body E p = Ret p1" "rec_run E xs (ls, p1) = Ret (ls', p')"
      using Cons.prems(3) by (cases "Stop_body E p") auto
    then show ?thesis using Cons.IH [of p1 ls] begun_Stop [OF assms(1) Cons.prems(1) p1(1)] RStop by simp
  qed
qed simp

text \<open>
  Property C18. Over any sequence of handing out recorders, recording events and stopping, a
  provider that is to be stopped with its broadcasters, and whose broadcasters start without error
  (\<open>env_fine\<close>), never panics; the events that reach the broadcasters are exactly those recorded
  before the first stop, in order, each under the API and component name of its recorder, and
  nothing is emitted afterwards. The broadcasters are started by the first event or stop, before any
  other call on them, and never again; until then no call is made.
\<close>

theorem events_until_stop:
  assumes "env_fine E"
  shows "\<exists>ls p. rec_run E ops ([], new_recorderProvider cfg) = Ret (ls, p) \<and>
    emitted p = expected [] ops \<and>
    (if uses_broadcasters 0 ops
     then \<exists>rest. rp_calls p = start_calls @ rest \<and> set rest \<inter> set start_calls = {}
     else rp_calls p = [])"
proof -
  have "prov_inv (new_recorderProvider cfg)" and "\<not> rp_stopped (new_recorderProvider cfg)"
    and "emitted (new_recorderProvider cfg) = []" and new: "begun (new_recorderProvider cfg)" "\<not> rp_once (new_recorderProvider cfg)"
    by (simp_all add: new_recorderProvider_def prov_inv_def emitted_def begun_def)
  then obtain ls p where run: "rec_run E ops ([], new_recorderProvider cfg) = Ret (ls, p)" "emitted p = expected [] ops"
    using rec_run_expected [OF assms, of "new_recorderProvider cfg" ops "[]"] by (auto simp: roster_def)
  have "begun p \<and> (rp_once p \<longleftrightarrow> uses_broadcasters 0 ops)"
    using rec_run_begun [OF assms new(1) _ run(1)] new(2) by simp
  with run show ?thesis by (intro exI [of _ ls] exI [of _ p]) (simp add: begun_def)
qed

text \<open>
  Stopping a fresh provider crashes the process exactly when its broadcaster is
  to be stopped with it and either recording to the sink or the event watcher failed to
  start: the error was only logged, and \<open>stopWatcherFunc\<close> was left nil.
\<close>

theorem stop_panics_iff_start_failed:
  "returned (Stop_body E (new_recorderProvider cfg)) \<longleftrightarrow>
     (if ev_stopWithProvider E then ev_sink_err E = None \<and> fst (ev_watch E) else True)"
  by (auto simp: Stop_body_def getBroadcaster_def Let_def new_recorderProvider_def split: option.split)

definition demo_env :: events_env where
  "demo_env = \<lparr> ev_stopWithProvider = True, ev_sink_err = None, ev_watch = (True, None) \<rparr>"

theorem events_until_stop_witness:
  "\<exists>ls p rest. rec_run demo_env [RGet True ''ctl'', REvent 0 ''created'', RGet False ''api'', REvent 1 ''done'', RStop,
       REvent 0 ''late''] ([], new_recorderProvider \<lparr> cfg_host = ''https://kcp'', cfg_rest = 0 \<rparr>) = Ret (ls, p) \<and>
     emitted p = [DepEmit ''ctl'' ''created'', Emit ''api'' ''done''] \<and> rp_calls p = start_calls @ rest \<and> set rest \<inter> set start_calls = {}"
  using events_until_stop [of demo_env "[RGet True ''ctl'', REvent 0 ''created'', RGet False ''api'',
      REvent 1 ''done'', RStop, REvent 0 ''late'']" "\<lparr> cfg_host = ''https://kcp'', cfg_rest = 0 \<rparr>"]
  by (auto simp: env_fine_def demo_env_def simp del: rec_run.simps)

end
