(* ===== verification/RecorderManager.thy ===== *)
theory RecorderManager
  imports Recorder Interfaces
begin

text \<open>
  \<^verbatim>\<open>pkg/events/recorder/provider_manager.go\<close>: the recorder providers of all clusters.
  Providers are shared by reference, so the manager's map goes to handles and a heap keeps
  what each handle points to.
\<close>

record manager_env =
  me_HTTPClientFor :: "rest_config \<Rightarrow> nat result"
  me_eventsClient :: "rest_config \<Rightarrow> nat \<Rightarrow> unit result"
  me_corev1Client :: "rest_config \<Rightarrow> nat \<Rightarrow> unit result"

record recorderManager =
  rm_providers :: "lcname \<rightharpoonup> nat"
  rm_heap :: "nat \<Rightarrow> recorderProvider"
  rm_next :: nat

definition NewManager :: recorderManager where
  "NewManager = \<lparr> rm_providers = Map.empty,
     rm_heap = (\<lambda>_. new_recorderProvider \<lparr> cfg_host = [], cfg_rest = 0 \<rparr>), rm_next = 0 \<rparr>"

definition aware_config :: "kcpapi \<Rightarrow> rest_config \<Rightarrow> lcname \<Rightarrow> rest_config" where
  "aware_config K unawareConfig clusterName =
     unawareConfig\<lparr> cfg_host := cfg_host unawareConfig @ ''/clusters/'' @ lc_string K clusterName \<rparr>"

text \<open>The producer's result is the parameter \<open>events_env\<close> of \<open>Recorder\<close>; building it can fail.\<close>

definition awareEventBroadcasterProducer :: "manager_env \<Rightarrow> rest_config \<Rightarrow> nat \<Rightarrow> unit result" where
  "awareEventBroadcasterProducer M cfg httpClient = me_eventsClient M cfg httpClient"

definition GetProvider ::
  "kcpapi \<Rightarrow> manager_env \<Rightarrow> rest_config \<Rightarrow> lcname \<Rightarrow> recorderManager \<Rightarrow> (nat result \<times> recorderManager) outcome" where
  "GetProvider K M unawareConfig clusterName m =
     (case rm_providers m clusterName of
        Some provider \<Rightarrow> Ret (Inr provider, m)
      | None \<Rightarrow>
          let restConfig = aware_config K unawareConfig clusterName
          in case me_HTTPClientFor M restConfig of
               Inl err \<Rightarrow> Ret (Inl (Errorf ''error constructing cluster-scoped http client: %w'' [] [err]), m)
             | Inr httpClient \<Rightarrow>
                 (case awareEventBroadcasterProducer M restConfig httpClient of
                    Inl err \<Rightarrow> Ret (Inl (Errorf ''error constructing aware EventBroadcasterProducer: %w'' [] [err]), m)
                  | Inr _ \<Rightarrow>
                      bind_outcome (NewProvider (me_corev1Client M) restConfig (Some httpClient)) (\<lambda>r.
                        case r of
                          Inl err \<Rightarrow> Ret (Inl (Errorf ''error constructing event recorder for %q: %w''
                                           [clusterName] [err]), m)
                        | Inr provider \<Rightarrow>
                            Ret (Inr (rm_next m),
                              \<lparr> rm_providers = (rm_providers m)(clusterName \<mapsto> rm_next m),
                                rm_heap = (rm_heap m)(rm_next m := provider), rm_next = Suc (rm_next m) \<rparr>))))"

text \<open>The manager's recorders: nil when the provider cannot be had (the error is logged).\<close>

definition Manager_GetEventRecorderFor ::
  "kcpapi \<Rightarrow> manager_env \<Rightarrow> rest_config \<Rightarrow> lcname \<Rightarrow> lcname \<Rightarrow> recorderManager
     \<Rightarrow> ((nat \<times> recorder) option \<times> recorderManager) outcome" where
  "Manager_GetEventRecorderFor K M cfg name clusterName m =
     bind_outcome (GetProvider K M cfg clusterName m) (\<lambda>(r, m').
       case r of
         Inl err \<Rightarrow> Ret (None, m')
       | Inr p \<Rightarrow> Ret (Some (p, GetEventRecorderFor (lc_string K name)), m'))"

definition Manager_GetEventRecorder ::
  "kcpapi \<Rightarrow> manager_env \<Rightarrow> rest_config \<Rightarrow> lcname \<Rightarrow> lcname \<Rightarrow> recorderManager
     \<Rightarrow> ((nat \<times> recorder) option \<times> recorderManager) outcome" where
  "Manager_GetEventRecorder K M cfg name clusterName m =
     bind_outcome (GetProvider K M cfg clusterName m) (\<lambda>(r, m').
       case r of
         Inl err \<Rightarrow> Ret (None, m')
       | Inr p \<Rightarrow> Ret (Some (p, GetEventRecorder (lc_string K name)), m'))"

text \<open>
  Stopping runs each provider's goroutine to its end (the context only bounds how long the
  caller waits for it). \<open>E p\<close> is how the broadcasters of provider \<open>p\<close> answer.
\<close>

fun stop_providers ::
  "(nat \<Rightarrow> events_env) \<Rightarrow> (lcname \<rightharpoonup> nat) \<Rightarrow> lcname list \<Rightarrow> (nat \<Rightarrow> recorderProvider)
     \<Rightarrow> (nat \<Rightarrow> recorderProvider) outcome" where
  "stop_providers E ps [] heap = Ret heap"
| "stop_providers E ps (cl # cls) heap =
     (case ps cl of
        None \<Rightarrow> stop_providers E ps cls heap
      | Some p \<Rightarrow> bind_outcome (Stop_body (E p) (heap p)) (\<lambda>q. stop_providers E ps cls (heap(p := q))))"

definition Manager_Stop ::
  "(nat \<Rightarrow> events_env) \<Rightarrow> lcname list \<Rightarrow> recorderManager \<Rightarrow> recorderManager outcome" where
  "Manager_Stop E cls m =
     bind_outcome (stop_providers E (rm_providers m) cls (rm_heap m))
       (\<lambda>heap. Ret (m\<lparr> rm_heap := heap, rm_providers := Map.empty \<rparr>))"

definition StopProvider ::
  "(nat \<Rightarrow> events_env) \<Rightarrow> lcname \<Rightarrow> recorderManager \<Rightarrow> recorderManager outcome" where
  "StopProvider E clusterName m =
     (case rm_providers m clusterName of
        None \<Rightarrow> Ret m
      | Some p \<Rightarrow> bind_outcome (Stop_body (E p) (rm_heap m p)) (\<lambda>q.
          Ret (m\<lparr> rm_heap := (rm_heap m)(p := q), rm_providers := (rm_providers m)(clusterName := None) \<rparr>)))"

subsection \<open>The manager as a get-or-create store\<close>

lemma GetProvider_returns: "\<exists>r m'. GetProvider K M cfg cl m = Ret (r, m')"
  by (simp add: GetProvider_def NewProvider_def Let_def split: option.split sum.split)

definition provider_goc ::
  "kcpapi \<Rightarrow> manager_env \<Rightarrow> rest_config \<Rightarrow> lcname \<Rightarrow> recorderManager \<Rightarrow> nat option \<times> recorderManager" where
  "provider_goc K M cfg cl m =
     (case GetProvider K M cfg cl m of
        Ret (Inr p, m') \<Rightarrow> (Some p, m')
      | Ret (Inl _, m') \<Rightarrow> (None, m')
      | Panic _ \<Rightarrow> (None, m))"

lemma provider_goc_eq:
  "GetProvider K M cfg cl m = Ret (Inr p, m') \<longleftrightarrow> provider_goc K M cfg cl m = (Some p, m')"
proof -
  obtain r m1 where "GetProvider K M cfg cl m = Ret (r, m1)" using GetProvider_returns by blast
  then show ?thesis by (cases r) (auto simp: provider_goc_def)
qed

lemma provider_goc_cases:
  "provider_goc K M cfg cl m =
     (case rm_providers m cl of
        Some p \<Rightarrow> (Some p, m)
      | None \<Rightarrow>
          let rc = aware_config K cfg cl
          in case me_HTTPClientFor M rc of
               Inl _ \<Rightarrow> (None, m)
             | Inr h \<Rightarrow>
                 if is_err (me_eventsClient M rc h) \<or> is_err (me_corev1Client M rc h) then (None, m)
                 else (Some (rm_next m),
                   \<lparr> rm_providers = (rm_providers m)(cl \<mapsto> rm_next m),
                     rm_heap = (rm_heap m)(rm_next m := new_recorderProvider rc), rm_next = Suc (rm_next m) \<rparr>))"
  by (simp add: provider_goc_def GetProvider_def NewProvider_def awareEventBroadcasterProducer_def Let_def
      split: option.split sum.split)

interpretation mgr: get_or_create rm_providers "provider_goc K M cfg" for K M cfg
  by unfold_locales
     (auto simp: provider_goc_cases Let_def split: option.splits sum.splits if_splits)

text \<open>A history of lookups with various configurations and clusters.\<close>

definition lookups ::
  "kcpapi \<Rightarrow> manager_env \<Rightarrow> (rest_config \<times> lcname) list \<Rightarrow> recorderManager \<Rightarrow> recorderManager" where
  "lookups K M reqs m = fold (\<lambda>(cfg, cl) m. snd (provider_goc K M cfg cl m)) reqs m"

lemma lookups_keep: "rm_providers m cl = Some p \<Longrightarrow> rm_providers (lookups K M reqs m) cl = Some p"
  unfolding lookups_def
proof (induction reqs arbitrary: m)
  case (Cons x reqs)
  obtain cfg cl' where "x = (cfg, cl')" by (cases x)
  then show ?case using Cons mgr.goc_keeps [OF Cons.prems, of K M cfg cl'] by simp
qed simp

definition manager_inv :: "recorderManager \<Rightarrow> bool" where
  "manager_inv m \<longleftrightarrow> inj_on (rm_providers m) (dom (rm_providers m)) \<and>
     (\<forall>cl p. rm_providers m cl = Some p \<longrightarrow> p < rm_next m)"

lemma NewManager_inv: "manager_inv NewManager"
  by (simp add: manager_inv_def NewManager_def)

lemma manager_inv_goc:
  assumes "manager_inv m"
  shows "manager_inv (snd (provider_goc K M cfg cl m))"
proof (cases "rm_providers m cl")
  case (Some p)
  then show ?thesis using assms by (simp add: provider_goc_cases)
next
  case None
  have fresh: "rm_providers m d \<noteq> Some (rm_next m)" for d
    using assms by (auto simp: manager_inv_def)
  have "inj_on ((rm_providers m)(cl \<mapsto> rm_next m)) (insert cl (dom (rm_providers m)))"
    using assms fresh None unfolding manager_inv_def inj_on_def by (metis domIff fun_upd_other fun_upd_same insertE)
  moreover have "p < Suc (rm_next m)" if "((rm_providers m)(cl \<mapsto> rm_next m)) d = Some p" for d p
    using that assms by (auto simp: manager_inv_def less_SucI split: if_splits)
  ultimately show ?thesis
    using assms None by (auto simp: provider_goc_cases Let_def manager_inv_def split: sum.split)
qed

text \<open>The heap entries of existing providers are not touched by a lookup.\<close>

lemma goc_heap:
  "p < rm_next m \<Longrightarrow> rm_heap (snd (provider_goc K M cfg cl m)) p = rm_heap m p"
  "rm_next m \<le> rm_next (snd (provider_goc K M cfg cl m))"
  by (auto simp: provider_goc_cases Let_def split: option.split sum.split)

lemma lookups_heap:
  "p < rm_next m \<Longrightarrow> rm_heap (lookups K M reqs m) p = rm_heap m p"
  unfolding lookups_def
proof (induction reqs arbitrary: m)
  case (Cons x reqs)
  obtain cfg cl where x: "x = (cfg, cl)" by (cases x)
  have "p < rm_next (snd (provider_goc K M cfg cl m))"
    using Cons.prems goc_heap(2) [of m K M cfg cl] by linarith
  then show ?case using Cons.IH goc_heap(1) [OF Cons.prems, of K M cfg cl] x by simp
qed simp

text \<open>
  A logical cluster has one recorder provider: once created it is returned by
  every later lookup, with whatever configuration that lookup is made, and it keeps sending
  events to the host of the configuration it was first created with.
\<close>

theorem recorder_provider_reused:
  assumes "rm_providers m cl = None" and "GetProvider K M cfg cl m = Ret (Inr p, m1)"
  shows "GetProvider K M cfg2 cl (lookups K M reqs m1) = Ret (Inr p, lookups K M reqs m1) \<and>
    rp_config (rm_heap (lookups K M reqs m1) p) = aware_config K cfg cl"
proof -
  have goc: "provider_goc K M cfg cl m = (Some p, m1)" using assms(2) by (simp add: provider_goc_eq)
  have here: "rm_providers (lookups K M reqs m1) cl = Some p"
    by (rule lookups_keep [OF mgr.goc_stored [OF goc]])
  have "p < rm_next m1 \<and> rp_config (rm_heap m1 p) = aware_config K cfg cl"
    using goc assms(1)
    by (auto simp: provider_goc_cases Let_def new_recorderProvider_def split: sum.splits if_splits)
  then show ?thesis using here by (simp add: GetProvider_def lookups_heap)
qed

text \<open>
  Stopping one cluster's provider stops just that provider and forgets it: all
  other clusters keep their providers untouched, and the next lookup for the cluster creates
  a fresh provider, distinct from every provider handed out before, which is not stopped.
\<close>

theorem stop_provider_is_local:
  assumes "manager_inv m" and "rm_providers m cl = Some p" and "env_fine (E p)" and "prov_inv (rm_heap m p)"
  shows "\<exists>m'. StopProvider E cl m = Ret m' \<and> manager_inv m' \<and>
    rp_stopped (rm_heap m' p) \<and> rm_providers m' = (rm_providers m)(cl := None) \<and>
    (\<forall>d q. d \<noteq> cl \<longrightarrow> rm_providers m d = Some q \<longrightarrow> rm_heap m' q = rm_heap m q) \<and>
    (\<forall>cfg q m2. GetProvider K M cfg cl m' = Ret (Inr q, m2) \<longrightarrow>
       q \<notin> ran (rm_providers m) \<and> \<not> rp_stopped (rm_heap m2 q))"
proof -
  obtain q where q: "Stop_body (E p) (rm_heap m p) = Ret q" "rp_stopped q"
    by (rule Stop_body_fine [OF assms(3,4)])
  let ?m = "m\<lparr> rm_heap := (rm_heap m)(p := q), rm_providers := (rm_providers m)(cl := None) \<rparr>"
  have stop: "StopProvider E cl m = Ret ?m" using assms(2) q(1) by (simp add: StopProvider_def)
  have inv: "manager_inv ?m"
    using assms(1) unfolding manager_inv_def by (auto simp: inj_on_def split: if_splits)
  have other: "r \<noteq> p" if "d \<noteq> cl" and "rm_providers m d = Some r" for d r
    using assms(1,2) that unfolding manager_inv_def inj_on_def by (metis domI)
  have fresh: "rm_next m \<notin> ran (rm_providers m)"
    using assms(1) by (auto simp: manager_inv_def ran_def)
  have new: "r = rm_next m \<and> \<not> rp_stopped (rm_heap m2 r)"
    if "GetProvider K M cfg cl ?m = Ret (Inr r, m2)" for cfg r m2
    using that [unfolded provider_goc_eq]
    by (auto simp: provider_goc_cases Let_def new_recorderProvider_def split: sum.splits if_splits)
  show ?thesis
    using stop inv other fresh new q(2) by (intro exI [of _ ?m]) auto
qed

lemma stop_providers_all:
  assumes "inj_on ps (dom ps)" and "\<forall>cl p. ps cl = Some p \<longrightarrow> env_fine (E p) \<and> prov_inv (heap p)"
    and "distinct cls"
  shows "\<exists>heap'. stop_providers E ps cls heap = Ret heap' \<and>
    (\<forall>cl p. ps cl = Some p \<longrightarrow> (if cl \<in> set cls then rp_stopped (heap' p) else heap' p = heap p))"
  using assms(2,3)
proof (induction cls arbitrary: heap)
  case Nil
  then show ?case by simp
next
  case (Cons c cls)
  show ?case
  proof (cases "ps c")
    case None
    obtain heap' where h: "stop_providers E ps cls heap = Ret heap'"
      "\<forall>cl p. ps cl = Some p \<longrightarrow> (if cl \<in> set cls then rp_stopped (heap' p) else heap' p = heap p)"
      using Cons.IH [OF Cons.prems(1)] Cons.prems(2) by (auto simp only: distinct.simps)
    have "if cl \<in> set (c # cls) then rp_stopped (heap' p) else heap' p = heap p" if "ps cl = Some p" for cl p
      using h(2) that None by (cases "cl = c") auto
    then show ?thesis using h(1) None by auto
  next
    case (Some q)
    obtain q' where q': "Stop_body (E q) (heap q) = Ret q'" "prov_inv q'" "rp_stopped q'"
      using Stop_body_fine [of "E q" "heap q"] Cons.prems(1) Some by blast
    have other: "p \<noteq> q" if "ps cl = Some p" and "cl \<noteq> c" for cl p
      using assms(1) Some that unfolding inj_on_def by (metis domI)
    have upd: "\<forall>cl p. ps cl = Some p \<longrightarrow> env_fine (E p) \<and> prov_inv ((heap(q := q')) p)"
      using Cons.prems(1) q'(2) by simp
    have "distinct cls" using Cons.prems(2) by simp
    then obtain heap' where h: "stop_providers E ps cls (heap(q := q')) = Ret heap'"
      "\<forall>cl p. ps cl = Some p \<longrightarrow> (if cl \<in> set cls then rp_stopped (heap' p) else heap' p = (heap(q := q')) p)"
      using Cons.IH [OF upd] by blast
    have "if cl \<in> set (c # cls) then rp_stopped (heap' p) else heap' p = heap p" if "ps cl = Some p" for cl p
    proof (cases "cl = c")
      case True
      then have "p = q" using that Some by simp
      then show ?thesis using h(2) [rule_format, OF Some] Cons.prems(2) q'(3) True by simp
    next
      case False
      then show ?thesis using h(2) [rule_format, OF that] other [OF that False] by simp
    qed
    then show ?thesis using h(1) Some q'(1) by auto
  qed
qed

text \<open>
  Stopping the manager stops every provider it had, in whatever order the map
  is visited, and forgets them all, so that later lookups start afresh.
\<close>

theorem manager_stop_stops_all:
  assumes "manager_inv m" and "range_of (rm_providers m) cls"
    and "\<forall>cl p. rm_providers m cl = Some p \<longrightarrow> env_fine (E p) \<and> prov_inv (rm_heap m p)"
  shows "\<exists>m'. Manager_Stop E cls m = Ret m' \<and> rm_providers m' = Map.empty \<and>
    (\<forall>cl p. rm_providers m cl = Some p \<longrightarrow> rp_stopped (rm_heap m' p))"
proof -
  have inj: "inj_on (rm_providers m) (dom (rm_providers m))" using assms(1) by (simp add: manager_inv_def)
  have d: "distinct cls" using assms(2) by (simp add: range_of_def)
  obtain heap' where h: "stop_providers E (rm_providers m) cls (rm_heap m) = Ret heap'"
    "\<forall>cl p. rm_providers m cl = Some p \<longrightarrow>
       (if cl \<in> set cls then rp_stopped (heap' p) else heap' p = rm_heap m p)"
    using stop_providers_all [OF inj assms(3) d] by blast
  have "rp_stopped (heap' p)" if "rm_providers m cl = Some p" for cl p
    using h(2) that range_ofD [OF assms(2), of cl] by auto
  then show ?thesis using h(1) by (auto simp: Manager_Stop_def)
qed

subsection \<open>Witnesses\<close>

definition demo_manager_env :: manager_env where
  "demo_manager_env = \<lparr> me_HTTPClientFor = (\<lambda>_. Inr 1), me_eventsClient = (\<lambda>_ _. Inr ()),
     me_corev1Client = (\<lambda>_ _. Inr ()) \<rparr>"

definition demo_cfg :: "string \<Rightarrow> rest_config" where
  "demo_cfg h = \<lparr> cfg_host = h, cfg_rest = 0 \<rparr>"

definition demo_manager :: recorderManager where
  "demo_manager = snd (provider_goc demo_kcp demo_manager_env (demo_cfg ''h1'') ''c1'' NewManager)"

lemma demo_manager_get:
  "GetProvider demo_kcp demo_manager_env (demo_cfg ''h1'') ''c1'' NewManager = Ret (Inr 0, demo_manager)"
  by (simp add: provider_goc_eq demo_manager_def provider_goc_cases NewManager_def demo_manager_env_def Let_def)

lemma demo_manager_inv: "manager_inv demo_manager"
  unfolding demo_manager_def by (rule manager_inv_goc [OF NewManager_inv])

lemma demo_manager_providers [simp]: "rm_providers demo_manager = [''c1'' \<mapsto> 0]"
  by (simp add: demo_manager_def provider_goc_cases NewManager_def demo_manager_env_def Let_def)

lemma demo_manager_prov: "prov_inv (rm_heap demo_manager 0)"
  by (simp add: demo_manager_def provider_goc_cases NewManager_def demo_manager_env_def Let_def
      prov_inv_def new_recorderProvider_def)

lemma demo_env_fine: "env_fine demo_env"
  by (simp add: env_fine_def demo_env_def)

theorem recorder_provider_reused_witness:
  "cfg_host (rp_config (rm_heap (lookups demo_kcp demo_manager_env [(demo_cfg ''h2'', ''c1'')] demo_manager) 0))
     = ''h1/clusters/c1''"
  using recorder_provider_reused [OF _ demo_manager_get, of "demo_cfg ''h2''" "[(demo_cfg ''h2'', ''c1'')]"]
  by (simp add: NewManager_def aware_config_def demo_cfg_def)

theorem stop_provider_is_local_witness:
  "\<exists>m'. StopProvider (\<lambda>_. demo_env) ''c1'' demo_manager = Ret m' \<and> rp_stopped (rm_heap m' 0) \<and>
     rm_providers m' = Map.empty"
proof -
  have "rm_providers demo_manager ''c1'' = Some 0" by simp
  then obtain m' where "StopProvider (\<lambda>_. demo_env) ''c1'' demo_manager = Ret m'" "rp_stopped (rm_heap m' 0)"
    "rm_providers m' = (rm_providers demo_manager)(''c1'' := None)"
    using stop_provider_is_local [OF demo_manager_inv _ demo_env_fine demo_manager_prov,
        where K = demo_kcp and M = demo_manager_env] by blast
  then show ?thesis by simp
qed

theorem manager_stop_stops_all_witness:
  "\<exists>m'. Manager_Stop (\<lambda>_. demo_env) [''c1''] demo_manager = Ret m' \<and> rp_stopped (rm_heap m' 0)"
proof -
  have r: "range_of (rm_providers demo_manager) [''c1'']" by (simp add: range_of_def)
  have "\<forall>cl p. rm_providers demo_manager cl = Some p \<longrightarrow> env_fine demo_env \<and> prov_inv (rm_heap demo_manager p)"
    using demo_manager_prov demo_env_fine by simp
  from manager_stop_stops_all [OF demo_manager_inv r this] show ?thesis by auto
qed

end
