(* ===== verification/RecorderHeap.thy ===== *)
theory RecorderHeap
  imports RecorderManager
begin

text \<open>
  The heap of recorder providers behind the manager of \<^verbatim>\<open>pkg/events/recorder/provider_manager.go\<close>:
  every history of lookups, recorded events and stops keeps it well typed, and in a well typed
  heap no operation panics.
\<close>

subsection \<open>Histories\<close>

text \<open>
  Only the manager stops a provider; whoever holds one takes recorders from it and records
  events, also after the manager has forgotten it.
\<close>

inductive mgr_step ::
  "kcpapi \<Rightarrow> manager_env \<Rightarrow> (nat \<Rightarrow> events_env) \<Rightarrow> recorderManager \<Rightarrow> recorderManager \<Rightarrow> bool"
  for K M E where
  lookup: "GetProvider K M cfg cl m = Ret (r, m') \<Longrightarrow> mgr_step K M E m m'"
| event: "p < rm_next m \<Longrightarrow> x \<noteq> RStop \<Longrightarrow> rec_step (E p) x (ls, rm_heap m p) = Ret (ls', q) \<Longrightarrow>
    mgr_step K M E m (m\<lparr> rm_heap := (rm_heap m)(p := q) \<rparr>)"
| stop_one: "StopProvider E cl m = Ret m' \<Longrightarrow> mgr_step K M E m m'"
| stop_all: "range_of (rm_providers m) cls \<Longrightarrow> Manager_Stop E cls m = Ret m' \<Longrightarrow> mgr_step K M E m m'"

inductive mgr_reach :: "kcpapi \<Rightarrow> manager_env \<Rightarrow> (nat \<Rightarrow> events_env) \<Rightarrow> recorderManager \<Rightarrow> bool"
  for K M E where
  start: "mgr_reach K M E NewManager"
| step: "mgr_reach K M E m \<Longrightarrow> mgr_step K M E m m' \<Longrightarrow> mgr_reach K M E m'"

inductive_cases mgr_stepE: "mgr_step K M E m m'"

subsection \<open>Typing\<close>

text \<open>
  What a handle may point to: a provider that sends to the cluster it is registered for and has
  not been stopped. Forgotten providers are only required to be consistent.
\<close>

definition provider_for :: "kcpapi \<Rightarrow> lcname \<Rightarrow> recorderProvider \<Rightarrow> bool" where
  "provider_for K cl q \<longleftrightarrow> \<not> rp_stopped q \<and> (\<exists>base. rp_config q = aware_config K base cl)"

definition heap_typed :: "kcpapi \<Rightarrow> recorderManager \<Rightarrow> bool" where
  "heap_typed K m \<longleftrightarrow> manager_inv m \<and> (\<forall>p < rm_next m. prov_inv (rm_heap m p)) \<and>
     (\<forall>cl p. rm_providers m cl = Some p \<longrightarrow> provider_for K cl (rm_heap m p))"

lemma heap_typedD:
  assumes "heap_typed K m"
  shows "manager_inv m" and "p < rm_next m \<Longrightarrow> prov_inv (rm_heap m p)"
    and "rm_providers m cl = Some p \<Longrightarrow> provider_for K cl (rm_heap m p)"
    and "rm_providers m cl = Some p \<Longrightarrow> p < rm_next m"
  using assms by (auto simp: heap_typed_def manager_inv_def)

lemma heap_typed_new: "heap_typed K NewManager"
  by (simp add: heap_typed_def NewManager_inv) (simp add: NewManager_def)

lemma heap_typed_lookup:
  assumes "heap_typed K m" and "GetProvider K M cfg cl m = Ret (r, m')"
  shows "heap_typed K m'"
proof (cases r)
  case (Inl e)
  then have "m' = m" using assms(2)
    by (auto simp: GetProvider_def NewProvider_def awareEventBroadcasterProducer_def Let_def
        split: option.splits sum.splits)
  then show ?thesis using assms(1) by simp
next
  case (Inr p)
  then have goc: "provider_goc K M cfg cl m = (Some p, m')" using assms(2) by (simp add: provider_goc_eq)
  have inv: "manager_inv m'" using manager_inv_goc [OF heap_typedD(1) [OF assms(1)], of K M cfg cl] goc by simp
  from goc consider "m' = m" | "rm_providers m cl = None"
    "m' = \<lparr> rm_providers = (rm_providers m)(cl \<mapsto> rm_next m),
       rm_heap = (rm_heap m)(rm_next m := new_recorderProvider (aware_config K cfg cl)), rm_next = Suc (rm_next m) \<rparr>"
    by (auto simp: provider_goc_cases Let_def split: option.splits sum.splits if_splits)
  then show ?thesis
  proof cases
    case 1
    then show ?thesis using assms(1) by simp
  next
    case 2
    have "provider_for K d (rm_heap m' q)" if "rm_providers m' d = Some q" for d q
    proof (cases "d = cl")
      case True
      then show ?thesis using that 2 by (auto simp: provider_for_def new_recorderProvider_def)
    next
      case False
      then have old: "rm_providers m d = Some q" using that 2 by simp
      with heap_typedD(3,4) [OF assms(1) old] show ?thesis using 2 by simp
    qed
    moreover have "prov_inv (new_recorderProvider (aware_config K cfg cl))"
      by (simp add: prov_inv_def new_recorderProvider_def)
    ultimately show ?thesis using inv 2(2) heap_typedD(2) [OF assms(1)]
      by (auto simp: heap_typed_def less_Suc_eq)
  qed
qed

lemma rec_event_keeps:
  assumes "env_fine E" and "prov_inv p" and "x \<noteq> RStop" and "rec_step E x (ls, p) = Ret (ls', q)"
  shows "prov_inv q \<and> rp_stopped q = rp_stopped p \<and> rp_config q = rp_config p"
  using assms getBroadcaster_inv [OF assms(1,2)]
  by (cases x) (auto simp: recorder_Eventf_def ensureRecording_def split: if_splits prod.splits)

lemma heap_typed_event:
  assumes "heap_typed K m" and "env_fine (E p)" and "p < rm_next m" and "x \<noteq> RStop"
    and "rec_step (E p) x (ls, rm_heap m p) = Ret (ls', q)"
  shows "heap_typed K (m\<lparr> rm_heap := (rm_heap m)(p := q) \<rparr>)"
proof -
  note kept = rec_event_keeps [OF assms(2) heap_typedD(2) [OF assms(1,3)] assms(4,5)]
  have "manager_inv (m\<lparr> rm_heap := (rm_heap m)(p := q) \<rparr>)"
    using heap_typedD(1) [OF assms(1)] by (simp add: manager_inv_def)
  then show ?thesis using kept assms(1) by (auto simp: heap_typed_def provider_for_def)
qed

text \<open>Stopping some of the providers of a typed heap never panics.\<close>

lemma stop_providers_typed:
  assumes "\<forall>p. env_fine (E p)" and "\<forall>cl p. ps cl = Some p \<longrightarrow> p < n" and "\<forall>p < n. prov_inv (heap p)"
  shows "\<exists>heap'. stop_providers E ps cls heap = Ret heap' \<and> (\<forall>p < n. prov_inv (heap' p))"
  using assms(3)
proof (induction cls arbitrary: heap)
  case Nil
  then show ?case by simp
next
  case (Cons c cls)
  show ?case
  proof (cases "ps c")
    case None
    then show ?thesis using Cons by simp
  next
    case (Some q)
    then have "prov_inv (heap q)" using assms(2) Cons.prems by blast
    then obtain q' where q': "Stop_body (E q) (heap q) = Ret q'" "prov_inv q'"
      using Stop_body_fine assms(1) by metis
    then have "\<forall>p < n. prov_inv ((heap(q := q')) p)" using Cons.prems by simp
    from Cons.IH [OF this] obtain heap' where
      "stop_providers E ps cls (heap(q := q')) = Ret heap'" "\<forall>p < n. prov_inv (heap' p)" by blast
    with q' Some show ?thesis by (simp del: fun_upd_apply)
  qed
qed

lemma Manager_Stop_typed:
  assumes "heap_typed K m" and "\<forall>p. env_fine (E p)"
  shows "\<exists>m'. Manager_Stop E cls m = Ret m' \<and> heap_typed K m' \<and> rm_providers m' = Map.empty"
proof -
  have "\<forall>cl p. rm_providers m cl = Some p \<longrightarrow> p < rm_next m" "\<forall>p < rm_next m. prov_inv (rm_heap m p)"
    using heap_typedD [OF assms(1)] by blast+
  from stop_providers_typed [OF assms(2) this] obtain heap' where
    "stop_providers E (rm_providers m) cls (rm_heap m) = Ret heap'" "\<forall>p < rm_next m. prov_inv (heap' p)"
    by blast
  then show ?thesis by (simp add: Manager_Stop_def heap_typed_def manager_inv_def)
qed

lemma StopProvider_typed:
  assumes "heap_typed K m" and "\<forall>p. env_fine (E p)"
  shows "\<exists>m'. StopProvider E cl m = Ret m' \<and> heap_typed K m'"
proof (cases "rm_providers m cl")
  case None
  then show ?thesis using assms(1) by (simp add: StopProvider_def)
next
  case (Some p)
  have "prov_inv (rm_heap m p)" using heap_typedD(2,4) [OF assms(1)] Some by blast
  then obtain q where q: "Stop_body (E p) (rm_heap m p) = Ret q" "prov_inv q"
    using Stop_body_fine assms(2) by metis
  let ?m = "m\<lparr> rm_heap := (rm_heap m)(p := q), rm_providers := (rm_providers m)(cl := None) \<rparr>"
  have inv: "manager_inv m" by (rule heap_typedD(1) [OF assms(1)])
  then have "manager_inv ?m" by (auto simp: manager_inv_def inj_on_def split: if_splits)
  moreover have "provider_for K d (rm_heap ?m r)" if "rm_providers ?m d = Some r" for d r
  proof -
    have "d \<noteq> cl" "rm_providers m d = Some r" using that by (auto split: if_splits)
    moreover from this Some inv have "r \<noteq> p" unfolding manager_inv_def inj_on_def by (metis domI)
    ultimately show ?thesis using heap_typedD(3) [OF assms(1)] by simp
  qed
  ultimately have "heap_typed K ?m" using heap_typedD(2) [OF assms(1)] q(2) by (simp add: heap_typed_def)
  then show ?thesis using q(1) Some by (simp add: StopProvider_def)
qed

lemma heap_typed_step:
  assumes "mgr_step K M E m m'" and "\<forall>p. env_fine (E p)" and "heap_typed K m"
  shows "heap_typed K m'"
  using assms(1)
proof (cases rule: mgr_step.cases)
  case (lookup cfg cl r)
  show ?thesis by (rule heap_typed_lookup [OF assms(3) lookup])
next
  case (event p x ls ls' q)
  show ?thesis unfolding event(1)
    by (rule heap_typed_event [where E = E and p = p and x = x, OF assms(3) assms(2) [THEN spec] event(2-4)])
next
  case (stop_one cl)
  then show ?thesis using StopProvider_typed [OF assms(3,2), of cl] by simp
next
  case (stop_all cls)
  then show ?thesis using Manager_Stop_typed [OF assms(3,2), of cls] by simp
qed

lemma mgr_reach_typed: "mgr_reach K M E m \<Longrightarrow> \<forall>p. env_fine (E p) \<Longrightarrow> heap_typed K m"
  by (induction rule: mgr_reach.induct) (auto intro: heap_typed_new heap_typed_step)



end
