(* ===== verification/Provider.thy ===== *)
theory Provider
  imports AggregateInv Endpoint RecorderManager "HOL-Library.Product_Lexorder"
begin

text \<open>
  \<^verbatim>\<open>pkg/provider/provider.go\<close>, second part: the provider. It reconciles the watched
  endpoints against the URLs of the endpoint slice, keeps the aggregate cache in step, and
  drives this from a rate-limited queue. \<open>'e\<close> are watched endpoints; starting and
  cancelling one (\<open>watchEndpointFunc\<close> is a field that tests replace) acts on the state \<open>'w\<close>
  of everything outside the provider.
\<close>

record ('e, 'c, 'i, 'h, 'r, 'w) provider_env =
  pe_ExtractURLs :: "kobject \<Rightarrow> string list result"
  pe_watchEndpointFunc :: "rest_config \<Rightarrow> 'w \<Rightarrow> 'e result \<times> 'w"
  pe_wildcardCache :: "'e \<Rightarrow> 'c"
  pe_cancel :: "'e \<Rightarrow> 'w \<Rightarrow> 'w"
  pe_shards :: "('c, 'i, 'h, 'r, 'w) shard_api"

text \<open>The orders in which the maps are ranged over.\<close>

record ('e, 'h, 'r) range_orders =
  or_watched :: "(string \<rightharpoonup> 'e) \<Rightarrow> string list"
  or_informers :: "(gvk \<rightharpoonup> ('h, 'r) aggregateInformer) \<Rightarrow> gvk list"

record ('e, 'c, 'h, 'r) provider =
  pv_config :: rest_config
  pv_watchedEndpoints :: "string \<rightharpoonup> 'e"
  pv_aggregateCache :: "('c, 'h, 'r) aggregateCache"

subsection \<open>Construction\<close>

text \<open>
  \<open>NewProvider\<close>: the options get their defaults, and the cache for the one endpoint slice
  object is built; \<open>new_cache\<close> takes the configuration, the scheme, the object type and the
  field selector on its name.
\<close>

definition New_Provider ::
  "'nc default_values \<Rightarrow> (rest_config \<Rightarrow> nat \<Rightarrow> kobject \<Rightarrow> (string \<times> string) list \<Rightarrow> nat result)
     \<Rightarrow> rest_config \<Rightarrow> string \<Rightarrow> ('nc, 's) options
     \<Rightarrow> (('nc, 's) resolved_options \<times> nat \<times> recorderManager \<times> ('e, 'c, 'h, 'r) provider) result" where
  "New_Provider D new_cache cfg endpointSliceName opts0 =
     (let opts = options_defaults D opts0
      in case new_cache cfg (ro_Scheme opts) (ro_EndpointSliceObject opts) [(''metadata.name'', endpointSliceName)] of
           Inl err \<Rightarrow> Inl (Errorf ''error building cache for %T %q: %w''
             [ob_type (ro_EndpointSliceObject opts), endpointSliceName] [err])
         | Inr c \<Rightarrow> Inr (opts, c, NewManager,
             \<lparr> pv_config = cfg, pv_watchedEndpoints = Map.empty, pv_aggregateCache = NewAggregateCache \<rparr>))"

subsection \<open>Reconciling the endpoints\<close>

fun watch_loop ::
  "('e, 'c, 'i, 'h, 'r, 'w) provider_env \<Rightarrow> ('e, 'h, 'r) range_orders \<Rightarrow> string list \<Rightarrow> error list
     \<Rightarrow> ('e, 'c, 'h, 'r) provider \<Rightarrow> 'w \<Rightarrow> error list \<times> ('e, 'c, 'h, 'r) provider \<times> 'w" where
  "watch_loop E Or [] errs p w = (errs, p, w)"
| "watch_loop E Or (url # urls) errs p w =
     (if pv_watchedEndpoints p url \<noteq> None then watch_loop E Or urls errs p w
      else case pe_watchEndpointFunc E ((pv_config p)\<lparr> cfg_host := url \<rparr>) w of
        (Inl err, w') \<Rightarrow>
          watch_loop E Or urls (errs @ [Errorf ''failed to watch endpoint %q: %w'' [url] [err]]) p w'
      | (Inr we, w') \<Rightarrow>
          let p' = p\<lparr> pv_watchedEndpoints := (pv_watchedEndpoints p)(url \<mapsto> we) \<rparr>
          in case AddCache (pe_shards E) (or_informers Or (ac_informers (pv_aggregateCache p'))) url
                     (pe_wildcardCache E we) (pv_aggregateCache p') w' of
               (agg, w'') \<Rightarrow> watch_loop E Or urls errs (p'\<lparr> pv_aggregateCache := agg \<rparr>) w'')"

definition drop_endpoint ::
  "('e, 'c, 'i, 'h, 'r, 'w) provider_env \<Rightarrow> string \<Rightarrow> ('e, 'c, 'h, 'r) provider \<Rightarrow> 'w
     \<Rightarrow> ('e, 'c, 'h, 'r) provider \<times> 'w" where
  "drop_endpoint E url p w =
     (case pv_watchedEndpoints p url of
        None \<Rightarrow> (p, w)
      | Some we \<Rightarrow> (p\<lparr> pv_aggregateCache := RemoveCache url (pv_aggregateCache p),
                      pv_watchedEndpoints := (pv_watchedEndpoints p)(url := None) \<rparr>, pe_cancel E we w))"

fun stop_loop ::
  "('e, 'c, 'i, 'h, 'r, 'w) provider_env \<Rightarrow> string list \<Rightarrow> string list \<Rightarrow> ('e, 'c, 'h, 'r) provider \<Rightarrow> 'w
     \<Rightarrow> ('e, 'c, 'h, 'r) provider \<times> 'w" where
  "stop_loop E urls [] p w = (p, w)"
| "stop_loop E urls (watchedURL # rest) p w =
     (if watchedURL \<in> set urls then stop_loop E urls rest p w
      else case drop_endpoint E watchedURL p w of (p', w') \<Rightarrow> stop_loop E urls rest p' w')"

definition endpointSliceUpdate ::
  "('e, 'c, 'i, 'h, 'r, 'w) provider_env \<Rightarrow> ('e, 'h, 'r) range_orders \<Rightarrow> kobject
     \<Rightarrow> ('e, 'c, 'h, 'r) provider \<Rightarrow> 'w \<Rightarrow> error option \<times> ('e, 'c, 'h, 'r) provider \<times> 'w" where
  "endpointSliceUpdate E Or ob p w =
     (case pe_ExtractURLs E ob of
        Inl err \<Rightarrow> (Some (Errorf ''error getting virtual workspace URLs from endpointslice object %q: %w''
                      [ob_name ob] [err]), p, w)
      | Inr urls \<Rightarrow>
          (case watch_loop E Or urls [] p w of
             (errs, p', w') \<Rightarrow>
               (case stop_loop E urls (or_watched Or (pv_watchedEndpoints p')) p' w' of
                  (p'', w'') \<Rightarrow> (errors_Join errs, p'', w''))))"

fun stop_each ::
  "('e, 'c, 'i, 'h, 'r, 'w) provider_env \<Rightarrow> string list \<Rightarrow> ('e, 'c, 'h, 'r) provider \<Rightarrow> 'w
     \<Rightarrow> ('e, 'c, 'h, 'r) provider \<times> 'w" where
  "stop_each E [] p w = (p, w)"
| "stop_each E (url # urls) p w =
     (case pv_watchedEndpoints p url of
        None \<Rightarrow> stop_each E urls p w
      | Some we \<Rightarrow> stop_each E urls (p\<lparr> pv_aggregateCache := RemoveCache url (pv_aggregateCache p) \<rparr>)
                     (pe_cancel E we w))"

definition stopAllWatchedEndpoints ::
  "('e, 'c, 'i, 'h, 'r, 'w) provider_env \<Rightarrow> ('e, 'h, 'r) range_orders \<Rightarrow> ('e, 'c, 'h, 'r) provider \<Rightarrow> 'w
     \<Rightarrow> ('e, 'c, 'h, 'r) provider \<times> 'w" where
  "stopAllWatchedEndpoints E Or p w =
     (case stop_each E (or_watched Or (pv_watchedEndpoints p)) p w of
        (p', w') \<Rightarrow> (p'\<lparr> pv_watchedEndpoints := Map.empty \<rparr>, w'))"

subsection \<open>The queue\<close>

datatype queue_call = Forget string | AddRateLimited string | Done string

text \<open>
  \<open>Get\<close> returned a key or that the queue is shut down. The deferred \<open>Done\<close> runs last on
  every path. \<open>split\<close> is client-go's \<open>SplitMetaNamespaceKey\<close>, \<open>get\<close> the cache's \<open>Get\<close> of
  the slice object, \<open>not_found\<close> is \<open>apierrors.IsNotFound\<close>.
\<close>

record 'w queue_env =
  qe_split :: "string \<Rightarrow> (string \<times> string) result"
  qe_get :: "string \<Rightarrow> string \<Rightarrow> 'w \<Rightarrow> kobject result"
  qe_not_found :: "error \<Rightarrow> bool"

definition processNextEndpointSlice ::
  "('e, 'c, 'i, 'h, 'r, 'w) provider_env \<Rightarrow> ('e, 'h, 'r) range_orders \<Rightarrow> 'w queue_env \<Rightarrow> string option
     \<Rightarrow> ('e, 'c, 'h, 'r) provider \<Rightarrow> 'w
     \<Rightarrow> bool \<times> queue_call list \<times> ('e, 'c, 'h, 'r) provider \<times> 'w" where
  "processNextEndpointSlice E Or Q got p w =
     (case got of
        None \<Rightarrow> (False, [], p, w)
      | Some key \<Rightarrow>
          (case qe_split Q key of
             Inl err \<Rightarrow> (True, [Forget key, Done key], p, w)
           | Inr (namespace, name) \<Rightarrow>
               (case qe_get Q namespace name w of
                  Inl err \<Rightarrow>
                    if qe_not_found Q err
                    then (case stopAllWatchedEndpoints E Or p w of
                            (p', w') \<Rightarrow> (True, [Forget key, Done key], p', w'))
                    else (True, [AddRateLimited key, Done key], p, w)
                | Inr ob \<Rightarrow>
                    (case endpointSliceUpdate E Or ob p w of
                       (Some err, p', w') \<Rightarrow> (True, [AddRateLimited key, Done key], p', w')
                     | (None, p', w') \<Rightarrow> (True, [Forget key, Done key], p', w')))))"

text \<open>
  The callbacks on the slice object. Each logs the object and enqueues its key; the key
  function of client-go also accepts tombstones, the assertion before it does not.
\<close>

definition enqueue :: "(any_value \<Rightarrow> string result) \<Rightarrow> any_value \<Rightarrow> string list \<Rightarrow> string list" where
  "enqueue KeyFunc ob queue = (case KeyFunc ob of Inl err \<Rightarrow> queue | Inr key \<Rightarrow> queue @ [key])"

definition slice_handler :: "(any_value \<Rightarrow> string result) \<Rightarrow> string list resource_handler" where
  "slice_handler KeyFunc =
     \<lparr> rh_OnAdd = (\<lambda>ob _ queue. bind_outcome (assert_object ob) (\<lambda>t.
          bind_outcome (logObject (Some t)) (\<lambda>_. Ret (enqueue KeyFunc ob queue)))),
       rh_OnUpdate = (\<lambda>oldObj newObj queue. bind_outcome (assert_object newObj) (\<lambda>t.
          bind_outcome (logObject (Some t)) (\<lambda>_. Ret (enqueue KeyFunc newObj queue)))),
       rh_OnDelete = (\<lambda>ob queue. bind_outcome (assert_object ob) (\<lambda>t.
          bind_outcome (logObject (Some t)) (\<lambda>_. Ret (enqueue KeyFunc ob queue)))) \<rparr>"

subsection \<open>Start\<close>

text \<open>
  What \<open>Start\<close> does, in order, with its deferred calls. \<open>StopRecorders d\<close> is
  \<open>recorderManager.Stop\<close> with a context that is already done iff \<open>d\<close>: its context is
  derived from the provider's own, so it is done once the caller's context is.
\<close>

datatype start_effect =
    GetSliceInformer | AddSliceHandler | StartQueueWorker | StartCache
  | RemoveSliceHandler | ShutDownQueue | StopRecorders bool | CancelContext

definition provider_Start ::
  "error option \<Rightarrow> error option \<Rightarrow> error option \<Rightarrow> bool \<Rightarrow> error option \<times> start_effect list" where
  "provider_Start informer_err handler_err cache_result ctx_done =
     (case informer_err of
        Some err \<Rightarrow> (Some err, [GetSliceInformer, StopRecorders ctx_done, CancelContext])
      | None \<Rightarrow>
          (case handler_err of
             Some err \<Rightarrow> (Some err, [GetSliceInformer, AddSliceHandler, ShutDownQueue, StopRecorders ctx_done, CancelContext])
           | None \<Rightarrow> (cache_result,
               [GetSliceInformer, AddSliceHandler, StartQueueWorker, StartCache,
                RemoveSliceHandler, ShutDownQueue, StopRecorders ctx_done, CancelContext])))"

subsection \<open>One reconciliation\<close>

definition orders_ok :: "('e, 'h, 'r) range_orders \<Rightarrow> bool" where
  "orders_ok Or \<longleftrightarrow> (\<forall>m. finite (dom m) \<longrightarrow> range_of m (or_watched Or m)) \<and>
     (\<forall>m. finite (dom m) \<longrightarrow> range_of m (or_informers Or m))"

text \<open>
  Kinds are ordered by group, version and kind, so that both maps can be visited in key
  order: the deterministic orders the witnesses use.
\<close>

instantiation gvk_ext :: (linorder) linorder
begin

definition gvk_tuple :: "'a gvk_scheme \<Rightarrow> string \<times> string \<times> string \<times> 'a" where
  "gvk_tuple g = (gvk_group g, gvk_version g, gvk_kind g, gvk.more g)"

definition less_eq_gvk_ext :: "'a gvk_scheme \<Rightarrow> 'a gvk_scheme \<Rightarrow> bool" where
  "less_eq_gvk_ext x y \<longleftrightarrow> gvk_tuple x \<le> gvk_tuple y"

definition less_gvk_ext :: "'a gvk_scheme \<Rightarrow> 'a gvk_scheme \<Rightarrow> bool" where
  "less_gvk_ext x y \<longleftrightarrow> gvk_tuple x < gvk_tuple y"

instance
proof
  fix x y z :: "'a gvk_scheme"
  have inj: "gvk_tuple x = gvk_tuple y \<Longrightarrow> x = y" by (simp add: gvk_tuple_def)
  show "x < y \<longleftrightarrow> x \<le> y \<and> \<not> y \<le> x" by (simp add: less_eq_gvk_ext_def less_gvk_ext_def less_le_not_le)
  show "x \<le> x" by (simp add: less_eq_gvk_ext_def)
  show "x \<le> y \<Longrightarrow> y \<le> z \<Longrightarrow> x \<le> z" unfolding less_eq_gvk_ext_def by (rule order_trans)
  show "x \<le> y \<Longrightarrow> y \<le> x \<Longrightarrow> x = y" unfolding less_eq_gvk_ext_def by (rule inj) (rule order_antisym)
  show "x \<le> y \<or> y \<le> x" unfolding less_eq_gvk_ext_def by (rule linear)
qed

end

definition sorted_orders :: "('e, 'h, 'r) range_orders" where
  "sorted_orders = \<lparr> or_watched = (\<lambda>m. sorted_list_of_set (dom m)),
     or_informers = (\<lambda>m. sorted_list_of_set (dom m)) \<rparr>"

lemma sorted_orders_ok: "orders_ok sorted_orders"
  by (simp add: orders_ok_def sorted_orders_def range_of_def)

text \<open>
  Whether an endpoint can be started depends on its URL only, during one reconciliation.
\<close>

definition starts_ok :: "('e, 'c, 'i, 'h, 'r, 'w) provider_env \<Rightarrow> (string \<Rightarrow> bool) \<Rightarrow> bool" where
  "starts_ok E ok \<longleftrightarrow> (\<forall>cfg w. is_err (fst (pe_watchEndpointFunc E cfg w)) \<longleftrightarrow> \<not> ok (cfg_host cfg))"

lemma starts_okD:
  "starts_ok E ok \<Longrightarrow> pe_watchEndpointFunc E cfg w = (r, w') \<Longrightarrow> is_err r \<longleftrightarrow> \<not> ok (cfg_host cfg)"
  unfolding starts_ok_def by (metis fst_conv)

lemma watch_loop_result:
  assumes "starts_ok E ok"
  shows "watch_loop E Or urls errs p w = (errs', p', w') \<Longrightarrow>
    pv_watchedEndpoints p \<subseteq>\<^sub>m pv_watchedEndpoints p' \<and>
    dom (pv_watchedEndpoints p') = dom (pv_watchedEndpoints p) \<union> {u \<in> set urls. ok u} \<and>
    (errs' = [] \<longleftrightarrow> errs = [] \<and> set urls \<subseteq> dom (pv_watchedEndpoints p) \<union> {u. ok u})"
proof (induction urls arbitrary: errs p w)
  case Nil
  then show ?case by auto
next
  case (Cons u urls)
  show ?case
  proof (cases "pv_watchedEndpoints p u")
    case (Some e)
    then have "watch_loop E Or urls errs p w = (errs', p', w')" using Cons.prems by simp
    from Cons.IH [OF this] Some show ?thesis by auto
  next
    case None
    obtain r w1 where wa: "pe_watchEndpointFunc E ((pv_config p)\<lparr> cfg_host := u \<rparr>) w = (r, w1)"
      by (cases "pe_watchEndpointFunc E ((pv_config p)\<lparr> cfg_host := u \<rparr>) w")
    have r: "is_err r \<longleftrightarrow> \<not> ok u" using starts_okD [OF assms wa] by simp
    show ?thesis
    proof (cases r)
      case (Inl err)
      have "watch_loop E Or urls (errs @ [Errorf ''failed to watch endpoint %q: %w'' [u] [err]]) p w1 = (errs', p', w')"
        using Cons.prems None wa Inl by simp
      from Cons.IH [OF this] None r Inl show ?thesis by auto
    next
      case (Inr e)
      define m where "m = (pv_watchedEndpoints p)(u \<mapsto> e)"
      let ?p = "p\<lparr> pv_watchedEndpoints := m \<rparr>"
      obtain agg w2 where agg: "AddCache (pe_shards E) (or_informers Or (ac_informers (pv_aggregateCache ?p))) u
          (pe_wildcardCache E e) (pv_aggregateCache ?p) w1 = (agg, w2)"
        by (cases "AddCache (pe_shards E) (or_informers Or (ac_informers (pv_aggregateCache ?p))) u
          (pe_wildcardCache E e) (pv_aggregateCache ?p) w1")
      have "watch_loop E Or urls errs (?p\<lparr> pv_aggregateCache := agg \<rparr>) w2 = (errs', p', w')"
        using Cons.prems None wa Inr agg by (simp add: m_def)
      note IH = Cons.IH [OF this]
      have m: "dom m = insert u (dom (pv_watchedEndpoints p))" "pv_watchedEndpoints p \<subseteq>\<^sub>m m"
        using None by (auto simp: m_def map_le_def)
      have "m \<subseteq>\<^sub>m pv_watchedEndpoints p'" using IH by simp
      then have "pv_watchedEndpoints p \<subseteq>\<^sub>m pv_watchedEndpoints p'"
        by (rule map_le_trans [OF m(2)])
      moreover have "dom (pv_watchedEndpoints p') = insert u (dom (pv_watchedEndpoints p)) \<union> {u \<in> set urls. ok u}"
        using IH by (simp add: m(1))
      moreover have "errs' = [] \<longleftrightarrow> errs = [] \<and> set urls \<subseteq> insert u (dom (pv_watchedEndpoints p)) \<union> {u. ok u}"
        using IH by (simp add: m(1))
      ultimately show ?thesis using r Inr by auto
    qed
  qed
qed

lemma drop_endpoint_watched:
  "drop_endpoint E url p w = (p', w') \<Longrightarrow> pv_watchedEndpoints p' = (pv_watchedEndpoints p)(url := None)"
  by (auto simp: drop_endpoint_def fun_eq_iff split: option.splits)

lemma stop_loop_watched:
  "stop_loop E urls ks p w = (p', w') \<Longrightarrow>
     pv_watchedEndpoints p' = (\<lambda>u. if u \<in> set ks \<and> u \<notin> set urls then None else pv_watchedEndpoints p u)"
proof (induction ks arbitrary: p w)
  case Nil
  then show ?case by simp
next
  case (Cons k ks)
  show ?case
  proof (cases "k \<in> set urls")
    case True
    then show ?thesis using Cons by (auto simp: fun_eq_iff)
  next
    case False
    obtain p1 w1 where d: "drop_endpoint E k p w = (p1, w1)" by (cases "drop_endpoint E k p w")
    have "stop_loop E urls ks p1 w1 = (p', w')" using Cons.prems False d by simp
    from Cons.IH [OF this] drop_endpoint_watched [OF d] False show ?thesis by (auto simp: fun_eq_iff)
  qed
qed

lemma update_result:
  assumes "orders_ok Or" and "starts_ok E ok" and "finite (dom (pv_watchedEndpoints p))"
    and "pe_ExtractURLs E ob = Inr urls" and "endpointSliceUpdate E Or ob p w = (err, p', w')"
  shows "dom (pv_watchedEndpoints p') = {u \<in> set urls. u \<in> dom (pv_watchedEndpoints p) \<or> ok u}"
    and "u \<in> set urls \<Longrightarrow> pv_watchedEndpoints p u = Some e \<Longrightarrow> pv_watchedEndpoints p' u = Some e"
    and "err = None \<longleftrightarrow> set urls \<subseteq> dom (pv_watchedEndpoints p) \<union> {u. ok u}"
proof -
  obtain errs p1 w1 where l1: "watch_loop E Or urls [] p w = (errs, p1, w1)"
    by (cases "watch_loop E Or urls [] p w") auto
  obtain p2 w2 where l2: "stop_loop E urls (or_watched Or (pv_watchedEndpoints p1)) p1 w1 = (p2, w2)"
    by (cases "stop_loop E urls (or_watched Or (pv_watchedEndpoints p1)) p1 w1")
  have eq: "err = errors_Join errs" "p' = p2" using assms(4,5) l1 l2 by (simp_all add: endpointSliceUpdate_def)
  note r1 = watch_loop_result [OF assms(2) l1]
  have dom1: "dom (pv_watchedEndpoints p1) = dom (pv_watchedEndpoints p) \<union> {u \<in> set urls. ok u}" using r1 by blast
  have "finite (dom (pv_watchedEndpoints p1))" unfolding dom1 using assms(3) by simp
  then have "set (or_watched Or (pv_watchedEndpoints p1)) = dom (pv_watchedEndpoints p1)"
    using assms(1) by (simp add: orders_ok_def range_of_def)
  then have watched: "pv_watchedEndpoints p' u = (if u \<in> set urls then pv_watchedEndpoints p1 u else None)" for u
    using stop_loop_watched [OF l2] eq(2) by auto
  then have "dom (pv_watchedEndpoints p') = dom (pv_watchedEndpoints p1) \<inter> set urls"
    by (auto split: if_splits)
  then show "dom (pv_watchedEndpoints p') = {u \<in> set urls. u \<in> dom (pv_watchedEndpoints p) \<or> ok u}"
    unfolding dom1 by auto
  show "pv_watchedEndpoints p' u = Some e" if "u \<in> set urls" and "pv_watchedEndpoints p u = Some e"
  proof -
    have "pv_watchedEndpoints p1 u = Some e"
      using r1 that(2) by (metis domI map_le_def)
    then show ?thesis using watched that(1) by simp
  qed
  show "err = None \<longleftrightarrow> set urls \<subseteq> dom (pv_watchedEndpoints p) \<union> {u. ok u}"
    using r1 eq(1) by (simp add: errors_Join_def)
qed

lemma update_exact:
  assumes "orders_ok Or" and "starts_ok E ok" and "finite (dom (pv_watchedEndpoints p))"
    and "pe_ExtractURLs E ob = Inr urls" and "endpointSliceUpdate E Or ob p w = (err, p', w')"
  shows "dom (pv_watchedEndpoints p') = {u \<in> set urls. u \<in> dom (pv_watchedEndpoints p) \<or> ok u}"
    and "err = None \<longleftrightarrow> set urls = dom (pv_watchedEndpoints p')"
  using update_result [OF assms] by auto

text \<open>
  Property C5. One reconciliation of the endpoints with the URLs of the slice: afterwards
  exactly the listed URLs are watched that were watched before or could be started now; an
  endpoint that was already watched and is still listed is the same one, never restarted;
  and the error is nil exactly when every listed URL is watched, so that a failure is
  retried while the endpoints that did start are kept.
\<close>

theorem reconcile_exact:
  assumes "orders_ok Or" and "starts_ok E ok" and "finite (dom (pv_watchedEndpoints p))"
    and "pe_ExtractURLs E ob = Inr urls" and "endpointSliceUpdate E Or ob p w = (err, p', w')"
  shows "dom (pv_watchedEndpoints p') = {u \<in> set urls. u \<in> dom (pv_watchedEndpoints p) \<or> ok u} \<and>
    (\<forall>u \<in> set urls. \<forall>e. pv_watchedEndpoints p u = Some e \<longrightarrow> pv_watchedEndpoints p' u = Some e) \<and>
    (err = None \<longleftrightarrow> set urls = dom (pv_watchedEndpoints p'))"
  using update_result [OF assms] by auto

end
