(* ===== verification/ProviderInv.thy ===== *)
theory ProviderInv
  imports Provider
begin

text \<open>
  What holds of the provider over all histories: the watched endpoints, the caches of the
  aggregate and the contexts still running agree; the queue retries exactly the failures;
  endpoints accumulate over retries; and what shutting down does.
\<close>

subsection \<open>Endpoints that are running\<close>

text \<open>
  \<open>live w\<close> are the endpoints started and not cancelled. Starting one makes a new one, a
  failed start leaves none (\<open>Endpoint.new_endpoint_owns_its_context\<close>), cancelling ends it,
  and the shards' informers do not start or cancel endpoints.
\<close>

definition shards_keep :: "('c, 'i, 'h, 'r, 'w) shard_api \<Rightarrow> ('w \<Rightarrow> 'x) \<Rightarrow> bool" where
  "shards_keep S view \<longleftrightarrow>
     (\<forall>c ob w. view (snd (sh_informer S c ob w)) = view w) \<and>
     (\<forall>i h q w. view (snd (sh_add S i h q w)) = view w) \<and>
     (\<forall>i r w. view (snd (sh_remove S i r w)) = view w)"

lemma shards_keepD:
  assumes "shards_keep S view"
  shows "sh_informer S c ob w = (x, w') \<Longrightarrow> view w' = view w"
    and "sh_add S i h q w = (y, w') \<Longrightarrow> view w' = view w"
    and "view (snd (sh_remove S i r w)) = view w"
  using assms unfolding shards_keep_def by (metis snd_conv)+

definition live_ok ::
  "('e, 'c, 'i, 'h, 'r, 'w) provider_env \<Rightarrow> ('w \<Rightarrow> 'e set) \<Rightarrow> bool" where
  "live_ok E live \<longleftrightarrow>
     (\<forall>cfg w. case fst (pe_watchEndpointFunc E cfg w) of
        Inl _ \<Rightarrow> live (snd (pe_watchEndpointFunc E cfg w)) = live w
      | Inr e \<Rightarrow> live (snd (pe_watchEndpointFunc E cfg w)) = insert e (live w) \<and> e \<notin> live w) \<and>
     (\<forall>e w. live (pe_cancel E e w) = live w - {e}) \<and> shards_keep (pe_shards E) live"

lemma live_okD:
  assumes "live_ok E live"
  shows "pe_watchEndpointFunc E cfg w = (Inl err, w') \<Longrightarrow> live w' = live w"
    and "pe_watchEndpointFunc E cfg w = (Inr e, w') \<Longrightarrow> live w' = insert e (live w) \<and> e \<notin> live w"
    and "live (pe_cancel E e w) = live w - {e}"
    and "shards_keep (pe_shards E) live"
proof -
  have wlaw: "case fst (pe_watchEndpointFunc E cfg w) of
        Inl _ \<Rightarrow> live (snd (pe_watchEndpointFunc E cfg w)) = live w
      | Inr e \<Rightarrow> live (snd (pe_watchEndpointFunc E cfg w)) = insert e (live w) \<and> e \<notin> live w"
    using assms by (simp add: live_ok_def)
  then show "pe_watchEndpointFunc E cfg w = (Inl err, w') \<Longrightarrow> live w' = live w"
    and "pe_watchEndpointFunc E cfg w = (Inr e, w') \<Longrightarrow> live w' = insert e (live w) \<and> e \<notin> live w"
    by simp_all
  show "live (pe_cancel E e w) = live w - {e}" using assms by (simp add: live_ok_def)
  show "shards_keep (pe_shards E) live" using assms by (simp add: live_ok_def)
qed

lemma onCacheAdded_loop_keeps:
  assumes "shards_keep S view"
  shows "onCacheAdded_loop S k i es w = (es', w') \<Longrightarrow> view w' = view w"
proof (induction es arbitrary: w es' w')
  case (Cons e es)
  obtain r w1 where add: "sh_add S i (he_handler e) (he_resyncPeriod e) w = (r, w1)"
    by (cases "sh_add S i (he_handler e) (he_resyncPeriod e) w")
  obtain es1 w2 where rest: "onCacheAdded_loop S k i es w1 = (es1, w2)"
    by (cases "onCacheAdded_loop S k i es w1")
  have "w' = w2" using Cons.prems add rest by (cases r) simp_all
  then show ?case using Cons.IH [OF rest] shards_keepD(2) [OF assms add] by simp
qed simp

lemma onCacheAdded_keeps:
  assumes "shards_keep S view" and "onCacheAdded S k c a w = (a', w')"
  shows "view w' = view w"
proof -
  obtain r w1 where i: "sh_informer S c (ai_obj a) w = (r, w1)"
    by (cases "sh_informer S c (ai_obj a) w")
  show ?thesis
  proof (cases r)
    case (Inl err)
    then show ?thesis using assms(2) i shards_keepD(1) [OF assms(1) i] by (simp add: onCacheAdded_def)
  next
    case (Inr j)
    obtain es w2 where l: "onCacheAdded_loop S k j (ai_handlers a) w1 = (es, w2)"
      by (cases "onCacheAdded_loop S k j (ai_handlers a) w1")
    have "w' = w2" using assms(2) i Inr l by (simp add: onCacheAdded_def)
    then show ?thesis using onCacheAdded_loop_keeps [OF assms(1) l] shards_keepD(1) [OF assms(1) i] by simp
  qed
qed

lemma AddCache_notify_keeps:
  assumes "shards_keep S view"
  shows "AddCache_notify S k c gs st w = (st', w') \<Longrightarrow> view w' = view w"
proof (induction gs arbitrary: st w)
  case (Cons g gs)
  show ?case
  proof (cases "ac_informers st g")
    case None
    then have "AddCache_notify S k c gs st w = (st', w')" using Cons.prems by simp
    then show ?thesis by (rule Cons.IH)
  next
    case (Some a)
    obtain a1 w1 where a1: "onCacheAdded S k c a w = (a1, w1)"
      by (cases "onCacheAdded S k c a w")
    have "AddCache_notify S k c gs (st\<lparr> ac_informers := (ac_informers st)(g \<mapsto> a1) \<rparr>) w1 = (st', w')"
      using Cons.prems Some a1 by simp
    then show ?thesis using Cons.IH onCacheAdded_keeps [OF assms a1] by simp
  qed
qed simp

lemma AddCache_result:
  assumes "shards_keep S view" and "AddCache S gs k c st w = (st', w')"
  shows "view w' = view w" and "ac_caches st' = (ac_caches st)(k \<mapsto> c)"
  using AddCache_notify_keeps [OF assms(1) assms(2) [unfolded AddCache_def]]
    AddCache_notify_caches [OF assms(2) [unfolded AddCache_def]]
  by (simp_all add: AddCache_store_def)

lemma cleanup_keeps:
  assumes "shards_keep S view"
  shows "view (cleanupRegistrations S ob caches regs ids w) = view w"
proof (induction ids arbitrary: w)
  case (Cons k ids)
  show ?case
  proof (cases "regs k = None \<or> caches k = None")
    case True
    then show ?thesis using Cons.IH by (auto split: option.split)
  next
    case False
    then obtain reg c where rc: "regs k = Some reg" "caches k = Some c" by auto
    obtain r w1 where i: "sh_informer S c ob w = (r, w1)" by (cases "sh_informer S c ob w")
    have "view w1 = view w" by (rule shards_keepD(1) [OF assms i])
    then show ?thesis using Cons.IH rc i shards_keepD(3) [OF assms] by (cases r) simp_all
  qed
qed simp

lemma add_handler_loop_keeps:
  assumes "shards_keep S view"
  shows "add_handler_loop S cord ob caches h q ids regs w = (r, w') \<Longrightarrow> view w' = view w"
proof (induction ids arbitrary: regs w)
  case (Cons k ids)
  show ?case
  proof (cases "caches k")
    case None
    then have "add_handler_loop S cord ob caches h q ids regs w = (r, w')" using Cons.prems by simp
    then show ?thesis by (rule Cons.IH)
  next
    case (Some c)
    obtain x w1 where i: "sh_informer S c ob w = (x, w1)" by (cases "sh_informer S c ob w")
    have l1: "view w1 = view w" by (rule shards_keepD(1) [OF assms i])
    show ?thesis
    proof (cases x)
      case (Inl err)
      then show ?thesis using Cons.prems Some i l1 cleanup_keeps [OF assms] by auto
    next
      case (Inr j)
      obtain y w2 where a: "sh_add S j h q w1 = (y, w2)" by (cases "sh_add S j h q w1")
      have l2: "view w2 = view w" using shards_keepD(2) [OF assms a] l1 by simp
      show ?thesis
      proof (cases y)
        case (Inl err)
        then show ?thesis using Cons.prems Some i Inr a l2 cleanup_keeps [OF assms] by auto
      next
        case (Inr reg)
        then have "add_handler_loop S cord ob caches h q ids (regs(k \<mapsto> reg)) w2 = (r, w')"
          using Cons.prems Some i \<open>x = Inr j\<close> a by simp
        then show ?thesis using Cons.IH l2 by simp
      qed
    qed
  qed
qed simp

lemma AddEventHandler_keeps:
  assumes "shards_keep S view"
    and "AddEventHandlerWithResyncPeriod S cord ids g h q st w = (r, st', w')"
  shows "view w' = view w" and "ac_caches st' = ac_caches st"
proof -
  have "view w' = view w \<and> ac_caches st' = ac_caches st"
  proof (cases "ac_informers st g")
    case None
    then show ?thesis using assms(2) by (simp add: AddEventHandlerWithResyncPeriod_def)
  next
    case (Some a)
    obtain l w1 where loop: "add_handler_loop S cord (ai_obj a) (ac_caches st) h q ids Map.empty w = (l, w1)"
      by (cases "add_handler_loop S cord (ai_obj a) (ac_caches st) h q ids Map.empty w")
    show ?thesis
      using assms(2) Some loop add_handler_loop_keeps [OF assms(1) loop]
      by (cases l) (auto simp: AddEventHandlerWithResyncPeriod_def)
  qed
  then show "view w' = view w" and "ac_caches st' = ac_caches st" by blast+
qed

subsection \<open>The invariant\<close>

definition provider_inv ::
  "('e, 'c, 'i, 'h, 'r, 'w) provider_env \<Rightarrow> ('w \<Rightarrow> 'e set) \<Rightarrow> ('e, 'c, 'h, 'r) provider \<Rightarrow> 'w \<Rightarrow> bool" where
  "provider_inv E live p w \<longleftrightarrow>
     finite (dom (pv_watchedEndpoints p)) \<and> [] \<notin> dom (pv_watchedEndpoints p) \<and>
     ac_caches (pv_aggregateCache p) = (\<lambda>u. map_option (pe_wildcardCache E) (pv_watchedEndpoints p u)) \<and>
     live w = ran (pv_watchedEndpoints p) \<and>
     inj_on (pv_watchedEndpoints p) (dom (pv_watchedEndpoints p))"

lemma inj_on_map_upd:
  assumes "inj_on m (dom m)" and "m u = None" and "e \<notin> ran m"
  shows "inj_on (m(u \<mapsto> e)) (dom (m(u \<mapsto> e)))"
proof (rule inj_onI)
  fix x y
  assume xy: "x \<in> dom (m(u \<mapsto> e))" "y \<in> dom (m(u \<mapsto> e))" "(m(u \<mapsto> e)) x = (m(u \<mapsto> e)) y"
  have ne: "m z \<noteq> Some e" for z using assms(3) by (metis ranI)
  show "x = y"
  proof (cases "x = u \<or> y = u")
    case True
    then show ?thesis using xy(3) ne by (cases "x = u"; cases "y = u") (auto split: if_splits dest: sym)
  next
    case False
    then have "x \<in> dom m" "y \<in> dom m" "m x = m y" using xy by auto
    from inj_onD [OF assms(1) this(3,1,2)] show ?thesis .
  qed
qed

lemma watch_loop_inv:
  assumes "live_ok E live" and "[] \<notin> set urls"
  shows "watch_loop E Or urls errs p w = (errs', p', w') \<Longrightarrow> provider_inv E live p w \<Longrightarrow> provider_inv E live p' w'"
  using assms(2)
proof (induction urls arbitrary: errs p w)
  case Nil
  then show ?case by simp
next
  case (Cons u urls)
  show ?case
  proof (cases "pv_watchedEndpoints p u")
    case (Some e)
    then have "watch_loop E Or urls errs p w = (errs', p', w')" using Cons.prems(1) by simp
    then show ?thesis using Cons.IH Cons.prems(2,3) by simp
  next
    case None
    obtain r w1 where wa: "pe_watchEndpointFunc E ((pv_config p)\<lparr> cfg_host := u \<rparr>) w = (r, w1)"
      by (cases "pe_watchEndpointFunc E ((pv_config p)\<lparr> cfg_host := u \<rparr>) w")
    show ?thesis
    proof (cases r)
      case (Inl err)
      have "provider_inv E live p w1"
        using Cons.prems(2) live_okD(1) [OF assms(1) wa [unfolded Inl]] by (simp add: provider_inv_def)
      moreover have "watch_loop E Or urls (errs @ [Errorf ''failed to watch endpoint %q: %w'' [u] [err]]) p w1 = (errs', p', w')"
        using Cons.prems(1) None wa Inl by simp
      ultimately show ?thesis using Cons.IH Cons.prems(3) by simp
    next
      case (Inr e)
      define m where "m = (pv_watchedEndpoints p)(u \<mapsto> e)"
      let ?p = "p\<lparr> pv_watchedEndpoints := m \<rparr>"
      obtain agg w2 where agg: "AddCache (pe_shards E) (or_informers Or (ac_informers (pv_aggregateCache ?p))) u
          (pe_wildcardCache E e) (pv_aggregateCache ?p) w1 = (agg, w2)"
        by (cases "AddCache (pe_shards E) (or_informers Or (ac_informers (pv_aggregateCache ?p))) u
          (pe_wildcardCache E e) (pv_aggregateCache ?p) w1")
      have live: "live w2 = insert e (live w)" and new: "e \<notin> ran (pv_watchedEndpoints p)"
        using AddCache_result(1) [OF live_okD(4) [OF assms(1)] agg] live_okD(2) [OF assms(1) wa [unfolded Inr]] Cons.prems(2)
        by (simp_all add: provider_inv_def)
      have ran: "ran m = insert e (ran (pv_watchedEndpoints p))" using None by (simp add: m_def)
      have "u \<noteq> []" using Cons.prems(3) by auto
      then have dom: "finite (dom m)" "[] \<notin> dom m"
        using Cons.prems(2) by (auto simp: m_def provider_inv_def)
      have inj: "inj_on m (dom m)"
        unfolding m_def using Cons.prems(2) None new by (intro inj_on_map_upd) (simp_all add: provider_inv_def)
      have "ac_caches agg = (\<lambda>v. map_option (pe_wildcardCache E) (m v))"
        using AddCache_result(2) [OF live_okD(4) [OF assms(1)] agg] Cons.prems(2) by (auto simp: provider_inv_def m_def fun_eq_iff)
      then have "provider_inv E live (?p\<lparr> pv_aggregateCache := agg \<rparr>) w2"
        using dom inj live ran Cons.prems(2) by (simp add: provider_inv_def)
      moreover have "watch_loop E Or urls errs (?p\<lparr> pv_aggregateCache := agg \<rparr>) w2 = (errs', p', w')"
        using Cons.prems(1) None wa Inr agg by (simp add: m_def)
      ultimately show ?thesis using Cons.IH Cons.prems(3) by simp
    qed
  qed
qed

lemma ran_del_inj:
  assumes "inj_on m (dom m)" and "m u = Some e"
  shows "ran (m(u := None)) = ran m - {e}"
proof (intro equalityI subsetI)
  fix x assume "x \<in> ran (m(u := None))"
  then obtain v where v: "v \<noteq> u" "m v = Some x" by (auto simp: ran_def split: if_splits)
  then have "x \<noteq> e" using assms by (metis domI inj_onD)
  then show "x \<in> ran m - {e}" using v(2) by (auto simp: ran_def)
next
  fix x assume "x \<in> ran m - {e}"
  then obtain v where "m v = Some x" "x \<noteq> e" by (auto simp: ran_def)
  then show "x \<in> ran (m(u := None))" using assms(2) by (auto simp: ran_def intro!: exI [of _ v])
qed

lemma RemoveCache_caches [simp]: "ac_caches (RemoveCache k st) = (ac_caches st)(k := None)"
  by (simp add: RemoveCache_def RemoveCache_store_def RemoveCache_notify_def)

lemma drop_endpoint_inv:
  assumes "live_ok E live" and "provider_inv E live p w" and "drop_endpoint E u p w = (p', w')"
  shows "provider_inv E live p' w'"
proof (cases "pv_watchedEndpoints p u")
  case None
  then show ?thesis using assms(2,3) by (simp add: drop_endpoint_def)
next
  case (Some e)
  define m where "m = (pv_watchedEndpoints p)(u := None)"
  have eq: "p' = p\<lparr> pv_aggregateCache := RemoveCache u (pv_aggregateCache p), pv_watchedEndpoints := m \<rparr>"
    "w' = pe_cancel E e w"
    using assms(3) Some by (simp_all add: drop_endpoint_def m_def)
  have inj0: "inj_on (pv_watchedEndpoints p) (dom (pv_watchedEndpoints p))" using assms(2) by (simp add: provider_inv_def)
  have "ran m = ran (pv_watchedEndpoints p) - {e}" unfolding m_def by (rule ran_del_inj [OF inj0 Some])
  moreover have "inj_on m (dom m)"
    using inj0 by (auto simp: m_def inj_on_def split: if_splits)
  moreover have "(ac_caches (pv_aggregateCache p))(u := None) = (\<lambda>v. map_option (pe_wildcardCache E) (m v))"
    using assms(2) by (auto simp: provider_inv_def m_def fun_eq_iff)
  moreover have "finite (dom m)" "[] \<notin> dom m" using assms(2) by (simp_all add: provider_inv_def m_def)
  ultimately show ?thesis
    using assms(2) live_okD(3) [OF assms(1)] by (simp add: eq provider_inv_def)
qed

lemma stop_loop_inv:
  assumes "live_ok E live"
  shows "stop_loop E urls ks p w = (p', w') \<Longrightarrow> provider_inv E live p w \<Longrightarrow> provider_inv E live p' w'"
proof (induction ks arbitrary: p w)
  case (Cons k ks)
  show ?case
  proof (cases "k \<in> set urls")
    case True
    then have "stop_loop E urls ks p w = (p', w')" using Cons.prems(1) by simp
    then show ?thesis using Cons.IH Cons.prems(2) by simp
  next
    case False
    obtain p1 w1 where d: "drop_endpoint E k p w = (p1, w1)" by (cases "drop_endpoint E k p w")
    have "stop_loop E urls ks p1 w1 = (p', w')" using Cons.prems(1) False d by simp
    then show ?thesis using Cons.IH drop_endpoint_inv [OF assms Cons.prems(2) d] by simp
  qed
qed simp

text \<open>Stopping everything: the endpoints in \<open>gone\<close> have been cancelled already.\<close>

definition stopping ::
  "('e, 'c, 'i, 'h, 'r, 'w) provider_env \<Rightarrow> ('w \<Rightarrow> 'e set) \<Rightarrow> string set \<Rightarrow> ('e, 'c, 'h, 'r) provider \<Rightarrow> 'w \<Rightarrow> bool" where
  "stopping E live gone p w \<longleftrightarrow>
     ac_caches (pv_aggregateCache p) =
       (\<lambda>u. if u \<in> gone then None else map_option (pe_wildcardCache E) (pv_watchedEndpoints p u)) \<and>
     live w = {e. \<exists>u. u \<notin> gone \<and> pv_watchedEndpoints p u = Some e}"

lemma stop_each_stopping:
  assumes "live_ok E live" and "inj_on m (dom m)"
  shows "stop_each E ks p w = (p', w') \<Longrightarrow> pv_watchedEndpoints p = m \<Longrightarrow> stopping E live gone p w \<Longrightarrow>
    pv_watchedEndpoints p' = m \<and> stopping E live (gone \<union> set ks) p' w'"
proof (induction ks arbitrary: gone p w)
  case Nil
  then show ?case by simp
next
  case (Cons k ks)
  show ?case
  proof (cases "m k")
    case None
    then have "stop_each E ks p w = (p', w')" using Cons.prems(1,2) by simp
    moreover have "stopping E live (insert k gone) p w"
    proof -
      have "u \<notin> insert k gone \<longleftrightarrow> u \<notin> gone" if "m u = Some e" for u e
        using that None by (cases "u = k") auto
      then have "{e. \<exists>u. u \<notin> gone \<and> m u = Some e} = {e. \<exists>u. u \<notin> insert k gone \<and> m u = Some e}"
        by blast
      moreover have "(\<lambda>u. if u \<in> gone then None else map_option (pe_wildcardCache E) (m u)) =
          (\<lambda>u. if u \<in> insert k gone then None else map_option (pe_wildcardCache E) (m u))"
        using None by (auto simp: fun_eq_iff)
      ultimately show ?thesis using Cons.prems(2,3) by (simp only: stopping_def)
    qed
    ultimately show ?thesis using Cons.IH [of p w "insert k gone"] Cons.prems(2) by simp
  next
    case (Some e)
    let ?p = "p\<lparr> pv_aggregateCache := RemoveCache k (pv_aggregateCache p) \<rparr>"
    have run: "stop_each E ks ?p (pe_cancel E e w) = (p', w')" using Cons.prems(1,2) Some by simp
    have uniq: "u = k" if "m u = Some e" for u
      using assms(2) Some that by (metis domI inj_onD)
    have "{e'. \<exists>u. u \<notin> gone \<and> m u = Some e'} - {e} = {e'. \<exists>u. u \<notin> insert k gone \<and> m u = Some e'}"
    proof (intro set_eqI iffI)
      fix x assume "x \<in> {e'. \<exists>u. u \<notin> gone \<and> m u = Some e'} - {e}"
      then obtain u where u: "u \<notin> gone" "m u = Some x" "x \<noteq> e" by blast
      then have "u \<noteq> k" using Some by auto
      then show "x \<in> {e'. \<exists>u. u \<notin> insert k gone \<and> m u = Some e'}" using u by blast
    next
      fix x assume "x \<in> {e'. \<exists>u. u \<notin> insert k gone \<and> m u = Some e'}"
      then obtain u where u: "u \<notin> insert k gone" "m u = Some x" by blast
      then have "x \<noteq> e" using uniq by blast
      then show "x \<in> {e'. \<exists>u. u \<notin> gone \<and> m u = Some e'} - {e}" using u by blast
    qed
    then have "live (pe_cancel E e w) = {e'. \<exists>u. u \<notin> insert k gone \<and> m u = Some e'}"
      using Cons.prems(2,3) live_okD(3) [OF assms(1), of e w] by (simp only: stopping_def)
    moreover have "(ac_caches (pv_aggregateCache p))(k := None) =
        (\<lambda>u. if u \<in> insert k gone then None else map_option (pe_wildcardCache E) (m u))"
      using Cons.prems(2,3) by (auto simp: stopping_def fun_eq_iff)
    ultimately have "stopping E live (insert k gone) ?p (pe_cancel E e w)"
      using Cons.prems(2) by (simp add: stopping_def cong: if_cong)
    then have "pv_watchedEndpoints p' = m \<and> stopping E live (insert k gone \<union> set ks) p' w'"
      by (intro Cons.IH [OF run]) (simp_all add: Cons.prems(2))
    then show ?thesis by simp
  qed
qed

lemma stopAll_inv:
  assumes "live_ok E live" and "orders_ok Or" and "provider_inv E live p w"
    and "stopAllWatchedEndpoints E Or p w = (p', w')"
  shows "provider_inv E live p' w'" and "pv_watchedEndpoints p' = Map.empty"
proof -
  let ?m = "pv_watchedEndpoints p"
  obtain p1 w1 where each: "stop_each E (or_watched Or ?m) p w = (p1, w1)"
    by (cases "stop_each E (or_watched Or ?m) p w")
  have inj: "inj_on ?m (dom ?m)" and fin: "finite (dom ?m)" using assms(3) by (simp_all add: provider_inv_def)
  have "stopping E live {} p w" using assms(3) by (simp add: stopping_def provider_inv_def ran_def)
  from stop_each_stopping [OF assms(1) inj each refl this]
  have st: "pv_watchedEndpoints p1 = ?m" "stopping E live (set (or_watched Or ?m)) p1 w1" by simp_all
  have "set (or_watched Or ?m) = dom ?m" using assms(2) fin by (simp add: orders_ok_def range_of_def)
  then have "ac_caches (pv_aggregateCache p1) = Map.empty" and "live w1 = {}"
    using st by (auto simp: stopping_def fun_eq_iff domIff)
  moreover have "p' = p1\<lparr> pv_watchedEndpoints := Map.empty \<rparr>" "w' = w1"
    using assms(4) each by (simp_all add: stopAllWatchedEndpoints_def)
  ultimately show "provider_inv E live p' w'" and "pv_watchedEndpoints p' = Map.empty"
    by (simp_all add: provider_inv_def)
qed

lemma update_inv:
  assumes "live_ok E live" and "url_extractor (pe_ExtractURLs E)" and "provider_inv E live p w"
    and "endpointSliceUpdate E Or ob p w = (err, p', w')"
  shows "provider_inv E live p' w'"
proof (cases "pe_ExtractURLs E ob")
  case (Inl e)
  then show ?thesis using assms(3,4) by (simp add: endpointSliceUpdate_def)
next
  case (Inr urls)
  have ne: "[] \<notin> set urls" by (rule url_extractor.no_empty_url [OF assms(2) Inr])
  obtain errs p1 w1 where l1: "watch_loop E Or urls [] p w = (errs, p1, w1)"
    by (cases "watch_loop E Or urls [] p w") auto
  obtain p2 w2 where l2: "stop_loop E urls (or_watched Or (pv_watchedEndpoints p1)) p1 w1 = (p2, w2)"
    by (cases "stop_loop E urls (or_watched Or (pv_watchedEndpoints p1)) p1 w1")
  have "p' = p2" "w' = w2" using assms(4) Inr l1 l2 by (simp_all add: endpointSliceUpdate_def)
  then show ?thesis
    using stop_loop_inv [OF assms(1) l2 watch_loop_inv [OF assms(1) ne l1 assms(3)]] by simp
qed

lemma process_cases:
  assumes run: "processNextEndpointSlice E Or Q got p w = (b, calls, p', w')"
  obtains (same) "p' = p" "w' = w" | (all) "stopAllWatchedEndpoints E Or p w = (p', w')"
    | (update) ob err where "endpointSliceUpdate E Or ob p w = (err, p', w')"
proof (cases got)
  case None
  then show thesis using run same by (simp add: processNextEndpointSlice_def)
next
  case (Some key)
  show thesis
  proof (cases "qe_split Q key")
    case (Inl err)
    then show thesis using run Some same by (simp add: processNextEndpointSlice_def)
  next
    case (Inr nn)
    obtain ns name where nn: "nn = (ns, name)" by (cases nn)
    show thesis
    proof (cases "qe_get Q ns name w")
      case (Inl err)
      obtain p1 w1 where each: "stopAllWatchedEndpoints E Or p w = (p1, w1)"
        by (cases "stopAllWatchedEndpoints E Or p w")
      show thesis
        using run Some Inr nn Inl each same all by (simp add: processNextEndpointSlice_def split: if_splits)
    next
      case obj: (Inr ob)
      obtain e p1 w1 where up: "endpointSliceUpdate E Or ob p w = (e, p1, w1)"
        by (cases "endpointSliceUpdate E Or ob p w")
      have "p' = p1" "w' = w1"
        using run Some Inr nn obj up by (simp_all add: processNextEndpointSlice_def split: option.splits)
      then show thesis using update up by simp
    qed
  qed
qed

lemma process_inv:
  assumes "live_ok E live" and "url_extractor (pe_ExtractURLs E)" and "orders_ok Or"
    and inv: "provider_inv E live p w" and run: "processNextEndpointSlice E Or Q got p w = (b, calls, p', w')"
  shows "provider_inv E live p' w'"
  using run
proof (cases rule: process_cases)
  case same
  then show ?thesis using inv by simp
next
  case all
  then show ?thesis using stopAll_inv(1) [OF assms(1,3) inv] by simp
next
  case update
  then show ?thesis using update_inv [OF assms(1,2) inv] by simp
qed

subsection \<open>Histories\<close>

text \<open>
  One step: the worker handles one queue item, a user of the provider gets an aggregate
  informer or adds a handler to one, or something outside happens that leaves the endpoints
  running.
\<close>

inductive provider_step ::
  "('e, 'c, 'i, 'h, 'r, 'w) provider_env \<Rightarrow> ('w \<Rightarrow> 'e set) \<Rightarrow> ('e, 'c, 'h, 'r) provider \<times> 'w
     \<Rightarrow> ('e, 'c, 'h, 'r) provider \<times> 'w \<Rightarrow> bool" for E live where
  worker: "orders_ok Or \<Longrightarrow> processNextEndpointSlice E Or Q got p w = (b, calls, p', w') \<Longrightarrow>
     provider_step E live (p, w) (p', w')"
| get_informer: "GetAggregateInformer G ob (pv_aggregateCache p) = (res, agg) \<Longrightarrow>
     provider_step E live (p, w) (p\<lparr> pv_aggregateCache := agg \<rparr>, w)"
| add_handler: "AddEventHandlerWithResyncPeriod (pe_shards E) cord ids g h q (pv_aggregateCache p) w = (res, agg, w') \<Longrightarrow>
     provider_step E live (p, w) (p\<lparr> pv_aggregateCache := agg \<rparr>, w')"
| outside: "live w' = live w \<Longrightarrow> provider_step E live (p, w) (p, w')"

inductive provider_reach ::
  "('e, 'c, 'i, 'h, 'r, 'w) provider_env \<Rightarrow> ('w \<Rightarrow> 'e set) \<Rightarrow> ('e, 'c, 'h, 'r) provider \<times> 'w \<Rightarrow> bool"
  for E live where
  start: "live w = {} \<Longrightarrow> provider_reach E live
     (\<lparr> pv_config = cfg, pv_watchedEndpoints = Map.empty, pv_aggregateCache = NewAggregateCache \<rparr>, w)"
| more: "provider_reach E live s \<Longrightarrow> provider_step E live s t \<Longrightarrow> provider_reach E live t"

inductive_cases provider_stepE [elim!]: "provider_step E live (p, w) (p', w')"

lemma step_inv:
  assumes "live_ok E live" and "url_extractor (pe_ExtractURLs E)"
    and "provider_inv E live p w" and "provider_step E live (p, w) (p', w')"
  shows "provider_inv E live p' w'"
  using assms(4)
proof cases
  case (worker Or Q got b calls)
  then show ?thesis using process_inv [OF assms(1,2) _ assms(3)] by blast
next
  case (get_informer G ob res agg)
  have "ac_caches agg = ac_caches (pv_aggregateCache p)"
    using get_informer(3) by (auto simp: GetAggregateInformer_def informer_for_def split: sum.splits if_splits)
  then show ?thesis using assms(3) get_informer(1,2) by (simp add: provider_inv_def)
next
  case (add_handler cord ids g h q res agg)
  then show ?thesis using assms(3) AddEventHandler_keeps [OF live_okD(4) [OF assms(1)] add_handler(2)]
    by (simp add: provider_inv_def)
next
  case outside
  then show ?thesis using assms(3) by (simp add: provider_inv_def)
qed

text \<open>
  Property C4. Over every history of queue items, retries, deletions of the slice and uses
  of the aggregate cache: the caches of the aggregate are exactly the wildcard caches of the
  watched endpoints, under their URLs; the endpoints running are exactly the watched ones,
  each under one URL, so none is leaked and none was cancelled while listed; and no endpoint
  is watched under an empty URL.
\<close>

theorem endpoints_and_aggregate_in_step:
  assumes "live_ok E live" and "url_extractor (pe_ExtractURLs E)" and "provider_reach E live (p, w)"
  shows "ac_caches (pv_aggregateCache p) = (\<lambda>u. map_option (pe_wildcardCache E) (pv_watchedEndpoints p u)) \<and>
    live w = ran (pv_watchedEndpoints p) \<and>
    inj_on (pv_watchedEndpoints p) (dom (pv_watchedEndpoints p)) \<and> [] \<notin> dom (pv_watchedEndpoints p)"
proof -
  have "provider_inv E live (fst s) (snd s)" if "provider_reach E live s" for s
    using that
  proof induction
    case (start w cfg)
    then show ?case by (simp add: provider_inv_def NewAggregateCache_def)
  next
    case (more s t)
    then show ?case using step_inv [OF assms(1,2)] by (cases s; cases t) simp
  qed
  from this [OF assms(3)] show ?thesis by (simp add: provider_inv_def)
qed

subsection \<open>The queue\<close>

text \<open>
  A key has been dealt with for good when it is malformed, when the slice is gone, or when
  every listed URL is watched.
\<close>

definition settled ::
  "('e, 'c, 'i, 'h, 'r, 'w) provider_env \<Rightarrow> 'w queue_env \<Rightarrow> string \<Rightarrow> 'w \<Rightarrow> ('e, 'c, 'h, 'r) provider \<Rightarrow> bool" where
  "settled E Q key w p' \<longleftrightarrow>
     (case qe_split Q key of
        Inl _ \<Rightarrow> True
      | Inr (namespace, name) \<Rightarrow>
          (case qe_get Q namespace name w of
             Inl err \<Rightarrow> qe_not_found Q err
           | Inr ob \<Rightarrow> (case pe_ExtractURLs E ob of
               Inl _ \<Rightarrow> False
             | Inr urls \<Rightarrow> set urls = dom (pv_watchedEndpoints p'))))"

text \<open>
  Property C17. The worker takes a key off the queue, deals with it and always marks it done
  last; it schedules the key again exactly when it is not settled: the slice could not be
  read, its URLs could not be extracted, or some listed URL is still not watched. Otherwise
  it clears the key's backoff.
\<close>

theorem worker_retries_exactly_failures:
  assumes "orders_ok Or" and "starts_ok E ok" and "finite (dom (pv_watchedEndpoints p))"
    and "processNextEndpointSlice E Or Q (Some key) p w = (b, calls, p', w')"
  shows "b \<and> calls = [if settled E Q key w p' then Forget key else AddRateLimited key, Done key]"
proof (cases "qe_split Q key")
  case (Inl err)
  then show ?thesis using assms(4) by (simp add: processNextEndpointSlice_def settled_def)
next
  case (Inr nn)
  obtain ns name where nn: "nn = (ns, name)" by (cases nn)
  show ?thesis
  proof (cases "qe_get Q ns name w")
    case (Inl err)
    then show ?thesis
      using assms(4) Inr nn
      by (auto simp: processNextEndpointSlice_def settled_def split: prod.splits if_splits)
  next
    case obj: (Inr ob)
    obtain e p1 w1 where up: "endpointSliceUpdate E Or ob p w = (e, p1, w1)"
      by (cases "endpointSliceUpdate E Or ob p w")
    have res: "b" "calls = [if e = None then Forget key else AddRateLimited key, Done key]" "p' = p1"
      using assms(4) Inr nn obj up by (auto simp: processNextEndpointSlice_def split: option.splits)
    have "e = None \<longleftrightarrow> settled E Q key w p1"
    proof (cases "pe_ExtractURLs E ob")
      case (Inl err)
      then show ?thesis using up Inr nn obj by (auto simp: endpointSliceUpdate_def settled_def)
    next
      case urls: (Inr urls)
      then show ?thesis
        using update_exact(2) [OF assms(1-3) urls up] Inr nn obj by (simp add: settled_def)
    qed
    then show ?thesis using res by simp
  qed
qed

subsection \<open>Retrying\<close>

text \<open>
  Attempt \<open>n\<close> meets the environment \<open>Es ! n\<close>: the same slice, but other endpoints may be
  reachable.
\<close>

fun attempts ::
  "('e, 'c, 'i, 'h, 'r, 'w) provider_env list \<Rightarrow> ('e, 'h, 'r) range_orders \<Rightarrow> kobject
     \<Rightarrow> ('e, 'c, 'h, 'r) provider \<Rightarrow> 'w \<Rightarrow> error option list \<times> ('e, 'c, 'h, 'r) provider \<times> 'w" where
  "attempts [] Or ob p w = ([], p, w)"
| "attempts (E # Es) Or ob p w =
     (case endpointSliceUpdate E Or ob p w of
        (err, p', w') \<Rightarrow> (case attempts Es Or ob p' w' of (errs, p'', w'') \<Rightarrow> (err # errs, p'', w'')))"

text \<open>
  Property C36. Retries make progress: an endpoint that could be started in any attempt is
  watched ever after, so after a number of attempts exactly the listed URLs that were watched
  before or could be started in one of them are watched, and once all of them have been
  startable at some time the last attempt reports success.
\<close>

theorem retries_accumulate:
  assumes "orders_ok Or" and "finite (dom (pv_watchedEndpoints p))"
    and "\<forall>x \<in> set Eoks. starts_ok (fst x) (snd x) \<and> pe_ExtractURLs (fst x) ob = Inr urls" and "Eoks \<noteq> []"
    and "attempts (map fst Eoks) Or ob p w = (errs, p', w')"
  shows "dom (pv_watchedEndpoints p') = {u \<in> set urls. u \<in> dom (pv_watchedEndpoints p) \<or> (\<exists>x \<in> set Eoks. snd x u)} \<and>
    (last errs = None \<longleftrightarrow> set urls = dom (pv_watchedEndpoints p'))"
  using assms(2-)
proof (induction Eoks arbitrary: p w errs)
  case Nil
  then show ?case by simp
next
  case (Cons x Eoks)
  obtain err p1 w1 where up: "endpointSliceUpdate (fst x) Or ob p w = (err, p1, w1)"
    by (cases "endpointSliceUpdate (fst x) Or ob p w")
  have "starts_ok (fst x) (snd x)" and urls: "pe_ExtractURLs (fst x) ob = Inr urls" using Cons.prems(2) by simp_all
  note one = update_exact [OF assms(1) this(1) Cons.prems(1) urls up]
  have dom1: "dom (pv_watchedEndpoints p1) = {u \<in> set urls. u \<in> dom (pv_watchedEndpoints p) \<or> snd x u}"
    by (rule one(1))
  have fin: "finite (dom (pv_watchedEndpoints p1))" unfolding dom1 by simp
  show ?case
  proof (cases "Eoks = []")
    case True
    then have "errs = [err]" "p' = p1" using Cons.prems(4) up by simp_all
    then show ?thesis using one True by simp
  next
    case False
    obtain errs1 p2 w2 where rest: "attempts (map fst Eoks) Or ob p1 w1 = (errs1, p2, w2)"
      by (cases "attempts (map fst Eoks) Or ob p1 w1")
    have eq: "errs = err # errs1" "p' = p2" "w' = w2" using Cons.prems(4) up rest by simp_all
    have all: "\<forall>x \<in> set Eoks. starts_ok (fst x) (snd x) \<and> pe_ExtractURLs (fst x) ob = Inr urls"
      using Cons.prems(2) by simp
    have ne: "errs1 \<noteq> []" using False rest by (cases Eoks) (auto split: prod.splits)
    note IH = Cons.IH [OF fin all False rest [folded eq(2,3)]]
    have "dom (pv_watchedEndpoints p') = {u \<in> set urls. u \<in> dom (pv_watchedEndpoints p) \<or> (\<exists>y \<in> set (x # Eoks). snd y u)}"
      unfolding conjunct1 [OF IH] dom1 by auto
    moreover have "last errs = None \<longleftrightarrow> set urls = dom (pv_watchedEndpoints p')"
      using conjunct2 [OF IH] ne eq(1) by simp
    ultimately show ?thesis by (rule conjI)
  qed
qed

subsection \<open>The slice callbacks and shutting down\<close>

text \<open>
  The deletion of an endpoint slice that the watch missed arrives as a
  tombstone: although the key function accepts it, the callback asserts an object first and
  panics, so the endpoints are not stopped; for an object every callback enqueues its key.
\<close>

theorem slice_tombstone_panics:
  assumes "KeyFunc (Tombstone k v) = Inr key" and "KeyFunc (Obj ob) = Inr okey"
  shows "\<not> returned (deliver (slice_handler KeyFunc) (Deleted (Tombstone k v)) queue) \<and>
    deliver (slice_handler KeyFunc) (Deleted (Obj ob)) queue = Ret (queue @ [okey]) \<and>
    deliver (slice_handler KeyFunc) (Added (Obj ob) i) queue = Ret (queue @ [okey]) \<and>
    deliver (slice_handler KeyFunc) (Updated old (Obj ob)) queue = Ret (queue @ [okey])"
proof -
  obtain d where "logObject (Some ob) = Ret d" using logObject_Some by blast
  then show ?thesis using assms(2) by (simp add: slice_handler_def enqueue_def)
qed

definition shutdown_waits :: "start_effect list \<Rightarrow> bool" where
  "shutdown_waits fx \<longleftrightarrow> (\<exists>d. StopRecorders d \<in> set fx \<and> \<not> Stop_returned d False)"

text \<open>
  On every way out of \<open>Start\<close> the recorders are stopped, after the queue was
  shut down and the slice callback removed where those were set up, and before the context
  is cancelled. But the ten seconds granted to the recorders derive from the provider's own
  context: when the provider ends because its caller's context ended, that time is over
  before it starts, and the stop does not wait for pending events.
\<close>

theorem start_shutdown_order:
  "\<exists>pre. snd (provider_Start ierr herr res ctx_done) = pre @ [StopRecorders ctx_done, CancelContext] \<and>
     set pre \<inter> {StopRecorders True, StopRecorders False, CancelContext} = {} \<and>
     (AddSliceHandler \<in> set pre \<longrightarrow> last pre = ShutDownQueue) \<and>
     (StartCache \<in> set pre \<longrightarrow> RemoveSliceHandler \<in> set pre) \<and>
     (shutdown_waits (snd (provider_Start ierr herr res ctx_done)) \<longleftrightarrow> \<not> ctx_done)"
proof -
  have "shutdown_waits (snd (provider_Start ierr herr res ctx_done)) \<longleftrightarrow> \<not> ctx_done"
    by (auto simp: shutdown_waits_def provider_Start_def Stop_returned_def split: option.splits)
  moreover consider "ierr \<noteq> None" | "ierr = None" "herr \<noteq> None" | "ierr = None" "herr = None" by blast
  then have "\<exists>pre. snd (provider_Start ierr herr res ctx_done) = pre @ [StopRecorders ctx_done, CancelContext] \<and>
     set pre \<inter> {StopRecorders True, StopRecorders False, CancelContext} = {} \<and>
     (AddSliceHandler \<in> set pre \<longrightarrow> last pre = ShutDownQueue) \<and>
     (StartCache \<in> set pre \<longrightarrow> RemoveSliceHandler \<in> set pre)"
  proof cases
    case 1
    then show ?thesis by (intro exI [of _ "[GetSliceInformer]"]) (auto simp: provider_Start_def)
  next
    case 2
    then show ?thesis
      by (intro exI [of _ "[GetSliceInformer, AddSliceHandler, ShutDownQueue]"]) (auto simp: provider_Start_def)
  next
    case 3
    then show ?thesis
      by (intro exI [of _ "[GetSliceInformer, AddSliceHandler, StartQueueWorker, StartCache,
              RemoveSliceHandler, ShutDownQueue]"]) (simp add: provider_Start_def)
  qed
  ultimately show ?thesis by auto
qed

subsection \<open>Witnesses\<close>

text \<open>
  The outside world is the list of running endpoints; a new one exceeds them all. URLs in
  \<open>down\<close> cannot be watched.
\<close>

definition demo_provider_env :: "string list \<Rightarrow> (nat, nat, nat, string, nat, nat list) provider_env" where
  "demo_provider_env down = \<lparr> pe_ExtractURLs = (\<lambda>_. Inr [''https://a'', ''https://b'']),
     pe_watchEndpointFunc = (\<lambda>cfg w. if cfg_host cfg \<in> set down then (Inl (Foreign ''not ready''), w)
        else (Inr (Suc (sum_list w)), w @ [Suc (sum_list w)])),
     pe_wildcardCache = (\<lambda>e. e), pe_cancel = (\<lambda>e w. removeAll e w),
     pe_shards = \<lparr> sh_informer = (\<lambda>c _ w. (Inr c, w)), sh_add = (\<lambda>_ _ _ w. (Inr 0, w)),
        sh_remove = (\<lambda>_ _ w. (None, w)), sh_synced = (\<lambda>_ _. True), sh_reg_synced = (\<lambda>_ _. True) \<rparr> \<rparr>"

definition demo_provider :: "(string \<rightharpoonup> nat) \<Rightarrow> (nat, nat, string, nat) provider" where
  "demo_provider m = \<lparr> pv_config = demo_cfg ''https://kcp'', pv_watchedEndpoints = m, pv_aggregateCache = NewAggregateCache \<rparr>"

definition demo_slice :: kobject where
  "demo_slice = demo_obj ''root'' [] ''slice'' []"

lemma demo_starts_ok: "starts_ok (demo_provider_env down) (\<lambda>u. u \<notin> set down)"
  by (simp add: starts_ok_def demo_provider_env_def)

lemma demo_urls: "pe_ExtractURLs (demo_provider_env down) ob = Inr [''https://a'', ''https://b'']"
  by (simp add: demo_provider_env_def)

lemma demo_url_extractor: "url_extractor (pe_ExtractURLs (demo_provider_env down))"
  by unfold_locales (auto simp: demo_provider_env_def)

lemma demo_live_ok: "live_ok (demo_provider_env down) set"
proof -
  have fresh: "Suc (sum_list w) \<notin> set w" for w :: "nat list"
    using member_le_sum_list [of "Suc (sum_list w)" w] by auto
  show ?thesis by (auto simp: live_ok_def shards_keep_def demo_provider_env_def fresh)
qed

theorem reconcile_exact_witness:
  "\<exists>err p' w'. endpointSliceUpdate (demo_provider_env [''https://b'']) sorted_orders demo_slice
      (demo_provider [''https://old'' \<mapsto> 1]) [1] = (err, p', w') \<and>
    dom (pv_watchedEndpoints p') = {''https://a''} \<and> err \<noteq> None"
proof -
  obtain err p' w' where up: "endpointSliceUpdate (demo_provider_env [''https://b'']) sorted_orders demo_slice
      (demo_provider [''https://old'' \<mapsto> 1]) [1] = (err, p', w')"
    by (metis prod.collapse)
  have fin: "finite (dom (pv_watchedEndpoints (demo_provider [''https://old'' \<mapsto> 1])))"
    by (simp add: demo_provider_def)
  note r = reconcile_exact [OF sorted_orders_ok demo_starts_ok fin demo_urls up]
  have "dom (pv_watchedEndpoints p') = {''https://a''}"
    unfolding conjunct1 [OF r] by (auto simp: demo_provider_def)
  moreover from this have "err \<noteq> None" using r by auto
  ultimately show ?thesis using up by blast
qed

lemma demo_provider_reached:
  "\<exists>p w. provider_reach (demo_provider_env [''https://b'']) set (p, w) \<and> pv_watchedEndpoints p ''https://a'' \<noteq> None"
proof -
  let ?E = "demo_provider_env [''https://b'']" and ?Q = "\<lparr> qe_split = (\<lambda>k. Inr ([], k)),
      qe_get = (\<lambda>_ _ _. Inr demo_slice), qe_not_found = (\<lambda>_. False) \<rparr>"
  let ?p = "demo_provider Map.empty"
  obtain b calls p' w' where run: "processNextEndpointSlice ?E sorted_orders ?Q (Some ''slice'') ?p [] = (b, calls, p', w')"
    by (metis prod.collapse)
  obtain err p1 w1 where up: "endpointSliceUpdate ?E sorted_orders demo_slice ?p [] = (err, p1, w1)"
    by (metis prod.collapse)
  have "provider_reach ?E set (?p, [])"
    unfolding demo_provider_def by (rule provider_reach.start) simp
  moreover have "provider_step ?E set (?p, []) (p', w')"
    by (rule provider_step.worker [OF sorted_orders_ok run])
  ultimately have reach: "provider_reach ?E set (p', w')" by (rule provider_reach.more)
  have "p' = p1" using run up by (auto simp: processNextEndpointSlice_def split: option.splits)
  moreover have "finite (dom (pv_watchedEndpoints ?p))" by (simp add: demo_provider_def)
  note r = update_exact [OF sorted_orders_ok demo_starts_ok this demo_urls up]
  have "''https://a'' \<in> dom (pv_watchedEndpoints p1)" unfolding r(1) by simp
  ultimately show ?thesis using reach by blast
qed

theorem endpoints_and_aggregate_in_step_witness:
  "\<exists>p w e. provider_reach (demo_provider_env [''https://b'']) set (p, w) \<and>
     pv_watchedEndpoints p ''https://a'' = Some e \<and> ac_caches (pv_aggregateCache p) ''https://a'' = Some e \<and> e \<in> set w"
proof -
  obtain p w e where reach: "provider_reach (demo_provider_env [''https://b'']) set (p, w)"
    and e: "pv_watchedEndpoints p ''https://a'' = Some e"
    using demo_provider_reached by blast
  note r = endpoints_and_aggregate_in_step [OF demo_live_ok demo_url_extractor reach]
  have "ac_caches (pv_aggregateCache p) ''https://a'' = Some e"
    using r e by (simp add: demo_provider_env_def)
  moreover have "e \<in> set w" using r e by (metis ranI)
  ultimately show ?thesis using reach e by blast
qed

theorem worker_retries_exactly_failures_witness:
  "fst (snd (processNextEndpointSlice (demo_provider_env [''https://b'']) sorted_orders
      \<lparr> qe_split = (\<lambda>k. Inr ([], k)), qe_get = (\<lambda>_ _ _. Inl (Foreign ''timeout'')), qe_not_found = (\<lambda>_. False) \<rparr>
      (Some ''slice'') (demo_provider Map.empty) [])) = [AddRateLimited ''slice'', Done ''slice'']"
proof -
  let ?Q = "\<lparr> qe_split = (\<lambda>k. Inr ([], k)), qe_get = (\<lambda>_ _ _. Inl (Foreign ''timeout'')), qe_not_found = (\<lambda>_. False) \<rparr>"
  obtain b calls p' w' where run: "processNextEndpointSlice (demo_provider_env [''https://b'']) sorted_orders ?Q
      (Some ''slice'') (demo_provider Map.empty) [] = (b, calls, p', w')"
    by (metis prod.collapse)
  have "finite (dom (pv_watchedEndpoints (demo_provider Map.empty)))" by (simp add: demo_provider_def)
  from worker_retries_exactly_failures [OF sorted_orders_ok demo_starts_ok this run]
  show ?thesis unfolding run by (simp add: settled_def)
qed

theorem retries_accumulate_witness:
  "\<exists>errs p' w'. attempts [demo_provider_env [''https://b''], demo_provider_env [''https://a'']] sorted_orders demo_slice
      (demo_provider Map.empty) [] = (errs, p', w') \<and>
    dom (pv_watchedEndpoints p') = {''https://a'', ''https://b''} \<and> last errs = None"
proof -
  let ?Eoks = "[(demo_provider_env [''https://b''], \<lambda>u. u \<notin> set [''https://b'']),
      (demo_provider_env [''https://a''], \<lambda>u. u \<notin> set [''https://a''])]"
  have fin: "finite (dom (pv_watchedEndpoints (demo_provider Map.empty)))" by (simp add: demo_provider_def)
  have ok: "\<forall>x \<in> set ?Eoks. starts_ok (fst x) (snd x) \<and>
      pe_ExtractURLs (fst x) demo_slice = Inr [''https://a'', ''https://b'']"
    using demo_starts_ok demo_urls by (simp add: demo_starts_ok [of "[''https://a'']", simplified]
        demo_starts_ok [of "[''https://b'']", simplified])
  obtain errs p' w' where run: "attempts (map fst ?Eoks) sorted_orders demo_slice (demo_provider Map.empty) [] = (errs, p', w')"
    by (metis prod.collapse)
  note r = retries_accumulate [OF sorted_orders_ok fin ok _ run]
  have "dom (pv_watchedEndpoints p') = {''https://a'', ''https://b''}"
    using r by auto
  moreover from this have "last errs = None" using r by auto
  ultimately show ?thesis using run by auto
qed

theorem slice_tombstone_panics_witness:
  "\<not> returned (deliver (slice_handler (\<lambda>_. Inr ''slice'')) (Deleted (Tombstone ''slice'' (Obj demo_slice))) [])"
  using slice_tombstone_panics [of "\<lambda>_. Inr ''slice''" "''slice''" "Obj demo_slice" "''slice''" demo_slice "''slice''" "[]"]
  by simp

end
