(* ===== verification/Fleet.thy ===== *)
theory Fleet
  imports ProviderInv
begin

text \<open>
  The provider of \<^verbatim>\<open>pkg/provider/provider.go\<close> with all its endpoints: the queue worker starts and
  stops endpoints, each started by \<open>newWatchedEndpoint\<close>, while their callbacks engage and
  disengage clusters in the one set the provider hands them out from. Shown: over every history
  \<open>Get\<close> gives for a cluster what was built on the endpoint that has its objects.
\<close>

subsection \<open>The provider's own endpoints\<close>

text \<open>
  \<open>fl_endpoint\<close> has the fields that \<open>NewProvider\<close> gives every endpoint: the options and the
  functions of the clusters and of the recorder manager. The other fields are the arguments of
  \<open>newWatchedEndpoint\<close>.
\<close>

record ('p, 'c, 'i, 'h, 'r, 's) fleet =
  fl_with_cancel :: "'s \<Rightarrow> nat \<times> 's"
  fl_cancel :: "nat \<Rightarrow> 's \<Rightarrow> 's"
  fl_wildcard :: wildcard_env
  fl_crt :: "nat \<Rightarrow> ('i, 's) crt"
  fl_add :: "'i \<Rightarrow> ('p, 'c, 'i, 's) watchedEndpoint \<Rightarrow> 's \<Rightarrow> error option \<times> 's"
  fl_go :: "nat \<Rightarrow> 's \<Rightarrow> 's"
  fl_endpoint :: "('p, 'c, 'i, 's) watchedEndpoint"
  fl_shards :: "(nat, 'i, 'h, 'r, 's) shard_api"

definition fleet_env ::
  "('p, 'c, 'i, 'h, 'r, 's) fleet \<Rightarrow> (('p, 'c, 'i, 's) watchedEndpoint, nat, 'i, 'h, 'r, 's) provider_env" where
  "fleet_env F = \<lparr> pe_ExtractURLs = ro_ExtractURLs (we_opts (fl_endpoint F)),
     pe_watchEndpointFunc = (\<lambda>cfg s. newWatchedEndpoint (fl_with_cancel F) (fl_cancel F) (fl_wildcard F) (fl_crt F)
        (fl_add F) (fl_go F) cfg (fl_endpoint F) s),
     pe_wildcardCache = we_cache, pe_cancel = (\<lambda>e s. fl_cancel F (we_ctx e) s), pe_shards = fl_shards F \<rparr>"

definition provider_Get :: "('p, 'c, 'i, 'h, 'r, 's) fleet \<Rightarrow> string \<Rightarrow> 's \<Rightarrow> 'c result" where
  "provider_Get F clusterName s = we_getCluster (fl_endpoint F) clusterName s"

definition provider_Lister :: "('e, 'c, 'h, 'r) provider \<Rightarrow> ('c, 'h, 'r) aggregateCache" where
  "provider_Lister p = pv_aggregateCache p"

definition provider_GetAggregateInformer ::
  "(kobject \<Rightarrow> gvk result) \<Rightarrow> kobject \<Rightarrow> ('e, 'c, 'h, 'r) provider \<Rightarrow> gvk result \<times> ('e, 'c, 'h, 'r) provider" where
  "provider_GetAggregateInformer GVKForObj ob p =
     (case GetAggregateInformer GVKForObj ob (provider_Lister p) of (res, agg) \<Rightarrow> (res, p\<lparr> pv_aggregateCache := agg \<rparr>))"

definition endpoint_for ::
  "('p, 'c, 'i, 'h, 'r, 's) fleet \<Rightarrow> nat \<Rightarrow> rest_config \<Rightarrow> nat \<Rightarrow> ('p, 'c, 'i, 's) watchedEndpoint" where
  "endpoint_for F ctx cfg ca = (fl_endpoint F)\<lparr> we_ctx := ctx, we_config := cfg, we_cache := ca, we_crt := fl_crt F ca \<rparr>"

lemma endpoint_for_sel [simp]:
  "we_ctx (endpoint_for F ctx cfg ca) = ctx" "we_config (endpoint_for F ctx cfg ca) = cfg"
  "we_cache (endpoint_for F ctx cfg ca) = ca" "we_crt (endpoint_for F ctx cfg ca) = fl_crt F ca"
  "we_opts (endpoint_for F ctx cfg ca) = we_opts (fl_endpoint F)"
  "we_getCluster (endpoint_for F ctx cfg ca) = provider_Get F"
  "we_addCluster (endpoint_for F ctx cfg ca) = we_addCluster (fl_endpoint F)"
  "we_removeCluster (endpoint_for F ctx cfg ca) = we_removeCluster (fl_endpoint F)"
  "we_getRecorderProvider (endpoint_for F ctx cfg ca) = we_getRecorderProvider (fl_endpoint F)"
  "we_stopRecorderProvider (endpoint_for F ctx cfg ca) = we_stopRecorderProvider (fl_endpoint F)"
  by (simp_all add: endpoint_for_def provider_Get_def fun_eq_iff)

lemma endpoint_for_engaged [simp]: "engaged (endpoint_for F ctx cfg ca) = engaged (fl_endpoint F)"
  by (auto simp: engaged_def provider_Get_def)

lemma endpoint_for_filters [simp]: "no_filters (endpoint_for F ctx cfg ca) = no_filters (fl_endpoint F)"
  by (simp add: no_filters_def)

subsection \<open>What the provider relies on\<close>

text \<open>
  Behind every URL is a store of objects, which the informer of that URL's cache updates.
  \<open>st_home\<close> is the URL that serves a logical cluster: kcp keeps a logical cluster on one shard.
\<close>

record 's stores =
  st_objs :: "string \<Rightarrow> 's \<Rightarrow> kobject set"
  st_put :: "string \<Rightarrow> kobject \<Rightarrow> 's \<Rightarrow> 's"
  st_del :: "string \<Rightarrow> kobject \<Rightarrow> 's \<Rightarrow> 's"
  st_cache :: "string \<Rightarrow> nat"
  st_home :: "lcname \<Rightarrow> string"

definition view :: "('p, 'c, 'i, 'h, 'r, 's) fleet \<Rightarrow> 's stores \<Rightarrow> 's \<Rightarrow> (string \<Rightarrow> 'c result) \<times> (string \<Rightarrow> kobject set)" where
  "view F T s = (\<lambda>n. provider_Get F n s, \<lambda>u. st_objs T u s)"

text \<open>
  The set of clusters: an added cluster is what a lookup returns, removing one leaves the others,
  and nothing else of the endpoint changes the lookups.
\<close>

definition clusters_ok :: "('p, 'c, 'i, 'h, 'r, 's) fleet \<Rightarrow> 's stores \<Rightarrow> bool" where
  "clusters_ok F T \<longleftrightarrow>
     (\<forall>n c s m. provider_Get F m (snd (we_addCluster (fl_endpoint F) n c s)) = (if m = n then Inr c else provider_Get F m s)) \<and>
     (\<forall>n s m. m \<noteq> n \<longrightarrow> provider_Get F m (we_removeCluster (fl_endpoint F) n s) = provider_Get F m s) \<and>
     (\<forall>cfg n s m. provider_Get F m (snd (we_getRecorderProvider (fl_endpoint F) cfg n s)) = provider_Get F m s) \<and>
     (\<forall>n s s' m. we_stopRecorderProvider (fl_endpoint F) n s = Ret s' \<longrightarrow> provider_Get F m s' = provider_Get F m s) \<and>
     (\<forall>m q. keeping_handlers (\<lambda>s. provider_Get F m s = q) (ro_Handlers (we_opts (fl_endpoint F)))) \<and>
     (\<forall>u ob s m. provider_Get F m (st_put T u ob s) = provider_Get F m s \<and> provider_Get F m (st_del T u ob s) = provider_Get F m s) \<and>
     (\<forall>ca ob s m. provider_Get F m (snd (GetSharedInformer (fl_crt F ca) ob s)) = provider_Get F m s)"

text \<open>
  Starting an endpoint: a context, an informer and the start of a cache change neither clusters
  nor stores; the store of a cache that was not started yet is empty when the callbacks are added.
  Cancelling a context does not wait for what runs under it.
\<close>

definition starting_ok :: "('p, 'c, 'i, 'h, 'r, 's) fleet \<Rightarrow> string set \<Rightarrow> 's stores \<Rightarrow> bool" where
  "starting_ok F U T \<longleftrightarrow>
     (\<forall>s. view F T (snd (fl_with_cancel F s)) = view F T s) \<and> (\<forall>ctx s. view F T (fl_cancel F ctx s) = view F T s) \<and>
     (\<forall>ctx s. view F T (fl_go F ctx s) = view F T s) \<and>
     (\<forall>ca ob s. view F T (snd (Cache_GetInformer (fl_crt F ca) ob s)) = view F T s) \<and>
     (\<forall>cfg opts wc. NewWildcardCache (fl_wildcard F) cfg opts = Inr wc \<longrightarrow> wc_Cache wc = st_cache T (cfg_host cfg)) \<and>
     (\<forall>u \<in> U. \<forall>i ctx cfg s. case fl_add F i (endpoint_for F ctx cfg (st_cache T u)) s of (r, s') \<Rightarrow>
        (\<forall>m. provider_Get F m s' = provider_Get F m s) \<and> (\<forall>v \<in> U - {u}. st_objs T v s' = st_objs T v s) \<and>
        (r = None \<longrightarrow> st_objs T u s' = {}))"

text \<open>Two URLs have different caches, and so different stores.\<close>

definition stores_apart :: "('p, 'c, 'i, 'h, 'r, 's) fleet \<Rightarrow> string set \<Rightarrow> 's stores \<Rightarrow> bool" where
  "stores_apart F U T \<longleftrightarrow> (\<forall>u \<in> U. \<forall>v \<in> U - {u}. \<forall>ob s. st_objs T v (st_put T u ob s) = st_objs T v s \<and>
     st_objs T v (st_del T u ob s) = st_objs T v s \<and>
     st_objs T v (snd (GetSharedInformer (fl_crt F (st_cache T u)) ob s)) = st_objs T v s)"

definition fleet_ok ::
  "kcpapi \<Rightarrow> accessor \<Rightarrow> ('p, 'c, 'i, 'h, 'r, 's) fleet \<Rightarrow> string set \<Rightarrow> 's stores \<Rightarrow> bool" where
  "fleet_ok K acc F U T \<longleftrightarrow>
     (\<forall>u \<in> U. \<forall>ctx cfg. endpoint_ok K acc (endpoint_for F ctx cfg (st_cache T u)) (st_objs T u) (st_put T u) (st_del T u)) \<and>
     clusters_ok F T \<and> starting_ok F U T \<and> stores_apart F U T \<and> shards_keep (fl_shards F) (view F T) \<and>
     (\<forall>ob urls. ro_ExtractURLs (we_opts (fl_endpoint F)) ob = Inr urls \<longrightarrow> set urls \<subseteq> U)"

lemma fleet_okD:
  assumes "fleet_ok K acc F U T"
  shows "u \<in> U \<Longrightarrow> endpoint_ok K acc (endpoint_for F ctx cfg (st_cache T u)) (st_objs T u) (st_put T u) (st_del T u)"
    and "clusters_ok F T" and "starting_ok F U T" and "stores_apart F U T" and "shards_keep (fl_shards F) (view F T)"
    and "pe_ExtractURLs (fleet_env F) ob = Inr urls \<Longrightarrow> set urls \<subseteq> U"
  using assms by (simp_all add: fleet_ok_def fleet_env_def)

lemma view_eq: "view F T s' = view F T s \<longleftrightarrow>
    (\<forall>m. provider_Get F m s' = provider_Get F m s) \<and> (\<forall>u. st_objs T u s' = st_objs T u s)"
  by (auto simp: view_def fun_eq_iff)

lemma starting_okD:
  assumes "starting_ok F U T"
  shows "fl_with_cancel F s = (ctx, s') \<Longrightarrow> view F T s' = view F T s" and "view F T (fl_cancel F ctx s) = view F T s"
    and "view F T (fl_go F ctx s) = view F T s"
    and "Cache_GetInformer (fl_crt F ca) ob s = (i, s') \<Longrightarrow> view F T s' = view F T s"
    and "NewWildcardCache (fl_wildcard F) cfg opts = Inr wc \<Longrightarrow> wc_Cache wc = st_cache T (cfg_host cfg)"
    and "u \<in> U \<Longrightarrow> fl_add F j (endpoint_for F ctx cfg (st_cache T u)) s = (r, s') \<Longrightarrow>
      (\<forall>m. provider_Get F m s' = provider_Get F m s) \<and> (\<forall>v \<in> U - {u}. st_objs T v s' = st_objs T v s) \<and>
      (r = None \<longrightarrow> st_objs T u s' = {})"
proof -
  show "fl_with_cancel F s = (ctx, s') \<Longrightarrow> view F T s' = view F T s"
    using assms unfolding starting_ok_def by (metis snd_conv)
  show "Cache_GetInformer (fl_crt F ca) ob s = (i, s') \<Longrightarrow> view F T s' = view F T s"
    using assms unfolding starting_ok_def by (metis snd_conv)
  show "(\<forall>m. provider_Get F m s' = provider_Get F m s) \<and> (\<forall>v \<in> U - {u}. st_objs T v s' = st_objs T v s) \<and>
      (r = None \<longrightarrow> st_objs T u s' = {})"
    if "u \<in> U" and a: "fl_add F j (endpoint_for F ctx cfg (st_cache T u)) s = (r, s')"
  proof -
    have "\<forall>u \<in> U. \<forall>i ctx cfg s. case fl_add F i (endpoint_for F ctx cfg (st_cache T u)) s of (r, s') \<Rightarrow>
        (\<forall>m. provider_Get F m s' = provider_Get F m s) \<and> (\<forall>v \<in> U - {u}. st_objs T v s' = st_objs T v s) \<and>
        (r = None \<longrightarrow> st_objs T u s' = {})"
      using assms unfolding starting_ok_def by (elim conjE)
    note bspec [OF this that(1), THEN spec [of _ j], THEN spec [of _ ctx], THEN spec [of _ cfg], THEN spec [of _ s]]
    then show ?thesis unfolding a prod.case .
  qed
qed (use assms in \<open>simp_all add: starting_ok_def\<close>)

subsection \<open>Starting and stopping endpoints\<close>

definition made :: "('p, 'c, 'i, 'h, 'r, 's) fleet \<Rightarrow> 's stores \<Rightarrow> string \<Rightarrow> ('p, 'c, 'i, 's) watchedEndpoint \<Rightarrow> bool" where
  "made F T u e \<longleftrightarrow> (\<exists>ctx cfg. cfg_host cfg = u \<and> e = endpoint_for F ctx cfg (st_cache T u))"

lemma start_result:
  assumes "starting_ok F U T" and "u \<in> U" and "cfg_host cfg = u"
    and "pe_watchEndpointFunc (fleet_env F) cfg s = (r, s')"
  shows "provider_Get F m s' = provider_Get F m s" and "v \<in> U \<Longrightarrow> v \<noteq> u \<Longrightarrow> st_objs T v s' = st_objs T v s"
    and "r = Inr e \<Longrightarrow> made F T u e \<and> st_objs T u s' = {}"
proof -
  obtain ctx s1 where ctx: "fl_with_cancel F s = (ctx, s1)" by fastforce
  note k1 = starting_okD(1) [OF assms(1) ctx, unfolded view_eq]
  let ?opts = "\<lparr> co_Scheme = Some (ro_Scheme (we_opts (fl_endpoint F))), co_HTTPClient = None, co_Mapper = None \<rparr>"
  note run = assms(4) [unfolded fleet_env_def provider_env.simps newWatchedEndpoint_def ctx prod.case Let_def]
  have all: "(\<forall>m. provider_Get F m s' = provider_Get F m s) \<and> (\<forall>v \<in> U - {u}. st_objs T v s' = st_objs T v s) \<and>
      (\<forall>e. r = Inr e \<longrightarrow> made F T u e \<and> st_objs T u s' = {})"
  proof (cases "NewWildcardCache (fl_wildcard F) cfg ?opts")
    case (Inl err)
    then have "r = Inl (Errorf ''error starting cache: %w'' [] [err])" "s' = fl_cancel F ctx s1" using run by simp_all
    then show ?thesis using k1 starting_okD(2) [OF assms(1), of ctx s1, unfolded view_eq] by simp
  next
    case (Inr wc)
    let ?W = "endpoint_for F ctx cfg (st_cache T u)"
    have W: "(fl_endpoint F)\<lparr> we_ctx := ctx, we_config := cfg, we_cache := wc_Cache wc, we_crt := fl_crt F (wc_Cache wc) \<rparr> = ?W"
      using starting_okD(5) [OF assms(1) Inr] assms(3) by (simp add: endpoint_for_def)
    obtain i s2 where i: "Cache_GetInformer (fl_crt F (st_cache T u)) (ro_ObjectToWatch (we_opts (fl_endpoint F))) s1 = (i, s2)"
      by fastforce
    note k2 = starting_okD(4) [OF assms(1) i, unfolded view_eq]
    have res: "(r, s') = (case we_start (fl_add F) (fl_go F) ?W s1 of
        (Some err, s3) \<Rightarrow> (Inl err, fl_cancel F ctx s3) | (None, s3) \<Rightarrow> (Inr ?W, s3))"
      using run Inr by (simp add: W cong: option.case_cong)
    show ?thesis
    proof (cases i)
      case (Inl err)
      then show ?thesis using res i k1 k2 starting_okD(2) [OF assms(1), of ctx s2, unfolded view_eq]
        by (simp add: we_start_def)
    next
      case (Inr j)
      obtain q s3 where a: "fl_add F j ?W s2 = (q, s3)" by fastforce
      note k3 = starting_okD(6) [OF assms(1,2) a]
      show ?thesis
      proof (cases q)
        case None
        then have "r = Inr ?W" "s' = fl_go F ctx s3" using res i Inr a by (simp_all add: we_start_def)
        then show ?thesis using k1 k2 k3 None assms(3) starting_okD(3) [OF assms(1), of ctx s3, unfolded view_eq]
          by (auto simp: made_def)
      next
        case (Some err)
        then show ?thesis using res i Inr a k1 k2 k3 starting_okD(2) [OF assms(1), of ctx s3, unfolded view_eq]
          by (simp add: we_start_def)
      qed
    qed
  qed
  show "provider_Get F m s' = provider_Get F m s" and "v \<in> U \<Longrightarrow> v \<noteq> u \<Longrightarrow> st_objs T v s' = st_objs T v s"
    and "r = Inr e \<Longrightarrow> made F T u e \<and> st_objs T u s' = {}"
    using all by simp_all
qed

text \<open>
  The two loops of a reconciliation: the first only starts endpoints, whose stores are empty
  then; the second and the deletion of the slice only stop some.
\<close>

definition grown ::
  "('p, 'c, 'i, 'h, 'r, 's) fleet \<Rightarrow> string set \<Rightarrow> 's stores \<Rightarrow> (('p, 'c, 'i, 's) watchedEndpoint, nat, 'h, 'r) provider \<Rightarrow> 's
     \<Rightarrow> (('p, 'c, 'i, 's) watchedEndpoint, nat, 'h, 'r) provider \<Rightarrow> 's \<Rightarrow> bool" where
  "grown F U T p s p' s' \<longleftrightarrow> (\<forall>m. provider_Get F m s' = provider_Get F m s) \<and>
     (\<forall>u \<in> U. \<forall>e. pv_watchedEndpoints p u = Some e \<longrightarrow>
        pv_watchedEndpoints p' u = Some e \<and> st_objs T u s' = st_objs T u s) \<and>
     (\<forall>u e. pv_watchedEndpoints p u = None \<and> pv_watchedEndpoints p' u = Some e \<longrightarrow>
        u \<in> U \<and> made F T u e \<and> st_objs T u s' = {})"

lemma grownD:
  assumes "grown F U T p s p' s'"
  shows "provider_Get F m s' = provider_Get F m s"
    and "u \<in> U \<Longrightarrow> pv_watchedEndpoints p u = Some e \<Longrightarrow> pv_watchedEndpoints p' u = Some e"
    and "u \<in> U \<Longrightarrow> pv_watchedEndpoints p u = Some e \<Longrightarrow> st_objs T u s' = st_objs T u s"
    and "pv_watchedEndpoints p u = None \<Longrightarrow> pv_watchedEndpoints p' u = Some e \<Longrightarrow>
      u \<in> U \<and> made F T u e \<and> st_objs T u s' = {}"
  using assms unfolding grown_def by blast+

lemma grown_refl: "grown F U T p s p s"
  unfolding grown_def by auto

lemma grown_trans:
  assumes "grown F U T p s p1 s1" and "grown F U T p1 s1 p2 s2"
  shows "grown F U T p s p2 s2"
  unfolding grown_def
proof (intro conjI allI ballI impI)
  show "provider_Get F m s2 = provider_Get F m s" for m using grownD(1) [OF assms(1)] grownD(1) [OF assms(2)] by simp
next
  fix u e
  assume u: "u \<in> U" "pv_watchedEndpoints p u = Some e"
  note first = grownD(2,3) [OF assms(1) u]
  show "pv_watchedEndpoints p2 u = Some e" by (rule grownD(2) [OF assms(2) u(1) first(1)])
  show "st_objs T u s2 = st_objs T u s" using grownD(3) [OF assms(2) u(1) first(1)] first(2) by simp
next
  fix u e
  assume new: "pv_watchedEndpoints p u = None \<and> pv_watchedEndpoints p2 u = Some e"
  have all: "u \<in> U \<and> made F T u e \<and> st_objs T u s2 = {}"
  proof (cases "pv_watchedEndpoints p1 u")
    case None
    then show ?thesis using grownD(4) [OF assms(2)] new by blast
  next
    case (Some e1)
    note first = grownD(4) [OF assms(1) conjunct1 [OF new] Some]
    then show ?thesis
      using grownD(2,3) [OF assms(2) conjunct1 [OF first] Some] new by simp
  qed
  then show "u \<in> U" "made F T u e" "st_objs T u s2 = {}" by blast+
qed

lemma watch_loop_grown:
  assumes "fleet_ok K acc F U T"
  shows "watch_loop (fleet_env F) Or urls errs p s = (errs', p', s') \<Longrightarrow> set urls \<subseteq> U \<Longrightarrow> grown F U T p s p' s'"
proof (induction urls arbitrary: errs p s)
  case Nil
  then show ?case by (simp add: grown_refl)
next
  case (Cons u urls)
  have u: "u \<in> U" "set urls \<subseteq> U" using Cons.prems(2) by simp_all
  show ?case
  proof (cases "pv_watchedEndpoints p u")
    case (Some e)
    then show ?thesis using Cons.IH [OF _ u(2)] Cons.prems(1) by simp
  next
    case None
    let ?cfg = "(pv_config p)\<lparr> cfg_host := u \<rparr>"
    obtain r s1 where w: "pe_watchEndpointFunc (fleet_env F) ?cfg s = (r, s1)" by fastforce
    have host: "cfg_host ?cfg = u" by simp
    note st = start_result [OF fleet_okD(3) [OF assms] u(1) host w]
    show ?thesis
    proof (cases r)
      case (Inl err)
      have "grown F U T p s p s1"
        unfolding grown_def
      proof (intro conjI allI ballI impI)
        show "st_objs T v s1 = st_objs T v s" if "v \<in> U" "pv_watchedEndpoints p v = Some d" for v d
          by (rule st(2) [OF that(1)]) (use that(2) None in auto)
      qed (use st(1) in auto)
      moreover have "grown F U T p s1 p' s'"
        using Cons.IH [OF _ u(2)] Cons.prems(1) None w Inl by simp
      ultimately show ?thesis by (rule grown_trans)
    next
      case (Inr e)
      let ?p = "p\<lparr> pv_watchedEndpoints := (pv_watchedEndpoints p)(u \<mapsto> e) \<rparr>"
      obtain agg s2 where agg: "AddCache (pe_shards (fleet_env F)) (or_informers Or (ac_informers (pv_aggregateCache ?p))) u
          (pe_wildcardCache (fleet_env F) e) (pv_aggregateCache ?p) s1 = (agg, s2)" by fastforce
      have "shards_keep (pe_shards (fleet_env F)) (view F T)" using fleet_okD(5) [OF assms] by (simp add: fleet_env_def)
      note kept = AddCache_result(1) [OF this agg, unfolded view_eq]
      have "grown F U T p s (?p\<lparr> pv_aggregateCache := agg \<rparr>) s2"
        unfolding grown_def
      proof (intro conjI allI ballI impI)
        show "st_objs T v s2 = st_objs T v s" if "v \<in> U" "pv_watchedEndpoints p v = Some d" for v d
        proof -
          have "v \<noteq> u" using that(2) None by auto
          then show ?thesis using st(2) [OF that(1)] kept by simp
        qed
      qed (use st(1) st(3) [OF Inr] kept None u(1) in \<open>auto split: if_splits\<close>)
      moreover have "grown F U T (?p\<lparr> pv_aggregateCache := agg \<rparr>) s2 p' s'"
        using Cons.IH [OF _ u(2)] Cons.prems(1) None w Inr agg by simp
      ultimately show ?thesis by (rule grown_trans)
    qed
  qed
qed

definition shrunk ::
  "('p, 'c, 'i, 'h, 'r, 's) fleet \<Rightarrow> 's stores \<Rightarrow> (('p, 'c, 'i, 's) watchedEndpoint, nat, 'h, 'r) provider \<Rightarrow> 's
     \<Rightarrow> (('p, 'c, 'i, 's) watchedEndpoint, nat, 'h, 'r) provider \<Rightarrow> 's \<Rightarrow> bool" where
  "shrunk F T p s p' s' \<longleftrightarrow> view F T s' = view F T s \<and> pv_watchedEndpoints p' \<subseteq>\<^sub>m pv_watchedEndpoints p"

lemma shrunk_refl: "shrunk F T p s p s"
  by (simp add: shrunk_def)

lemma shrunk_trans: "shrunk F T p s p1 s1 \<Longrightarrow> shrunk F T p1 s1 p2 s2 \<Longrightarrow> shrunk F T p s p2 s2"
  unfolding shrunk_def by (metis map_le_trans)

lemma stop_loop_shrunk:
  assumes "starting_ok F U T"
  shows "stop_loop (fleet_env F) urls ks p s = (p', s') \<Longrightarrow> shrunk F T p s p' s'"
proof (induction ks arbitrary: p s)
  case Nil
  then show ?case by (simp add: shrunk_refl)
next
  case (Cons k ks)
  show ?case
  proof (cases "k \<in> set urls")
    case True
    then show ?thesis using Cons by simp
  next
    case False
    obtain p1 s1 where d: "drop_endpoint (fleet_env F) k p s = (p1, s1)" by fastforce
    have "view F T s1 = view F T s"
      using d starting_okD(2) [OF assms] by (auto simp: drop_endpoint_def fleet_env_def split: option.splits)
    then have "shrunk F T p s p1 s1"
      unfolding shrunk_def drop_endpoint_watched [OF d] by (simp add: map_le_def)
    moreover have "shrunk F T p1 s1 p' s'" using Cons.IH Cons.prems False d by simp
    ultimately show ?thesis by (rule shrunk_trans)
  qed
qed

lemma stop_each_view:
  assumes "starting_ok F U T"
  shows "stop_each (fleet_env F) urls p s = (p', s') \<Longrightarrow> view F T s' = view F T s"
proof (induction urls arbitrary: p s)
  case (Cons u urls)
  show ?case
  proof (cases "pv_watchedEndpoints p u")
    case None
    then show ?thesis using Cons by simp
  next
    case (Some e)
    then show ?thesis
      using Cons.IH Cons.prems starting_okD(2) [OF assms, of "we_ctx e" s] by (simp add: fleet_env_def)
  qed
qed simp

lemma stopAll_shrunk:
  assumes "starting_ok F U T" and "stopAllWatchedEndpoints (fleet_env F) Or p s = (p', s')"
  shows "shrunk F T p s p' s'"
  using assms(2) stop_each_view [OF assms(1)]
  by (fastforce simp: stopAllWatchedEndpoints_def shrunk_def split: prod.splits)

lemma worker_result:
  assumes "fleet_ok K acc F U T" and run: "processNextEndpointSlice (fleet_env F) Or Q got p s = (b, calls, p', s')"
  shows "\<exists>p1 s1. grown F U T p s p1 s1 \<and> shrunk F T p1 s1 p' s'"
proof -
  note start = fleet_okD(3) [OF assms(1)]
  show ?thesis
    using run
  proof (cases rule: process_cases)
    case same
    show ?thesis unfolding same by (intro exI conjI) (rule grown_refl, rule shrunk_refl)
  next
    case all
    then have "shrunk F T p s p' s'" by (rule stopAll_shrunk [OF start])
    with grown_refl show ?thesis by (intro exI conjI)
  next
    case (update ob err)
    show ?thesis
    proof (cases "pe_ExtractURLs (fleet_env F) ob")
      case (Inl e)
      then have eq: "p' = p" "s' = s" using update by (simp_all add: endpointSliceUpdate_def)
      show ?thesis unfolding eq by (intro exI conjI) (rule grown_refl, rule shrunk_refl)
    next
      case (Inr urls)
      obtain errs p1 s1 where l1: "watch_loop (fleet_env F) Or urls [] p s = (errs, p1, s1)" by (metis prod.collapse)
      obtain p2 s2 where l2: "stop_loop (fleet_env F) urls (or_watched Or (pv_watchedEndpoints p1)) p1 s1 = (p2, s2)" by fastforce
      have eq: "p' = p2" "s' = s2" using update Inr l1 l2 by (simp_all add: endpointSliceUpdate_def)
      show ?thesis unfolding eq
        by (intro exI conjI) (rule watch_loop_grown [OF assms(1) l1 fleet_okD(6) [OF assms(1) Inr]],
            rule stop_loop_shrunk [OF start l2])
    qed
  qed
qed

subsection \<open>Callbacks behind one endpoint\<close>

text \<open>The objects of a change belong to logical clusters served by the URL \<open>u\<close>.\<close>

fun change_at :: "kcpapi \<Rightarrow> (lcname \<Rightarrow> string) \<Rightarrow> string \<Rightarrow> change \<Rightarrow> bool" where
  "change_at K home u (NewObject ob) \<longleftrightarrow> home (lc_from K ob) = u"
| "change_at K home u (ChangedObject old ob) \<longleftrightarrow> home (lc_from K ob) = u \<and> lc_from K old = lc_from K ob"
| "change_at K home u (GoneObject ob) \<longleftrightarrow> home (lc_from K ob) = u"
| "change_at K home u (MissedDelete key ob) \<longleftrightarrow> home (lc_from K ob) = u"

lemma change_at_home: "change_at K home u x \<Longrightarrow> home (lc_from K (changed_object x)) = u"
  by (cases x) simp_all

lemma objs_after_home:
  "change_at K home u x \<Longrightarrow> \<forall>ob \<in> S. home (lc_from K ob) = u \<Longrightarrow> ob \<in> objs_after x S \<Longrightarrow> home (lc_from K ob) = u"
  by (cases x) auto

text \<open>A cluster that stays engaged, or that the change engages, has an object afterwards.\<close>

lemma object_remains:
  assumes "cl \<in> (if \<exists>o' \<in> S - {ob}. f o' = f ob then C else C - {f ob})" and "cl \<in> f ` S \<or> cl = f ob"
  shows "cl \<in> f ` (S - {ob})"
proof (cases "cl = f ob")
  case True
  then obtain o' where "o' \<in> S - {ob}" "f o' = f ob" using assms(1) by (auto split: if_splits)
  then show ?thesis using True by (metis image_eqI)
next
  case False
  then show ?thesis using assms(2) by auto
qed

lemma engaged_has_object:
  assumes "change_at K home u x" and "cl \<in> engaged_after K W x S C" and "cl \<in> lc_from K ` S \<or> cl = lc_from K (changed_object x)"
  shows "cl \<in> lc_from K ` objs_after x S"
proof (cases x)
  case (ChangedObject old ob)
  then show ?thesis using assms(1,3) by auto
next
  case (GoneObject ob)
  then show ?thesis using object_remains [of cl S ob "lc_from K" C] assms(2,3) by simp
next
  case (MissedDelete key ob)
  then show ?thesis using object_remains [of cl S ob "lc_from K" C] assms(2,3) by simp
qed (use assms(3) in auto)

lemma objects_engaged:
  assumes "change_at K home u x" and "no_filters W" and "lc_from K ` S \<subseteq> C \<union> M"
  shows "lc_from K ` objs_after x S \<subseteq> engaged_after K W x S C \<union> M"
  using assms by (cases x) (auto simp: no_filters_def accepts_def)

lemma engaged_elsewhere:
  "change_at K home u x \<Longrightarrow> cl \<in> C \<Longrightarrow> home cl \<noteq> u \<Longrightarrow> cl \<in> engaged_after K W x S C"
  by (cases x) auto

text \<open>What a change behind \<open>u\<close> leaves alone: the other stores, and every lookup but the one it may engage.\<close>

lemma keeping_run:
  assumes "\<And>q. keeping_handlers (\<lambda>s. g s = q) hs"
  shows "g (RunOnAdd hs ob s) = g s" and "g (RunOnUpdate hs old ob s) = g s" and "g (RunOnDelete hs ob s) = g s"
  using keeping_handlers.keeps_RunOnAdd_sub [OF assms order_refl refl]
    keeping_handlers.keeps_RunOnUpdate_sub [OF assms order_refl refl]
    keeping_handlers.keeps_RunOnDelete_sub [OF assms order_refl refl] by blast+

lemma clusters_okD:
  assumes "clusters_ok F T"
  shows "provider_Get F m (snd (we_addCluster (fl_endpoint F) n c s)) = (if m = n then Inr c else provider_Get F m s)"
    and "m \<noteq> n \<Longrightarrow> provider_Get F m (we_removeCluster (fl_endpoint F) n s) = provider_Get F m s"
    and "provider_Get F m (snd (we_getRecorderProvider (fl_endpoint F) cfg n s)) = provider_Get F m s"
    and "we_stopRecorderProvider (fl_endpoint F) n s = Ret s' \<Longrightarrow> provider_Get F m s' = provider_Get F m s"
    and "provider_Get F m (RunOnAdd (ro_Handlers (we_opts (fl_endpoint F))) ob s) = provider_Get F m s"
    and "provider_Get F m (RunOnUpdate (ro_Handlers (we_opts (fl_endpoint F))) old ob s) = provider_Get F m s"
    and "provider_Get F m (RunOnDelete (ro_Handlers (we_opts (fl_endpoint F))) ob s) = provider_Get F m s"
    and "provider_Get F m (st_put T u ob s) = provider_Get F m s"
    and "provider_Get F m (st_del T u ob s) = provider_Get F m s"
    and "provider_Get F m (snd (GetSharedInformer (fl_crt F ca) ob s)) = provider_Get F m s"
proof -
  have "\<And>q. keeping_handlers (\<lambda>s. provider_Get F m s = q) (ro_Handlers (we_opts (fl_endpoint F)))"
    using assms by (simp add: clusters_ok_def)
  from keeping_run [OF this]
  show "provider_Get F m (RunOnAdd (ro_Handlers (we_opts (fl_endpoint F))) ob s) = provider_Get F m s"
    and "provider_Get F m (RunOnUpdate (ro_Handlers (we_opts (fl_endpoint F))) old ob s) = provider_Get F m s"
    and "provider_Get F m (RunOnDelete (ro_Handlers (we_opts (fl_endpoint F))) ob s) = provider_Get F m s"
    by simp_all
qed (use assms in \<open>simp_all add: clusters_ok_def\<close>)

definition lookup_grows :: "('p, 'c, 'i, 'h, 'r, 's) fleet \<Rightarrow> ('p, 'c, 'i, 's) watchedEndpoint \<Rightarrow> lcname \<Rightarrow> 's \<Rightarrow> 's \<Rightarrow> bool" where
  "lookup_grows F W cl s s' \<longleftrightarrow> (\<forall>n c. provider_Get F n s' = Inr c \<longrightarrow>
     provider_Get F n s = Inr c \<or> n = cl \<and> built W n c) \<and>
     (\<forall>n. n \<noteq> cl \<longrightarrow> provider_Get F n s' = provider_Get F n s)"

lemma lookup_grows_step: "step_relation (lookup_grows F W cl)"
proof
  show "lookup_grows F W cl s s" for s by (simp add: lookup_grows_def)
  show "lookup_grows F W cl s u" if "lookup_grows F W cl s t" "lookup_grows F W cl t u" for s t u
    using that unfolding lookup_grows_def by metis
qed

lemma lookup_grows_same: "(\<And>m. provider_Get F m s' = provider_Get F m s) \<Longrightarrow> lookup_grows F W cl s s'"
  by (simp add: lookup_grows_def)

lemma observe_lookups:
  assumes ok: "clusters_ok F T" and str: "kcp_ok K" and W: "W = endpoint_for F ctx cfg (st_cache T u)"
    and fine: "\<And>n s. is_err (provider_Get F n (we_removeCluster (fl_endpoint F) n s))"
    and run: "observe K W (st_put T u) (st_del T u) x s = Ret s'"
  shows "lookup_grows F W (lc_from K (changed_object x)) s s'"
proof (rule observe_allowed [OF _ run])
  let ?cl = "lc_from K (changed_object x)" and ?R = "lookup_grows F W (lc_from K (changed_object x))"
  have name: "lc_string K ?cl = ?cl" using str by (rule kcp_okD)
  show "allowed_by K ?R W (st_put T u) (st_del T u) (changed_object x)"
    unfolding allowed_by_def name
  proof (intro conjI allI impI)
    show "step_relation ?R" by (rule lookup_grows_step)
    show "?R s (snd (we_addCluster W ?cl c s))" if "built W ?cl c" for c s
      using that clusters_okD(1) [OF ok] by (simp add: W lookup_grows_def)
    show "?R s (we_removeCluster W ?cl s)" for s
      using clusters_okD(2) [OF ok] fine [of ?cl s] unfolding lookup_grows_def W endpoint_for_sel
      by (metis is_err.simps(2))
  qed (use clusters_okD(3-10) [OF ok] in \<open>auto intro!: lookup_grows_same simp: W\<close>)
qed

lemma observe_others:
  assumes ok: "fleet_ok K acc F U T" and u: "u \<in> U" and v: "v \<in> U" "v \<noteq> u" and W: "W = endpoint_for F ctx cfg (st_cache T u)"
    and run: "observe K W (st_put T u) (st_del T u) x s = Ret s'"
  shows "st_objs T v s' = st_objs T v s"
proof (rule observe_allowed [OF _ run])
  let ?V = "endpoint_for F ctx cfg (st_cache T v)" and ?R = "\<lambda>s s'. st_objs T v s' = st_objs T v s"
  note V = fleet_okD(1) [OF ok v(1), of ctx cfg]
  have apart: "st_objs T v (st_put T u ob s) = st_objs T v s" "st_objs T v (st_del T u ob s) = st_objs T v s"
    "st_objs T v (snd (GetSharedInformer (fl_crt F (st_cache T u)) ob s)) = st_objs T v s" for ob s
    using fleet_okD(4) [OF ok] u v by (simp_all add: stores_apart_def)
  have add: "st_objs T v (snd (we_addCluster (fl_endpoint F) n c s)) = st_objs T v s" for n c s
    using endpoint_okD(7) [OF V, of n c s] by auto
  have rec: "st_objs T v (snd (we_getRecorderProvider (fl_endpoint F) cfg' n s)) = st_objs T v s" for cfg' n s
    using endpoint_okD(10) [OF V, of cfg' n s] by auto
  have stop: "we_stopRecorderProvider (fl_endpoint F) n s = Ret s' \<Longrightarrow> st_objs T v s' = st_objs T v s" for n s s'
    using endpoint_okD(11) [OF V, of n s] by auto
  show "allowed_by K ?R W (st_put T u) (st_del T u) (changed_object x)"
    unfolding allowed_by_def
  proof (intro conjI allI impI)
    show "step_relation ?R" by unfold_locales simp_all
  qed (use apart add rec stop endpoint_okD(9) [OF V] handlers_keep [OF V] in \<open>simp_all add: W\<close>)
qed

subsection \<open>Histories\<close>

text \<open>
  A state has the provider, the world and two sets that only the theorems read: \<open>L\<close>, the clusters
  that were engaged when their endpoint was stopped and have not been disengaged since, and \<open>M\<close>,
  the clusters that the set of clusters dropped on its own and that were not engaged again since.
  The worker handles a queue item, a user of the provider gets an aggregate informer or adds a
  handler to one, a callback of a watched endpoint runs, or the set of clusters gives some up. It
  does that when the context they were engaged under has ended, at any later time: also when the
  URL is watched again by then, and the cluster is lost until its next event.
\<close>

type_synonym ('p, 'c, 'i, 'h, 'r, 's) fleet_state =
  "(('p, 'c, 'i, 's) watchedEndpoint, nat, 'h, 'r) provider \<times> 's \<times> string set \<times> string set"

definition left_behind ::
  "(lcname \<Rightarrow> string) \<Rightarrow> ('e, 'c, 'h, 'r) provider \<Rightarrow> ('e, 'c, 'h, 'r) provider \<Rightarrow> string set \<Rightarrow> string set" where
  "left_behind home p p' C = {cl \<in> C. \<exists>e. pv_watchedEndpoints p (home cl) = Some e \<and> pv_watchedEndpoints p' (home cl) \<noteq> Some e}"

inductive fleet_step ::
  "kcpapi \<Rightarrow> ('p, 'c, 'i, 'h, 'r, 's) fleet \<Rightarrow> 's stores \<Rightarrow> ('p, 'c, 'i, 'h, 'r, 's) fleet_state
     \<Rightarrow> ('p, 'c, 'i, 'h, 'r, 's) fleet_state \<Rightarrow> bool" for K F T where
  worker: "processNextEndpointSlice (fleet_env F) Or Q got p s = (b, calls, p', s') \<Longrightarrow>
     fleet_step K F T (p, s, L, M) (p', s', L \<union> left_behind (st_home T) p p' (engaged (fl_endpoint F) s), M)"
| get_informer: "provider_GetAggregateInformer G ob p = (res, p') \<Longrightarrow> fleet_step K F T (p, s, L, M) (p', s, L, M)"
| add_handler: "AddEventHandlerWithResyncPeriod (fl_shards F) cord ids g h q (provider_Lister p) s = (res, agg, s') \<Longrightarrow>
     fleet_step K F T (p, s, L, M) (p\<lparr> pv_aggregateCache := agg \<rparr>, s', L, M)"
| callback: "pv_watchedEndpoints p u = Some e \<Longrightarrow> change_at K (st_home T) u x \<Longrightarrow>
     observe K e (st_put T u) (st_del T u) x s = Ret s' \<Longrightarrow>
     fleet_step K F T (p, s, L, M) (p, s', L \<inter> engaged (fl_endpoint F) s', M - engaged (fl_endpoint F) s')"
| given_up: "G \<subseteq> engaged (fl_endpoint F) s \<Longrightarrow> \<forall>cl \<in> G. is_err (provider_Get F cl s') \<Longrightarrow>
     \<forall>cl. cl \<notin> G \<longrightarrow> provider_Get F cl s' = provider_Get F cl s \<Longrightarrow> \<forall>u. st_objs T u s' = st_objs T u s \<Longrightarrow>
     fleet_step K F T (p, s, L, M) (p, s', L - G, M \<union> G)"

inductive fleet_reach ::
  "kcpapi \<Rightarrow> ('p, 'c, 'i, 'h, 'r, 's) fleet \<Rightarrow> 's stores \<Rightarrow> ('p, 'c, 'i, 'h, 'r, 's) fleet_state \<Rightarrow> bool" for K F T where
  start: "engaged (fl_endpoint F) s = {} \<Longrightarrow> fleet_reach K F T
     (\<lparr> pv_config = cfg, pv_watchedEndpoints = Map.empty, pv_aggregateCache = NewAggregateCache \<rparr>, s, {}, {})"
| more: "fleet_reach K F T x \<Longrightarrow> fleet_step K F T x y \<Longrightarrow> fleet_reach K F T y"

text \<open>A lookup that succeeds was built on the endpoint of the cluster, which has an object of it.\<close>

definition served ::
  "kcpapi \<Rightarrow> 's stores \<Rightarrow> (('p, 'c, 'i, 's) watchedEndpoint, nat, 'h, 'r) provider \<Rightarrow> 's \<Rightarrow> lcname \<Rightarrow> 'c \<Rightarrow> bool" where
  "served K T p s cl c \<longleftrightarrow> (\<exists>e. pv_watchedEndpoints p (st_home T cl) = Some e \<and> built e cl c \<and>
     cl \<in> lc_from K ` st_objs T (st_home T cl) s)"

definition fleet_inv ::
  "kcpapi \<Rightarrow> ('p, 'c, 'i, 'h, 'r, 's) fleet \<Rightarrow> string set \<Rightarrow> 's stores \<Rightarrow> ('p, 'c, 'i, 'h, 'r, 's) fleet_state \<Rightarrow> bool" where
  "fleet_inv K F U T x \<longleftrightarrow> (case x of (p, s, L, M) \<Rightarrow>
     (\<forall>u e. pv_watchedEndpoints p u = Some e \<longrightarrow> u \<in> U \<and> made F T u e \<and> (\<forall>ob \<in> st_objs T u s. st_home T (lc_from K ob) = u) \<and>
        (no_filters (fl_endpoint F) \<longrightarrow> lc_from K ` st_objs T u s \<subseteq> engaged (fl_endpoint F) s \<union> M)) \<and>
     (\<forall>cl c. provider_Get F cl s = Inr c \<longrightarrow> cl \<in> L \<or> served K T p s cl c))"

lemma fleet_invD:
  assumes "fleet_inv K F U T (p, s, L, M)"
  shows "pv_watchedEndpoints p u = Some e \<Longrightarrow> u \<in> U \<and> made F T u e"
    and "pv_watchedEndpoints p u = Some e \<Longrightarrow> ob \<in> st_objs T u s \<Longrightarrow> st_home T (lc_from K ob) = u"
    and "pv_watchedEndpoints p u = Some e \<Longrightarrow> no_filters (fl_endpoint F) \<Longrightarrow>
      lc_from K ` st_objs T u s \<subseteq> engaged (fl_endpoint F) s \<union> M"
    and "provider_Get F cl s = Inr c \<Longrightarrow> cl \<in> L \<or> served K T p s cl c"
  using assms unfolding fleet_inv_def prod.case by blast+

lemma fleet_invI:
  assumes "\<And>u e. pv_watchedEndpoints p u = Some e \<Longrightarrow> u \<in> U \<and> made F T u e"
    and "\<And>u e ob. pv_watchedEndpoints p u = Some e \<Longrightarrow> ob \<in> st_objs T u s \<Longrightarrow> st_home T (lc_from K ob) = u"
    and "\<And>u e. pv_watchedEndpoints p u = Some e \<Longrightarrow> no_filters (fl_endpoint F) \<Longrightarrow>
      lc_from K ` st_objs T u s \<subseteq> engaged (fl_endpoint F) s \<union> M"
    and "\<And>cl c. provider_Get F cl s = Inr c \<Longrightarrow> cl \<in> L \<or> served K T p s cl c"
  shows "fleet_inv K F U T (p, s, L, M)"
  using assms unfolding fleet_inv_def prod.case by blast

lemma engaged_provider: "cl \<in> engaged (fl_endpoint F) s \<longleftrightarrow> (\<exists>c. provider_Get F cl s = Inr c)"
  by (cases "provider_Get F cl s") (auto simp: engaged_def provider_Get_def)

lemma engaged_same:
  "(\<And>m. provider_Get F m s' = provider_Get F m s) \<Longrightarrow> engaged (fl_endpoint F) s' = engaged (fl_endpoint F) s"
  by (auto simp: engaged_def provider_Get_def)

lemma worker_inv:
  assumes ok: "fleet_ok K acc F U T" and inv: "fleet_inv K F U T (p, s, L, M)"
    and run: "processNextEndpointSlice (fleet_env F) Or Q got p s = (b, calls, p', s')"
  shows "fleet_inv K F U T (p', s', L \<union> left_behind (st_home T) p p' (engaged (fl_endpoint F) s), M)"
proof -
  obtain p1 s1 where g: "grown F U T p s p1 s1" and sh: "shrunk F T p1 s1 p' s'"
    using worker_result [OF ok run] by blast
  have v: "view F T s' = view F T s1" and sub: "pv_watchedEndpoints p' u = Some e \<Longrightarrow> pv_watchedEndpoints p1 u = Some e" for u e
    using sh unfolding shrunk_def map_le_def by (blast, metis domI)
  note v = v [unfolded view_eq]
  have get: "provider_Get F m s' = provider_Get F m s" for m using v grownD(1) [OF g] by simp
  have eng: "engaged (fl_endpoint F) s' = engaged (fl_endpoint F) s" using get by (rule engaged_same)
  have kept: "u \<in> U \<and> made F T u e \<and> (st_objs T u s' = {} \<or> pv_watchedEndpoints p u = Some e \<and> st_objs T u s' = st_objs T u s)"
    if "pv_watchedEndpoints p' u = Some e" for u e
  proof (cases "pv_watchedEndpoints p u")
    case None
    then show ?thesis using grownD(4) [OF g None sub [OF that]] v by simp
  next
    case (Some e0)
    note u = fleet_invD(1) [OF inv Some]
    then show ?thesis using grownD(2,3) [OF g _ Some] sub [OF that] v Some by simp
  qed
  show ?thesis
  proof (rule fleet_invI)
    fix cl c
    assume c: "provider_Get F cl s' = Inr c"
    then have c0: "provider_Get F cl s = Inr c" using get by simp
    show "cl \<in> L \<union> left_behind (st_home T) p p' (engaged (fl_endpoint F) s) \<or> served K T p' s' cl c"
    proof (cases "cl \<in> L")
      case False
      then obtain e where e: "pv_watchedEndpoints p (st_home T cl) = Some e" "built e cl c"
        "cl \<in> lc_from K ` st_objs T (st_home T cl) s"
        using fleet_invD(4) [OF inv c0] unfolding served_def by blast
      have cl: "cl \<in> engaged (fl_endpoint F) s" using c0 by (auto simp: engaged_provider)
      show ?thesis
      proof (cases "pv_watchedEndpoints p' (st_home T cl) = Some e")
        case True
        have "st_home T cl \<in> U" using fleet_invD(1) [OF inv e(1)] by blast
        then have "st_objs T (st_home T cl) s' = st_objs T (st_home T cl) s" using grownD(3) [OF g _ e(1)] v by simp
        then show ?thesis using True e unfolding served_def by metis
      next
        case False
        then show ?thesis using e(1) cl unfolding left_behind_def by blast
      qed
    qed simp
  next
    fix u e
    assume e: "pv_watchedEndpoints p' u = Some e"
    show "u \<in> U \<and> made F T u e" using kept [OF e] by blast
    show "st_home T (lc_from K ob) = u" if "ob \<in> st_objs T u s'" for ob
      using kept [OF e] that fleet_invD(2) [OF inv] by auto
    show "lc_from K ` st_objs T u s' \<subseteq> engaged (fl_endpoint F) s' \<union> M" if "no_filters (fl_endpoint F)"
    proof (cases "st_objs T u s' = {}")
      case False
      then have "pv_watchedEndpoints p u = Some e" "st_objs T u s' = st_objs T u s" using kept [OF e] by blast+
      then show ?thesis using fleet_invD(3) [OF inv _ that] eng by simp
    qed simp
  qed
qed

lemma callback_inv:
  assumes ok: "fleet_ok K acc F U T" and inv: "fleet_inv K F U T (p, s, L, M)" and e: "pv_watchedEndpoints p u = Some e"
    and at: "change_at K (st_home T) u x" and run: "observe K e (st_put T u) (st_del T u) x s = Ret s'"
  shows "fleet_inv K F U T (p, s', L \<inter> engaged (fl_endpoint F) s', M - engaged (fl_endpoint F) s')"
proof -
  have u: "u \<in> U" "made F T u e" using fleet_invD(1) [OF inv e] by blast+
  obtain ctx cfg where W: "e = endpoint_for F ctx cfg (st_cache T u)" using u(2) unfolding made_def by blast
  note eok = fleet_okD(1) [OF ok u(1), of ctx cfg, folded W]
  have eng: "engaged e = engaged (fl_endpoint F)" by (simp add: W)
  have filt: "no_filters e = no_filters (fl_endpoint F)" by (simp add: W)
  note objs = observe_result(2) [OF eok run] and after = observe_result(3) [OF eok run, unfolded eng]
  have others: "st_objs T v s' = st_objs T v s" if "pv_watchedEndpoints p v = Some d" "v \<noteq> u" for v d
    using observe_others [OF ok u(1) _ that(2) W run] fleet_invD(1) [OF inv that(1)] by blast
  have "is_err (provider_Get F n (we_removeCluster (fl_endpoint F) n s))" for n s
    using endpoint_okD(8) [OF eok, of n s] by (auto simp: engaged_def W provider_Get_def)
  note grows = observe_lookups [OF fleet_okD(2) [OF ok] endpoint_okD(1) [OF eok] W this run, unfolded lookup_grows_def]
  show ?thesis
  proof (rule fleet_invI)
    show "st_home T (lc_from K ob) = v" if "pv_watchedEndpoints p v = Some d" "ob \<in> st_objs T v s'" for v d ob
    proof (cases "v = u")
      case True
      show ?thesis unfolding True by (rule objs_after_home [OF at]) (use fleet_invD(2) [OF inv e] that(2) objs True in auto)
    next
      case False
      then show ?thesis using fleet_invD(2) [OF inv that(1)] that(2) others [OF that(1)] by simp
    qed
    show "lc_from K ` st_objs T v s' \<subseteq> engaged (fl_endpoint F) s' \<union> (M - engaged (fl_endpoint F) s')"
      if "pv_watchedEndpoints p v = Some d" "no_filters (fl_endpoint F)" for v d
    proof (cases "v = u")
      case True
      have "lc_from K ` objs_after x (st_objs T u s) \<subseteq> engaged_after K e x (st_objs T u s) (engaged (fl_endpoint F) s) \<union> M"
        by (rule objects_engaged [OF at]) (use filt that(2) fleet_invD(3) [OF inv e that(2)] in simp_all)
      then show ?thesis unfolding True objs after by blast
    next
      case False
      have "st_home T cl \<noteq> u" if "cl \<in> lc_from K ` st_objs T v s" for cl
        using that fleet_invD(2) [OF inv \<open>pv_watchedEndpoints p v = Some d\<close>] False by auto
      then show ?thesis unfolding others [OF that(1) False] after
        using fleet_invD(3) [OF inv that] engaged_elsewhere [OF at] by blast
    qed
    show "cl \<in> L \<inter> engaged (fl_endpoint F) s' \<or> served K T p s' cl c" if c: "provider_Get F cl s' = Inr c" for cl c
    proof (cases "cl \<in> L")
      case True
      then show ?thesis using c by (auto simp: engaged_provider)
    next
      case False
      have cl': "cl \<in> engaged_after K e x (st_objs T u s) (engaged (fl_endpoint F) s)"
        unfolding after [symmetric] engaged_provider using c by (rule exI)
      consider (old) "provider_Get F cl s = Inr c" | (new) "cl = lc_from K (changed_object x)" "built e cl c"
        using grows c by blast
      then show ?thesis
      proof cases
        case old
        then obtain d where d: "pv_watchedEndpoints p (st_home T cl) = Some d" "built d cl c"
          "cl \<in> lc_from K ` st_objs T (st_home T cl) s"
          using fleet_invD(4) [OF inv old] False unfolding served_def by blast
        have "cl \<in> lc_from K ` st_objs T (st_home T cl) s'"
        proof (cases "st_home T cl = u")
          case True
          then show ?thesis using engaged_has_object [OF at cl'] d(3) objs by simp
        next
          case False
          then show ?thesis using d others by simp
        qed
        then show ?thesis using d unfolding served_def by blast
      next
        case new
        then have "st_home T cl = u" using change_at_home [OF at] by simp
        moreover have "cl \<in> lc_from K ` st_objs T u s'"
          unfolding objs by (rule engaged_has_object [OF at cl']) (simp add: new(1))
        ultimately show ?thesis using e new(2) unfolding served_def by blast
      qed
    qed
  qed (rule fleet_invD(1) [OF inv])
qed

lemma given_up_inv:
  assumes inv: "fleet_inv K F U T (p, s, L, M)" and gone: "\<forall>cl \<in> G. is_err (provider_Get F cl s')"
    and rest: "\<forall>cl. cl \<notin> G \<longrightarrow> provider_Get F cl s' = provider_Get F cl s" and same: "\<forall>u. st_objs T u s' = st_objs T u s"
  shows "fleet_inv K F U T (p, s', L - G, M \<union> G)"
proof (rule fleet_invI)
  have left: "engaged (fl_endpoint F) s \<subseteq> engaged (fl_endpoint F) s' \<union> G"
    using rest by (auto simp: engaged_provider)
  show "lc_from K ` st_objs T u s' \<subseteq> engaged (fl_endpoint F) s' \<union> (M \<union> G)"
    if "pv_watchedEndpoints p u = Some e" "no_filters (fl_endpoint F)" for u e
    unfolding same [rule_format] using fleet_invD(3) [OF inv that] left by blast
  show "cl \<in> L - G \<or> served K T p s' cl c" if c: "provider_Get F cl s' = Inr c" for cl c
  proof -
    have "cl \<notin> G" using c gone by auto
    then show ?thesis using fleet_invD(4) [OF inv, of cl c] rest c same by (auto simp: served_def)
  qed
  show "st_home T (lc_from K ob) = u" if "pv_watchedEndpoints p u = Some e" "ob \<in> st_objs T u s'" for u e ob
    using fleet_invD(2) [OF inv that(1)] that(2) same by simp
qed (rule fleet_invD(1) [OF inv])

lemma view_inv:
  assumes "fleet_inv K F U T (p, s, L, M)" and "view F T s' = view F T s"
  shows "fleet_inv K F U T (p\<lparr> pv_aggregateCache := agg \<rparr>, s', L, M)"
proof -
  note v = assms(2) [unfolded view_eq]
  have eng: "engaged (fl_endpoint F) s' = engaged (fl_endpoint F) s" by (rule engaged_same) (simp add: v)
  note inv = fleet_invD [OF assms(1)]
  show ?thesis
    by (rule fleet_invI) (use inv(1) inv(2,3) [unfolded v [THEN conjunct2, rule_format, symmetric]] inv(4) v eng in \<open>simp_all add: served_def\<close>)
qed

lemma fleet_step_inv:
  assumes ok: "fleet_ok K acc F U T" and inv: "fleet_inv K F U T x" and "fleet_step K F T x y"
  shows "fleet_inv K F U T y"
  using assms(3)
proof cases
  case (worker Or Q got p s b calls p' s' L M)
  show ?thesis unfolding worker(2) by (rule worker_inv [OF ok inv [unfolded worker(1)] worker(3)])
next
  case (get_informer G ob p res p' s L M)
  obtain agg where "p' = p\<lparr> pv_aggregateCache := agg \<rparr>"
    using get_informer(3) by (auto simp: provider_GetAggregateInformer_def split: prod.splits)
  then show ?thesis unfolding get_informer(2) using view_inv [OF inv [unfolded get_informer(1)] refl] by simp
next
  case (add_handler cord ids g h q p s res agg s' L M)
  show ?thesis unfolding add_handler(2)
    by (rule view_inv [OF inv [unfolded add_handler(1)] AddEventHandler_keeps(1) [OF fleet_okD(5) [OF ok] add_handler(3)]])
next
  case (callback p u e x s s' L M)
  show ?thesis unfolding callback(2) by (rule callback_inv [OF ok inv [unfolded callback(1)] callback(3-5)])
next
  case (given_up G s s' p L M)
  show ?thesis unfolding given_up(2) by (rule given_up_inv [OF inv [unfolded given_up(1)] given_up(4-6)])
qed

lemma fleet_reach_inv:
  assumes "fleet_ok K acc F U T" and "fleet_reach K F T x"
  shows "fleet_inv K F U T x"
  using assms(2)
proof induction
  case (start s cfg)
  have "provider_Get F cl s \<noteq> Inr c" for cl c using start engaged_provider [of cl F s] by blast
  then show ?case by (simp add: fleet_inv_def)
next
  case (more x y)
  then show ?case using fleet_step_inv [OF assms(1)] by blast
qed

text \<open>
  Property C2. What the provider as a whole hands out, over every history of queue items, changes
  behind the watched endpoints, uses of the aggregate cache and clusters that the set of clusters
  drops. It is stated for objects of which each logical cluster has one URL, \<open>st_home\<close> (kcp keeps a
  logical cluster on one shard). \<open>Get\<close> gives for a logical cluster what was built on the
  configuration and the wildcard cache of the endpoint watched under that URL, which has an object
  of the cluster; the exception is \<open>L\<close>, the clusters engaged when their endpoint was stopped and
  not disengaged since, for which \<open>Get\<close> may still return what the stopped endpoint built. Without
  filters \<open>Get\<close> succeeds for every cluster that has an object behind a watched endpoint; the
  exception is \<open>M\<close>, those that the set of clusters dropped and no event engaged again, which
  happens when an endpoint is stopped, watched again, and only then loses its old clusters. No
  callback of a watched endpoint panics.
\<close>

theorem provider_serves_exactly:
  assumes "fleet_ok K acc F U T" and "fleet_reach K F T (p, s, L, M)"
  shows "(\<forall>cl c. provider_Get F cl s = Inr c \<longrightarrow> cl \<in> L \<or> served K T p s cl c) \<and>
    (no_filters (fl_endpoint F) \<longrightarrow> (\<forall>u e. pv_watchedEndpoints p u = Some e \<longrightarrow>
       (\<forall>ob \<in> st_objs T u s. lc_from K ob \<in> M \<or> \<not> is_err (provider_Get F (lc_from K ob) s)))) \<and>
    (\<forall>u e x. pv_watchedEndpoints p u = Some e \<longrightarrow> returned (observe K e (st_put T u) (st_del T u) x s))"
proof (intro conjI allI impI ballI)
  note inv = fleet_reach_inv [OF assms]
  show "cl \<in> L \<or> served K T p s cl c" if "provider_Get F cl s = Inr c" for cl c
    by (rule fleet_invD(4) [OF inv that])
  show "lc_from K ob \<in> M \<or> \<not> is_err (provider_Get F (lc_from K ob) s)"
    if "no_filters (fl_endpoint F)" "pv_watchedEndpoints p u = Some e" "ob \<in> st_objs T u s" for u e ob
  proof -
    have "lc_from K ob \<in> engaged (fl_endpoint F) s \<union> M" using fleet_invD(3) [OF inv that(2,1)] that(3) by blast
    then show ?thesis by (auto simp: engaged_provider)
  qed
  show "returned (observe K e (st_put T u) (st_del T u) x s)" if "pv_watchedEndpoints p u = Some e" for u e x
  proof -
    note m = fleet_invD(1) [OF inv \<open>pv_watchedEndpoints p u = Some e\<close>]
    from m obtain ctx cfg where W: "e = endpoint_for F ctx cfg (st_cache T u)" unfolding made_def by blast
    from m have u: "u \<in> U" by blast
    show ?thesis unfolding W by (rule observe_result(1) [OF fleet_okD(1) [OF assms(1) u]])
  qed
qed

subsection \<open>Witness\<close>

text \<open>Two URLs, whose caches are told apart by the length of their hosts; \<open>new\<close> makes the clusters.\<close>

record 'c demo_fleet_state =
  df_clusters :: "string \<rightharpoonup> 'c"
  df_objs :: "nat \<Rightarrow> kobject list"
  df_next :: nat

definition demo_fleet_crt :: "nat \<Rightarrow> (nat, 'c demo_fleet_state) crt" where
  "demo_fleet_crt ca = \<lparr> GVKForObject = (\<lambda>ob. Inr (ob_gvk ob)), RESTMapping = (\<lambda>_ _ _. Inr RESTScopeNameNamespace),
     SchemeNew = (\<lambda>g. Inr (Obj (empty_object TypedObject g))), gvk_String = (\<lambda>g. gvk_kind g),
     Cache_GetInformer = (\<lambda>_ s. (Inr 7, s)), is_SharedIndexInformer = (\<lambda>_. True),
     GetIndexer = (\<lambda>_ s. demo_indexer (df_objs s ca)), Cache_IndexField = (\<lambda>_ _ _ s. (None, s)),
     Cache_Start = (\<lambda>_ s. (None, s)) \<rparr>"

definition demo_fleet_endpoint :: "(nat, 'c) new_cluster \<Rightarrow> (nat, 'c, nat, 'c demo_fleet_state) watchedEndpoint" where
  "demo_fleet_endpoint new = \<lparr> we_ctx = 0,
     we_opts = \<lparr> ro_Scheme = 0, ro_EndpointSliceObject = demo_slice, ro_ExtractURLs = (\<lambda>_. Inr [''https://a'', ''https://bb'']),
        ro_ObjectToWatch = demo_obj [] [] [] [], ro_Log = 0, ro_NewCluster = new,
        ro_AddFilter = None, ro_UpdateFilter = None, ro_Handlers = [] \<rparr>,
     we_config = demo_cfg [], we_cache = 0, we_crt = demo_fleet_crt 0,
     we_getCluster = (\<lambda>n s. case df_clusters s n of None \<Rightarrow> Inl (Foreign ''not found'') | Some c \<Rightarrow> Inr c),
     we_addCluster = (\<lambda>n c s. (None, s\<lparr> df_clusters := (df_clusters s)(n \<mapsto> c) \<rparr>)),
     we_removeCluster = (\<lambda>n s. s\<lparr> df_clusters := (df_clusters s)(n := None) \<rparr>),
     we_getRecorderProvider = (\<lambda>_ _ s. (Inr 3, s)), we_stopRecorderProvider = (\<lambda>_ s. Ret s) \<rparr>"

definition demo_fleet :: "(nat, 'c) new_cluster \<Rightarrow> (nat, 'c, nat, string, nat, 'c demo_fleet_state) fleet" where
  "demo_fleet new = \<lparr> fl_with_cancel = (\<lambda>s. (df_next s, s\<lparr> df_next := Suc (df_next s) \<rparr>)), fl_cancel = (\<lambda>_ s. s),
     fl_wildcard = \<lparr> default_scheme = 0, HTTPClientFor = (\<lambda>_. Inr 0), NewDynamicRESTMapper = (\<lambda>_ _. Inr 0),
        cache_New = (\<lambda>cfg _. Inr (length (cfg_host cfg))) \<rparr>,
     fl_crt = demo_fleet_crt, fl_add = (\<lambda>_ W s. (None, s\<lparr> df_objs := (df_objs s)(we_cache W := []) \<rparr>)), fl_go = (\<lambda>_ s. s),
     fl_endpoint = demo_fleet_endpoint new,
     fl_shards = \<lparr> sh_informer = (\<lambda>c _ s. (Inr c, s)), sh_add = (\<lambda>_ _ _ s. (Inr 0, s)),
        sh_remove = (\<lambda>_ _ s. (None, s)), sh_synced = (\<lambda>_ _. True), sh_reg_synced = (\<lambda>_ _. True) \<rparr> \<rparr>"

definition demo_fleet_cache :: "string \<Rightarrow> nat" where
  "demo_fleet_cache u = length (cfg_host (wildcard_config (demo_cfg u)))"

definition demo_stores :: "'c demo_fleet_state stores" where
  "demo_stores = \<lparr> st_objs = (\<lambda>u s. set (df_objs s (demo_fleet_cache u))),
     st_put = (\<lambda>u ob s. s\<lparr> df_objs := (df_objs s)(demo_fleet_cache u := ob # df_objs s (demo_fleet_cache u)) \<rparr>),
     st_del = (\<lambda>u ob s. s\<lparr> df_objs := (df_objs s)(demo_fleet_cache u := removeAll ob (df_objs s (demo_fleet_cache u))) \<rparr>),
     st_cache = demo_fleet_cache, st_home = (\<lambda>cl. if cl = ''c1'' then ''https://a'' else ''https://bb'') \<rparr>"

abbreviation demo_urls2 :: "string set" where "demo_urls2 \<equiv> {''https://a'', ''https://bb''}"

lemma demo_fleet_caches: "demo_fleet_cache ''https://a'' = 20" "demo_fleet_cache ''https://bb'' = 21"
  by (simp_all add: demo_fleet_cache_def wildcard_config_def demo_cfg_def trim_suffix_def has_suffix_def)

lemma demo_fleet_Get: "provider_Get (demo_fleet new) n s = (case df_clusters s n of None \<Rightarrow> Inl (Foreign ''not found'') | Some c \<Rightarrow> Inr c)"
  by (simp add: provider_Get_def demo_fleet_def demo_fleet_endpoint_def)

lemma demo_fleet_engaged: "engaged (demo_fleet_endpoint new) s = dom (df_clusters s)"
  by (auto simp: engaged_def demo_fleet_endpoint_def split: option.splits)

lemma demo_fleet_informer: "snd (GetSharedInformer (demo_fleet_crt ca) ob s) = s"
  by (simp add: GetSharedInformer_def demo_fleet_crt_def Let_def split: sum.split objclass.split any_value.split)

lemma demo_fleet_wildcard: "NewWildcardCache (fl_wildcard (demo_fleet new)) cfg opts = Inr wc \<Longrightarrow> wc_Cache wc = demo_fleet_cache (cfg_host cfg)"
  by (auto simp: NewWildcardCache_def demo_fleet_def demo_fleet_cache_def wildcard_config_def demo_cfg_def Let_def
      split: sum.splits option.splits)

lemma demo_fleet_ok:
  assumes total: "\<forall>cfg n ca sch p. \<exists>c. new cfg n ca sch p = Inr c"
  shows "fleet_ok demo_kcp demo_accessor (demo_fleet new) demo_urls2 demo_stores"
  unfolding fleet_ok_def
proof (intro conjI ballI allI impI)
  fix u ctx cfg
  let ?W = "endpoint_for (demo_fleet new) ctx cfg (demo_fleet_cache u)"
  have sh: "GetSharedInformer (demo_fleet_crt ca) (demo_obj [] [] [] []) s = (Inr (7, nonlist_gvk demo_gvk, RESTScopeNameNamespace), s)" for ca s
    by (simp add: GetSharedInformer_def demo_fleet_crt_def)
  have sel: "fl_endpoint (demo_fleet new) = (demo_fleet_endpoint new)" "fl_crt (demo_fleet new) = demo_fleet_crt"
    by (simp_all add: demo_fleet_def)
  have "endpoint_ok demo_kcp demo_accessor ?W (st_objs demo_stores u) (st_put demo_stores u) (st_del demo_stores u)"
    unfolding endpoint_ok_def endpoint_for_engaged sel demo_fleet_engaged
  proof (intro conjI allI)
    fix s
    show "\<exists>i g sc s'. GetSharedInformer (we_crt ?W) (ro_ObjectToWatch (we_opts ?W)) s = (Inr (i, g, sc), s') \<and>
        dom (df_clusters s') = dom (df_clusters s) \<and> st_objs demo_stores u s' = st_objs demo_stores u s \<and>
        cluster_indexed demo_kcp demo_accessor (GetIndexer (we_crt ?W) i s') \<and>
        set (ListAll (GetIndexer (we_crt ?W) i s')) = Obj ` st_objs demo_stores u s"
      by (simp add: sel sh demo_fleet_endpoint_def demo_stores_def) (simp add: demo_fleet_crt_def demo_indexer_ok)
  next
    fix E S
    show "keeping_handlers (\<lambda>s. dom (df_clusters s) = E \<and> st_objs demo_stores u s = S) (ro_Handlers (we_opts ?W))"
      by unfold_locales (simp_all add: sel demo_fleet_endpoint_def)
  qed (auto simp: sel total demo_kcp_ok demo_accessor_ok demo_fleet_endpoint_def demo_stores_def)
  then show "endpoint_ok demo_kcp demo_accessor (endpoint_for (demo_fleet new) ctx cfg (st_cache demo_stores u))
      (st_objs demo_stores u) (st_put demo_stores u) (st_del demo_stores u)"
    by (simp add: demo_stores_def)
next
  show "clusters_ok (demo_fleet new) demo_stores"
    unfolding clusters_ok_def
  proof (intro conjI allI)
    show "keeping_handlers (\<lambda>s. provider_Get (demo_fleet new) m s = q) (ro_Handlers (we_opts (fl_endpoint (demo_fleet new))))" for m q
      by unfold_locales (simp_all add: demo_fleet_def demo_fleet_endpoint_def)
  qed (simp_all add: demo_fleet_Get, simp_all add: demo_fleet_def demo_fleet_endpoint_def demo_stores_def demo_fleet_informer)
next
  show "starting_ok (demo_fleet new) demo_urls2 demo_stores"
    unfolding starting_ok_def view_eq demo_fleet_Get
  proof (intro conjI allI impI)
    show "wc_Cache wc = st_cache demo_stores (cfg_host cfg)" if "NewWildcardCache (fl_wildcard (demo_fleet new)) cfg opts = Inr wc" for cfg opts wc
      using demo_fleet_wildcard [OF that] by (simp add: demo_stores_def)
  qed (auto simp: demo_fleet_def demo_stores_def demo_fleet_crt_def demo_fleet_caches)
next
  show "stores_apart (demo_fleet new) demo_urls2 demo_stores"
    by (auto simp: stores_apart_def demo_stores_def demo_fleet_caches) (auto simp: demo_fleet_def demo_fleet_informer)
next
  show "shards_keep (fl_shards (demo_fleet new)) (view (demo_fleet new) demo_stores)"
    by (simp add: shards_keep_def) (simp add: demo_fleet_def)
next
  show "set urls \<subseteq> demo_urls2" if "ro_ExtractURLs (we_opts (fl_endpoint (demo_fleet new))) ob = Inr urls" for ob urls
    using that by (auto simp: demo_fleet_def demo_fleet_endpoint_def)
qed

lemma demo_fleet_starts: "starts_ok (fleet_env (demo_fleet new)) (\<lambda>_. True)"
  by (simp add: starts_ok_def fleet_env_def newWatchedEndpoint_def NewWildcardCache_def we_start_def demo_fleet_def
      demo_fleet_endpoint_def demo_fleet_crt_def Let_def)

definition demo_fleet_start :: "'c demo_fleet_state" where
  "demo_fleet_start = \<lparr> df_clusters = Map.empty, df_objs = (\<lambda>_. []), df_next = 0 \<rparr>"

text \<open>The worker starts both endpoints.\<close>

lemma demo_fleet_watching:
  fixes new :: "(nat, 'c) new_cluster"
  assumes total: "\<forall>cfg n ca sch p. \<exists>c. new cfg n ca sch p = Inr c"
  shows "\<exists>p s. fleet_reach demo_kcp (demo_fleet new) demo_stores (p, s, {}, {}) \<and> dom (pv_watchedEndpoints p) = demo_urls2 \<and>
    (\<forall>u \<in> demo_urls2. st_objs demo_stores u s = {})"
proof -
  let ?p = "\<lparr> pv_config = demo_cfg ''https://kcp'', pv_watchedEndpoints = Map.empty, pv_aggregateCache = NewAggregateCache \<rparr>
      :: ((nat, 'c, nat, 'c demo_fleet_state) watchedEndpoint, nat, string, nat) provider"
  let ?Q = "\<lparr> qe_split = (\<lambda>k. Inr ([], k)), qe_get = (\<lambda>_ _ _. Inr demo_slice), qe_not_found = (\<lambda>_. False) \<rparr>"
  obtain b calls p s where run: "processNextEndpointSlice (fleet_env (demo_fleet new)) sorted_orders ?Q (Some ''slice'') ?p demo_fleet_start =
      (b, calls, p, s)" by (metis prod.collapse)
  obtain err p1 s1 where up: "endpointSliceUpdate (fleet_env (demo_fleet new)) sorted_orders demo_slice ?p demo_fleet_start = (err, p1, s1)"
    by (metis prod.collapse)
  have none: "engaged (fl_endpoint (demo_fleet new)) demo_fleet_start = {}"
    by (auto simp: engaged_provider demo_fleet_Get demo_fleet_start_def)
  have "fleet_reach demo_kcp (demo_fleet new) demo_stores (?p, demo_fleet_start, {}, {})" by (rule fleet_reach.start [OF none])
  from fleet_reach.more [OF this fleet_step.worker [OF run]]
  have reach: "fleet_reach demo_kcp (demo_fleet new) demo_stores (p, s, {}, {})" by (simp add: none left_behind_def)
  have "p = p1" using run up by (auto simp: processNextEndpointSlice_def split: option.splits)
  have fin: "finite (dom (pv_watchedEndpoints ?p))" by simp
  have "pe_ExtractURLs (fleet_env (demo_fleet new)) demo_slice = Inr [''https://a'', ''https://bb'']"
    by (simp add: fleet_env_def demo_fleet_def demo_fleet_endpoint_def)
  from update_exact(1) [OF sorted_orders_ok demo_fleet_starts fin this up]
  have dom: "dom (pv_watchedEndpoints p) = demo_urls2" unfolding \<open>p = p1\<close> by auto
  obtain p2 s2 where g: "grown (demo_fleet new) demo_urls2 demo_stores ?p demo_fleet_start p2 s2"
    and sh: "shrunk (demo_fleet new) demo_stores p2 s2 p s"
    using worker_result [OF demo_fleet_ok [OF total] run] by blast
  have empty: "st_objs demo_stores u s = {}" if u: "u \<in> dom (pv_watchedEndpoints p)" for u
  proof -
    obtain e where e: "pv_watchedEndpoints p u = Some e" using u by blast
    have le: "pv_watchedEndpoints p \<subseteq>\<^sub>m pv_watchedEndpoints p2" using sh unfolding shrunk_def by (elim conjE)
    have "pv_watchedEndpoints p2 u = Some e" using bspec [OF le [unfolded map_le_def] u] e by simp
    then have "st_objs demo_stores u s2 = {}" using grownD(4) [OF g] by simp
    then show ?thesis using sh unfolding shrunk_def view_eq by simp
  qed
  show ?thesis by (intro exI conjI ballI, rule reach, rule dom) (rule empty, unfold dom)
qed

lemma demo_fleet_new:
  fixes new :: "(nat, 'c) new_cluster"
  assumes total: "\<forall>cfg n ca sch p. \<exists>c. new cfg n ca sch p = Inr c"
    and reach: "fleet_reach demo_kcp (demo_fleet new) demo_stores (p, s, {}, {})" and u: "u \<in> dom (pv_watchedEndpoints p)"
    and home: "st_home (demo_stores :: 'c demo_fleet_state stores) (lc_from demo_kcp ob) = u"
  shows "\<exists>s'. fleet_reach demo_kcp (demo_fleet new) demo_stores (p, s', {}, {}) \<and> st_objs demo_stores u s' = insert ob (st_objs demo_stores u s) \<and>
    (\<forall>v \<in> dom (pv_watchedEndpoints p) - {u}. st_objs demo_stores v s' = st_objs demo_stores v s)"
proof -
  obtain e where e: "pv_watchedEndpoints p u = Some e" using u by blast
  note m = fleet_invD(1) [OF fleet_reach_inv [OF demo_fleet_ok [OF total] reach] e]
  then obtain ctx cfg where W: "e = endpoint_for (demo_fleet new) ctx cfg (st_cache (demo_stores :: 'c demo_fleet_state stores) u)" unfolding made_def by (elim conjE exE) (rule that)
  note ok = fleet_okD(1) [OF demo_fleet_ok [OF total] conjunct1 [OF m], of ctx cfg, folded W]
  obtain s' where s': "observe demo_kcp e (st_put demo_stores u) (st_del demo_stores u) (NewObject ob) s = Ret s'"
    "st_objs demo_stores u s' = objs_after (NewObject ob) (st_objs demo_stores u s)"
    using observe_eval [OF ok] by blast
  have "change_at demo_kcp (st_home (demo_stores :: 'c demo_fleet_state stores)) u (NewObject ob)" using home by simp
  from fleet_reach.more [OF reach fleet_step.callback [OF e this s'(1)]]
  have "fleet_reach demo_kcp (demo_fleet new) demo_stores (p, s', {}, {})" by simp
  moreover have "st_objs demo_stores v s' = st_objs demo_stores v s" if v: "v \<in> dom (pv_watchedEndpoints p) - {u}" for v
  proof -
    obtain d where d: "pv_watchedEndpoints p v = Some d" "v \<noteq> u" using v by auto
    note vU = conjunct1 [OF fleet_invD(1) [OF fleet_reach_inv [OF demo_fleet_ok [OF total] reach] d(1)]]
    show ?thesis by (rule observe_others [OF demo_fleet_ok [OF total] conjunct1 [OF m] vU d(2) W s'(1)])
  qed
  ultimately show ?thesis using s'(2) by (intro exI [of _ s']) simp
qed

definition demo_cache_cluster :: "(nat, nat) new_cluster" where
  "demo_cache_cluster = (\<lambda>_ _ ca _ _. Inr ca)"

lemma demo_cache_cluster: "\<forall>cfg n ca sch p. \<exists>c. demo_cache_cluster cfg n ca sch p = Inr c"
  by (simp add: demo_cache_cluster_def)

theorem provider_serves_exactly_witness:
  "\<exists>p s. fleet_reach demo_kcp (demo_fleet demo_cache_cluster) demo_stores (p, s, {}, {}) \<and>
     provider_Get (demo_fleet demo_cache_cluster) ''c1'' s = Inr 20 \<and> provider_Get (demo_fleet demo_cache_cluster) ''c2'' s = Inr 21"
proof -
  let ?T = "demo_stores :: nat demo_fleet_state stores"
  let ?a = "demo_obj ''c1'' [] ''a'' []" and ?b = "demo_obj ''c2'' [] ''b'' []"
  obtain p s where r0: "fleet_reach demo_kcp (demo_fleet demo_cache_cluster) demo_stores (p, s, {}, {})" and dom: "dom (pv_watchedEndpoints p) = demo_urls2"
    using demo_fleet_watching [OF demo_cache_cluster] by (elim exE conjE) (rule that)
  obtain ea eb where e: "pv_watchedEndpoints p ''https://a'' = Some ea" "pv_watchedEndpoints p ''https://bb'' = Some eb"
    using dom by (metis domD insertCI)
  have homes: "st_home ?T (lc_from demo_kcp ?a) = ''https://a''" "st_home ?T (lc_from demo_kcp ?b) = ''https://bb''"
    by (simp_all add: demo_stores_def)
  have free: "no_filters (fl_endpoint (demo_fleet demo_cache_cluster))" by (simp add: no_filters_def demo_fleet_def demo_fleet_endpoint_def)
  have cache: "c = demo_fleet_cache (st_home ?T cl)" if r: "fleet_reach demo_kcp (demo_fleet demo_cache_cluster) demo_stores (p, t, {}, {})"
    and "provider_Get (demo_fleet demo_cache_cluster) cl t = Inr c" for t cl c
  proof -
    have "served demo_kcp ?T p t cl c"
      using provider_serves_exactly [OF demo_fleet_ok [OF demo_cache_cluster] r, THEN conjunct1] that(2) by simp
    then obtain d where d: "pv_watchedEndpoints p (st_home ?T cl) = Some d" "built d cl c"
      unfolding served_def by blast
    then obtain ctx cfg where "d = endpoint_for (demo_fleet demo_cache_cluster) ctx cfg (st_cache ?T (st_home ?T cl))"
      using fleet_invD(1) [OF fleet_reach_inv [OF demo_fleet_ok [OF demo_cache_cluster] r] d(1)] unfolding made_def by blast
    then show ?thesis using d(2) by (simp add: built_def demo_fleet_def demo_fleet_endpoint_def demo_stores_def demo_cache_cluster_def)
  qed
  have found: "provider_Get (demo_fleet demo_cache_cluster) (lc_from demo_kcp ob) t = Inr (demo_fleet_cache u)"
    if "fleet_reach demo_kcp (demo_fleet demo_cache_cluster) demo_stores (p, t, {}, {})" "pv_watchedEndpoints p u = Some d" "ob \<in> st_objs demo_stores u t"
      "st_home ?T (lc_from demo_kcp ob) = u" for ob t u d
  proof -
    have "\<not> is_err (provider_Get (demo_fleet demo_cache_cluster) (lc_from demo_kcp ob) t)"
      using provider_serves_exactly [OF demo_fleet_ok [OF demo_cache_cluster] that(1), THEN conjunct2, THEN conjunct1, rule_format, OF free that(2,3)]
      by simp
    then obtain c where c: "provider_Get (demo_fleet demo_cache_cluster) (lc_from demo_kcp ob) t = Inr c"
      by (cases "provider_Get (demo_fleet demo_cache_cluster) (lc_from demo_kcp ob) t") auto
    show ?thesis using c cache [OF that(1) c] unfolding that(4) by simp
  qed
  obtain s1 where s1: "fleet_reach demo_kcp (demo_fleet demo_cache_cluster) demo_stores (p, s1, {}, {})" "?a \<in> st_objs demo_stores ''https://a'' s1"
    using demo_fleet_new [OF demo_cache_cluster r0 _ homes(1)] by (auto simp: dom)
  have "''https://bb'' \<in> dom (pv_watchedEndpoints p)" using e(2) by blast
  from demo_fleet_new [OF demo_cache_cluster s1(1) this homes(2)]
  obtain s2 where s2: "fleet_reach demo_kcp (demo_fleet demo_cache_cluster) demo_stores (p, s2, {}, {})" "st_objs demo_stores ''https://bb'' s2 = insert ?b (st_objs demo_stores ''https://bb'' s1)"
    "\<forall>v \<in> dom (pv_watchedEndpoints p) - {''https://bb''}. st_objs demo_stores v s2 = st_objs demo_stores v s1"
    by (elim exE conjE) (rule that)
  have "?a \<in> st_objs demo_stores ''https://a'' s2" using s2(3) s1(2) dom by simp
  from found [OF s2(1) e(1) this homes(1)] found [OF s2(1) e(2) _ homes(2)] s2(2)
  have "provider_Get (demo_fleet demo_cache_cluster) ''c1'' s2 = Inr 20" "provider_Get (demo_fleet demo_cache_cluster) ''c2'' s2 = Inr 21"
    by (simp_all add: demo_fleet_caches)
  then show ?thesis using s2(1) by blast
qed

end
