(* ===== verification/EndpointRecorders.thy ===== *)
theory EndpointRecorders
  imports RecorderHeap Fleet
begin

text \<open>
  The provider with its recorder manager, as \<open>NewProvider\<close> of \<^verbatim>\<open>pkg/provider/provider.go\<close> connects
  them: every endpoint gets \<open>GetProvider\<close> and \<open>StopProvider\<close> of the one manager. \<open>StopProvider\<close> is
  called only by \<open>DeleteFunc\<close>, for a cluster whose last object goes; the queue worker that stops
  an endpoint cancels its context and removes its cache, and tells the manager nothing.
\<close>

subsection \<open>Who writes the recorder manager\<close>

text \<open>A part of the state that starting and stopping endpoints does not change.\<close>

definition quiet :: "('p, 'c, 'i, 'h, 'r, 's) fleet \<Rightarrow> ('s \<Rightarrow> 'v) \<Rightarrow> bool" where
  "quiet F v \<longleftrightarrow> (\<forall>s. v (snd (fl_with_cancel F s)) = v s) \<and> (\<forall>ctx s. v (fl_cancel F ctx s) = v s) \<and>
     (\<forall>ctx s. v (fl_go F ctx s) = v s) \<and> (\<forall>ca ob s. v (snd (Cache_GetInformer (fl_crt F ca) ob s)) = v s) \<and>
     (\<forall>i W s. v (snd (fl_add F i W s)) = v s) \<and> shards_keep (fl_shards F) v"

lemma quietD:
  assumes "quiet F v"
  shows "v (snd (fl_with_cancel F s)) = v s" and "v (fl_cancel F ctx s) = v s" and "v (fl_go F ctx s) = v s"
    and "v (snd (Cache_GetInformer (fl_crt F ca) ob s)) = v s" and "v (snd (fl_add F i W s)) = v s"
    and "shards_keep (pe_shards (fleet_env F)) v"
  using assms by (simp_all add: quiet_def fleet_env_def)

lemma quiet_we_start:
  assumes "quiet F v" and "we_crt W = fl_crt F ca"
  shows "v (snd (we_start (fl_add F) (fl_go F) W s)) = v s"
proof -
  obtain i s1 where i: "Cache_GetInformer (we_crt W) (ro_ObjectToWatch (we_opts W)) s = (i, s1)" by fastforce
  have s1: "v s1 = v s" using quietD(4) [OF assms(1), of ca "ro_ObjectToWatch (we_opts W)" s] i assms(2) by simp
  show ?thesis
  proof (cases i)
    case (Inl err)
    then show ?thesis using i s1 by (simp add: we_start_def)
  next
    case (Inr j)
    obtain q s2 where q: "fl_add F j W s1 = (q, s2)" by fastforce
    have "v s2 = v s1" using quietD(5) [OF assms(1), of j W s1] q by simp
    then show ?thesis using i Inr q s1 quietD(3) [OF assms(1)] by (cases q) (simp_all add: we_start_def)
  qed
qed

lemma quiet_start:
  assumes "quiet F v"
  shows "v (snd (pe_watchEndpointFunc (fleet_env F) cfg s)) = v s"
proof -
  obtain ctx s1 where ctx: "fl_with_cancel F s = (ctx, s1)" by fastforce
  have s1: "v s1 = v s" using quietD(1) [OF assms, of s] ctx by simp
  let ?opts = "\<lparr> co_Scheme = Some (ro_Scheme (we_opts (fl_endpoint F))), co_HTTPClient = None, co_Mapper = None \<rparr>"
  show ?thesis
  proof (cases "NewWildcardCache (fl_wildcard F) cfg ?opts")
    case (Inl err)
    then show ?thesis using s1 quietD(2) [OF assms] by (simp add: fleet_env_def newWatchedEndpoint_def ctx)
  next
    case (Inr wc)
    let ?W = "(fl_endpoint F)\<lparr> we_ctx := ctx, we_config := cfg, we_cache := wc_Cache wc, we_crt := fl_crt F (wc_Cache wc) \<rparr>"
    obtain r s2 where r: "we_start (fl_add F) (fl_go F) ?W s1 = (r, s2)" by fastforce
    have s2: "v s2 = v s1" using quiet_we_start [OF assms, of ?W "wc_Cache wc" s1] r by simp
    show ?thesis using Inr r s1 s2 quietD(2) [OF assms]
      by (cases r) (simp_all add: fleet_env_def newWatchedEndpoint_def ctx)
  qed
qed

lemma quiet_watch_loop:
  assumes "quiet F v"
  shows "watch_loop (fleet_env F) Or urls errs p s = (errs', p', s') \<Longrightarrow> v s' = v s"
proof (induction urls arbitrary: errs p s)
  case (Cons u urls)
  show ?case
  proof (cases "pv_watchedEndpoints p u")
    case (Some e)
    then show ?thesis using Cons by simp
  next
    case None
    let ?cfg = "(pv_config p)\<lparr> cfg_host := u \<rparr>"
    obtain r s1 where w: "pe_watchEndpointFunc (fleet_env F) ?cfg s = (r, s1)" by fastforce
    have s1: "v s1 = v s" using quiet_start [OF assms, of ?cfg s] w by simp
    show ?thesis
    proof (cases r)
      case (Inl err)
      then show ?thesis using Cons.IH Cons.prems None w s1 by fastforce
    next
      case (Inr e)
      let ?p = "p\<lparr> pv_watchedEndpoints := (pv_watchedEndpoints p)(u \<mapsto> e) \<rparr>"
      obtain agg s2 where agg: "AddCache (pe_shards (fleet_env F)) (or_informers Or (ac_informers (pv_aggregateCache ?p))) u
          (pe_wildcardCache (fleet_env F) e) (pv_aggregateCache ?p) s1 = (agg, s2)" by fastforce
      have "v s2 = v s1" by (rule AddCache_result(1) [OF quietD(6) [OF assms] agg])
      then show ?thesis using Cons.IH Cons.prems None w Inr agg s1 by fastforce
    qed
  qed
qed simp

lemma quiet_stop_loop:
  assumes "quiet F v"
  shows "stop_loop (fleet_env F) urls ks p s = (p', s') \<Longrightarrow> v s' = v s"
proof (induction ks arbitrary: p s)
  case (Cons k ks)
  obtain p1 s1 where d: "drop_endpoint (fleet_env F) k p s = (p1, s1)" by fastforce
  have "v s1 = v s" using d quietD(2) [OF assms] by (auto simp: drop_endpoint_def fleet_env_def split: option.splits)
  then show ?case using Cons d by (auto split: if_splits)
qed simp

lemma quiet_stop_each:
  assumes "quiet F v"
  shows "stop_each (fleet_env F) urls p s = (p', s') \<Longrightarrow> v s' = v s"
proof (induction urls arbitrary: p s)
  case (Cons u urls)
  show ?case
  proof (cases "pv_watchedEndpoints p u")
    case None
    then show ?thesis using Cons by simp
  next
    case (Some e)
    have "v (pe_cancel (fleet_env F) e s) = v s" using quietD(2) [OF assms] by (simp add: fleet_env_def)
    then show ?thesis using Cons Some by simp
  qed
qed simp

lemma quiet_worker:
  assumes "quiet F v" and run: "processNextEndpointSlice (fleet_env F) Or Q got p s = (b, calls, p', s')"
  shows "v s' = v s"
  using run
proof (cases rule: process_cases)
  case all
  then show ?thesis using quiet_stop_each [OF assms(1)] by (fastforce simp: stopAllWatchedEndpoints_def split: prod.splits)
next
  case (update ob err)
  show ?thesis
  proof (cases "pe_ExtractURLs (fleet_env F) ob")
    case (Inl e)
    then show ?thesis using update by (simp add: endpointSliceUpdate_def)
  next
    case (Inr urls)
    obtain errs p1 s1 where l1: "watch_loop (fleet_env F) Or urls [] p s = (errs, p1, s1)" by (metis prod.collapse)
    obtain p2 s2 where l2: "stop_loop (fleet_env F) urls (or_watched Or (pv_watchedEndpoints p1)) p1 s1 = (p2, s2)" by fastforce
    show ?thesis using update Inr l1 l2 quiet_watch_loop [OF assms(1) l1] quiet_stop_loop [OF assms(1) l2]
      by (simp add: endpointSliceUpdate_def)
  qed
qed simp

text \<open>
  The state \<open>s\<close> holds the one manager \<open>mg s\<close>. It answers the endpoints' lookups and stops; the set of
  clusters, the informers, the handlers and the starting and stopping of endpoints do not write it.
\<close>

definition managed_recorders ::
  "kcpapi \<Rightarrow> manager_env \<Rightarrow> (nat \<Rightarrow> events_env) \<Rightarrow> ('s \<Rightarrow> recorderManager)
     \<Rightarrow> (nat, 'c, 'i, 'h, 'r, 's) fleet \<Rightarrow> 's stores \<Rightarrow> bool" where
  "managed_recorders K M E mg F T \<longleftrightarrow> quiet F mg \<and>
     (\<forall>cfg n s. GetProvider K M cfg n (mg s) =
        Ret (fst (we_getRecorderProvider (fl_endpoint F) cfg n s), mg (snd (we_getRecorderProvider (fl_endpoint F) cfg n s)))) \<and>
     (\<forall>n s s'. we_stopRecorderProvider (fl_endpoint F) n s = Ret s' \<longrightarrow> StopProvider E n (mg s) = Ret (mg s')) \<and>
     (\<forall>n c s. mg (snd (we_addCluster (fl_endpoint F) n c s)) = mg s) \<and> (\<forall>n s. mg (we_removeCluster (fl_endpoint F) n s) = mg s) \<and>
     (\<forall>m. keeping_handlers (\<lambda>s. mg s = m) (ro_Handlers (we_opts (fl_endpoint F)))) \<and>
     (\<forall>u ob s. mg (st_put T u ob s) = mg s \<and> mg (st_del T u ob s) = mg s) \<and>
     (\<forall>ca ob s. mg (snd (GetSharedInformer (fl_crt F ca) ob s)) = mg s)"

lemma managed_recordersD:
  assumes "managed_recorders K M E mg F T"
  shows "quiet F mg"
    and "we_getRecorderProvider (fl_endpoint F) cfg n s = (r, s') \<Longrightarrow> GetProvider K M cfg n (mg s) = Ret (r, mg s')"
    and "we_stopRecorderProvider (fl_endpoint F) n s = Ret s' \<Longrightarrow> StopProvider E n (mg s) = Ret (mg s')"
    and "mg (snd (we_addCluster (fl_endpoint F) n c s)) = mg s" and "mg (we_removeCluster (fl_endpoint F) n s) = mg s"
    and "mg (RunOnAdd (ro_Handlers (we_opts (fl_endpoint F))) ob s) = mg s"
    and "mg (RunOnUpdate (ro_Handlers (we_opts (fl_endpoint F))) old ob s) = mg s"
    and "mg (RunOnDelete (ro_Handlers (we_opts (fl_endpoint F))) ob s) = mg s"
    and "mg (st_put T u ob s) = mg s" and "mg (st_del T u ob s) = mg s"
    and "mg (snd (GetSharedInformer (fl_crt F ca) ob s)) = mg s"
proof -
  have "\<And>m. keeping_handlers (\<lambda>s. mg s = m) (ro_Handlers (we_opts (fl_endpoint F)))"
    using assms by (simp add: managed_recorders_def)
  from keeping_run [OF this]
  show "mg (RunOnAdd (ro_Handlers (we_opts (fl_endpoint F))) ob s) = mg s"
    and "mg (RunOnUpdate (ro_Handlers (we_opts (fl_endpoint F))) old ob s) = mg s"
    and "mg (RunOnDelete (ro_Handlers (we_opts (fl_endpoint F))) ob s) = mg s"
    by simp_all
  show "GetProvider K M cfg n (mg s) = Ret (r, mg s')" if "we_getRecorderProvider (fl_endpoint F) cfg n s = (r, s')"
    using assms that unfolding managed_recorders_def by (metis fst_conv snd_conv)
qed (use assms in \<open>simp_all add: managed_recorders_def\<close>)

subsection \<open>A provider that stays\<close>

definition held :: "kcpapi \<Rightarrow> lcname \<Rightarrow> nat \<Rightarrow> rest_config \<Rightarrow> recorderManager \<Rightarrow> bool" where
  "held K cl pr cfg m \<longleftrightarrow> heap_typed K m \<and> rm_providers m cl = Some pr \<and> rp_config (rm_heap m pr) = cfg"

lemma held_lookup:
  assumes "held K cl pr cfg m" and "GetProvider K M cfg' n m = Ret (r, m')"
  shows "held K cl pr cfg m'"
proof -
  have m': "m' = snd (provider_goc K M cfg' n m)" using assms(2) by (auto simp: provider_goc_def split: sum.split)
  have h: "heap_typed K m" "rm_providers m cl = Some pr" "rp_config (rm_heap m pr) = cfg"
    using assms(1) by (simp_all add: held_def)
  show ?thesis
    unfolding held_def
  proof (intro conjI)
    show "heap_typed K m'" by (rule heap_typed_lookup [OF h(1) assms(2)])
    show "rm_providers m' cl = Some pr" unfolding m' by (rule mgr.goc_keeps [OF h(2)])
    show "rp_config (rm_heap m' pr) = cfg" unfolding m' using goc_heap(1) [OF heap_typedD(4) [OF h(1,2)]] h(3) by simp
  qed
qed

lemma held_created:
  assumes "heap_typed K m" and "rm_providers m cl = None" and "GetProvider K M cfg cl m = Ret (Inr pr, m')"
  shows "held K cl pr (aware_config K cfg cl) m'"
proof -
  have goc: "provider_goc K M cfg cl m = (Some pr, m')" using assms(3) by (simp add: provider_goc_eq)
  then have "rp_config (rm_heap m' pr) = aware_config K cfg cl"
    using assms(2) by (auto simp: provider_goc_cases Let_def new_recorderProvider_def split: sum.splits if_splits)
  then show ?thesis using heap_typed_lookup [OF assms(1,3)] mgr.goc_stored [OF goc] by (simp add: held_def)
qed

lemma held_stop:
  assumes "held K cl pr cfg m" and "n \<noteq> cl" and "\<forall>q. env_fine (E q)" and "StopProvider E n m = Ret m'"
  shows "held K cl pr cfg m'"
proof -
  have h: "heap_typed K m" "rm_providers m cl = Some pr" "rp_config (rm_heap m pr) = cfg"
    using assms(1) by (simp_all add: held_def)
  have typed: "heap_typed K m'" using StopProvider_typed [OF h(1) assms(3), of n] assms(4) by simp
  show ?thesis
  proof (cases "rm_providers m n")
    case None
    then show ?thesis using assms(1,4) by (simp add: StopProvider_def)
  next
    case (Some q)
    have "q \<noteq> pr" using heap_typedD(1) [OF h(1)] Some h(2) assms(2) unfolding manager_inv_def inj_on_def by (metis domI)
    then show ?thesis using assms(2,4) Some h typed
      by (cases "Stop_body (E q) (rm_heap m q)") (auto simp: StopProvider_def held_def)
  qed
qed

lemma held_event:
  assumes "held K cl pr cfg m" and "env_fine (E q)" and "q < rm_next m" and "x \<noteq> RStop"
    and "rec_step (E q) x (ls, rm_heap m q) = Ret (ls', h)"
  shows "held K cl pr cfg (m\<lparr> rm_heap := (rm_heap m)(q := h) \<rparr>)"
proof -
  have typed: "heap_typed K m" using assms(1) by (simp add: held_def)
  note rec_event_keeps [OF assms(2) heap_typedD(2) [OF typed assms(3)] assms(4,5)]
  then show ?thesis using heap_typed_event [where E = E and p = q and x = x, OF typed assms(2-5)] assms(1) by (auto simp: held_def)
qed

subsection \<open>What happens while a cluster moves\<close>

text \<open>
  The worker reconciles the endpoints or stops all; callbacks of any endpoint run, except delete
  callbacks of the cluster's own objects, which may stop its provider; recorders are looked up for
  any cluster and record events; and anything that does not write the manager happens, such as
  the set of clusters dropping those whose endpoint was stopped.
\<close>

fun keeps_cluster :: "kcpapi \<Rightarrow> lcname \<Rightarrow> change \<Rightarrow> bool" where
  "keeps_cluster K cl (GoneObject ob) \<longleftrightarrow> lc_from K ob \<noteq> cl"
| "keeps_cluster K cl (MissedDelete key ob) \<longleftrightarrow> lc_from K ob \<noteq> cl"
| "keeps_cluster K cl x \<longleftrightarrow> True"

inductive meanwhile ::
  "kcpapi \<Rightarrow> manager_env \<Rightarrow> (nat \<Rightarrow> events_env) \<Rightarrow> ('s \<Rightarrow> recorderManager) \<Rightarrow> (nat, 'c, 'i, 'h, 'r, 's) fleet \<Rightarrow> 's stores
     \<Rightarrow> lcname \<Rightarrow> ((nat, 'c, 'i, 's) watchedEndpoint, nat, 'h, 'r) provider \<times> 's
     \<Rightarrow> ((nat, 'c, 'i, 's) watchedEndpoint, nat, 'h, 'r) provider \<times> 's \<Rightarrow> bool"
  for K M E mg F T cl where
  nothing: "meanwhile K M E mg F T cl x x"
| worker: "meanwhile K M E mg F T cl x (p, s) \<Longrightarrow>
     processNextEndpointSlice (fleet_env F) Or Q got p s = (b, calls, p', s') \<Longrightarrow> meanwhile K M E mg F T cl x (p', s')"
| callback: "meanwhile K M E mg F T cl x (p, s) \<Longrightarrow> e = endpoint_for F ctx cfg ca \<Longrightarrow> keeps_cluster K cl y \<Longrightarrow>
     observe K e (st_put T u) (st_del T u) y s = Ret s' \<Longrightarrow> meanwhile K M E mg F T cl x (p, s')"
| lookup: "meanwhile K M E mg F T cl x (p, s) \<Longrightarrow> GetProvider K M cfg n (mg s) = Ret (r, mg s') \<Longrightarrow>
     meanwhile K M E mg F T cl x (p, s')"
| event: "meanwhile K M E mg F T cl x (p, s) \<Longrightarrow> q < rm_next (mg s) \<Longrightarrow> y \<noteq> RStop \<Longrightarrow>
     rec_step (E q) y (ls, rm_heap (mg s) q) = Ret (ls', h) \<Longrightarrow> mg s' = (mg s)\<lparr> rm_heap := (rm_heap (mg s))(q := h) \<rparr> \<Longrightarrow>
     meanwhile K M E mg F T cl x (p, s')"
| others: "meanwhile K M E mg F T cl x (p, s) \<Longrightarrow> mg s' = mg s \<Longrightarrow>
     pv_watchedEndpoints p' = pv_watchedEndpoints p \<Longrightarrow> meanwhile K M E mg F T cl x (p', s')"

text \<open>Additions and updates do not reach \<open>stopRecorderProvider\<close>, deletions only for their cluster.\<close>

lemma we_update_no_stop: "we_update K (W\<lparr> we_stopRecorderProvider := f \<rparr>) ob s = we_update K W ob s"
  by (simp add: we_update_def cong: sum.case_cong prod.case_cong)

lemma observe_no_stop:
  assumes "case x of NewObject ob \<Rightarrow> True | ChangedObject old ob \<Rightarrow> True | _ \<Rightarrow> False"
  shows "observe K (W\<lparr> we_stopRecorderProvider := f \<rparr>) put del x s = observe K W put del x s"
  using assms by (cases x) (simp_all add: we_AddFunc_def we_UpdateFunc_def we_update_no_stop cong: if_cong)

lemma callback_held:
  assumes ok: "managed_recorders K M E mg F T" and fine: "\<forall>q. env_fine (E q)" and W: "W = endpoint_for F ctx cfg ca"
    and keeps: "keeps_cluster K cl x" and run: "observe K W (st_put T u) (st_del T u) x s = Ret s'" and h: "held K cl pr c (mg s)"
  shows "held K cl pr c (mg s')"
proof -
  let ?R = "\<lambda>s s'. held K cl pr c (mg s) \<longrightarrow> held K cl pr c (mg s')"
  have R: "step_relation ?R" by unfold_locales simp_all
  have get: "held K cl pr c (mg t) \<longrightarrow> held K cl pr c (mg (snd (we_getRecorderProvider (fl_endpoint F) cfg' n t)))" for cfg' n t
    using held_lookup managed_recordersD(2) [OF ok] by (metis prod.collapse)
  note keep = managed_recordersD(4-11) [OF ok]
  have "?R s s'"
  proof (cases "case x of NewObject ob \<Rightarrow> True | ChangedObject old ob \<Rightarrow> True | _ \<Rightarrow> False")
    case True
    let ?V = "W\<lparr> we_stopRecorderProvider := (\<lambda>_. Ret) \<rparr>"
    have "allowed_by K ?R ?V (st_put T u) (st_del T u) (changed_object x)"
      unfolding allowed_by_def by (simp add: W keep R get)
    then show ?thesis by (rule observe_allowed) (simp add: observe_no_stop [OF True] run)
  next
    case False
    then have other: "lc_from K (changed_object x) \<noteq> cl" using keeps by (cases x) simp_all
    have stop: "held K cl pr c (mg t')" if "we_stopRecorderProvider (fl_endpoint F) (lc_from K (changed_object x)) t = Ret t'"
        and "held K cl pr c (mg t)" for t t'
      by (rule held_stop [OF that(2) other fine managed_recordersD(3) [OF ok that(1)]])
    have "allowed_by K ?R W (st_put T u) (st_del T u) (changed_object x)"
      unfolding allowed_by_def using stop by (simp add: W keep R get)
    then show ?thesis by (rule observe_allowed [OF _ run])
  qed
  then show ?thesis using h by simp
qed

lemma meanwhile_held:
  assumes "managed_recorders K M E mg F T" and "\<forall>q. env_fine (E q)" and "meanwhile K M E mg F T cl x y"
    and "held K cl pr c (mg (snd x))"
  shows "held K cl pr c (mg (snd y))"
  using assms(3,4)
proof (induction rule: meanwhile.induct)
  case (nothing x)
  then show ?case by simp
next
  case (worker x p s Or Q got b calls p' s')
  then show ?case using quiet_worker [OF managed_recordersD(1) [OF assms(1)] worker.hyps(2)] by simp
next
  case (callback x p s e ctx cfg ca y u s')
  then show ?case using callback_held [OF assms(1,2) callback.hyps(2-4)] by simp
next
  case (lookup x p s cfg n r s')
  then show ?case using held_lookup by simp
next
  case (event x p s q y ls ls' h s')
  then show ?case using held_event [of K cl pr c "mg s" E q y ls ls' h] assms(2) by simp
next
  case (others x p s s' p')
  then show ?case by simp
qed

text \<open>What \<open>update\<close> does when it engages a cluster.\<close>

lemma we_update_engages:
  assumes "we_update K W ob s = (None, s')" and "is_err (we_getCluster W (lc_string K (lc_from K ob)) s)"
  obtains pr s1 c where "we_getRecorderProvider W (we_config W) (lc_from K ob) s = (Inr pr, s1)"
    and "ro_NewCluster (we_opts W) (we_config W) (lc_from K ob) (we_cache W) (ro_Scheme (we_opts W)) pr = Inr c"
    and "we_addCluster W (lc_string K (lc_from K ob)) c s1 = (None, s')"
  using assms by (auto simp: we_update_def Let_def split: sum.splits prod.splits option.splits)

text \<open>
  Property C16. A logical cluster that comes back behind another endpoint keeps the recorder of the
  old one. One endpoint engages the cluster, for which the manager has no provider yet. Whatever
  happens then (the worker stops this endpoint and starts others, the set of clusters drops the
  cluster, other clusters come and go), as long as no delete callback of the cluster's own objects
  runs, which may stop the provider: the next endpoint that engages the cluster builds it with its
  own configuration but with the provider made for the first endpoint, which still sends to the
  host of the first endpoint. So an endpoint that goes, whose delete callbacks do not run, leaves
  its clusters' events going to a URL that is no longer served.
\<close>

theorem moved_cluster_keeps_old_recorder:
  assumes "managed_recorders K M E mg F T" and "\<forall>q. env_fine (E q)"
    and "mgr_reach K M E (mg s0)" and "rm_providers (mg s0) cl = None"
    and "lc_from K ob0 = cl" and "is_err (provider_Get F (lc_string K cl) s0)"
    and "we_update K (endpoint_for F ctx0 cfg0 ca0) ob0 s0 = (None, s1)"
    and "meanwhile K M E mg F T cl (p1, s1) (p2, s2)"
    and "lc_from K ob = cl" and "is_err (provider_Get F (lc_string K cl) s2)"
    and "we_update K (endpoint_for F ctx cfg ca) ob s2 = (None, s')"
  shows "\<exists>pr c s3. ro_NewCluster (we_opts (fl_endpoint F)) cfg cl ca (ro_Scheme (we_opts (fl_endpoint F))) pr = Inr c \<and>
    we_addCluster (fl_endpoint F) (lc_string K cl) c s3 = (None, s') \<and>
    rp_config (rm_heap (mg s') pr) = aware_config K cfg0 cl"
proof -
  note ok = managed_recordersD [OF assms(1)]
  have added: "mg t' = mg t" if "we_addCluster (fl_endpoint F) n c t = (r, t')" for n c t r t'
    using ok(4) [of n c t] that by simp
  obtain pr t c0 where first: "we_getRecorderProvider (fl_endpoint F) cfg0 cl s0 = (Inr pr, t)"
    "we_addCluster (fl_endpoint F) (lc_string K cl) c0 t = (None, s1)"
    using we_update_engages [OF assms(7)] assms(5,6) by (metis endpoint_for_sel(2,6,7,9))
  have "held K cl pr (aware_config K cfg0 cl) (mg s1)"
    unfolding added [OF first(2)] by (rule held_created [OF mgr_reach_typed [OF assms(3,2)] assms(4) ok(2) [OF first(1)]])
  then have h: "held K cl pr (aware_config K cfg0 cl) (mg s2)" using meanwhile_held [OF assms(1,2,8)] by simp
  obtain pr' s3 c where last: "we_getRecorderProvider (fl_endpoint F) cfg cl s2 = (Inr pr', s3)"
    "ro_NewCluster (we_opts (fl_endpoint F)) cfg cl ca (ro_Scheme (we_opts (fl_endpoint F))) pr' = Inr c"
    "we_addCluster (fl_endpoint F) (lc_string K cl) c s3 = (None, s')"
    using we_update_engages [OF assms(11)] assms(9,10) by (metis endpoint_for_sel(2,3,5,6,7,9))
  note look = ok(2) [OF last(1)]
  have "pr' = pr" using look h by (simp add: GetProvider_def held_def)
  moreover have "rp_config (rm_heap (mg s') pr) = aware_config K cfg0 cl"
    using held_lookup [OF h look] added [OF last(3)] by (simp add: held_def)
  ultimately show ?thesis using last(2,3) by blast
qed

subsection \<open>Witness\<close>

text \<open>
  A slice whose URL is its object's name, clusters that remember the recorder provider they were
  made with, and a state of engaged clusters and recorder manager.
\<close>

definition demo_moving :: "(nat, nat, nat, string, nat, (string \<rightharpoonup> nat) \<times> recorderManager) fleet" where
  "demo_moving = \<lparr> fl_with_cancel = (\<lambda>s. (1, s)), fl_cancel = (\<lambda>_ s. s),
     fl_wildcard = \<lparr> default_scheme = 0, HTTPClientFor = (\<lambda>_. Inr 0), NewDynamicRESTMapper = (\<lambda>_ _. Inr 0),
        cache_New = (\<lambda>_ _. Inr 0) \<rparr>,
     fl_crt = (\<lambda>_. \<lparr> GVKForObject = (\<lambda>ob. Inr (ob_gvk ob)), RESTMapping = (\<lambda>_ _ _. Inr RESTScopeNameNamespace),
       SchemeNew = (\<lambda>g. Inr (Obj (empty_object TypedObject g))), gvk_String = (\<lambda>g. gvk_kind g),
       Cache_GetInformer = (\<lambda>_ s. (Inr 7, s)), is_SharedIndexInformer = (\<lambda>_. True),
       GetIndexer = (\<lambda>_ s. demo_indexer []), Cache_IndexField = (\<lambda>_ _ _ s. (None, s)), Cache_Start = (\<lambda>_ s. (None, s)) \<rparr>),
     fl_add = (\<lambda>_ _ s. (None, s)), fl_go = (\<lambda>_ s. s),
     fl_endpoint = \<lparr> we_ctx = 0,
       we_opts = \<lparr> ro_Scheme = 0, ro_EndpointSliceObject = demo_slice, ro_ExtractURLs = (\<lambda>ob. Inr [ob_name ob]),
          ro_ObjectToWatch = demo_obj [] [] [] [], ro_Log = 0, ro_NewCluster = (\<lambda>_ _ _ _ p. Inr p),
          ro_AddFilter = None, ro_UpdateFilter = None, ro_Handlers = [] \<rparr>,
       we_config = demo_cfg [], we_cache = 0,
       we_crt = \<lparr> GVKForObject = (\<lambda>ob. Inr (ob_gvk ob)), RESTMapping = (\<lambda>_ _ _. Inr RESTScopeNameNamespace),
         SchemeNew = (\<lambda>g. Inr (Obj (empty_object TypedObject g))), gvk_String = (\<lambda>g. gvk_kind g),
         Cache_GetInformer = (\<lambda>_ s. (Inr 7, s)), is_SharedIndexInformer = (\<lambda>_. True),
         GetIndexer = (\<lambda>_ s. demo_indexer []), Cache_IndexField = (\<lambda>_ _ _ s. (None, s)), Cache_Start = (\<lambda>_ s. (None, s)) \<rparr>,
       we_getCluster = (\<lambda>n s. case fst s n of None \<Rightarrow> Inl (Foreign ''not found'') | Some c \<Rightarrow> Inr c),
       we_addCluster = (\<lambda>n c s. (None, ((fst s)(n \<mapsto> c), snd s))),
       we_removeCluster = (\<lambda>n s. ((fst s)(n := None), snd s)),
       we_getRecorderProvider = (\<lambda>cfg n s. case GetProvider demo_kcp demo_manager_env cfg n (snd s) of
          Ret (r, m) \<Rightarrow> (r, (fst s, m)) | Panic e \<Rightarrow> (Inl (Foreign e), s)),
       we_stopRecorderProvider = (\<lambda>n s. bind_outcome (StopProvider (\<lambda>_. demo_env) n (snd s)) (\<lambda>m. Ret (fst s, m))) \<rparr>,
     fl_shards = \<lparr> sh_informer = (\<lambda>c _ s. (Inr c, s)), sh_add = (\<lambda>_ _ _ s. (Inr 0, s)),
        sh_remove = (\<lambda>_ _ s. (None, s)), sh_synced = (\<lambda>_ _. True), sh_reg_synced = (\<lambda>_ _. True) \<rparr> \<rparr>"

definition demo_moving_stores :: "((string \<rightharpoonup> nat) \<times> recorderManager) stores" where
  "demo_moving_stores = \<lparr> st_objs = (\<lambda>_ _. {}), st_put = (\<lambda>_ _ s. s), st_del = (\<lambda>_ _ s. s), st_cache = (\<lambda>_. 0),
     st_home = (\<lambda>_. []) \<rparr>"

lemma demo_moving_managed:
  "managed_recorders demo_kcp demo_manager_env (\<lambda>_. demo_env) snd demo_moving demo_moving_stores"
  unfolding managed_recorders_def
proof (intro conjI allI impI)
  show "quiet demo_moving snd" by (simp add: quiet_def shards_keep_def demo_moving_def)
  show "GetProvider demo_kcp demo_manager_env cfg n (snd s) =
      Ret (fst (we_getRecorderProvider (fl_endpoint demo_moving) cfg n s),
        snd (snd (we_getRecorderProvider (fl_endpoint demo_moving) cfg n s)))" for cfg n s
  proof -
    obtain r m where "GetProvider demo_kcp demo_manager_env cfg n (snd s) = Ret (r, m)" using GetProvider_returns by blast
    then show ?thesis by (simp add: demo_moving_def)
  qed
  show "StopProvider (\<lambda>_. demo_env) n (snd s) = Ret (snd s')"
    if "we_stopRecorderProvider (fl_endpoint demo_moving) n s = Ret s'" for n s s'
    using that by (cases "StopProvider (\<lambda>_. demo_env) n (snd s)") (auto simp: demo_moving_def)
  show "keeping_handlers (\<lambda>s. snd s = m) (ro_Handlers (we_opts (fl_endpoint demo_moving)))" for m
    by unfold_locales (simp_all add: demo_moving_def)
qed (simp_all add: demo_moving_def demo_moving_stores_def GetSharedInformer_def Let_def
    split: sum.split objclass.split any_value.split)

definition demo_moving_provider ::
  "string \<Rightarrow> ((nat, nat, nat, (string \<rightharpoonup> nat) \<times> recorderManager) watchedEndpoint, nat, string, nat) provider" where
  "demo_moving_provider u = \<lparr> pv_config = demo_cfg ''https://kcp'',
     pv_watchedEndpoints = [u \<mapsto> endpoint_for demo_moving 1 (demo_cfg u) 0],
     pv_aggregateCache = NewAggregateCache\<lparr> ac_caches := [u \<mapsto> 0] \<rparr> \<rparr>"

abbreviation demo_slice_now :: "((string \<rightharpoonup> nat) \<times> recorderManager) queue_env" where
  "demo_slice_now \<equiv> \<lparr> qe_split = (\<lambda>k. Inr ([], k)), qe_get = (\<lambda>_ _ _. Inr (demo_obj ''root'' [] ''https://bb'' [])), qe_not_found = (\<lambda>_. False) \<rparr>"

lemma demo_moving_env:
  "pe_watchEndpointFunc (fleet_env demo_moving) cfg s = (Inr (endpoint_for demo_moving 1 cfg 0), s)"
  "pe_ExtractURLs (fleet_env demo_moving) ob = Inr [ob_name ob]" "pe_cancel (fleet_env demo_moving) e s = s"
  by (simp_all add: fleet_env_def newWatchedEndpoint_def NewWildcardCache_def we_start_def endpoint_for_def demo_moving_def Let_def)

text \<open>The slice moves from one URL to the other.\<close>

lemma demo_moving_run:
  "\<exists>p. processNextEndpointSlice (fleet_env demo_moving) \<lparr> or_watched = (\<lambda>_. [''https://a'', ''https://bb'']), or_informers = (\<lambda>_. []) \<rparr>
      demo_slice_now (Some ''slice'') (demo_moving_provider ''https://a'') s = (True, [Forget ''slice'', Done ''slice''], p, s) \<and>
     pv_watchedEndpoints p = [''https://bb'' \<mapsto> endpoint_for demo_moving 1 (demo_cfg ''https://bb'') 0]"
  by (simp add: processNextEndpointSlice_def endpointSliceUpdate_def demo_moving_provider_def demo_moving_env drop_endpoint_def
      demo_obj_def AddCache_def errors_Join_def demo_cfg_def)

lemma demo_moving_update:
  "we_update demo_kcp (endpoint_for demo_moving 1 (demo_cfg ''https://a'') 0) (demo_obj ''c1'' [] ''b'' []) (Map.empty, NewManager) =
     (None, ([''c1'' \<mapsto> 0], snd (provider_goc demo_kcp demo_manager_env (demo_cfg ''https://a'') ''c1'' NewManager)))" (is ?first)
  "we_update demo_kcp (endpoint_for demo_moving 1 (demo_cfg ''https://bb'') 0) (demo_obj ''c1'' [] ''b'' [])
       (Map.empty, snd (provider_goc demo_kcp demo_manager_env (demo_cfg ''https://a'') ''c1'' NewManager)) =
     (None, ([''c1'' \<mapsto> 0], snd (provider_goc demo_kcp demo_manager_env (demo_cfg ''https://a'') ''c1'' NewManager)))" (is ?second)
proof -
  have p: "provider_goc demo_kcp demo_manager_env (demo_cfg ''https://a'') ''c1'' NewManager =
      (Some 0, \<lparr> rm_providers = [''c1'' \<mapsto> 0], rm_heap = (rm_heap NewManager)(0 := new_recorderProvider
        (aware_config demo_kcp (demo_cfg ''https://a'') ''c1'')), rm_next = 1 \<rparr>)"
    by (simp add: provider_goc_cases NewManager_def demo_manager_env_def Let_def)
  note g = p [folded provider_goc_eq]
  have sel: "provider_Get demo_moving n s = (case fst s n of None \<Rightarrow> Inl (Foreign ''not found'') | Some c \<Rightarrow> Inr c)"
    "ro_NewCluster (we_opts (fl_endpoint demo_moving)) = (\<lambda>_ _ _ _ p. Inr p)"
    "we_addCluster (fl_endpoint demo_moving) n c s = (None, ((fst s)(n \<mapsto> c), snd s))"
    "we_getRecorderProvider (fl_endpoint demo_moving) cfg n s = (case GetProvider demo_kcp demo_manager_env cfg n (snd s) of
          Ret (r, m) \<Rightarrow> (r, (fst s, m)) | Panic e \<Rightarrow> (Inl (Foreign e), s))" for n c s cfg
    by (simp_all add: demo_moving_def provider_Get_def)
  show ?first by (simp add: we_update_def sel g p Let_def)
  show ?second by (simp add: we_update_def sel p GetProvider_def Let_def)
qed

theorem moved_cluster_keeps_old_recorder_witness:
  "\<exists>p m s. pv_watchedEndpoints (demo_moving_provider ''https://a'') = [''https://a'' \<mapsto> endpoint_for demo_moving 1 (demo_cfg ''https://a'') 0] \<and>
     pv_watchedEndpoints p = [''https://bb'' \<mapsto> endpoint_for demo_moving 1 (demo_cfg ''https://bb'') 0] \<and>
     meanwhile demo_kcp demo_manager_env (\<lambda>_. demo_env) snd demo_moving demo_moving_stores ''c1''
       (demo_moving_provider ''https://a'', ([''c1'' \<mapsto> 0], m)) (p, (Map.empty, m)) \<and>
     we_update demo_kcp (endpoint_for demo_moving 1 (demo_cfg ''https://bb'') 0) (demo_obj ''c1'' [] ''b'' []) (Map.empty, m) = (None, s) \<and>
     fst s = [''c1'' \<mapsto> 0] \<and> cfg_host (rp_config (rm_heap (snd s) 0)) = ''https://a/clusters/c1''"
proof -
  let ?m = "snd (provider_goc demo_kcp demo_manager_env (demo_cfg ''https://a'') ''c1'' NewManager)" and ?a = "demo_moving_provider ''https://a''"
  let ?mw = "meanwhile demo_kcp demo_manager_env (\<lambda>_. demo_env) snd demo_moving demo_moving_stores ''c1''"
  obtain p where run: "processNextEndpointSlice (fleet_env demo_moving) \<lparr> or_watched = (\<lambda>_. [''https://a'', ''https://bb'']), or_informers = (\<lambda>_. []) \<rparr>
      demo_slice_now (Some ''slice'') ?a ([''c1'' \<mapsto> 0], ?m) = (True, [Forget ''slice'', Done ''slice''], p, ([''c1'' \<mapsto> 0], ?m))"
    and p: "pv_watchedEndpoints p = [''https://bb'' \<mapsto> endpoint_for demo_moving 1 (demo_cfg ''https://bb'') 0]"
    using demo_moving_run [of "([''c1'' \<mapsto> 0], ?m)"] by (elim exE conjE) (rule that)
  have "?mw (?a, ([''c1'' \<mapsto> 0], ?m)) (p, ([''c1'' \<mapsto> 0], ?m))" by (rule meanwhile.worker [OF meanwhile.nothing run])
  then have mw: "?mw (?a, ([''c1'' \<mapsto> 0], ?m)) (p, (Map.empty, ?m))" by (rule meanwhile.others) simp_all
  have get: "is_err (provider_Get demo_moving n (Map.empty, m))" for n m by (simp add: demo_moving_def provider_Get_def)
  obtain pr c s3 where last: "ro_NewCluster (we_opts (fl_endpoint demo_moving)) (demo_cfg ''https://bb'') ''c1'' 0
      (ro_Scheme (we_opts (fl_endpoint demo_moving))) pr = Inr c"
    "we_addCluster (fl_endpoint demo_moving) (lc_string demo_kcp ''c1'') c s3 = (None, ([''c1'' \<mapsto> 0], ?m))"
    "rp_config (rm_heap (snd ([''c1'' \<mapsto> (0::nat)], ?m)) pr) = aware_config demo_kcp (demo_cfg ''https://a'') ''c1''"
    using moved_cluster_keeps_old_recorder [OF demo_moving_managed _ _ _ _ get demo_moving_update(1) mw _ get demo_moving_update(2)]
      demo_env_fine mgr_reach.start by (auto simp: NewManager_def)
  have "c = pr" using last(1) by (simp add: demo_moving_def)
  moreover have "(fst s3)(''c1'' \<mapsto> c) = [''c1'' \<mapsto> 0]" using last(2) by (simp add: demo_moving_def)
  then have "((fst s3)(''c1'' \<mapsto> c)) ''c1'' = Some 0" by simp
  then have "c = 0" by simp
  ultimately have host: "cfg_host (rp_config (rm_heap ?m 0)) = ''https://a/clusters/c1''"
    using last(3) by (simp add: aware_config_def demo_cfg_def)
  have a: "pv_watchedEndpoints ?a = [''https://a'' \<mapsto> endpoint_for demo_moving 1 (demo_cfg ''https://a'') 0]"
    by (simp add: demo_moving_provider_def)
  show ?thesis by (intro exI conjI, rule a, rule p, rule mw, rule demo_moving_update(2)) (simp_all add: host)
qed

end
