(* ===== verification/TwoEndpoints.thy ===== *)
theory TwoEndpoints
  imports Endpoint
begin

text \<open>
  Two endpoints of one provider (\<^verbatim>\<open>pkg/provider/provider.go\<close>): their callbacks share the set of
  clusters, while each looks for the remaining objects of a cluster in its own wildcard cache.
  What happens to a cluster that moves from one endpoint to the other.
\<close>

text \<open>
  The two share the clusters and nothing else: the informer and the callbacks of one leave the
  store of the other alone.
\<close>

definition share_clusters ::
  "kcpapi \<Rightarrow> ('p, 'c, 'i, 's) watchedEndpoint \<Rightarrow> ('s \<Rightarrow> kobject set) \<Rightarrow> (kobject \<Rightarrow> 's \<Rightarrow> 's) \<Rightarrow> (kobject \<Rightarrow> 's \<Rightarrow> 's)
     \<Rightarrow> ('p, 'c, 'i, 's) watchedEndpoint \<Rightarrow> ('s \<Rightarrow> kobject set) \<Rightarrow> bool" where
  "share_clusters K W1 objs1 put1 del1 W2 objs2 \<longleftrightarrow> (\<forall>s. engaged W1 s = engaged W2 s) \<and>
     (\<forall>x s s'. observe K W1 put1 del1 x s = Ret s' \<longrightarrow> objs2 s' = objs2 s)"

text \<open>One step of either endpoint: \<open>Inl\<close> a change behind the first, \<open>Inr\<close> behind the second.\<close>

fun observe_both ::
  "kcpapi \<Rightarrow> ('p, 'c, 'i, 's) watchedEndpoint \<Rightarrow> (kobject \<Rightarrow> 's \<Rightarrow> 's) \<Rightarrow> (kobject \<Rightarrow> 's \<Rightarrow> 's)
     \<Rightarrow> ('p, 'c, 'i, 's) watchedEndpoint \<Rightarrow> (kobject \<Rightarrow> 's \<Rightarrow> 's) \<Rightarrow> (kobject \<Rightarrow> 's \<Rightarrow> 's)
     \<Rightarrow> (change + change) list \<Rightarrow> 's \<Rightarrow> 's outcome" where
  "observe_both K W1 put1 del1 W2 put2 del2 [] s = Ret s"
| "observe_both K W1 put1 del1 W2 put2 del2 (Inl x # xs) s =
     bind_outcome (observe K W1 put1 del1 x s) (observe_both K W1 put1 del1 W2 put2 del2 xs)"
| "observe_both K W1 put1 del1 W2 put2 del2 (Inr x # xs) s =
     bind_outcome (observe K W2 put2 del2 x s) (observe_both K W1 put1 del1 W2 put2 del2 xs)"

subsection \<open>Single steps\<close>

lemma observe_new:
  assumes "endpoint_ok K acc W objs put del" and "no_filters W"
  shows "\<exists>s'. observe K W put del (NewObject ob) s = Ret s' \<and> objs s' = insert ob (objs s) \<and>
    engaged W s' = insert (lc_from K ob) (engaged W s)"
  using AddFunc_fine [OF assms(1), of ob "put ob s"] assms(2)
  by (simp add: endpoint_okD(3,4) [OF assms(1)] no_filters_def accepts_def)

lemma observe_changed:
  assumes "endpoint_ok K acc W objs put del" and "no_filters W"
  shows "\<exists>s'. observe K W put del (ChangedObject old ob) s = Ret s' \<and> objs s' = insert ob (objs s - {old}) \<and>
    engaged W s' = insert (lc_from K ob) (engaged W s)"
  using UpdateFunc_fine [OF assms(1), of old ob "put ob (del old s)"] assms(2)
  by (simp add: endpoint_okD(3-6) [OF assms(1)] no_filters_def accepts_def)

lemma observe_gone:
  assumes "endpoint_ok K acc W objs put del" and "\<forall>o' \<in> objs s - {ob}. lc_from K o' \<noteq> lc_from K ob"
  shows "\<exists>s'. observe K W put del (GoneObject ob) s = Ret s' \<and> objs s' = objs s - {ob} \<and>
    engaged W s' = engaged W s - {lc_from K ob}"
proof -
  have "\<not> (\<exists>o' \<in> objs (del ob s). lc_from K o' = lc_from K ob)"
    using assms(2) unfolding endpoint_okD(6) [OF assms(1)] by blast
  then show ?thesis using DeleteFunc_fine [OF assms(1), of "Obj ob" ob "del ob s"]
    by (simp add: endpoint_okD(5,6) [OF assms(1)] delete_target_def)
qed

text \<open>
  Property C15. A logical cluster that moves from one endpoint to another is disengaged although
  the new endpoint still has its object. The new endpoint finds the cluster engaged already and
  keeps it; the old endpoint, whose own store has no object of it left, then removes it by name.
  It stays disengaged until the new endpoint sees another event of the cluster, which engages it
  again.
\<close>

theorem moved_cluster_disengaged:
  assumes "endpoint_ok K acc W1 objs1 put1 del1" and "endpoint_ok K acc W2 objs2 put2 del2"
    and "share_clusters K W1 objs1 put1 del1 W2 objs2" and "share_clusters K W2 objs2 put2 del2 W1 objs1"
    and "no_filters W1" and "no_filters W2"
    and "lc_from K ob = cl" and "lc_from K ob' = cl" and "lc_from K ob'' = cl" and "cl \<notin> lc_from K ` objs1 s"
  shows "\<exists>s1 s2. observe_both K W1 put1 del1 W2 put2 del2 [Inl (NewObject ob), Inr (NewObject ob'), Inl (GoneObject ob)] s = Ret s1 \<and>
    ob' \<in> objs2 s1 \<and> cl \<notin> engaged W2 s1 \<and> observe_both K W1 put1 del1 W2 put2 del2
      [Inl (NewObject ob), Inr (NewObject ob'), Inl (GoneObject ob), Inr (ChangedObject ob' ob'')] s = Ret s2 \<and>
    cl \<in> engaged W2 s2"
proof -
  have same: "engaged W1 u = engaged W2 u" for u using assms(3) by (simp add: share_clusters_def)
  have keep2: "observe K W1 put1 del1 x u = Ret u' \<Longrightarrow> objs2 u' = objs2 u" for x u u'
    using assms(3) unfolding share_clusters_def by blast
  have keep1: "observe K W2 put2 del2 x u = Ret u' \<Longrightarrow> objs1 u' = objs1 u" for x u u'
    using assms(4) unfolding share_clusters_def by blast
  obtain a where a: "observe K W1 put1 del1 (NewObject ob) s = Ret a" "objs1 a = insert ob (objs1 s)"
    using observe_new [OF assms(1,5)] by blast
  obtain b where b: "observe K W2 put2 del2 (NewObject ob') a = Ret b" "objs2 b = insert ob' (objs2 a)"
    using observe_new [OF assms(2,6)] by blast
  have "\<forall>o' \<in> objs1 b - {ob}. lc_from K o' \<noteq> lc_from K ob"
  proof
    fix o'
    assume "o' \<in> objs1 b - {ob}"
    then have "o' \<in> objs1 s" unfolding keep1 [OF b(1)] a(2) by simp
    then have "lc_from K o' \<in> lc_from K ` objs1 s" by (rule imageI)
    then show "lc_from K o' \<noteq> lc_from K ob" unfolding assms(7) using assms(10) by metis
  qed
  then obtain c where c: "observe K W1 put1 del1 (GoneObject ob) b = Ret c" "engaged W1 c = engaged W1 b - {lc_from K ob}"
    using observe_gone [OF assms(1)] by blast
  have lost: "ob' \<in> objs2 c" "cl \<notin> engaged W2 c"
    unfolding keep2 [OF c(1)] b(2) same [symmetric] c(2) assms(7) by simp_all
  obtain d where d: "observe K W2 put2 del2 (ChangedObject ob' ob'') c = Ret d"
    "engaged W2 d = insert (lc_from K ob'') (engaged W2 c)"
    using observe_changed [OF assms(2,6)] by blast
  show ?thesis
    by (rule exI [of _ c], rule exI [of _ d]) (simp add: a(1) b(1) c(1) d lost assms(9) del: observe.simps)
qed

subsection \<open>Witness\<close>

text \<open>Two endpoints over one set of clusters, each with the store of the other witnesses.\<close>

type_synonym demo_two_state = "(string \<rightharpoonup> nat) \<times> kobject list \<times> kobject list"

definition demo_two_crt :: "(demo_two_state \<Rightarrow> kobject list) \<Rightarrow> (nat, demo_two_state) crt" where
  "demo_two_crt st = \<lparr> GVKForObject = (\<lambda>ob. Inr (ob_gvk ob)), RESTMapping = (\<lambda>_ _ _. Inr RESTScopeNameNamespace),
     SchemeNew = (\<lambda>g. Inr (Obj (empty_object TypedObject g))), gvk_String = (\<lambda>g. gvk_kind g),
     Cache_GetInformer = (\<lambda>_ s. (Inr 7, s)), is_SharedIndexInformer = (\<lambda>_. True),
     GetIndexer = (\<lambda>_ s. demo_indexer (st s)), Cache_IndexField = (\<lambda>_ _ _ s. (None, s)),
     Cache_Start = (\<lambda>_ s. (None, s)) \<rparr>"

definition demo_two_endpoint :: "(demo_two_state \<Rightarrow> kobject list) \<Rightarrow> (nat, nat, nat, demo_two_state) watchedEndpoint" where
  "demo_two_endpoint st = \<lparr> we_ctx = 0,
     we_opts = \<lparr> ro_Scheme = 0, ro_EndpointSliceObject = demo_obj ''c1'' [] ''slice'' [], ro_ExtractURLs = (\<lambda>_. Inr []),
        ro_ObjectToWatch = demo_obj [] [] [] [], ro_Log = 0, ro_NewCluster = (\<lambda>_ _ _ _ p. Inr p),
        ro_AddFilter = None, ro_UpdateFilter = None, ro_Handlers = [] \<rparr>,
     we_config = \<lparr> cfg_host = ''https://shard'', cfg_rest = 0 \<rparr>, we_cache = 0, we_crt = demo_two_crt st,
     we_getCluster = (\<lambda>n s. case fst s n of None \<Rightarrow> Inl (Foreign ''not found'') | Some c \<Rightarrow> Inr c),
     we_addCluster = (\<lambda>n c s. (None, ((fst s)(n \<mapsto> c), snd s))),
     we_removeCluster = (\<lambda>n s. ((fst s)(n := None), snd s)),
     we_getRecorderProvider = (\<lambda>_ _ s. (Inr 3, s)), we_stopRecorderProvider = (\<lambda>_ s. Ret s) \<rparr>"

abbreviation demo_first :: "demo_two_state \<Rightarrow> kobject list" where "demo_first s \<equiv> fst (snd s)"
abbreviation demo_second :: "demo_two_state \<Rightarrow> kobject list" where "demo_second s \<equiv> snd (snd s)"

definition demo_put1 :: "kobject \<Rightarrow> demo_two_state \<Rightarrow> demo_two_state" where
  "demo_put1 ob s = (fst s, ob # demo_first s, demo_second s)"

definition demo_del1 :: "kobject \<Rightarrow> demo_two_state \<Rightarrow> demo_two_state" where
  "demo_del1 ob s = (fst s, removeAll ob (demo_first s), demo_second s)"

definition demo_put2 :: "kobject \<Rightarrow> demo_two_state \<Rightarrow> demo_two_state" where
  "demo_put2 ob s = (fst s, demo_first s, ob # demo_second s)"

definition demo_del2 :: "kobject \<Rightarrow> demo_two_state \<Rightarrow> demo_two_state" where
  "demo_del2 ob s = (fst s, demo_first s, removeAll ob (demo_second s))"

lemmas demo_two_updates = demo_put1_def demo_del1_def demo_put2_def demo_del2_def

lemma demo_two_engaged: "engaged (demo_two_endpoint st) s = dom (fst s)"
  by (auto simp: engaged_def demo_two_endpoint_def split: option.splits)

lemma demo_two_shared:
  "GetSharedInformer (demo_two_crt st) (demo_obj [] [] [] []) s = (Inr (7, nonlist_gvk demo_gvk, RESTScopeNameNamespace), s)"
  by (simp add: GetSharedInformer_def demo_two_crt_def)

lemma demo_two_sel:
  "ro_Handlers (we_opts (demo_two_endpoint st)) = []" "ro_AddFilter (we_opts (demo_two_endpoint st)) = None"
  "ro_UpdateFilter (we_opts (demo_two_endpoint st)) = None" "ro_NewCluster (we_opts (demo_two_endpoint st)) cfg n ca sch p = Inr p"
  "ro_ObjectToWatch (we_opts (demo_two_endpoint st)) = demo_obj [] [] [] []" "we_crt (demo_two_endpoint st) = demo_two_crt st"
  "we_addCluster (demo_two_endpoint st) n c s = (None, ((fst s)(n \<mapsto> c), snd s))"
  "we_removeCluster (demo_two_endpoint st) n s = ((fst s)(n := None), snd s)"
  "we_getRecorderProvider (demo_two_endpoint st) cfg n s = (Inr 3, s)"
  "we_stopRecorderProvider (demo_two_endpoint st) n s = Ret s"
  by (simp_all add: demo_two_endpoint_def)

lemma demo_two_ok:
  assumes "\<And>ob s. fst (put ob s) = fst s \<and> set (st (put ob s)) = insert ob (set (st s))"
    and "\<And>ob s. fst (del ob s) = fst s \<and> set (st (del ob s)) = set (st s) - {ob}"
    and "\<And>m s. st (m, snd s) = st s"
  shows "endpoint_ok demo_kcp demo_accessor (demo_two_endpoint st) (\<lambda>s. set (st s)) put del"
  unfolding endpoint_ok_def demo_two_engaged
proof (intro conjI allI)
  fix s
  show "\<exists>i g sc s'. GetSharedInformer (we_crt (demo_two_endpoint st)) (ro_ObjectToWatch (we_opts (demo_two_endpoint st))) s =
        (Inr (i, g, sc), s') \<and>
      dom (fst s') = dom (fst s) \<and> set (st s') = set (st s) \<and>
      cluster_indexed demo_kcp demo_accessor (GetIndexer (we_crt (demo_two_endpoint st)) i s') \<and>
      set (ListAll (GetIndexer (we_crt (demo_two_endpoint st)) i s')) = Obj ` set (st s)"
    by (simp add: demo_two_endpoint_def demo_two_shared) (simp add: demo_two_crt_def demo_indexer_ok)
next
  fix E S
  show "keeping_handlers (\<lambda>s. dom (fst s) = E \<and> set (st s) = S) (ro_Handlers (we_opts (demo_two_endpoint st)))"
    by unfold_locales (simp_all add: demo_two_endpoint_def)
qed (use assms in \<open>simp_all add: demo_kcp_ok demo_accessor_ok demo_two_endpoint_def\<close>)

text \<open>The callbacks of an endpoint write the clusters only.\<close>

lemma demo_two_frame:
  assumes "observe demo_kcp (demo_two_endpoint st) put del x s = Ret s'"
    and "\<And>ob s. g (put ob s) = g s" and "\<And>ob s. g (del ob s) = g s" and "\<And>m s. g (m, snd s) = g s"
  shows "g s' = g s"
proof -
  have look: "snd (GetSharedInformer (demo_two_crt st) ob s) = s" for ob s
    by (simp add: GetSharedInformer_def demo_two_crt_def Let_def split: sum.split objclass.split any_value.split)
  have "allowed_by demo_kcp (\<lambda>s s'. g s' = g s) (demo_two_endpoint st) put del (changed_object x)"
    unfolding allowed_by_def by (auto simp: demo_two_sel look assms(2-4) intro!: step_relation.intro)
  then show ?thesis using assms(1) by (rule observe_allowed)
qed

lemma demo_two_endpoints:
  "endpoint_ok demo_kcp demo_accessor (demo_two_endpoint demo_first) (\<lambda>s. set (demo_first s)) demo_put1 demo_del1"
  "endpoint_ok demo_kcp demo_accessor (demo_two_endpoint demo_second) (\<lambda>s. set (demo_second s)) demo_put2 demo_del2"
  by (rule demo_two_ok; simp add: demo_two_updates)+

lemma demo_two_share:
  "share_clusters demo_kcp (demo_two_endpoint demo_first) (\<lambda>s. set (demo_first s)) demo_put1 demo_del1
     (demo_two_endpoint demo_second) (\<lambda>s. set (demo_second s))"
  "share_clusters demo_kcp (demo_two_endpoint demo_second) (\<lambda>s. set (demo_second s)) demo_put2 demo_del2
     (demo_two_endpoint demo_first) (\<lambda>s. set (demo_first s))"
proof -
  have "set (demo_second s') = set (demo_second s)"
    if "observe demo_kcp (demo_two_endpoint demo_first) demo_put1 demo_del1 x s = Ret s'" for x s s'
    by (rule demo_two_frame [where g = "\<lambda>s. set (demo_second s)", OF that]) (simp_all add: demo_two_updates)
  moreover have "set (demo_first s') = set (demo_first s)"
    if "observe demo_kcp (demo_two_endpoint demo_second) demo_put2 demo_del2 x s = Ret s'" for x s s'
    by (rule demo_two_frame [where g = "\<lambda>s. set (demo_first s)", OF that]) (simp_all add: demo_two_updates)
  ultimately show
    "share_clusters demo_kcp (demo_two_endpoint demo_first) (\<lambda>s. set (demo_first s)) demo_put1 demo_del1
       (demo_two_endpoint demo_second) (\<lambda>s. set (demo_second s))"
    "share_clusters demo_kcp (demo_two_endpoint demo_second) (\<lambda>s. set (demo_second s)) demo_put2 demo_del2
       (demo_two_endpoint demo_first) (\<lambda>s. set (demo_first s))"
    unfolding share_clusters_def demo_two_engaged by blast+
qed

theorem moved_cluster_disengaged_witness:
  "\<exists>s1. observe_both demo_kcp (demo_two_endpoint demo_first) demo_put1 demo_del1
       (demo_two_endpoint demo_second) demo_put2 demo_del2
       [Inl (NewObject (demo_obj ''c1'' [] ''a'' [])), Inr (NewObject (demo_obj ''c1'' [] ''a'' [])),
        Inl (GoneObject (demo_obj ''c1'' [] ''a'' []))] (Map.empty, [], []) = Ret s1 \<and>
     demo_obj ''c1'' [] ''a'' [] \<in> set (demo_second s1) \<and> fst s1 ''c1'' = None"
proof -
  let ?ob = "demo_obj ''c1'' [] ''a'' []"
  have free: "no_filters (demo_two_endpoint st)" for st by (simp add: no_filters_def demo_two_sel)
  have c1: "lc_from demo_kcp ?ob = ''c1''" by simp
  have none: "''c1'' \<notin> lc_from demo_kcp ` set (demo_first (Map.empty, [], []))" by simp
  note moved = moved_cluster_disengaged [OF demo_two_endpoints demo_two_share free free c1 c1 c1 none]
  then obtain s1 where "observe_both demo_kcp (demo_two_endpoint demo_first) demo_put1 demo_del1
       (demo_two_endpoint demo_second) demo_put2 demo_del2
       [Inl (NewObject ?ob), Inr (NewObject ?ob), Inl (GoneObject ?ob)] (Map.empty, [], []) = Ret s1"
    "?ob \<in> set (demo_second s1)" "''c1'' \<notin> engaged (demo_two_endpoint demo_second) s1" by blast
  then show ?thesis unfolding demo_two_engaged domIff not_not by blast
qed

end
