(* ===== verification/ClusterClient.thy ===== *)
theory ClusterClient
  imports Interfaces Objects
begin

text \<open>
  \<^verbatim>\<open>client/client.go\<close>: the client that hands out one client per workspace path and makes
  it on first use. \<open>Cluster\<close> looks the path up under the read lock and, when it is not
  there, looks again and creates under the write lock; the two critical sections are two
  steps, so that concurrent calls interleave between them. \<open>RequestPath\<close> of a path and
  \<open>client.New\<close> are not part of the repository; \<open>'c\<close> are clients, \<open>'w\<close> is the state
  \<open>client.New\<close> acts on.
\<close>

record ('c, 'w) client_env =
  path_RequestPath :: "string \<Rightarrow> string"
  path_client_New :: "rest_config \<Rightarrow> nat \<Rightarrow> 'w \<Rightarrow> 'c result \<times> 'w"

record 'c clusterClient =
  clc_baseConfig :: rest_config
  clc_opts :: nat
  clc_clients :: "string \<rightharpoonup> 'c"

definition New_clusterClient :: "rest_config \<Rightarrow> nat \<Rightarrow> 'c clusterClient result" where
  "New_clusterClient cfg options =
     Inr \<lparr> clc_baseConfig = cfg, clc_opts = options, clc_clients = Map.empty \<rparr>"

definition Cluster_quick :: "string \<Rightarrow> 'c clusterClient \<Rightarrow> 'c option" where
  "Cluster_quick cluster c = clc_clients c cluster"

text \<open>The slow path; a failure of \<open>client.New\<close> is a panic, and the deferred unlock runs.\<close>

definition Cluster_slow ::
  "('c, 'w) client_env \<Rightarrow> string \<Rightarrow> 'c clusterClient \<Rightarrow> 'w \<Rightarrow> 'c outcome \<times> 'c clusterClient \<times> 'w" where
  "Cluster_slow env cluster c w =
     (case clc_clients c cluster of
        Some cli \<Rightarrow> (Ret cli, c, w)
      | None \<Rightarrow>
          let cfg = (clc_baseConfig c)\<lparr> cfg_host := cfg_host (clc_baseConfig c) @ path_RequestPath env cluster \<rparr>
          in case path_client_New env cfg (clc_opts c) w of
               (Inl err, w') \<Rightarrow> (Panic (''failed to create client for cluster '' @ cluster), c, w')
             | (Inr cli, w') \<Rightarrow> (Ret cli, c\<lparr> clc_clients := (clc_clients c)(cluster \<mapsto> cli) \<rparr>, w'))"

text \<open>One call without interference.\<close>

definition Cluster_call ::
  "('c, 'w) client_env \<Rightarrow> string \<Rightarrow> 'c clusterClient \<Rightarrow> 'w \<Rightarrow> 'c outcome \<times> 'c clusterClient \<times> 'w" where
  "Cluster_call env cluster c w =
     (case Cluster_quick cluster c of
        Some cli \<Rightarrow> (Ret cli, c, w)
      | None \<Rightarrow> Cluster_slow env cluster c w)"

subsection \<open>The client as a get-or-create store\<close>

definition client_goc ::
  "('c, 'w) client_env \<Rightarrow> string \<Rightarrow> 'c clusterClient \<times> 'w \<Rightarrow> 'c option \<times> 'c clusterClient \<times> 'w" where
  "client_goc env cluster s =
     (case Cluster_call env cluster (fst s) (snd s) of
        (Ret cli, s') \<Rightarrow> (Some cli, s')
      | (Panic _, s') \<Rightarrow> (None, s'))"

interpretation client_store: get_or_create "\<lambda>s k. clc_clients (fst s) k" "client_goc env" for env
  by unfold_locales
     (auto simp: client_goc_def Cluster_call_def Cluster_quick_def Cluster_slow_def Let_def
       split: option.splits outcome.splits prod.splits sum.splits if_splits)

subsection \<open>Concurrent calls\<close>

text \<open>Where a call is; the counter names the call.\<close>

datatype 'c call_at = Called string | QuickMissed string | Served string 'c | Died string

record ('c, 'w) call_state =
  cs_client :: "'c clusterClient"
  cs_world :: 'w
  cs_calls :: "nat \<rightharpoonup> 'c call_at"

inductive call_step :: "('c, 'w) client_env \<Rightarrow> ('c, 'w) call_state \<Rightarrow> ('c, 'w) call_state \<Rightarrow> bool"
  for env :: "('c, 'w) client_env" where
  call: "cs_calls s t = None \<Longrightarrow>
    call_step env s (s\<lparr> cs_calls := (cs_calls s)(t \<mapsto> Called p) \<rparr>)"
| quick_hit: "cs_calls s t = Some (Called p) \<Longrightarrow> Cluster_quick p (cs_client s) = Some cli \<Longrightarrow>
    call_step env s (s\<lparr> cs_calls := (cs_calls s)(t \<mapsto> Served p cli) \<rparr>)"
| quick_miss: "cs_calls s t = Some (Called p) \<Longrightarrow> Cluster_quick p (cs_client s) = None \<Longrightarrow>
    call_step env s (s\<lparr> cs_calls := (cs_calls s)(t \<mapsto> QuickMissed p) \<rparr>)"
| slow_ret: "cs_calls s t = Some (QuickMissed p) \<Longrightarrow> Cluster_slow env p (cs_client s) (cs_world s) = (Ret cli, c', w') \<Longrightarrow>
    call_step env s (s\<lparr> cs_client := c', cs_world := w', cs_calls := (cs_calls s)(t \<mapsto> Served p cli) \<rparr>)"
| slow_panic: "cs_calls s t = Some (QuickMissed p) \<Longrightarrow> Cluster_slow env p (cs_client s) (cs_world s) = (Panic m, c', w') \<Longrightarrow>
    call_step env s (s\<lparr> cs_client := c', cs_world := w', cs_calls := (cs_calls s)(t \<mapsto> Died p) \<rparr>)"

inductive calls_reach :: "('c, 'w) client_env \<Rightarrow> ('c, 'w) call_state \<Rightarrow> ('c, 'w) call_state \<Rightarrow> bool"
  for env :: "('c, 'w) client_env" and s0 :: "('c, 'w) call_state" where
  start: "calls_reach env s0 s0"
| step: "calls_reach env s0 s \<Longrightarrow> call_step env s s' \<Longrightarrow> calls_reach env s0 s'"

inductive_cases call_stepE: "call_step env s s'"

definition calls_start :: "rest_config \<Rightarrow> nat \<Rightarrow> 'w \<Rightarrow> ('c, 'w) call_state" where
  "calls_start cfg options w =
     \<lparr> cs_client = \<lparr> clc_baseConfig = cfg, clc_opts = options, clc_clients = Map.empty \<rparr>,
       cs_world = w, cs_calls = Map.empty \<rparr>"

text \<open>The client \<open>client.New\<close> makes for a path, in some state.\<close>

definition made_for :: "('c, 'w) client_env \<Rightarrow> rest_config \<Rightarrow> nat \<Rightarrow> string \<Rightarrow> 'c \<Rightarrow> bool" where
  "made_for env cfg options p cli \<longleftrightarrow> (\<exists>w w'. path_client_New env
     (cfg\<lparr> cfg_host := cfg_host cfg @ path_RequestPath env p \<rparr>) options w = (Inr cli, w'))"

lemma made_forI:
  "path_client_New env (cfg\<lparr> cfg_host := cfg_host cfg @ path_RequestPath env p \<rparr>) options w = (Inr cli, w')
     \<Longrightarrow> made_for env cfg options p cli"
  by (auto simp: made_for_def)

definition calls_inv :: "('c, 'w) client_env \<Rightarrow> rest_config \<Rightarrow> nat \<Rightarrow> ('c, 'w) call_state \<Rightarrow> bool" where
  "calls_inv env cfg options s \<longleftrightarrow>
     clc_baseConfig (cs_client s) = cfg \<and> clc_opts (cs_client s) = options \<and>
     (\<forall>p cli. clc_clients (cs_client s) p = Some cli \<longrightarrow> made_for env cfg options p cli) \<and>
     (\<forall>t p cli. cs_calls s t = Some (Served p cli) \<longrightarrow> clc_clients (cs_client s) p = Some cli)"

lemma Cluster_slow_result:
  assumes "Cluster_slow env p c w = (r, c', w')"
  shows "clc_baseConfig c' = clc_baseConfig c" and "clc_opts c' = clc_opts c"
    and "clc_clients c q = Some d \<Longrightarrow> clc_clients c' q = Some d"
    and "r = Ret cli \<Longrightarrow> clc_clients c' p = Some cli"
    and "clc_clients c' q = Some d \<Longrightarrow> clc_clients c q = Some d \<or>
           q = p \<and> made_for env (clc_baseConfig c) (clc_opts c) p d"
  using assms
  by (auto simp: Cluster_slow_def Let_def intro: made_forI split: option.splits prod.splits sum.splits if_splits)

lemma calls_inv_step:
  assumes "call_step env s s'" and "calls_inv env cfg options s"
  shows "calls_inv env cfg options s'"
  using assms
proof (cases rule: call_step.cases)
  case (slow_ret t p cli c' w')
  note r = Cluster_slow_result [OF slow_ret(3)]
  show ?thesis
    unfolding calls_inv_def
  proof (intro conjI allI impI)
    fix q d
    assume "clc_clients (cs_client s') q = Some d"
    then have "clc_clients c' q = Some d" using slow_ret(1) by simp
    then show "made_for env cfg options q d" using r(5) [of q d] assms(2) by (auto simp: calls_inv_def)
  next
    fix u q d
    assume "cs_calls s' u = Some (Served q d)"
    then show "clc_clients (cs_client s') q = Some d"
      using slow_ret(1) r(3) [of q d] r(4) [of cli] assms(2) by (auto simp: calls_inv_def split: if_splits)
  qed (use slow_ret(1) r(1,2) assms(2) in \<open>simp_all add: calls_inv_def\<close>)
next
  case (slow_panic t p m c' w')
  note r = Cluster_slow_result [OF slow_panic(3)]
  show ?thesis
    unfolding calls_inv_def
  proof (intro conjI allI impI)
    fix q d
    assume "clc_clients (cs_client s') q = Some d"
    then have "clc_clients c' q = Some d" using slow_panic(1) by simp
    then show "made_for env cfg options q d" using r(5) [of q d] assms(2) by (auto simp: calls_inv_def)
  next
    fix u q d
    assume "cs_calls s' u = Some (Served q d)"
    then show "clc_clients (cs_client s') q = Some d"
      using slow_panic(1) r(3) [of q d] assms(2) by (auto simp: calls_inv_def split: if_splits)
  qed (use slow_panic(1) r(1,2) assms(2) in \<open>simp_all add: calls_inv_def\<close>)
qed (auto simp: calls_inv_def Cluster_quick_def split: if_splits)

lemma calls_inv_reach:
  "calls_reach env (calls_start cfg options w) s \<Longrightarrow> calls_inv env cfg options s"
proof (induction rule: calls_reach.induct)
  case start
  show ?case by (simp add: calls_inv_def calls_start_def)
next
  case (step s s')
  then show ?case using calls_inv_step by blast
qed

text \<open>
  Property C23. However concurrent calls interleave, two calls for the same workspace path
  that return get the same client, and it is one \<open>client.New\<close> made for the base host with
  the path's request path appended.
\<close>

theorem one_client_per_path:
  assumes "calls_reach env (calls_start cfg options w) s"
    and "cs_calls s t = Some (Served p cli)" and "cs_calls s u = Some (Served p cli')"
  shows "cli = cli' \<and> made_for env cfg options p cli"
  using calls_inv_reach [OF assms(1)] assms(2,3) by (simp add: calls_inv_def) (metis option.inject)

text \<open>A failed creation leaves nothing behind: the next call for the path tries again.\<close>

lemma failed_creation_not_remembered:
  assumes "Cluster_call env p c w = (Panic m, c', w')"
  shows "c' = c"
  using assms
  by (auto simp: Cluster_call_def Cluster_quick_def Cluster_slow_def Let_def
    split: option.splits prod.splits sum.splits)

subsection \<open>Witness\<close>

text \<open>\<open>client.New\<close> numbers the clients it makes.\<close>

definition demo_client_env :: "(nat, nat) client_env" where
  "demo_client_env = \<lparr> path_RequestPath = (\<lambda>p. ''/clusters/'' @ p),
     path_client_New = (\<lambda>cfg options w. (Inr w, w + 1)) \<rparr>"

definition demo_base :: rest_config where
  "demo_base = \<lparr> cfg_host = ''https://kcp'', cfg_rest = 0 \<rparr>"

lemma demo_slow:
  "Cluster_slow demo_client_env p c w = (case clc_clients c p of Some d \<Rightarrow> (Ret d, c, w)
     | None \<Rightarrow> (Ret w, c\<lparr> clc_clients := (clc_clients c)(p \<mapsto> w) \<rparr>, w + 1))"
  by (simp add: Cluster_slow_def demo_client_env_def Let_def split: option.split)

text \<open>Two calls both miss the quick path; the second finds the first one's client.\<close>

theorem one_client_per_path_witness:
  "\<exists>s :: (nat, nat) call_state. calls_reach demo_client_env (calls_start demo_base 0 5) s \<and>
     cs_calls s 1 = Some (Served ''root'' 5) \<and> cs_calls s 2 = Some (Served ''root'' 5) \<and>
     made_for demo_client_env demo_base 0 ''root'' (5::nat)"
proof -
  let ?s0 = "calls_start demo_base 0 5 :: (nat, nat) call_state"
  let ?c = "cs_client ?s0\<lparr> clc_clients := [''root'' \<mapsto> 5] \<rparr>"
  let ?s1 = "?s0\<lparr> cs_calls := [1 \<mapsto> Called ''root''] \<rparr>"
  let ?s2 = "?s0\<lparr> cs_calls := [1 \<mapsto> Called ''root'', 2 \<mapsto> Called ''root''] \<rparr>"
  let ?s3 = "?s0\<lparr> cs_calls := [1 \<mapsto> Called ''root'', 2 \<mapsto> Called ''root'', 1 \<mapsto> QuickMissed ''root''] \<rparr>"
  let ?s4 = "?s0\<lparr> cs_calls := [1 \<mapsto> Called ''root'', 2 \<mapsto> Called ''root'', 1 \<mapsto> QuickMissed ''root'',
     2 \<mapsto> QuickMissed ''root''] \<rparr>"
  let ?s5 = "?s4\<lparr> cs_client := ?c, cs_world := 6, cs_calls := (cs_calls ?s4)(1 \<mapsto> Served ''root'' 5) \<rparr>"
  let ?s6 = "?s5\<lparr> cs_client := ?c, cs_world := 6, cs_calls := (cs_calls ?s5)(2 \<mapsto> Served ''root'' 5) \<rparr>"
  have "calls_reach demo_client_env ?s0 ?s0" by (rule calls_reach.start)
  moreover have "call_step demo_client_env ?s0 ?s1"
    using call [of ?s0 1 demo_client_env "''root''"] by (simp add: calls_start_def)
  ultimately have "calls_reach demo_client_env ?s0 ?s1" by (rule calls_reach.step)
  moreover have "call_step demo_client_env ?s1 ?s2"
    using call [of ?s1 2 demo_client_env "''root''"] by (simp add: calls_start_def)
  ultimately have "calls_reach demo_client_env ?s0 ?s2" by (rule calls_reach.step)
  moreover have "call_step demo_client_env ?s2 ?s3"
    using quick_miss [of ?s2 1 "''root''" demo_client_env] by (simp add: calls_start_def Cluster_quick_def)
  ultimately have "calls_reach demo_client_env ?s0 ?s3" by (rule calls_reach.step)
  moreover have "call_step demo_client_env ?s3 ?s4"
    using quick_miss [of ?s3 2 "''root''" demo_client_env] by (simp add: calls_start_def Cluster_quick_def)
  ultimately have "calls_reach demo_client_env ?s0 ?s4" by (rule calls_reach.step)
  moreover have "call_step demo_client_env ?s4 ?s5"
    by (rule slow_ret) (simp_all add: calls_start_def demo_slow)
  ultimately have "calls_reach demo_client_env ?s0 ?s5" by (rule calls_reach.step)
  moreover have "call_step demo_client_env ?s5 ?s6"
    by (rule slow_ret) (simp_all add: calls_start_def demo_slow)
  ultimately have reach: "calls_reach demo_client_env ?s0 ?s6" by (rule calls_reach.step)
  have served: "cs_calls ?s6 1 = Some (Served ''root'' 5)" "cs_calls ?s6 2 = Some (Served ''root'' 5)"
    by simp_all
  show ?thesis
    by (rule exI [where x = ?s6], intro conjI reach served conjunct2 [OF one_client_per_path [OF reach served]])
qed

end
