(* ===== verification/ApiExport.thy ===== *)
theory ApiExport
  imports ProviderInv ClusterClient
begin

text \<open>
  \<^verbatim>\<open>apiexport/provider.go\<close> and \<^verbatim>\<open>initializingworkspaces/provider.go\<close>: the two providers
  built on the common one. Both only complete the options. The zero objects they name, their
  default loggers and the readiness filter's converter are parameters.
\<close>

subsection \<open>The apiexport provider\<close>

record 's apiexport_options =
  ax_Scheme :: "nat option"
  ax_Log :: "nat option"
  ax_ObjectToWatch :: "kobject option"
  ax_AddFilter :: "(kobject \<Rightarrow> bool result) option"
  ax_UpdateFilter :: "(kobject \<Rightarrow> bool result) option"
  ax_Handlers :: "'s handler list"

record apiexport_consts =
  axc_binding :: kobject
  axc_slice :: kobject
  axc_log :: nat

definition apiexport_defaults ::
  "('m, 'u, 'q) unstructured_api \<Rightarrow> apiexport_consts \<Rightarrow> 's apiexport_options \<Rightarrow> 's apiexport_options" where
  "apiexport_defaults U C opts =
     (let opts = (if ax_ObjectToWatch opts = None
        then let opts = opts\<lparr> ax_ObjectToWatch := Some (axc_binding C) \<rparr>;
                 opts = (if ax_AddFilter opts = None
                         then opts\<lparr> ax_AddFilter := Some (ConditionReadyFunc U ''Ready'') \<rparr> else opts)
             in if ax_UpdateFilter opts = None
                then opts\<lparr> ax_UpdateFilter := Some (ConditionReadyFunc U ''Ready'') \<rparr> else opts
        else opts)
      in if ax_Log opts = None then opts\<lparr> ax_Log := Some (axc_log C) \<rparr> else opts)"

definition apiexport_provider_options ::
  "('m, 'u, 'q) unstructured_api \<Rightarrow> apiexport_consts \<Rightarrow> 's apiexport_options \<Rightarrow> ('nc, 's) options" where
  "apiexport_provider_options U C opts0 =
     (let opts = apiexport_defaults U C opts0
      in \<lparr> op_Scheme = ax_Scheme opts, op_EndpointSliceObject = Some (axc_slice C),
           op_ExtractURLs = Some (DefaultExtractURLsFromEndpointSlice U),
           op_ObjectToWatch = ax_ObjectToWatch opts, op_Log = ax_Log opts, op_NewCluster = None,
           op_AddFilter = ax_AddFilter opts, op_UpdateFilter = ax_UpdateFilter opts,
           op_Handlers = ax_Handlers opts \<rparr>)"

definition ApiExport_New ::
  "('m, 'u, 'q) unstructured_api \<Rightarrow> apiexport_consts \<Rightarrow> 'nc default_values
     \<Rightarrow> (rest_config \<Rightarrow> nat \<Rightarrow> kobject \<Rightarrow> (string \<times> string) list \<Rightarrow> nat result)
     \<Rightarrow> rest_config \<Rightarrow> string \<Rightarrow> 's apiexport_options
     \<Rightarrow> (('nc, 's) resolved_options \<times> nat \<times> recorderManager \<times> ('e, 'c, 'h, 'r) provider) result" where
  "ApiExport_New U C D new_cache cfg endpointSliceName opts =
     (case New_Provider D new_cache cfg endpointSliceName (apiexport_provider_options U C opts) of
        Inl err \<Rightarrow> Inl err
      | Inr p \<Rightarrow> Inr p)"

lemma New_Provider_options:
  "New_Provider D new_cache cfg name opts0 = Inr (opts, c, m, p) \<Longrightarrow> opts = options_defaults D opts0"
  by (auto simp: New_Provider_def Let_def split: sum.splits)

text \<open>Which filters and which kind the provider ends up with.\<close>

lemma ApiExport_New_filters:
  assumes "ApiExport_New U C D new_cache cfg name opts = Inr (ro, c, m, p)"
  shows "ro_AddFilter ro = (if ax_ObjectToWatch opts = None \<and> ax_AddFilter opts = None
           then Some (ConditionReadyFunc U ''Ready'') else ax_AddFilter opts)"
    and "ro_UpdateFilter ro = (if ax_ObjectToWatch opts = None \<and> ax_UpdateFilter opts = None
           then Some (ConditionReadyFunc U ''Ready'') else ax_UpdateFilter opts)"
    and "ro_ObjectToWatch ro = or_default (ax_ObjectToWatch opts) (axc_binding C)"
    and "ro_ExtractURLs ro = DefaultExtractURLsFromEndpointSlice U"
    and "ro_Handlers ro = ax_Handlers opts"
proof -
  have ro: "ro = options_defaults D (apiexport_provider_options U C opts)"
    using assms New_Provider_options unfolding ApiExport_New_def by (auto split: sum.splits)
  show "ro_AddFilter ro = (if ax_ObjectToWatch opts = None \<and> ax_AddFilter opts = None
           then Some (ConditionReadyFunc U ''Ready'') else ax_AddFilter opts)"
    and "ro_UpdateFilter ro = (if ax_ObjectToWatch opts = None \<and> ax_UpdateFilter opts = None
           then Some (ConditionReadyFunc U ''Ready'') else ax_UpdateFilter opts)"
    and "ro_ObjectToWatch ro = or_default (ax_ObjectToWatch opts) (axc_binding C)"
    and "ro_ExtractURLs ro = DefaultExtractURLsFromEndpointSlice U"
    and "ro_Handlers ro = ax_Handlers opts"
    unfolding ro by (auto simp: options_defaults_def apiexport_provider_options_def apiexport_defaults_def
      or_default_def Let_def)
qed

subsection \<open>Only ready bindings engage\<close>

text \<open>The object an event puts to the filters, and whether it shows the condition Ready with status True.\<close>

fun offered :: "change \<Rightarrow> kobject option" where
  "offered (NewObject ob) = Some ob"
| "offered (ChangedObject old ob) = Some ob"
| "offered (GoneObject ob) = None"
| "offered (MissedDelete key ob) = None"

definition ready_offer :: "kcpapi \<Rightarrow> ('m, 'u, 'q) unstructured_api \<Rightarrow> string \<Rightarrow> change \<Rightarrow> bool" where
  "ready_offer K U n x \<longleftrightarrow> (\<exists>ob. offered x = Some ob \<and> lc_from K ob = n \<and> shows_condition U ''Ready'' ob)"

definition readable_offer :: "('m, 'u, 'q) unstructured_api \<Rightarrow> change \<Rightarrow> bool" where
  "readable_offer U x \<longleftrightarrow> (\<forall>ob. offered x = Some ob \<longrightarrow> readable_conditions U ob)"

definition accepted_offer :: "kcpapi \<Rightarrow> ('m, 'u, 'q) unstructured_api \<Rightarrow> string \<Rightarrow> change \<Rightarrow> bool" where
  "accepted_offer K U n x \<longleftrightarrow> (\<exists>ob. offered x = Some ob \<and> lc_from K ob = n \<and> ConditionReadyFunc U ''Ready'' ob = Inr True)"

lemma accepted_is_ready: "accepted_offer K U n x \<Longrightarrow> ready_offer K U n x"
  by (auto simp: accepted_offer_def ready_offer_def intro: condition_ready_sound)

lemma ready_is_accepted: "ready_offer K U n x \<Longrightarrow> readable_offer U x \<Longrightarrow> accepted_offer K U n x"
  by (auto simp: accepted_offer_def ready_offer_def readable_offer_def intro: condition_ready_complete)

definition ready_filters :: "('m, 'u, 'q) unstructured_api \<Rightarrow> ('p, 'c, 'i, 's) watchedEndpoint \<Rightarrow> bool" where
  "ready_filters U W \<longleftrightarrow> ro_AddFilter (we_opts W) = Some (ConditionReadyFunc U ''Ready'') \<and>
     ro_UpdateFilter (we_opts W) = Some (ConditionReadyFunc U ''Ready'')"

lemma DeleteFunc_shrinks:
  assumes ok: "endpoint_ok K acc W objs put del" and "delete_target x = Ret (Some t)"
  shows "\<exists>s1. we_DeleteFunc K W x (del t s) = Ret s1 \<and> engaged W s1 \<subseteq> engaged W s"
proof -
  obtain s1 b where "we_DeleteFunc K W x (del t s) = Ret s1"
    and "engaged W s1 = (if b then engaged W s else engaged W s - {lc_from K t})"
    using DeleteFunc_fine [OF ok assms(2), of "del t s"] unfolding endpoint_okD(5) [OF ok] by blast
  then show ?thesis by auto
qed

lemma observe_engages_accepted:
  assumes ok: "endpoint_ok K acc W objs put del" and rf: "ready_filters U W"
    and ob: "observe K W put del x s = Ret s'"
  shows "(n \<in> engaged W s' \<longrightarrow> n \<in> engaged W s \<or> accepted_offer K U n x) \<and> (accepted_offer K U n x \<longrightarrow> n \<in> engaged W s')"
proof (cases x)
  case (NewObject t)
  obtain s1 where "we_AddFunc K W (Obj t) (put t s) = Ret s1"
    "engaged W s1 = (if accepts (ro_AddFilter (we_opts W)) t then insert (lc_from K t) (engaged W s) else engaged W s)"
    using AddFunc_fine [OF ok, of t "put t s"] by (auto simp only: endpoint_okD(3,4) [OF ok])
  then show ?thesis using ob rf NewObject by (auto simp: accepted_offer_def ready_filters_def accepts_def split: if_splits)
next
  case (ChangedObject old t)
  obtain s1 where "we_UpdateFunc K W (Obj old) (Obj t) (put t (del old s)) = Ret s1"
    "engaged W s1 = (if accepts (ro_UpdateFilter (we_opts W)) t then insert (lc_from K t) (engaged W s) else engaged W s)"
    using UpdateFunc_fine [OF ok, of old t "put t (del old s)"] by (auto simp only: endpoint_okD(3-6) [OF ok])
  then show ?thesis using ob rf ChangedObject by (auto simp: accepted_offer_def ready_filters_def accepts_def split: if_splits)
next
  case (GoneObject t)
  obtain s1 where "we_DeleteFunc K W (Obj t) (del t s) = Ret s1" "engaged W s1 \<subseteq> engaged W s"
    using DeleteFunc_shrinks [OF ok, of "Obj t" t s] by (auto simp: delete_target_def)
  then show ?thesis using ob GoneObject by (auto simp: accepted_offer_def)
next
  case (MissedDelete key t)
  obtain s1 where "we_DeleteFunc K W (Tombstone key (Obj t)) (del t s) = Ret s1" "engaged W s1 \<subseteq> engaged W s"
    using DeleteFunc_shrinks [OF ok, of "Tombstone key (Obj t)" t s] by (auto simp: delete_target_def)
  then show ?thesis using ob MissedDelete by (auto simp: accepted_offer_def)
qed

text \<open>
  Property C11. An apiexport provider made with default options engages a logical cluster only
  after an event showed a binding of it among whose conditions there is one of type Ready with
  status True, whatever events the endpoint delivered before; and such an event engages it, unless
  a condition of the binding has a type or a status that is not a string.
\<close>

theorem apiexport_engages_ready_only:
  assumes "ApiExport_New U C D new_cache cfg name opts = Inr (we_opts W, c, m, p)"
    and "ax_ObjectToWatch opts = None" and "ax_AddFilter opts = None" and "ax_UpdateFilter opts = None"
    and ok: "endpoint_ok K acc W objs put del" and "engaged W s = {}"
    and run: "observe_all K W put del xs s = Ret s'"
  shows "(\<forall>n \<in> engaged W s'. \<exists>x \<in> set xs. ready_offer K U n x) \<and>
    (\<forall>n ys x. xs = ys @ [x] \<longrightarrow> ready_offer K U n x \<longrightarrow> readable_offer U x \<longrightarrow> n \<in> engaged W s')"
proof -
  have rf: "ready_filters U W"
    using ApiExport_New_filters(1,2) [OF assms(1)] assms(2-4) by (simp add: ready_filters_def)
  have "(\<forall>n \<in> engaged W s'. n \<in> engaged W s \<or> (\<exists>x \<in> set xs. accepted_offer K U n x)) \<and>
    (\<forall>n ys x. xs = ys @ [x] \<longrightarrow> accepted_offer K U n x \<longrightarrow> n \<in> engaged W s')"
    using run
  proof (induction xs arbitrary: s)
    case (Cons x xs)
    then obtain s1 where s1: "observe K W put del x s = Ret s1" "observe_all K W put del xs s1 = Ret s'"
      by (cases "observe K W put del x s") auto
    note step = observe_engages_accepted [OF ok rf s1(1)] and IH = Cons.IH [OF s1(2)]
    have "n \<in> engaged W s \<or> (\<exists>y \<in> set (x # xs). accepted_offer K U n y)" if "n \<in> engaged W s'" for n
      using IH that step [of n] by auto
    moreover have "n \<in> engaged W s'" if "x # xs = ys @ [y]" and "accepted_offer K U n y" for n ys y
    proof (cases ys)
      case Nil
      then show ?thesis using that s1(2) step [of n] by simp
    next
      case (Cons z zs)
      then show ?thesis using that conjunct2 [OF IH] by simp
    qed
    ultimately show ?case by blast
  qed simp
  then show ?thesis using assms(6) accepted_is_ready ready_is_accepted by (metis empty_iff)
qed

subsection \<open>Witness\<close>

text \<open>An object's data tells whether its one condition, Ready, holds.\<close>

definition demo_ready_api :: "(nat, nat, nat) unstructured_api" where
  "demo_ready_api = \<lparr> ToUnstructured = (\<lambda>ob. Inr (ob_data ob)), NestedSlice = (\<lambda>d _. Inr ([d], True)),
     NestedString = (\<lambda>d p. if p = [''type''] then Inr (''Ready'', True)
                           else Inr (if d = 1 then ''True'' else ''False'', True)),
     as_map = Some, jp_Parse = (\<lambda>_. Inr 0), jp_FindResults = (\<lambda>_ _. Inr []),
     value_Kind = (\<lambda>_. KindOther), value_String = (\<lambda>_. []), as_string = (\<lambda>_. None) \<rparr>"

lemma demo_ready: "ConditionReadyFunc demo_ready_api ''Ready'' ob = Inr (ob_data ob = 1)"
  by (simp add: ConditionReadyFunc_def demo_ready_api_def)

lemma demo_shows: "shows_condition demo_ready_api ''Ready'' ob \<longleftrightarrow> ob_data ob = 1"
  by (auto simp: shows_condition_def has_condition_def demo_ready_api_def)

lemma demo_readable: "readable_conditions demo_ready_api ob"
  by (simp add: readable_conditions_def well_formed_def demo_ready_api_def)

definition demo_ax_options :: "demo_we_state apiexport_options" where
  "demo_ax_options = \<lparr> ax_Scheme = None, ax_Log = None, ax_ObjectToWatch = None, ax_AddFilter = None,
     ax_UpdateFilter = None, ax_Handlers = [demo_we_handler] \<rparr>"

definition demo_ax_consts :: apiexport_consts where
  "demo_ax_consts = \<lparr> axc_binding = demo_obj [] [] [] [], axc_slice = demo_obj [] [] ''slice'' [], axc_log = 1 \<rparr>"

definition demo_defaults :: "(nat, nat) new_cluster default_values" where
  "demo_defaults = \<lparr> dv_scheme = 0, dv_slice = demo_obj [] [] ''slice'' [], dv_extract = (\<lambda>_. Inr []),
     dv_binding = demo_obj [] [] [] [], dv_log = 0, dv_new_cluster = (\<lambda>_ _ _ _ p. Inr p) \<rparr>"

definition demo_ax_resolved :: "((nat, nat) new_cluster, demo_we_state) resolved_options" where
  "demo_ax_resolved = options_defaults demo_defaults
     (apiexport_provider_options demo_ready_api demo_ax_consts demo_ax_options)"

definition demo_ax_endpoint :: "(nat, nat, nat, demo_we_state) watchedEndpoint" where
  "demo_ax_endpoint = demo_endpoint\<lparr> we_opts := demo_ax_resolved \<rparr>"

lemma demo_ax_resolved_sel:
  "ro_ObjectToWatch demo_ax_resolved = demo_obj [] [] [] []" "ro_Handlers demo_ax_resolved = [demo_we_handler]"
  "ro_NewCluster demo_ax_resolved = (\<lambda>_ _ _ _ p. Inr p)"
  by (simp_all add: demo_ax_resolved_def options_defaults_def apiexport_provider_options_def apiexport_defaults_def
    demo_ax_options_def demo_ax_consts_def demo_defaults_def or_default_def Let_def)

lemma demo_ax_engaged: "engaged demo_ax_endpoint s = engaged demo_endpoint s"
  by (simp add: engaged_def demo_ax_endpoint_def)

lemma demo_ax_endpoint_ok:
  "endpoint_ok demo_kcp demo_accessor demo_ax_endpoint demo_we_objs demo_we_put demo_we_del"
proof -
  have "ro_ObjectToWatch (we_opts demo_endpoint) = demo_obj [] [] [] []"
    and "ro_Handlers (we_opts demo_endpoint) = [demo_we_handler]"
    and "ro_NewCluster (we_opts demo_endpoint) = (\<lambda>_ _ _ _ p. Inr p)"
    by (simp_all add: demo_endpoint_def)
  then show ?thesis
    using demo_endpoint_ok unfolding endpoint_ok_def demo_ax_engaged
    by (simp add: demo_ax_endpoint_def demo_ax_resolved_sel)
qed

text \<open>A binding that is not ready does not engage \<open>c2\<close>; one that becomes ready engages \<open>c1\<close>.\<close>

theorem apiexport_engages_ready_only_witness:
  "\<exists>s'. observe_all demo_kcp demo_ax_endpoint demo_we_put demo_we_del
      [NewObject (demo_obj ''c2'' [] ''a'' []), NewObject (demo_obj ''c1'' [] ''a'' []),
       ChangedObject (demo_obj ''c1'' [] ''a'' []) ((demo_obj ''c1'' [] ''a'' [])\<lparr> ob_data := 1 \<rparr>)] demo_we_start = Ret s' \<and>
     engaged demo_ax_endpoint s' = {''c1''}"
proof -
  let ?a = "demo_obj ''c1'' [] ''a'' []" and ?b = "demo_obj ''c2'' [] ''a'' []"
  let ?r = "?a\<lparr> ob_data := 1 \<rparr>"
  let ?xs = "[NewObject ?b, NewObject ?a, ChangedObject ?a ?r]"
  have from_r: "lc_from demo_kcp (?a\<lparr> ob_data := d \<rparr>) = ''c1''" for d
    by (simp add: demo_kcp_def)
  have data: "ob_data ?a = 0" "ob_data ?b = 0" by (simp_all add: demo_obj_def)
  have none: "engaged demo_ax_endpoint demo_we_start = {}"
    unfolding demo_ax_engaged demo_engaged by (simp add: demo_we_start_def)
  have stay: "\<forall>x \<in> set ?xs. stays demo_kcp x" by (simp add: from_r)
  have tr: "tracks demo_kcp demo_ax_endpoint demo_we_objs demo_we_start"
    using demo_ax_endpoint_ok none by (simp add: tracks_def demo_we_objs_def demo_we_start_def)
  have made: "ApiExport_New demo_ready_api demo_ax_consts demo_defaults (\<lambda>_ _ _ _. Inr 0) demo_base ''s'' demo_ax_options
     = Inr (we_opts demo_ax_endpoint, 0, NewManager, (demo_provider Map.empty)\<lparr> pv_config := demo_base \<rparr>)"
    by (simp add: ApiExport_New_def New_Provider_def Let_def demo_ax_endpoint_def demo_ax_resolved_def demo_provider_def)
  obtain s' where s': "observe_all demo_kcp demo_ax_endpoint demo_we_put demo_we_del ?xs demo_we_start = Ret s'"
    using observe_all_tracks [OF demo_ax_endpoint_ok tr stay] by blast
  have opts: "ax_ObjectToWatch demo_ax_options = None" "ax_AddFilter demo_ax_options = None"
    "ax_UpdateFilter demo_ax_options = None" by (simp_all add: demo_ax_options_def)
  note r = apiexport_engages_ready_only [OF made opts demo_ax_endpoint_ok none s']
  have only: "ready_offer demo_kcp demo_ready_api n x \<longleftrightarrow> n = ''c1'' \<and> x = ChangedObject ?a ?r"
    if "x \<in> set ?xs" for n x
    using that from_r by (auto simp: ready_offer_def demo_shows data)
  have "\<forall>n \<in> engaged demo_ax_endpoint s'. n = ''c1''" using conjunct1 [OF r] only by blast
  moreover have "''c1'' \<in> engaged demo_ax_endpoint s'"
    using conjunct2 [OF r, rule_format, of "[NewObject ?b, NewObject ?a]" "ChangedObject ?a ?r" "''c1''"]
      only [of "ChangedObject ?a ?r" "''c1''"] demo_readable by (simp add: readable_offer_def)
  ultimately show ?thesis using s' by blast
qed

end
