(* ===== verification/InitWorkspaces.thy ===== *)
theory InitWorkspaces
  imports ApiExport
begin

text \<open>
  \<^verbatim>\<open>initializingworkspaces/provider.go\<close>: the provider for workspaces that are being
  initialized. It watches a \<open>WorkspaceType\<close>, keeps the virtual workspace URLs of the
  initializing kind and makes clusters whose client bypasses the cache. \<open>as_wst\<close> is the
  assertion that an object is a \<open>WorkspaceType\<close>, with the URLs of its status.
\<close>

record 's init_options =
  iw_Scheme :: "nat option"
  iw_Log :: "nat option"
  iw_ObjectToWatch :: "kobject option"
  iw_Handlers :: "'s handler list"

record init_consts =
  iwc_logical_cluster :: kobject
  iwc_workspace_type :: kobject
  iwc_log :: nat
  iwc_as_wst :: "kobject \<Rightarrow> string list option"

fun initializing_loop :: "string list \<Rightarrow> string list \<Rightarrow> string list" where
  "initializing_loop [] urls = urls"
| "initializing_loop (url # endpoints) urls =
     (if \<not> contains url ''/initializingworkspaces/'' then initializing_loop endpoints urls
      else initializing_loop endpoints (urls @ [url]))"

text \<open>The extractor; the assertion fails only for an object of another type.\<close>

definition initializing_urls :: "init_consts \<Rightarrow> kobject \<Rightarrow> string list result outcome" where
  "initializing_urls C ob =
     (case iwc_as_wst C ob of
        None \<Rightarrow> Panic ''interface conversion: client.Object is not *v1alpha1.WorkspaceType''
      | Some endpoints \<Rightarrow> Ret (Inr (initializing_loop endpoints [])))"

text \<open>
  As an option. The provider calls it on copies of the object it watches, which are
  \<open>WorkspaceType\<close>s; the type of the option has no panic, so other objects are an error.
\<close>

definition initializing_extractor :: "init_consts \<Rightarrow> kobject \<Rightarrow> string list result" where
  "initializing_extractor C ob =
     (case initializing_urls C ob of Ret r \<Rightarrow> r | Panic msg \<Rightarrow> Inl (Foreign msg))"

definition initializing_new_cluster ::
  "kcpapi \<Rightarrow> 'c cluster_env \<Rightarrow> ('p, ('c, 'd, 'e) scopedCluster) new_cluster" where
  "initializing_new_cluster K env cfg clusterName wildcardCA scheme _ =
     NewScopedInitializingCluster K env cfg clusterName wildcardCA scheme"

definition init_provider_options ::
  "kcpapi \<Rightarrow> 'c cluster_env \<Rightarrow> init_consts \<Rightarrow> 's init_options
     \<Rightarrow> (('p, ('c, 'd, 'e) scopedCluster) new_cluster, 's) options" where
  "init_provider_options K env C opts0 =
     (let opts = (if iw_ObjectToWatch opts0 = None
                  then opts0\<lparr> iw_ObjectToWatch := Some (iwc_logical_cluster C) \<rparr> else opts0);
          opts = (if iw_Log opts = None then opts\<lparr> iw_Log := Some (iwc_log C) \<rparr> else opts)
      in \<lparr> op_Scheme = iw_Scheme opts, op_EndpointSliceObject = Some (iwc_workspace_type C),
           op_ExtractURLs = Some (initializing_extractor C), op_ObjectToWatch = iw_ObjectToWatch opts,
           op_Log = iw_Log opts, op_NewCluster = Some (initializing_new_cluster K env),
           op_AddFilter = None, op_UpdateFilter = None, op_Handlers = iw_Handlers opts \<rparr>)"

definition InitWorkspaces_New ::
  "kcpapi \<Rightarrow> 'c cluster_env \<Rightarrow> init_consts \<Rightarrow> ('p, ('c, 'd, 'e) scopedCluster) new_cluster default_values
     \<Rightarrow> (rest_config \<Rightarrow> nat \<Rightarrow> kobject \<Rightarrow> (string \<times> string) list \<Rightarrow> nat result)
     \<Rightarrow> rest_config \<Rightarrow> string \<Rightarrow> 's init_options
     \<Rightarrow> ((('p, ('c, 'd, 'e) scopedCluster) new_cluster, 's) resolved_options \<times> nat \<times> recorderManager
          \<times> ('we, 'wc, 'h, 'r) provider) result" where
  "InitWorkspaces_New K env C D new_cache cfg workspaceTypeName opts =
     (case New_Provider D new_cache cfg workspaceTypeName (init_provider_options K env C opts) of
        Inl err \<Rightarrow> Inl err
      | Inr p \<Rightarrow> Inr p)"

subsection \<open>Properties\<close>

lemma initializing_loop_eq:
  "initializing_loop endpoints urls = urls @ filter (\<lambda>u. contains u ''/initializingworkspaces/'') endpoints"
  by (induction endpoints arbitrary: urls) simp_all

lemma InitWorkspaces_New_options:
  assumes "InitWorkspaces_New K env C D new_cache cfg name opts = Inr (ro, c, m, p)"
  shows "ro_NewCluster ro = initializing_new_cluster K env"
    and "ro_ExtractURLs ro = initializing_extractor C"
    and "ro_AddFilter ro = None" and "ro_UpdateFilter ro = None"
    and "ro_ObjectToWatch ro = or_default (iw_ObjectToWatch opts) (iwc_logical_cluster C)"
    and "ro_EndpointSliceObject ro = iwc_workspace_type C"
proof -
  have ro: "ro = options_defaults D (init_provider_options K env C opts)"
    using assms New_Provider_options unfolding InitWorkspaces_New_def by (auto split: sum.splits)
  show "ro_NewCluster ro = initializing_new_cluster K env"
    and "ro_ExtractURLs ro = initializing_extractor C"
    and "ro_AddFilter ro = None" and "ro_UpdateFilter ro = None"
    and "ro_ObjectToWatch ro = or_default (iw_ObjectToWatch opts) (iwc_logical_cluster C)"
    and "ro_EndpointSliceObject ro = iwc_workspace_type C"
    unfolding ro by (auto simp: options_defaults_def init_provider_options_def or_default_def Let_def)
qed

interpretation initializing: url_extractor "initializing_extractor C" for C
  by unfold_locales
     (auto simp: initializing_extractor_def initializing_urls_def initializing_loop_eq split: option.splits)

text \<open>
  The initializing-workspaces provider watches exactly the virtual workspace
  URLs of its workspace type that are of the initializing kind: after a reconciliation in
  which every endpoint starts, those are the watched endpoints, whatever was watched before.
\<close>

theorem initializing_endpoints_watched:
  assumes "InitWorkspaces_New K env C D new_cache cfg name opts = Inr (ro, c, m, p0)"
    and "pe_ExtractURLs E = ro_ExtractURLs ro" and "iwc_as_wst C ob = Some endpoints"
    and "orders_ok Or" and "starts_ok E (\<lambda>_. True)" and "finite (dom (pv_watchedEndpoints p))"
    and "endpointSliceUpdate E Or ob p w = (err, p', w')"
  shows "err = None \<and>
    dom (pv_watchedEndpoints p') = {u \<in> set endpoints. \<exists>l r. u = l @ ''/initializingworkspaces/'' @ r}"
proof -
  let ?urls = "filter (\<lambda>u. contains u ''/initializingworkspaces/'') endpoints"
  have "pe_ExtractURLs E ob = Inr ?urls"
    unfolding assms(2) InitWorkspaces_New_options(2) [OF assms(1)]
    by (simp add: initializing_extractor_def initializing_urls_def assms(3) initializing_loop_eq)
  note r = update_result [OF assms(4-6) this assms(7)]
  then show ?thesis by (auto simp: contains_iff)
qed

text \<open>
  Every cluster the initializing-workspaces provider makes has no event recorder
  getter: asking it for a recorder panics, for every name.
\<close>

theorem initializing_workspaces_recorder_panics:
  assumes "InitWorkspaces_New K env C D new_cache cfg name opts = Inr (ro, c, m, p)"
    and "ro_NewCluster ro cfg' cl wildcardCA sch recorder = Inr cluster"
  shows "\<not> returned (scl_GetEventRecorderFor cluster nm) \<and> \<not> returned (scl_GetEventRecorder cluster nm)"
proof -
  have "NewScopedInitializingCluster K env cfg' cl wildcardCA sch = Inr cluster"
    using assms(2) unfolding InitWorkspaces_New_options(1) [OF assms(1)] initializing_new_cluster_def .
  then have "scl_eventRecorderGetter cluster = None"
    by (auto simp: NewScopedInitializingCluster_def Let_def split: sum.splits)
  then show ?thesis by (simp add: scl_GetEventRecorderFor_def scl_GetEventRecorder_def)
qed

subsection \<open>Witnesses\<close>

definition demo_iw_consts :: init_consts where
  "demo_iw_consts = \<lparr> iwc_logical_cluster = demo_obj [] [] ''lc'' [], iwc_workspace_type = demo_slice, iwc_log = 0,
     iwc_as_wst = (\<lambda>_. Some [''https://a/initializingworkspaces/x'', ''https://a/services/y'']) \<rparr>"

definition demo_iw_options :: "unit init_options" where
  "demo_iw_options = \<lparr> iw_Scheme = None, iw_Log = None, iw_ObjectToWatch = None, iw_Handlers = [] \<rparr>"

definition demo_iw_env :: "nat cluster_env" where
  "demo_iw_env = \<lparr> JoinPath = (\<lambda>h p. Inr (h @ p)), client_New = (\<lambda>_ _ _. Inr 1),
     ce_HTTPClientFor = (\<lambda>_. Inr 2), ce_NewDynamicRESTMapper = (\<lambda>_ _. Inr 3) \<rparr>"

definition demo_iw_defaults :: "(nat, (nat, nat, nat) scopedCluster) new_cluster default_values" where
  "demo_iw_defaults = \<lparr> dv_scheme = 0, dv_slice = demo_slice, dv_extract = (\<lambda>_. Inr []),
     dv_binding = demo_obj [] [] [] [], dv_log = 0, dv_new_cluster = initializing_new_cluster demo_kcp demo_iw_env \<rparr>"

definition demo_iw_provider ::
  "((nat, (nat, nat, nat) scopedCluster) new_cluster, unit) resolved_options \<times> nat \<times> recorderManager
     \<times> (nat, nat, string, nat) provider" where
  "demo_iw_provider = (options_defaults demo_iw_defaults
       (init_provider_options demo_kcp demo_iw_env demo_iw_consts demo_iw_options), 0, NewManager,
     (demo_provider Map.empty)\<lparr> pv_config := demo_base \<rparr>)"

lemma demo_iw_made:
  "InitWorkspaces_New demo_kcp demo_iw_env demo_iw_consts demo_iw_defaults (\<lambda>_ _ _ _. Inr 0) demo_base ''type'' demo_iw_options
     = Inr demo_iw_provider"
  by (simp add: InitWorkspaces_New_def New_Provider_def Let_def demo_iw_provider_def demo_provider_def)

theorem initializing_workspaces_recorder_panics_witness:
  "\<exists>cluster. ro_NewCluster (fst demo_iw_provider) demo_base ''c1'' 0 0 7 = Inr cluster \<and>
     \<not> returned (scl_GetEventRecorder cluster ''controller'')"
proof -
  obtain ro c m p where prov: "demo_iw_provider = (ro, c, m, p)" by (cases demo_iw_provider)
  have made: "InitWorkspaces_New demo_kcp demo_iw_env demo_iw_consts demo_iw_defaults (\<lambda>_ _ _ _. Inr 0) demo_base
     ''type'' demo_iw_options = Inr (ro, c, m, p)" using demo_iw_made prov by simp
  obtain cluster where cluster: "ro_NewCluster ro demo_base ''c1'' 0 0 7 = Inr cluster"
    unfolding InitWorkspaces_New_options(1) [OF made]
    by (simp add: initializing_new_cluster_def NewScopedInitializingCluster_def demo_iw_env_def)
  have "\<not> returned (scl_GetEventRecorder cluster ''controller'')"
    using initializing_workspaces_recorder_panics [OF made cluster] by blast
  with cluster show ?thesis unfolding prov fst_conv by blast
qed

theorem initializing_endpoints_watched_witness:
  "\<exists>p' w'. endpointSliceUpdate ((demo_provider_env [])\<lparr> pe_ExtractURLs := ro_ExtractURLs (fst demo_iw_provider) \<rparr>)
      sorted_orders demo_slice (demo_provider [''https://old'' \<mapsto> 1]) [1] = (None, p', w') \<and>
    dom (pv_watchedEndpoints p') = {''https://a/initializingworkspaces/x''}"
proof -
  let ?E = "(demo_provider_env [])\<lparr> pe_ExtractURLs := ro_ExtractURLs (fst demo_iw_provider) \<rparr>"
  let ?p = "demo_provider [''https://old'' \<mapsto> 1]"
  obtain ro c m p where prov: "demo_iw_provider = (ro, c, m, p)" by (cases demo_iw_provider)
  have made: "InitWorkspaces_New demo_kcp demo_iw_env demo_iw_consts demo_iw_defaults (\<lambda>_ _ _ _. Inr 0) demo_base
     ''type'' demo_iw_options = Inr (ro, c, m, p)" using demo_iw_made prov by simp
  obtain err p' w' where up: "endpointSliceUpdate ?E sorted_orders demo_slice ?p [1] = (err, p', w')"
    by (metis prod.collapse)
  have E: "pe_ExtractURLs ?E = ro_ExtractURLs ro" by (simp add: prov)
  have wst: "iwc_as_wst demo_iw_consts demo_slice = Some [''https://a/initializingworkspaces/x'', ''https://a/services/y'']"
    by (simp add: demo_iw_consts_def)
  have starts: "starts_ok ?E (\<lambda>_. True)" using demo_starts_ok [of "[]"] by (simp add: starts_ok_def)
  have fin: "finite (dom (pv_watchedEndpoints ?p))" by (simp add: demo_provider_def)
  note r = initializing_endpoints_watched [OF made E wst sorted_orders_ok starts fin up]
  have "{u \<in> set [''https://a/initializingworkspaces/x'', ''https://a/services/y''].
      \<exists>l r. u = l @ ''/initializingworkspaces/'' @ r} = {''https://a/initializingworkspaces/x''}"
    unfolding contains_iff [symmetric] by auto
  then show ?thesis using r up by metis
qed

end
