(* ===== verification/EndToEnd.thy ===== *)
theory EndToEnd
  imports Fleet InitWorkspaces
begin

text \<open>
  From the provider to the objects: the endpoints, the set of clusters, \<open>NewScopedCluster\<close> and
  \<open>NewScopedInitializingCluster\<close> of \<^verbatim>\<open>pkg/cache/cluster.go\<close>, the scoped cache and the cache reader
  composed. Shown: over every history a cluster \<open>Get\<close> returns reads and writes the logical
  cluster it was asked for, and lists all the objects the provider's caches hold of it.
\<close>

text \<open>What \<open>NewProvider\<close> uses when the options name no function.\<close>

definition default_NewCluster ::
  "kcpapi \<Rightarrow> 'k cluster_env \<Rightarrow> ('p \<Rightarrow> ('d, 'e) eventRecorderGetter option) \<Rightarrow> ('p, ('k, 'd, 'e) scopedCluster) new_cluster" where
  "default_NewCluster K env getter cfg clusterName wildcardCA scheme recorderProvider =
     NewScopedCluster K env cfg clusterName wildcardCA scheme (getter recorderProvider)"

definition scoped_clusters ::
  "kcpapi \<Rightarrow> 'k cluster_env \<Rightarrow> ('p, ('k, 'd, 'e) scopedCluster, 'i, 'h, 'r, 's) fleet \<Rightarrow> bool" where
  "scoped_clusters K env F \<longleftrightarrow> (\<exists>getter. ro_NewCluster (we_opts (fl_endpoint F)) = default_NewCluster K env getter) \<or>
     ro_NewCluster (we_opts (fl_endpoint F)) = initializing_new_cluster K env"

lemma built_scoped:
  assumes "scoped_clusters K env F" and "built (endpoint_for F ctx cfg ca) cl c"
  shows "scl_cache c = \<lparr> sc_base = ca, sc_clusterName = cl \<rparr>"
    and "JoinPath env (cfg_host cfg) (lc_request_path K cl) = Inr (cfg_host (scl_config c))"
  using assms by (auto simp: scoped_clusters_def built_def default_NewCluster_def initializing_new_cluster_def
      dest: NewScopedCluster_Inr(1,6) NewScopedInitializingCluster_Inr(1,5))

text \<open>The informer depends on the kind and the class of the object only.\<close>

definition same_kind :: "('i, 's) crt \<Rightarrow> kobject \<Rightarrow> kobject \<Rightarrow> bool" where
  "same_kind R a b \<longleftrightarrow> ob_class a = ob_class b \<and> (case (GVKForObject R a, GVKForObject R b) of
     (Inr g, Inr h) \<Rightarrow> nonlist_gvk g = nonlist_gvk h | _ \<Rightarrow> False)"

lemma same_kind_informer:
  assumes "same_kind R a b"
  shows "GetSharedInformer R a s = GetSharedInformer R b s"
proof -
  obtain g h where g: "GVKForObject R a = Inr g" "GVKForObject R b = Inr h" and e: "nonlist_gvk g = nonlist_gvk h" "ob_class a = ob_class b"
    using assms unfolding same_kind_def by (auto split: sum.splits)
  show ?thesis by (simp only: GetSharedInformer_def sum.case g e)
qed

lemma informer_kind:
  assumes "GetSharedInformer R ob s = (Inr (i, g, scope), s')"
  shows "\<exists>k. GVKForObject R ob = Inr k \<and> g = nonlist_gvk k"
  using assms by (auto simp: GetSharedInformer_def Let_def split: sum.splits prod.splits if_splits)

text \<open>The objects in the caches of the endpoints the provider watches.\<close>

definition watched_objects ::
  "(('p, 'c, 'i, 's) watchedEndpoint, nat, 'h, 'r) provider \<Rightarrow> 's stores \<Rightarrow> 's \<Rightarrow> kobject set" where
  "watched_objects p T s = (\<Union>u \<in> dom (pv_watchedEndpoints p). st_objs T u s)"

definition proper_objects :: "kcpapi \<Rightarrow> kobject set \<Rightarrow> bool" where
  "proper_objects K X \<longleftrightarrow> (\<forall>ob \<in> X. names_ok K ob \<and> lc_from K ob \<noteq> [] \<and> lc_from K ob \<noteq> ''*'')"

lemma watched_at_home:
  assumes "fleet_inv K F U T (p, s, L, M)" and "pv_watchedEndpoints p (st_home T cl) = Some e"
  shows "{ob \<in> watched_objects p T s. lc_from K ob = cl \<and> P ob} = {ob \<in> st_objs T (st_home T cl) s. lc_from K ob = cl \<and> P ob}"
proof (intro set_eqI iffI)
  fix ob
  assume ob: "ob \<in> {ob \<in> watched_objects p T s. lc_from K ob = cl \<and> P ob}"
  then obtain u d where u: "pv_watchedEndpoints p u = Some d" "ob \<in> st_objs T u s" unfolding watched_objects_def by blast
  have "u = st_home T cl" using fleet_invD(2) [OF assms(1) u] ob by simp
  then show "ob \<in> {ob \<in> st_objs T (st_home T cl) s. lc_from K ob = cl \<and> P ob}" using u(2) ob by simp
qed (use assms(2) in \<open>auto simp: watched_objects_def\<close>)

text \<open>A listed object is a copy under the reader's kind, or the cached object itself when asked so.\<close>

definition listed_as :: "gvk \<Rightarrow> list_options \<Rightarrow> kobject \<Rightarrow> kobject" where
  "listed_as g lo ob = (if lo_UnsafeDisableDeepCopy lo = Some True then ob else ob\<lparr> ob_gvk := g \<rparr>)"

lemma out_copy_listed: "out_copy (reader_over K ix g scope cl) (lo_UnsafeDisableDeepCopy lo) = listed_as g lo"
  by (simp add: listed_as_def fun_eq_iff)

lemma scoped_list_eval:
  assumes I: "GetSharedInformer R out s = (Inr (i, g, scope), s')"
    and "kcp_ok K" and "accessor_ok acc" and ix: "cluster_indexed K acc (GetIndexer R i s')"
    and all: "set (ListAll (GetIndexer R i s')) = Obj ` X" and X: "proper_objects K X" and cl: "cl \<in> lc_from K ` X"
    and lo: "lo_FieldSelector lo = None" "lo_Continue lo = []" "CHR ''/'' \<notin> set (lo_Namespace lo)"
  shows "\<exists>objs. scoped_List K acc R SetList \<lparr> sc_base = ca, sc_clusterName = cl \<rparr> out lo s =
      (SetList out (take_limit (lo_Limit lo) objs), s') \<and>
    set objs = listed_as g lo ` {ob \<in> X. lc_from K ob = cl \<and>
      (lo_Namespace lo = [] \<or> ob_namespace ob = lo_Namespace lo) \<and> label_ok lo ob}"
proof -
  let ?r = "reader_over K (GetIndexer R i s') g scope cl"
  have "proper_names K (GetIndexer R i s')" using X by (auto simp: proper_names_def proper_objects_def all)
  moreover obtain ob where "Obj ob \<in> set (ListAll (GetIndexer R i s'))" "cl = lc_from K ob" using cl all by auto
  ultimately have R: "scoped_reader K acc ?r" using proper_scoped_reader [OF assms(2,3) ix] by blast
  obtain obs where obs: "set obs = {ob \<in> stored ?r. in_scope K ?r (lo_Namespace lo) ob}"
    and objs: "cacheReader_objects K acc ?r lo = Inr (take_limit (lo_Limit lo)
       (map (out_copy ?r (lo_UnsafeDisableDeepCopy lo)) (filter (label_ok lo) obs)))"
    by (rule scoped_objects [OF R lo(1-3)])
  show ?thesis
    unfolding scoped_List_reader [OF I] scopedCache.simps cacheReader_List_def objs sum.case
    by (intro exI conjI, rule refl, unfold out_copy_listed) (use obs in \<open>auto simp: in_scope_def all\<close>)
qed

text \<open>
  Property C3. From the provider to the objects, over every history of starts, stops and callbacks
  and for every cluster that \<open>Get\<close> returns, made by \<open>NewScopedCluster\<close> (the default) or
  \<open>NewScopedInitializingCluster\<close>, except those of \<open>L\<close>, which were engaged when their
  endpoint was stopped and are not disengaged yet. Its configuration points at the asked logical
  cluster below the URL that serves it. A list through its cache, of the kind of \<open>ObjectToWatch\<close>
  and without field selector and continue token, gives exactly the objects of that logical cluster
  that are in any cache the provider watches, in the asked namespace and under the label selector,
  cut at the limit when there is one: none of another cluster and none missing. The objects in the
  caches have a logical cluster and names and namespaces without slash, as the API server grants.
\<close>

theorem provided_cluster_lists_its_objects:
  assumes "fleet_ok K acc F U T" and "fleet_reach K F T (p, s, L, M)" and "scoped_clusters K env F"
    and "provider_Get F cl s = Inr c" and "cl \<notin> L"
    and "same_kind (fl_crt F (sc_base (scl_cache c))) out (ro_ObjectToWatch (we_opts (fl_endpoint F)))"
    and "proper_objects K (watched_objects p T s)"
    and "lo_FieldSelector lo = None" and "lo_Continue lo = []" and "CHR ''/'' \<notin> set (lo_Namespace lo)"
  shows "JoinPath env (st_home T cl) (lc_request_path K cl) = Inr (cfg_host (scl_config c)) \<and>
    (\<exists>objs k s'. scoped_List K acc (fl_crt F (sc_base (scl_cache c))) SetList (scl_cache c) out lo s =
         (SetList out (take_limit (lo_Limit lo) objs), s') \<and>
       GVKForObject (fl_crt F (sc_base (scl_cache c))) out = Inr k \<and>
       set objs = listed_as (nonlist_gvk k) lo ` {ob \<in> watched_objects p T s. lc_from K ob = cl \<and>
         (lo_Namespace lo = [] \<or> ob_namespace ob = lo_Namespace lo) \<and> label_ok lo ob})"
proof -
  let ?u = "st_home T cl"
  note inv = fleet_reach_inv [OF assms(1,2)]
  obtain e where e: "pv_watchedEndpoints p ?u = Some e" and b: "built e cl c" and cl: "cl \<in> lc_from K ` st_objs T ?u s"
    using fleet_invD(4) [OF inv assms(4)] assms(5) unfolding served_def by blast
  note m = fleet_invD(1) [OF inv e, unfolded made_def]
  note U = conjunct1 [OF m]
  obtain ctx cfg where u: "cfg_host cfg = ?u" and W: "e = endpoint_for F ctx cfg (st_cache T ?u)"
    using conjunct2 [OF m] by (elim exE conjE) (rule that)
  note c = built_scoped [OF assms(3) b [unfolded W]]
  note ok = fleet_okD(1) [OF assms(1) U, of ctx cfg]
  let ?R = "fl_crt F (st_cache T ?u)"
  obtain i g scope s' where I: "GetSharedInformer ?R (ro_ObjectToWatch (we_opts (fl_endpoint F))) s = (Inr (i, g, scope), s')"
    and ix: "cluster_indexed K acc (GetIndexer ?R i s')" "set (ListAll (GetIndexer ?R i s')) = Obj ` st_objs T ?u s"
    using endpoint_okD(14) [OF ok, of s, unfolded endpoint_for_sel] by (elim exE conjE) (rule that)
  have I': "GetSharedInformer ?R out s = (Inr (i, g, scope), s')"
    using same_kind_informer [OF assms(6)] I c(1) by simp
  obtain k where k: "GVKForObject ?R out = Inr k" "g = nonlist_gvk k" using informer_kind [OF I'] by blast
  have "proper_objects K (st_objs T ?u s)"
    using assms(7) e unfolding proper_objects_def watched_objects_def by blast
  from scoped_list_eval [OF I' endpoint_okD(1,2) [OF ok] ix this cl assms(8-10), of SetList "st_cache T ?u"]
  obtain objs where "scoped_List K acc ?R SetList (scl_cache c) out lo s = (SetList out (take_limit (lo_Limit lo) objs), s')"
    and "set objs = listed_as (nonlist_gvk k) lo ` {ob \<in> st_objs T ?u s. lc_from K ob = cl \<and>
      (lo_Namespace lo = [] \<or> ob_namespace ob = lo_Namespace lo) \<and> label_ok lo ob}"
    unfolding c(1) k(2) by (elim exE conjE)
  moreover have "sc_base (scl_cache c) = st_cache T ?u" by (simp add: c(1))
  ultimately show ?thesis
    unfolding watched_at_home [OF inv e] using c(2) u k(1) by (intro conjI exI) simp_all
qed

subsection \<open>Witness\<close>

text \<open>Two logical clusters on one of the two shards; each cluster object lists its own.\<close>

definition demo_scoped_new :: "(nat, (nat, string, string) scopedCluster) new_cluster" where
  "demo_scoped_new = default_NewCluster demo_kcp demo_cluster_env (\<lambda>_. None)"

lemma demo_scoped_total: "\<forall>cfg n ca sch p. \<exists>c. demo_scoped_new cfg n ca sch p = Inr c"
  by (simp add: demo_scoped_new_def default_NewCluster_def NewScopedCluster_def demo_cluster_env_def)

lemma demo_fleet_kind: "same_kind (fl_crt (demo_fleet new) ca) (demo_obj [] [] [] []) (ro_ObjectToWatch (we_opts (fl_endpoint (demo_fleet new))))"
  by (simp add: same_kind_def demo_fleet_def demo_fleet_crt_def demo_fleet_endpoint_def)

lemma demo_kind_kept: "(demo_obj cl ns n pth)\<lparr> ob_gvk := nonlist_gvk demo_gvk \<rparr> = demo_obj cl ns n pth"
  by (simp add: demo_obj_def nonlist_gvk_def demo_gvk_def trim_suffix_def has_suffix_def)

theorem provided_cluster_lists_its_objects_witness:
  "\<exists>p s c s'. fleet_reach demo_kcp (demo_fleet demo_scoped_new) demo_stores (p, s, {}, {}) \<and>
     provider_Get (demo_fleet demo_scoped_new) ''c2'' s = Inr c \<and> cfg_host (scl_config c) = ''https://bb/clusters/c2'' \<and>
     scoped_List demo_kcp demo_accessor (fl_crt (demo_fleet demo_scoped_new) (sc_base (scl_cache c))) (\<lambda>_ objs. Inr (hd objs)) (scl_cache c)
       (demo_obj [] [] [] []) (demo_opts [] 0) s = (Inr (demo_obj ''c2'' [] ''b'' []), s') \<and>
     watched_objects p demo_stores s = {demo_obj ''c3'' [] ''d'' [], demo_obj ''c2'' [] ''b'' []}"
proof -
  let ?b = "demo_obj ''c2'' [] ''b'' []" and ?d = "demo_obj ''c3'' [] ''d'' []" and ?F = "demo_fleet demo_scoped_new"
  let ?T = "demo_stores :: (nat, string, string) scopedCluster demo_fleet_state stores"
  obtain p s where r0: "fleet_reach demo_kcp ?F ?T (p, s, {}, {})" and dom: "dom (pv_watchedEndpoints p) = demo_urls2"
    and e0: "\<forall>u \<in> demo_urls2. st_objs ?T u s = {}"
    using demo_fleet_watching [OF demo_scoped_total] by (elim exE conjE) (rule that)
  have bb: "''https://bb'' \<in> dom (pv_watchedEndpoints p)" by (simp add: dom)
  have homes: "st_home ?T (lc_from demo_kcp ?b) = ''https://bb''" "st_home ?T (lc_from demo_kcp ?d) = ''https://bb''"
    by (simp_all add: demo_stores_def)
  obtain s1 where s1: "fleet_reach demo_kcp ?F ?T (p, s1, {}, {})" "st_objs ?T ''https://bb'' s1 = insert ?b (st_objs ?T ''https://bb'' s)"
    "\<forall>v \<in> dom (pv_watchedEndpoints p) - {''https://bb''}. st_objs ?T v s1 = st_objs ?T v s"
    using demo_fleet_new [OF demo_scoped_total r0 bb homes(1)] by (elim exE conjE) (rule that)
  obtain s2 where s2: "fleet_reach demo_kcp ?F ?T (p, s2, {}, {})" "st_objs ?T ''https://bb'' s2 = insert ?d (st_objs ?T ''https://bb'' s1)"
    "\<forall>v \<in> dom (pv_watchedEndpoints p) - {''https://bb''}. st_objs ?T v s2 = st_objs ?T v s1"
    using demo_fleet_new [OF demo_scoped_total s1(1) bb homes(2)] by (elim exE conjE) (rule that)
  have all: "watched_objects p ?T s2 = {?d, ?b}"
    unfolding watched_objects_def dom using e0 s1(2,3) s2(2,3) by (simp add: dom)
  have free: "no_filters (fl_endpoint ?F)" by (simp add: no_filters_def demo_fleet_def demo_fleet_endpoint_def)
  obtain e where e: "pv_watchedEndpoints p ''https://bb'' = Some e" using bb by blast
  have "''c2'' \<in> engaged (fl_endpoint ?F) s2"
    using fleet_invD(3) [OF fleet_reach_inv [OF demo_fleet_ok [OF demo_scoped_total] s2(1)] e free] s1(2) s2(2) by auto
  then obtain c where c: "provider_Get ?F ''c2'' s2 = Inr c" unfolding engaged_provider by blast
  have sc: "scoped_clusters demo_kcp demo_cluster_env ?F"
    by (auto simp: scoped_clusters_def demo_fleet_def demo_fleet_endpoint_def demo_scoped_new_def)
  have proper: "proper_objects demo_kcp (watched_objects p ?T s2)"
    unfolding all proper_objects_def by (simp add: names_ok_def)
  let ?R = "fl_crt ?F (sc_base (scl_cache c))"
  have lo: "lo_FieldSelector (demo_opts [] 0) = None" "lo_Continue (demo_opts [] 0) = []" "CHR ''/'' \<notin> set (lo_Namespace (demo_opts [] 0))"
    by (simp_all add: demo_opts_def)
  have opts: "take_limit (lo_Limit (demo_opts [] 0)) objs = objs" "listed_as g (demo_opts [] 0) ob = ob\<lparr> ob_gvk := g \<rparr>" for objs :: "kobject list" and g ob
    by (simp_all add: take_limit_def listed_as_def demo_opts_def)
  note P = provided_cluster_lists_its_objects [OF demo_fleet_ok [OF demo_scoped_total] s2(1) sc c _ demo_fleet_kind proper lo,
      of "\<lambda>_ objs. Inr (hd objs)", unfolded opts, simplified]
  obtain objs k s' where L: "scoped_List demo_kcp demo_accessor ?R (\<lambda>_ objs. Inr (hd objs)) (scl_cache c) (demo_obj [] [] [] [])
      (demo_opts [] 0) s2 = (Inr (hd objs), s')" and k: "GVKForObject ?R (demo_obj [] [] [] []) = Inr k"
    and objs: "set objs = (\<lambda>ob. ob\<lparr> ob_gvk := nonlist_gvk k \<rparr>) ` {ob \<in> watched_objects p ?T s2. lc_from demo_kcp ob = ''c2'' \<and>
      (lo_Namespace (demo_opts [] 0) = [] \<or> ob_namespace ob = lo_Namespace (demo_opts [] 0)) \<and> label_ok (demo_opts [] 0) ob}"
    using P by (elim exE conjE) (rule that)
  have "k = demo_gvk" using k by (simp add: demo_fleet_def demo_fleet_crt_def demo_obj_def)
  moreover have "{ob \<in> watched_objects p ?T s2. lc_from demo_kcp ob = ''c2'' \<and>
      (lo_Namespace (demo_opts [] 0) = [] \<or> ob_namespace ob = lo_Namespace (demo_opts [] 0)) \<and> label_ok (demo_opts [] 0) ob} = {?b}"
    unfolding all by (auto simp: demo_opts_def label_ok_def)
  ultimately have "set objs = {?b}" unfolding objs by (simp add: demo_kind_kept)
  then have "hd objs = ?b" by (cases objs) auto
  moreover have "cfg_host (scl_config c) = ''https://bb/clusters/c2''"
    using P by (simp add: demo_cluster_env_def demo_stores_def)
  ultimately show ?thesis using s2(1) c L all by (intro exI conjI) simp_all
qed

end
