(* ===== verification/Initializer.thy ===== *)
theory Initializer
  imports Objects
begin

text \<open>
  \<^verbatim>\<open>examples/initializingworkspaces/main.go\<close>: the reconciler of the initializer controller.
  It creates a child workspace in a logical cluster that is being initialized, waits until the
  child is ready, creates a ConfigMap and removes its initializer. The clusters of the manager
  and their clients are parameters; a client reads and writes the world \<open>'w\<close>. The logger is
  left out.
\<close>

subsection \<open>The reconciler\<close>

record reconcile_request =
  rq_ClusterName :: string
  rq_NamespacedName :: "string \<times> string"

text \<open>\<open>reconcile.Result\<close>, with the duration in nanoseconds; the zero value does not requeue.\<close>

record reconcile_result =
  rr_RequeueAfter :: int

definition reconcile_done :: reconcile_result where
  "reconcile_done = \<lparr> rr_RequeueAfter = 0 \<rparr>"

definition reconcile_again :: reconcile_result where
  "reconcile_again = \<lparr> rr_RequeueAfter = 1000000000 \<rparr>"

lemma done_not_again [simp]: "reconcile_done \<noteq> reconcile_again" "reconcile_again \<noteq> reconcile_done"
  by (simp_all add: reconcile_done_def reconcile_again_def)

record logical_cluster =
  lg_Initializers :: "string list"
  lg_rest :: nat

record child_workspace =
  cw_Name :: string
  cw_Phase :: string

record config_map =
  cm_Name :: string
  cm_Namespace :: string
  cm_Data :: "(string \<times> string) list"

text \<open>
  \<open>ie_KindFor\<close> is the error of the REST mapper for the workspaces resource; \<open>Create\<close> writes
  the server's answer into the workspace it is given, as client-go does; \<open>Patch\<close> takes the
  copy it is computed from and the changed object. \<open>ie_EnsureAbsent\<close> is
  \<open>initialization.EnsureInitializerAbsent\<close> of the sdk.
\<close>

record ('cl, 'w) initializer_env =
  ie_GetCluster :: "string \<Rightarrow> 'w \<Rightarrow> 'cl result"
  ie_GetLogicalCluster :: "'cl \<Rightarrow> string \<times> string \<Rightarrow> 'w \<Rightarrow> logical_cluster result"
  ie_KindFor :: "'cl \<Rightarrow> 'w \<Rightarrow> error option"
  ie_GetWorkspace :: "'cl \<Rightarrow> string \<Rightarrow> 'w \<Rightarrow> child_workspace result"
  ie_CreateWorkspace :: "'cl \<Rightarrow> child_workspace \<Rightarrow> 'w \<Rightarrow> child_workspace result \<times> 'w"
  ie_CreateConfigMap :: "'cl \<Rightarrow> config_map \<Rightarrow> 'w \<Rightarrow> error option \<times> 'w"
  ie_PatchStatus :: "'cl \<Rightarrow> logical_cluster \<Rightarrow> logical_cluster \<Rightarrow> 'w \<Rightarrow> error option \<times> 'w"
  ie_IsNotFound :: "error \<Rightarrow> bool"
  ie_EnsureAbsent :: "string \<Rightarrow> string list \<Rightarrow> string list"
  ie_PhaseReady :: string

definition IgnoreNotFound :: "('cl, 'w) initializer_env \<Rightarrow> error \<Rightarrow> error option" where
  "IgnoreNotFound E err = (if ie_IsNotFound E err then None else Some err)"

definition child_name :: "reconcile_request \<Rightarrow> string" where
  "child_name req = ''initialized-workspace-'' @ rq_ClusterName req"

definition initializer_cm :: config_map where
  "initializer_cm = \<lparr> cm_Name = ''kcp-initializer-cm'', cm_Namespace = ''default'',
     cm_Data = [(''test-data'', ''example-value'')] \<rparr>"

text \<open>
  The child workspace, looked up or created. \<open>None\<close> is the early return of a reconciliation
  that ends without an error although the child could not be had.
\<close>

definition child_workspace_of ::
  "('cl, 'w) initializer_env \<Rightarrow> 'cl \<Rightarrow> string \<Rightarrow> 'w \<Rightarrow> child_workspace option \<times> 'w" where
  "child_workspace_of E cl childWorkspace w =
     (case ie_GetWorkspace E cl childWorkspace w of
        Inr ws \<Rightarrow> (Some ws, w)
      | Inl err \<Rightarrow>
          if \<not> ie_IsNotFound E err then (None, w)
          else (case ie_CreateWorkspace E cl \<lparr> cw_Name = childWorkspace, cw_Phase = [] \<rparr> w of
                  (Inl err, w') \<Rightarrow> (None, w')
                | (Inr ws, w') \<Rightarrow> (Some ws, w')))"

text \<open>What is done once the child workspace is ready.\<close>

definition finish_cluster ::
  "('cl, 'w) initializer_env \<Rightarrow> string \<Rightarrow> 'cl \<Rightarrow> logical_cluster \<Rightarrow> 'w
     \<Rightarrow> (reconcile_result \<times> error option) \<times> 'w" where
  "finish_cluster E ini cl lc w =
     (case ie_CreateConfigMap E cl initializer_cm w of
        (Some err, w') \<Rightarrow> ((reconcile_done, Some (Errorf ''failed to create ConfigMap: %w'' [] [err])), w')
      | (None, w') \<Rightarrow>
          (case ie_PatchStatus E cl lc (lc\<lparr> lg_Initializers := ie_EnsureAbsent E ini (lg_Initializers lc) \<rparr>) w' of
             (Some err, w'') \<Rightarrow> ((reconcile_done, Some err), w'')
           | (None, w'') \<Rightarrow> ((reconcile_done, None), w'')))"

definition initialize_cluster ::
  "('cl, 'w) initializer_env \<Rightarrow> string \<Rightarrow> reconcile_request \<Rightarrow> 'cl \<Rightarrow> logical_cluster \<Rightarrow> 'w
     \<Rightarrow> (reconcile_result \<times> error option) \<times> 'w" where
  "initialize_cluster E ini req cl lc w =
     (case child_workspace_of E cl (child_name req) w of
        (None, w') \<Rightarrow> ((reconcile_done, None), w')
      | (Some ws, w') \<Rightarrow>
          if cw_Phase ws \<noteq> ie_PhaseReady E then ((reconcile_again, None), w')
          else finish_cluster E ini cl lc w')"

definition initializer_reconcile ::
  "('cl, 'w) initializer_env \<Rightarrow> string \<Rightarrow> reconcile_request \<Rightarrow> 'w
     \<Rightarrow> (reconcile_result \<times> error option) \<times> 'w" where
  "initializer_reconcile E ini req w =
     (case ie_GetCluster E (rq_ClusterName req) w of
        Inl err \<Rightarrow> ((reconcile_done, Some (Errorf ''failed to get cluster: %w'' [] [err])), w)
      | Inr cl \<Rightarrow>
          (case ie_GetLogicalCluster E cl (rq_NamespacedName req) w of
             Inl err \<Rightarrow> ((reconcile_done, IgnoreNotFound E err), w)
           | Inr lc \<Rightarrow>
               if ie_KindFor E cl w \<noteq> None then ((reconcile_again, None), w)
               else if ini \<notin> set (lg_Initializers lc) then ((reconcile_done, None), w)
               else initialize_cluster E ini req cl lc w))"

text \<open>
  A history: before every reconciliation somebody else changes the world. It returns what the
  reconciliations returned and the last world.
\<close>

fun reconcile_history ::
  "('cl, 'w) initializer_env \<Rightarrow> string \<Rightarrow> reconcile_request \<Rightarrow> ('w \<Rightarrow> 'w) list \<Rightarrow> 'w
     \<Rightarrow> (reconcile_result \<times> error option) list \<times> 'w" where
  "reconcile_history E ini req [] w = ([], w)"
| "reconcile_history E ini req (other # others) w =
     (case initializer_reconcile E ini req (other w) of
        (r, w') \<Rightarrow> (case reconcile_history E ini req others w' of (rs, w'') \<Rightarrow> (r # rs, w'')))"

text \<open>
  The same when the controller only reconciles again what asked for it: a request is put back
  into the queue after an error or with a positive \<open>RequeueAfter\<close>, and dropped otherwise.
\<close>

fun reconcile_while_asked ::
  "('cl, 'w) initializer_env \<Rightarrow> string \<Rightarrow> reconcile_request \<Rightarrow> ('w \<Rightarrow> 'w) list \<Rightarrow> 'w \<Rightarrow> 'w" where
  "reconcile_while_asked E ini req [] w = w"
| "reconcile_while_asked E ini req (other # others) w =
     (case initializer_reconcile E ini req (other w) of
        ((r, err), w') \<Rightarrow>
          if err \<noteq> None \<or> rr_RequeueAfter r > 0 then reconcile_while_asked E ini req others w' else w')"

subsection \<open>The API server\<close>

text \<open>
  What the reconciler relies on: how the world shows the initializers of the logical cluster,
  whether the ConfigMap exists in it and the phase of the child workspace.
\<close>

record 'w cluster_view =
  vw_initializers :: "'w \<Rightarrow> string list"
  vw_has_cm :: "'w \<Rightarrow> bool"
  vw_child :: "'w \<Rightarrow> string option"

text \<open>
  The documented behaviour of the calls, failures included, for the cluster \<open>cl\<close> of a request:
  a successful \<open>Get\<close> shows the stored object; \<open>Create\<close> of an object that exists is an error;
  a \<open>Patch\<close> changes the initializers, and one that failed may or may not have been applied.
\<close>

definition api_laws :: "('cl, 'w) initializer_env \<Rightarrow> 'w cluster_view \<Rightarrow> reconcile_request \<Rightarrow> 'cl \<Rightarrow> bool" where
  "api_laws E V req cl \<longleftrightarrow>
     (\<forall>w c. ie_GetCluster E (rq_ClusterName req) w = Inr c \<longrightarrow> c = cl) \<and>
     (\<forall>w lc. ie_GetLogicalCluster E cl (rq_NamespacedName req) w = Inr lc \<longrightarrow>
        lg_Initializers lc = vw_initializers V w) \<and>
     (\<forall>ws w. vw_initializers V (snd (ie_CreateWorkspace E cl ws w)) = vw_initializers V w \<and>
        vw_has_cm V (snd (ie_CreateWorkspace E cl ws w)) = vw_has_cm V w) \<and>
     (\<forall>w r w'. ie_CreateConfigMap E cl initializer_cm w = (r, w') \<longrightarrow>
        vw_initializers V w' = vw_initializers V w \<and> (vw_has_cm V w \<longrightarrow> r \<noteq> None \<and> vw_has_cm V w') \<and>
        (r = None \<longrightarrow> vw_has_cm V w')) \<and>
     (\<forall>old new w r w'. ie_PatchStatus E cl old new w = (r, w') \<longrightarrow>
        vw_has_cm V w' = vw_has_cm V w \<and>
        (vw_initializers V w' = lg_Initializers new \<or> r \<noteq> None \<and> vw_initializers V w' = vw_initializers V w)) \<and>
     (\<forall>i is. set (ie_EnsureAbsent E i is) = set is - {i})"

lemma api_lawsD:
  assumes "api_laws E V req cl"
  shows "ie_GetCluster E (rq_ClusterName req) w = Inr c \<Longrightarrow> c = cl"
    and "ie_GetLogicalCluster E cl (rq_NamespacedName req) w = Inr lc \<Longrightarrow> lg_Initializers lc = vw_initializers V w"
    and "ie_CreateWorkspace E cl ws w = (wr, w') \<Longrightarrow>
      vw_initializers V w' = vw_initializers V w \<and> vw_has_cm V w' = vw_has_cm V w"
    and "ie_CreateConfigMap E cl initializer_cm w = (r, w') \<Longrightarrow>
      vw_initializers V w' = vw_initializers V w \<and> (vw_has_cm V w \<longrightarrow> r \<noteq> None \<and> vw_has_cm V w') \<and>
      (r = None \<longrightarrow> vw_has_cm V w')"
    and "ie_PatchStatus E cl old new w = (r, w') \<Longrightarrow> vw_has_cm V w' = vw_has_cm V w \<and>
      (vw_initializers V w' = lg_Initializers new \<or> r \<noteq> None \<and> vw_initializers V w' = vw_initializers V w)"
    and "set (ie_EnsureAbsent E i is) = set is - {i}"
proof -
  note laws = assms [unfolded api_laws_def]
  note law = laws [THEN conjunct1] laws [THEN conjunct2, THEN conjunct1]
    laws [THEN conjunct2, THEN conjunct2, THEN conjunct1]
    laws [THEN conjunct2, THEN conjunct2, THEN conjunct2, THEN conjunct1]
    laws [THEN conjunct2, THEN conjunct2, THEN conjunct2, THEN conjunct2, THEN conjunct1]
    laws [THEN conjunct2, THEN conjunct2, THEN conjunct2, THEN conjunct2, THEN conjunct2]
  show "ie_GetCluster E (rq_ClusterName req) w = Inr c \<Longrightarrow> c = cl" using law(1) by blast
  show "ie_GetLogicalCluster E cl (rq_NamespacedName req) w = Inr lc \<Longrightarrow> lg_Initializers lc = vw_initializers V w"
    using law(2) by blast
  show "ie_CreateWorkspace E cl ws w = (wr, w') \<Longrightarrow>
      vw_initializers V w' = vw_initializers V w \<and> vw_has_cm V w' = vw_has_cm V w"
    using law(3) [THEN spec, THEN spec, of ws w] by simp
  show "ie_CreateConfigMap E cl initializer_cm w = (r, w') \<Longrightarrow>
      vw_initializers V w' = vw_initializers V w \<and> (vw_has_cm V w \<longrightarrow> r \<noteq> None \<and> vw_has_cm V w') \<and>
      (r = None \<longrightarrow> vw_has_cm V w')"
    by (rule law(4) [THEN spec, THEN spec, THEN spec, THEN mp])
  show "ie_PatchStatus E cl old new w = (r, w') \<Longrightarrow> vw_has_cm V w' = vw_has_cm V w \<and>
      (vw_initializers V w' = lg_Initializers new \<or> r \<noteq> None \<and> vw_initializers V w' = vw_initializers V w)"
    by (rule law(5) [THEN spec, THEN spec, THEN spec, THEN spec, THEN spec, THEN mp])
  show "set (ie_EnsureAbsent E i is) = set is - {i}" using law(6) by blast
qed

subsection \<open>What one reconciliation does\<close>

lemma child_workspace_keeps:
  assumes "api_laws E V req cl" and "child_workspace_of E cl c w = (q, w')"
  shows "vw_initializers V w' = vw_initializers V w" and "vw_has_cm V w' = vw_has_cm V w"
    and "q = Some ws \<Longrightarrow> ie_GetWorkspace E cl c w = Inr ws \<or>
      fst (ie_CreateWorkspace E cl \<lparr> cw_Name = c, cw_Phase = [] \<rparr> w) = Inr ws"
proof -
  obtain wr w1 where cr: "ie_CreateWorkspace E cl \<lparr> cw_Name = c, cw_Phase = [] \<rparr> w = (wr, w1)" by fastforce
  note kept = api_lawsD(3) [OF assms(1) cr]
  have "w' = w \<or> w' = w1"
    using assms(2) cr by (auto simp: child_workspace_of_def split: sum.splits if_splits)
  then show "vw_initializers V w' = vw_initializers V w" and "vw_has_cm V w' = vw_has_cm V w"
    using kept by auto
  show "q = Some ws \<Longrightarrow> ie_GetWorkspace E cl c w = Inr ws \<or>
      fst (ie_CreateWorkspace E cl \<lparr> cw_Name = c, cw_Phase = [] \<rparr> w) = Inr ws"
    using assms(2) cr by (auto simp: child_workspace_of_def split: sum.splits if_splits)
qed

lemma finish_cluster_result:
  assumes "api_laws E V req cl" and "lg_Initializers lc = vw_initializers V w"
    and "finish_cluster E ini cl lc w = ((r, err), w')"
  shows "vw_has_cm V w \<Longrightarrow> vw_initializers V w' = vw_initializers V w \<and> vw_has_cm V w' \<and> err \<noteq> None"
    and "vw_initializers V w' \<noteq> vw_initializers V w \<Longrightarrow> vw_has_cm V w' \<and>
      vw_initializers V w' = ie_EnsureAbsent E ini (vw_initializers V w)"
    and "err = None \<Longrightarrow> vw_has_cm V w' \<and> vw_initializers V w' = ie_EnsureAbsent E ini (vw_initializers V w)"
    and "r = reconcile_done"
proof -
  let ?new = "lc\<lparr> lg_Initializers := ie_EnsureAbsent E ini (lg_Initializers lc) \<rparr>"
  obtain q w1 where cm: "ie_CreateConfigMap E cl initializer_cm w = (q, w1)" by fastforce
  obtain p w2 where pt: "ie_PatchStatus E cl lc ?new w1 = (p, w2)" by fastforce
  note cm' = api_lawsD(4) [OF assms(1) cm] and pt' = api_lawsD(5) [OF assms(1) pt]
  have eq: "w' = (if q = None then w2 else w1)" "err = None \<longleftrightarrow> q = None \<and> p = None" "r = reconcile_done"
    using assms(3) by (auto simp: finish_cluster_def cm pt split: option.splits)
  show "vw_has_cm V w \<Longrightarrow> vw_initializers V w' = vw_initializers V w \<and> vw_has_cm V w' \<and> err \<noteq> None"
    using cm' eq by auto
  show "vw_initializers V w' \<noteq> vw_initializers V w \<Longrightarrow> vw_has_cm V w' \<and>
      vw_initializers V w' = ie_EnsureAbsent E ini (vw_initializers V w)"
    using cm' pt' eq(1) assms(2) by (auto split: if_splits)
  show "err = None \<Longrightarrow> vw_has_cm V w' \<and> vw_initializers V w' = ie_EnsureAbsent E ini (vw_initializers V w)"
    using cm' pt' eq assms(2) by auto
  show "r = reconcile_done" by (rule eq)
qed

text \<open>The ways through a reconciliation.\<close>

lemma initializer_reconcile_cases:
  assumes "api_laws E V req cl" and "initializer_reconcile E ini req w = ((r, err), w')"
  obtains (early) "vw_initializers V w' = vw_initializers V w" "vw_has_cm V w' = vw_has_cm V w"
    | (finish) lc ws w1 where "lg_Initializers lc = vw_initializers V w"
      "child_workspace_of E cl (child_name req) w = (Some ws, w1)" "cw_Phase ws = ie_PhaseReady E"
      "finish_cluster E ini cl lc w1 = ((r, err), w')"
proof (cases "ie_GetCluster E (rq_ClusterName req) w")
  case (Inl e)
  then show thesis using assms(2) early by (simp add: initializer_reconcile_def)
next
  case (Inr c)
  with api_lawsD(1) [OF assms(1)] have c: "ie_GetCluster E (rq_ClusterName req) w = Inr cl" by metis
  show thesis
  proof (cases "ie_GetLogicalCluster E cl (rq_NamespacedName req) w")
    case (Inl e)
    then show thesis using assms(2) c early by (simp add: initializer_reconcile_def)
  next
    case (Inr lc)
    note lc = api_lawsD(2) [OF assms(1) Inr]
    obtain q w1 where ch: "child_workspace_of E cl (child_name req) w = (q, w1)" by fastforce
    note kept = child_workspace_keeps(1,2) [OF assms(1) ch]
    show thesis
    proof (cases "ie_KindFor E cl w \<noteq> None \<or> ini \<notin> set (lg_Initializers lc)")
      case True
      then show thesis using assms(2) c Inr early by (auto simp: initializer_reconcile_def split: if_splits)
    next
      case False
      then have run: "initialize_cluster E ini req cl lc w = ((r, err), w')"
        using assms(2) c Inr by (simp add: initializer_reconcile_def)
      consider "q = None" | ws where "q = Some ws" "cw_Phase ws \<noteq> ie_PhaseReady E"
        | ws where "q = Some ws" "cw_Phase ws = ie_PhaseReady E" by (cases q) auto
      then show thesis
      proof cases
        case 1
        then show thesis using run ch kept early by (simp add: initialize_cluster_def)
      next
        case 2
        then show thesis using run ch kept early by (simp add: initialize_cluster_def)
      next
        case 3
        show thesis
        proof (rule finish)
          show "child_workspace_of E cl (child_name req) w = (Some ws, w1)" using ch 3 by simp
          show "finish_cluster E ini cl lc w1 = ((r, err), w')" using run ch 3 by (simp add: initialize_cluster_def)
        qed (use lc 3 in simp_all)
      qed
    qed
  qed
qed

text \<open>
  Property C21. The initializer of a logical cluster is removed only when its work is done: when
  a reconciliation changes the initializers, then it removed its own and no other, the ConfigMap
  exists, and the child workspace it looked up or created was ready. This holds with every call
  failing at any time, and with a patch that failed but was applied.
\<close>

theorem initializer_removed_when_ready:
  assumes "api_laws E V req cl" and "initializer_reconcile E ini req w = ((r, err), w')"
    and "vw_initializers V w' \<noteq> vw_initializers V w"
  shows "set (vw_initializers V w') = set (vw_initializers V w) - {ini} \<and> vw_has_cm V w' \<and>
    (\<exists>ws. cw_Phase ws = ie_PhaseReady E \<and> (ie_GetWorkspace E cl (child_name req) w = Inr ws \<or>
       fst (ie_CreateWorkspace E cl \<lparr> cw_Name = child_name req, cw_Phase = [] \<rparr> w) = Inr ws))"
  using assms(1,2)
proof (cases rule: initializer_reconcile_cases)
  case early
  then show ?thesis using assms(3) by simp
next
  case (finish lc ws w1)
  note kept = child_workspace_keeps [OF assms(1) finish(2)]
  have "lg_Initializers lc = vw_initializers V w1" using finish(1) kept(1) by simp
  from finish_cluster_result(2) [OF assms(1) this finish(4)] assms(3) kept(1)
  have "vw_has_cm V w'" "vw_initializers V w' = ie_EnsureAbsent E ini (vw_initializers V w)" by auto
  then show ?thesis using kept(3) [OF refl] finish(3) api_lawsD(6) [OF assms(1)] by auto
qed

text \<open>
  A child workspace that can neither be found nor created ends the reconciliation as if it had
  succeeded: it is neither retried nor asked for again.
\<close>

lemma child_error_not_retried:
  assumes "ie_GetCluster E (rq_ClusterName req) w = Inr cl"
    and "ie_GetLogicalCluster E cl (rq_NamespacedName req) w = Inr lc" and "ie_KindFor E cl w = None"
    and "ini \<in> set (lg_Initializers lc)" and "fst (child_workspace_of E cl (child_name req) w) = None"
  shows "fst (initializer_reconcile E ini req w) = (reconcile_done, None)"
  using assms by (auto simp: initializer_reconcile_def initialize_cluster_def split: prod.splits option.splits)

subsection \<open>A patch that failed\<close>

lemma reconcile_history_Cons:
  assumes "initializer_reconcile E ini req (other w) = (r, w')"
  shows "fst (reconcile_history E ini req (other # others) w) = r # fst (reconcile_history E ini req others w')"
    and "snd (reconcile_history E ini req (other # others) w) = snd (reconcile_history E ini req others w')"
  using assms by (simp_all split: prod.splits)

text \<open>Somebody else neither deletes the ConfigMap nor takes the initializer away.\<close>

definition leaves_it :: "'w cluster_view \<Rightarrow> string \<Rightarrow> ('w \<Rightarrow> 'w) \<Rightarrow> bool" where
  "leaves_it V ini other \<longleftrightarrow> (\<forall>w. (vw_has_cm V w \<longrightarrow> vw_has_cm V (other w)) \<and>
     (ini \<in> set (vw_initializers V w) \<longrightarrow> ini \<in> set (vw_initializers V (other w))))"

lemma stranded_step:
  assumes "api_laws E V req cl" and "initializer_reconcile E ini req w = ((r, err), w')" and "vw_has_cm V w"
  shows "vw_initializers V w' = vw_initializers V w \<and> vw_has_cm V w'"
  using assms(1,2)
proof (cases rule: initializer_reconcile_cases)
  case early
  then show ?thesis using assms(3) by simp
next
  case (finish lc ws w1)
  note kept = child_workspace_keeps(1,2) [OF assms(1) finish(2)]
  have "lg_Initializers lc = vw_initializers V w1" using finish(1) kept(1) by simp
  from finish_cluster_result(1) [OF assms(1) this finish(4)] assms(3) kept show ?thesis by simp
qed

lemma stranded_history:
  assumes "api_laws E V req cl" and "vw_has_cm V w" and "ini \<in> set (vw_initializers V w)" and "list_all (leaves_it V ini) others"
  shows "vw_has_cm V (snd (reconcile_history E ini req others w)) \<and> ini \<in> set (vw_initializers V (snd (reconcile_history E ini req others w)))"
  using assms(2-4)
proof (induction others arbitrary: w)
  case Nil
  then show ?case by simp
next
  case (Cons other others)
  obtain r1 e1 w1 where run: "initializer_reconcile E ini req (other w) = ((r1, e1), w1)"
    by (metis prod.exhaust)
  have "vw_has_cm V (other w)" "ini \<in> set (vw_initializers V (other w))"
    using Cons.prems by (simp_all add: leaves_it_def)
  then have "vw_has_cm V w1" "ini \<in> set (vw_initializers V w1)"
    using stranded_step [OF assms(1) run] by simp_all
  from Cons.IH [OF this] Cons.prems(3) show ?case
    by (simp only: reconcile_history_Cons(2) [of E ini req other w, OF run] list.pred_inject)
qed

text \<open>In the world \<open>w\<close> the lookups of a reconciliation succeed and the child workspace is ready.\<close>

definition sees_ready_child :: "('cl, 'w) initializer_env \<Rightarrow> reconcile_request \<Rightarrow> 'w \<Rightarrow> bool" where
  "sees_ready_child E req w \<longleftrightarrow> (\<exists>cl lc ws w1. ie_GetCluster E (rq_ClusterName req) w = Inr cl \<and>
     ie_GetLogicalCluster E cl (rq_NamespacedName req) w = Inr lc \<and> ie_KindFor E cl w = None \<and>
     child_workspace_of E cl (child_name req) w = (Some ws, w1) \<and> cw_Phase ws = ie_PhaseReady E)"

lemma stranded_fails:
  assumes "api_laws E V req cl" and "vw_has_cm V w" and "ini \<in> set (vw_initializers V w)" and "sees_ready_child E req w"
  shows "snd (fst (initializer_reconcile E ini req w)) \<noteq> None"
proof -
  obtain c lc ws w1 where c: "ie_GetCluster E (rq_ClusterName req) w = Inr c"
    and lc: "ie_GetLogicalCluster E c (rq_NamespacedName req) w = Inr lc" and kind: "ie_KindFor E c w = None"
    and ch: "child_workspace_of E c (child_name req) w = (Some ws, w1)" "cw_Phase ws = ie_PhaseReady E"
    using assms(4) unfolding sees_ready_child_def by (elim exE conjE) (rule that)
  have cl: "c = cl" by (rule api_lawsD(1) [OF assms(1) c])
  note eq = api_lawsD(2) [OF assms(1) lc [unfolded cl]] and kept = child_workspace_keeps(1,2) [OF assms(1) ch(1) [unfolded cl]]
  obtain r err w' where fin: "finish_cluster E ini cl lc w1 = ((r, err), w')" by (metis prod.exhaust)
  have "err \<noteq> None" using finish_cluster_result(1) [OF assms(1) _ fin] eq kept assms(2) by simp
  moreover have "initializer_reconcile E ini req w = finish_cluster E ini cl lc w1"
    using c lc kind ch assms(3) eq cl by (simp add: initializer_reconcile_def initialize_cluster_def)
  ultimately show ?thesis by (simp add: fin)
qed

text \<open>
  Property C14. A reconciliation that created the ConfigMap but did not remove the initializer
  (its patch failed) is never made up for. As long as nobody else deletes the ConfigMap or removes
  the initializer, the logical cluster keeps its initializer over every later history: each later
  reconciliation that finds the child workspace ready fails, because the ConfigMap exists already,
  and one that does not get so far leaves the initializer alone.
\<close>

theorem failed_patch_strands_cluster:
  assumes "api_laws E V req cl" and "initializer_reconcile E ini req w = ((r, err), w')"
    and "vw_has_cm V w'" and "ini \<in> set (vw_initializers V w')" and "list_all (leaves_it V ini) others"
  shows "ini \<in> set (vw_initializers V (snd (reconcile_history E ini req others w'))) \<and>
    (\<forall>before other after. others = before @ other # after \<longrightarrow>
       (let u = other (snd (reconcile_history E ini req before w'))
        in sees_ready_child E req u \<longrightarrow> snd (fst (initializer_reconcile E ini req u)) \<noteq> None))"
proof (intro conjI allI impI)
  show "ini \<in> set (vw_initializers V (snd (reconcile_history E ini req others w')))"
    using stranded_history [OF assms(1,3-5)] by blast
next
  fix before other after
  assume others: "others = before @ other # after"
  let ?v = "snd (reconcile_history E ini req before w')"
  have "vw_has_cm V ?v \<and> ini \<in> set (vw_initializers V ?v)"
    using stranded_history [OF assms(1,3,4)] assms(5) others by simp
  moreover have "leaves_it V ini other" using assms(5) others by simp
  ultimately have "vw_has_cm V (other ?v)" "ini \<in> set (vw_initializers V (other ?v))" by (simp_all add: leaves_it_def)
  then show "let u = other ?v in sees_ready_child E req u \<longrightarrow> snd (fst (initializer_reconcile E ini req u)) \<noteq> None"
    unfolding Let_def by (intro impI) (rule stranded_fails [OF assms(1)])
qed

subsection \<open>Every call answers\<close>

text \<open>
  The API server when nothing fails: lookups find what is there, a child that is missing can be
  created, and so can a missing ConfigMap; the child outlives the other calls.
\<close>

definition api_answers :: "('cl, 'w) initializer_env \<Rightarrow> 'w cluster_view \<Rightarrow> reconcile_request \<Rightarrow> 'cl \<Rightarrow> bool" where
  "api_answers E V req cl \<longleftrightarrow>
     (\<forall>w. ie_GetCluster E (rq_ClusterName req) w = Inr cl) \<and>
     (\<forall>w. \<not> is_err (ie_GetLogicalCluster E cl (rq_NamespacedName req) w)) \<and>
     (\<forall>w. ie_KindFor E cl w = None) \<and>
     (\<forall>w. case ie_GetWorkspace E cl (child_name req) w of
        Inl err \<Rightarrow> ie_IsNotFound E err \<and> vw_child V w = None
      | Inr ws \<Rightarrow> vw_child V w = Some (cw_Phase ws)) \<and>
     (\<forall>w. vw_child V w = None \<longrightarrow>
        (case ie_CreateWorkspace E cl \<lparr> cw_Name = child_name req, cw_Phase = [] \<rparr> w of
           (Inl err, w') \<Rightarrow> False
         | (Inr ws, w') \<Rightarrow> vw_child V w' = Some (cw_Phase ws))) \<and>
     (\<forall>w. \<not> vw_has_cm V w \<longrightarrow> fst (ie_CreateConfigMap E cl initializer_cm w) = None) \<and>
     (\<forall>old new w. fst (ie_PatchStatus E cl old new w) = None)"

text \<open>
  The states of the cluster: not yet initialized, with the initializers \<open>I\<close>, or initialized.
\<close>

definition pending :: "'w cluster_view \<Rightarrow> string list \<Rightarrow> 'w \<Rightarrow> bool" where
  "pending V I w \<longleftrightarrow> vw_initializers V w = I \<and> \<not> vw_has_cm V w"

definition initialized :: "'w cluster_view \<Rightarrow> string \<Rightarrow> string list \<Rightarrow> 'w \<Rightarrow> bool" where
  "initialized V ini I w \<longleftrightarrow> set (vw_initializers V w) = set I - {ini} \<and> vw_has_cm V w"

lemma answers_reconcile:
  assumes "api_laws E V req cl" and "api_answers E V req cl"
  obtains lc where "lg_Initializers lc = vw_initializers V w" and
    "initializer_reconcile E ini req w = (if ini \<in> set (vw_initializers V w)
       then initialize_cluster E ini req cl lc w else ((reconcile_done, None), w))"
proof -
  note ans = assms(2) [unfolded api_answers_def]
  obtain lc where lc: "ie_GetLogicalCluster E cl (rq_NamespacedName req) w = Inr lc"
    using ans [THEN conjunct2, THEN conjunct1, THEN spec, of w] by (cases "ie_GetLogicalCluster E cl (rq_NamespacedName req) w") auto
  note eq = api_lawsD(2) [OF assms(1) lc]
  have "ie_GetCluster E (rq_ClusterName req) w = Inr cl" "ie_KindFor E cl w = None" using ans by simp_all
  with lc eq that [of lc] show thesis by (simp add: initializer_reconcile_def)
qed

lemma answers_child:
  assumes "api_laws E V req cl" and "api_answers E V req cl"
  obtains ws w' where "child_workspace_of E cl (child_name req) w = (Some ws, w')"
    and "vw_child V w' = Some (cw_Phase ws)" and "\<And>ph. vw_child V w = Some ph \<Longrightarrow> cw_Phase ws = ph"
    and "vw_initializers V w' = vw_initializers V w" and "vw_has_cm V w' = vw_has_cm V w"
proof -
  note ans = assms(2) [unfolded api_answers_def, THEN conjunct2, THEN conjunct2, THEN conjunct2]
  note got = ans [THEN conjunct1, THEN spec, of w]
  note made = ans [THEN conjunct2, THEN conjunct1, THEN spec, of w]
  obtain q w1 where ch: "child_workspace_of E cl (child_name req) w = (q, w1)" by fastforce
  note kept = child_workspace_keeps(1,2) [OF assms(1) ch]
  show thesis
  proof (cases "ie_GetWorkspace E cl (child_name req) w")
    case (Inr ws)
    then show thesis using that [of ws w] got by (simp add: child_workspace_of_def)
  next
    case (Inl err)
    obtain cr w2 where cr: "ie_CreateWorkspace E cl \<lparr> cw_Name = child_name req, cw_Phase = [] \<rparr> w = (cr, w2)" by fastforce
    have "vw_child V w = None" "ie_IsNotFound E err" using got Inl by auto
    moreover with made cr obtain ws where "cr = Inr ws" "vw_child V w2 = Some (cw_Phase ws)"
      by (cases cr) auto
    ultimately show thesis using that [of ws w2] Inl cr ch kept by (simp add: child_workspace_of_def)
  qed
qed

lemma answers_finish:
  assumes "api_laws E V req cl" and "api_answers E V req cl" and "pending V I w"
    and "lg_Initializers lc = I" and "finish_cluster E ini cl lc w = ((r, err), w')"
  shows "r = reconcile_done \<and> err = None \<and> initialized V ini I w'"
proof -
  note ans = assms(2) [unfolded api_answers_def, THEN conjunct2, THEN conjunct2, THEN conjunct2, THEN conjunct2, THEN conjunct2]
  have I: "lg_Initializers lc = vw_initializers V w" "vw_initializers V w = I" "\<not> vw_has_cm V w"
    using assms(3,4) by (simp_all add: pending_def)
  have "fst (ie_CreateConfigMap E cl initializer_cm w) = None" using ans I(3) by simp
  then obtain w1 where cm: "ie_CreateConfigMap E cl initializer_cm w = (None, w1)" by (metis prod.collapse)
  have "fst (ie_PatchStatus E cl lc (lc\<lparr> lg_Initializers := ie_EnsureAbsent E ini (lg_Initializers lc) \<rparr>) w1) = None"
    using ans by simp
  then obtain w2 where pt: "ie_PatchStatus E cl lc (lc\<lparr> lg_Initializers := ie_EnsureAbsent E ini (lg_Initializers lc) \<rparr>) w1 = (None, w2)"
    by (metis prod.collapse)
  have r: "r = reconcile_done" "err = None" using assms(5) by (simp_all add: finish_cluster_def cm pt)
  with finish_cluster_result(3) [OF assms(1) I(1) assms(5) r(2)] show ?thesis
    unfolding initialized_def I(2) using api_lawsD(6) [OF assms(1), of ini I] by simp
qed

lemma answers_step:
  assumes "api_laws E V req cl" and "api_answers E V req cl" and "ini \<in> set I"
    and "initializer_reconcile E ini req w = ((r, err), w')"
  shows "pending V I w \<Longrightarrow> err = None \<and> (r = reconcile_again \<and> pending V I w' \<and> vw_child V w' \<noteq> None \<or>
      r = reconcile_done \<and> initialized V ini I w')"
    and "pending V I w \<Longrightarrow> vw_child V w = Some (ie_PhaseReady E) \<Longrightarrow> initialized V ini I w'"
    and "initialized V ini I w \<Longrightarrow> r = reconcile_done \<and> err = None \<and> w' = w"
proof -
  show "initialized V ini I w \<Longrightarrow> r = reconcile_done \<and> err = None \<and> w' = w"
    using answers_reconcile [OF assms(1,2), of w ini] assms(4) unfolding initialized_def by (metis Diff_iff prod.inject singletonI)
  assume p: "pending V I w"
  obtain lc where lc: "lg_Initializers lc = I" "initialize_cluster E ini req cl lc w = ((r, err), w')"
    using answers_reconcile [OF assms(1,2), of w ini] assms(3,4) p unfolding pending_def by metis
  obtain ws w1 where ch: "child_workspace_of E cl (child_name req) w = (Some ws, w1)"
    "vw_child V w1 = Some (cw_Phase ws)" "\<And>ph. vw_child V w = Some ph \<Longrightarrow> cw_Phase ws = ph"
    "vw_initializers V w1 = vw_initializers V w" "vw_has_cm V w1 = vw_has_cm V w"
    using answers_child [OF assms(1,2), of w] by metis
  have p1: "pending V I w1" using p ch(4,5) by (simp add: pending_def)
  have "cw_Phase ws = ie_PhaseReady E \<Longrightarrow> finish_cluster E ini cl lc w1 = ((r, err), w')"
    using lc(2) ch(1) by (simp add: initialize_cluster_def)
  note fin = answers_finish [OF assms(1,2) p1 lc(1) this]
  moreover have "cw_Phase ws \<noteq> ie_PhaseReady E \<Longrightarrow> r = reconcile_again \<and> err = None \<and> w' = w1"
    using lc(2) ch(1) by (simp add: initialize_cluster_def)
  ultimately show "err = None \<and> (r = reconcile_again \<and> pending V I w' \<and> vw_child V w' \<noteq> None \<or>
      r = reconcile_done \<and> initialized V ini I w')"
    using p1 ch(2) by (cases "cw_Phase ws = ie_PhaseReady E") auto
  show "initialized V ini I w'" if "vw_child V w = Some (ie_PhaseReady E)" using fin ch(3) [OF that] by blast
qed

text \<open>
  Somebody else works on the child workspace only; \<open>makes_ready\<close> is such a step that finishes it.
\<close>

definition works_on_child :: "'w cluster_view \<Rightarrow> ('w \<Rightarrow> 'w) \<Rightarrow> bool" where
  "works_on_child V other \<longleftrightarrow> (\<forall>w. vw_initializers V (other w) = vw_initializers V w \<and>
     vw_has_cm V (other w) = vw_has_cm V w \<and> (vw_child V w \<noteq> None \<longrightarrow> vw_child V (other w) \<noteq> None))"

definition makes_ready :: "'w cluster_view \<Rightarrow> string \<Rightarrow> ('w \<Rightarrow> 'w) \<Rightarrow> bool" where
  "makes_ready V phase other \<longleftrightarrow> works_on_child V other \<and>
     (\<forall>w. vw_child V w \<noteq> None \<longrightarrow> vw_child V (other w) = Some phase)"

lemma works_on_childD:
  assumes "works_on_child V other"
  shows "pending V I w \<Longrightarrow> pending V I (other w)" and "initialized V ini I w \<Longrightarrow> initialized V ini I (other w)"
    and "vw_child V w \<noteq> None \<Longrightarrow> vw_child V (other w) \<noteq> None"
  using assms by (auto simp: works_on_child_def pending_def initialized_def)

text \<open>
  From a state with a child on, the history ends initialized once the child is ready, and the
  reconciliations ask to be called again until then.
\<close>

definition again_then_done :: "nat \<Rightarrow> nat \<Rightarrow> (reconcile_result \<times> error option) list" where
  "again_then_done n m = replicate n (reconcile_again, None) @ replicate (Suc m) (reconcile_done, None)"

lemma again_then_done_Cons:
  "(reconcile_again, None) # again_then_done n m = again_then_done (Suc n) m"
  "(reconcile_done, None) # again_then_done 0 m = again_then_done 0 (Suc m)"
  by (simp_all add: again_then_done_def)

definition history_ends ::
  "('cl, 'w) initializer_env \<Rightarrow> 'w cluster_view \<Rightarrow> string \<Rightarrow> string list
     \<Rightarrow> (reconcile_result \<times> error option) list \<times> 'w \<Rightarrow> nat \<Rightarrow> nat \<Rightarrow> bool" where
  "history_ends E V ini I h n m \<longleftrightarrow> initialized V ini I (snd h) \<and> fst h = again_then_done n m"

lemma history_ends_step:
  assumes "api_laws E V req cl" and "api_answers E V req cl" and "ini \<in> set I"
    and "initializer_reconcile E ini req (other w) = ((r, e), w')"
    and "initialized V ini I (other w) \<or> pending V I (other w)"
    and "history_ends E V ini I (reconcile_history E ini req others w') n m"
    and "initialized V ini I w' \<Longrightarrow> n = 0"
  shows "\<exists>n m. history_ends E V ini I (reconcile_history E ini req (other # others) w) n m \<and>
    (initialized V ini I (other w) \<longrightarrow> n = 0)"
proof -
  note eqs = reconcile_history_Cons [of E ini req other w, OF assms(4), of others]
  have ended: "initialized V ini I (snd (reconcile_history E ini req others w'))"
    "fst (reconcile_history E ini req others w') = again_then_done n m"
    using assms(6) by (simp_all add: history_ends_def)
  have apart: "initialized V ini I u \<Longrightarrow> \<not> pending V I u" for u by (simp add: initialized_def pending_def)
  consider "r = reconcile_done" "e = None" "initialized V ini I w'"
    | "r = reconcile_again" "e = None" "\<not> initialized V ini I (other w)"
    using answers_step [OF assms(1-4)] assms(5) apart by metis
  then show ?thesis
  proof cases
    case 1
    have "history_ends E V ini I (reconcile_history E ini req (other # others) w) 0 (Suc m)"
      using ended assms(7) 1 by (simp only: history_ends_def eqs again_then_done_Cons)
    then show ?thesis by blast
  next
    case 2
    have "history_ends E V ini I (reconcile_history E ini req (other # others) w) (Suc n) m"
      using ended 2 by (simp only: history_ends_def eqs again_then_done_Cons)
    then show ?thesis using 2(3) by blast
  qed
qed

lemma answers_history:
  assumes "api_laws E V req cl" and "api_answers E V req cl" and "ini \<in> set I"
    and "initialized V ini I w \<or> pending V I w \<and> vw_child V w \<noteq> None"
    and "list_all (works_on_child V) others" and "makes_ready V (ie_PhaseReady E) last_step"
  shows "\<exists>n m. history_ends E V ini I (reconcile_history E ini req (others @ [last_step]) w) n m \<and>
    (initialized V ini I w \<longrightarrow> n = 0)"
  using assms(4,5)
proof (induction others arbitrary: w)
  case Nil
  obtain r e w' where run: "initializer_reconcile E ini req (last_step w) = ((r, e), w')" by (metis prod.exhaust)
  have works: "works_on_child V last_step" using assms(6) by (simp add: makes_ready_def)
  from Nil(1) have "initialized V ini I (last_step w) \<or>
      pending V I (last_step w) \<and> vw_child V (last_step w) = Some (ie_PhaseReady E)"
    using works_on_childD(1,2) [OF works] assms(6) by (auto simp: makes_ready_def)
  then have "initialized V ini I w' \<and> e = None \<and> r = reconcile_done"
    using answers_step [OF assms(1-3) run] unfolding initialized_def pending_def by metis
  with run have "history_ends E V ini I (reconcile_history E ini req ([] @ [last_step]) w) 0 0"
    by (simp add: history_ends_def again_then_done_def)
  then show ?case by blast
next
  case (Cons other others)
  obtain r e w' where run: "initializer_reconcile E ini req (other w) = ((r, e), w')" by (metis prod.exhaust)
  have works: "works_on_child V other" "list_all (works_on_child V) others" using Cons.prems by simp_all
  from Cons.prems(1) have state: "initialized V ini I (other w) \<or> pending V I (other w)"
    using works_on_childD(1,2) [OF works(1)] by blast
  then have "initialized V ini I w' \<or> pending V I w' \<and> vw_child V w' \<noteq> None"
    using answers_step [OF assms(1-3) run] by blast
  from Cons.IH [OF this works(2)] obtain n m where
    "history_ends E V ini I (reconcile_history E ini req (others @ [last_step]) w') n m"
    "initialized V ini I w' \<Longrightarrow> n = 0" by blast
  from history_ends_step [where other = other and w = w, OF assms(1-3) run state this] show ?case
    using works_on_childD(2) [OF works(1), of ini I w] by auto
qed

lemma asked_until_initialized:
  assumes "api_laws E V req cl" and "api_answers E V req cl" and "ini \<in> set I"
    and "initialized V ini I w \<or> pending V I w \<and> vw_child V w \<noteq> None"
    and "list_all (works_on_child V) others" and "makes_ready V (ie_PhaseReady E) last_step"
  shows "initialized V ini I (reconcile_while_asked E ini req (others @ [last_step]) w)"
  using assms(4,5)
proof (induction others arbitrary: w)
  case Nil
  obtain r e w' where run: "initializer_reconcile E ini req (last_step w) = ((r, e), w')" by (metis prod.exhaust)
  have works: "works_on_child V last_step" using assms(6) by (simp add: makes_ready_def)
  from Nil(1) have "initialized V ini I (last_step w) \<or>
      pending V I (last_step w) \<and> vw_child V (last_step w) = Some (ie_PhaseReady E)"
    using works_on_childD(1,2) [OF works] assms(6) by (auto simp: makes_ready_def)
  then have "initialized V ini I w'" using answers_step [OF assms(1-3) run] by metis
  then show ?case by (simp add: run)
next
  case (Cons other others)
  obtain r e w' where run: "initializer_reconcile E ini req (other w) = ((r, e), w')" by (metis prod.exhaust)
  have works: "works_on_child V other" "list_all (works_on_child V) others" using Cons.prems by simp_all
  from Cons.prems(1) have state: "initialized V ini I (other w) \<or> pending V I (other w)"
    using works_on_childD(1,2) [OF works(1)] by blast
  consider "e = None" "r = reconcile_done" "initialized V ini I w'"
    | "e = None" "r = reconcile_again" "pending V I w'" "vw_child V w' \<noteq> None"
    using answers_step [OF assms(1-3) run] state by metis
  then show ?case
  proof cases
    case 1
    then show ?thesis by (simp add: run reconcile_done_def)
  next
    case 2
    then show ?thesis using Cons.IH [OF _ works(2), of w'] by (simp add: run reconcile_again_def)
  qed
qed

text \<open>
  Property C13. When every call answers, the initializer finishes: the reconciliations ask to be
  called again, without an error, until the child workspace the first one created is ready,
  however many that takes; then the ConfigMap exists, exactly its own initializer is gone, and
  whatever is reconciled afterwards does nothing. It gets there also when the request is only
  reconciled again because the reconciliation before asked for it.
\<close>

theorem cluster_gets_initialized:
  assumes "api_laws E V req cl" and "api_answers E V req cl" and "ini \<in> set (vw_initializers V w)"
    and "\<not> vw_has_cm V w" and "list_all (works_on_child V) (first # others)"
    and "makes_ready V (ie_PhaseReady E) last_step"
    and "reconcile_history E ini req (first # others @ [last_step]) w = (rs, w')"
    and "reconcile_while_asked E ini req (first # others @ [last_step]) w = v"
  shows "set (vw_initializers V w') = set (vw_initializers V w) - {ini} \<and> vw_has_cm V w' \<and>
    (\<exists>n m. rs = replicate n (reconcile_again, None) @ replicate (Suc m) (reconcile_done, None)) \<and>
    set (vw_initializers V v) = set (vw_initializers V w) - {ini} \<and> vw_has_cm V v"
proof -
  let ?I = "vw_initializers V w"
  obtain r e w1 where run: "initializer_reconcile E ini req (first w) = ((r, e), w1)" by (metis prod.exhaust)
  have p: "pending V ?I (first w)" using works_on_childD(1) [of V first ?I w] assms(4,5) by (simp add: pending_def)
  note step = answers_step(1) [OF assms(1-3) run p]
  then have next_state: "initialized V ini ?I w1 \<or> pending V ?I w1 \<and> vw_child V w1 \<noteq> None" by blast
  then obtain n m where "history_ends E V ini ?I (reconcile_history E ini req (others @ [last_step]) w1) n m"
    "initialized V ini ?I w1 \<Longrightarrow> n = 0"
    using answers_history [OF assms(1-3) _ _ assms(6), of w1 others] assms(5) by auto
  from history_ends_step [where other = first and w = w, OF assms(1-3) run disjI2 [OF p] this]
  have "initialized V ini ?I w' \<and> (\<exists>n m. rs = again_then_done n m)"
    unfolding assms(7) by (auto simp: history_ends_def)
  moreover have "initialized V ini ?I v"
    using step asked_until_initialized [OF assms(1-3) next_state _ assms(6), of others] assms(5) assms(8) [symmetric]
    by (auto simp: run reconcile_done_def reconcile_again_def)
  ultimately show ?thesis by (simp add: initialized_def again_then_done_def)
qed

subsection \<open>Witnesses\<close>

text \<open>
  One logical cluster, of which the world keeps the initializers, whether the ConfigMap exists
  and the phase of the child; \<open>broken\<close> says whether patches fail.
\<close>

record demo_cluster =
  dc_initializers :: "string list"
  dc_cm :: bool
  dc_child :: "string option"
  dc_broken :: bool

definition demo_initializer_env :: "(unit, demo_cluster) initializer_env" where
  "demo_initializer_env = \<lparr> ie_GetCluster = (\<lambda>_ _. Inr ()),
     ie_GetLogicalCluster = (\<lambda>_ _ w. Inr \<lparr> lg_Initializers = dc_initializers w, lg_rest = 0 \<rparr>),
     ie_KindFor = (\<lambda>_ _. None),
     ie_GetWorkspace = (\<lambda>_ n w. case dc_child w of None \<Rightarrow> Inl (NotFound ''tenancy.kcp.io'' ''workspaces'' n)
        | Some ph \<Rightarrow> Inr \<lparr> cw_Name = n, cw_Phase = ph \<rparr>),
     ie_CreateWorkspace = (\<lambda>_ ws w. (Inr ws, w\<lparr> dc_child := Some (cw_Phase ws) \<rparr>)),
     ie_CreateConfigMap = (\<lambda>_ _ w. if dc_cm w then (Some (Foreign ''already exists''), w)
        else (None, w\<lparr> dc_cm := True \<rparr>)),
     ie_PatchStatus = (\<lambda>_ _ new w. if dc_broken w then (Some (Foreign ''conflict''), w)
        else (None, w\<lparr> dc_initializers := lg_Initializers new \<rparr>)),
     ie_IsNotFound = (\<lambda>err. case err of NotFound _ _ _ \<Rightarrow> True | _ \<Rightarrow> False),
     ie_EnsureAbsent = removeAll, ie_PhaseReady = ''Ready'' \<rparr>"

definition demo_sound_env :: "(unit, demo_cluster) initializer_env" where
  "demo_sound_env = demo_initializer_env\<lparr> ie_PatchStatus := (\<lambda>_ _ new w.
     (None, w\<lparr> dc_initializers := lg_Initializers new \<rparr>)) \<rparr>"

definition demo_view :: "demo_cluster cluster_view" where
  "demo_view = \<lparr> vw_initializers = dc_initializers, vw_has_cm = dc_cm, vw_child = dc_child \<rparr>"

definition demo_request :: reconcile_request where
  "demo_request = \<lparr> rq_ClusterName = ''c1'', rq_NamespacedName = ([], ''cluster'') \<rparr>"

definition demo_fresh :: "bool \<Rightarrow> string option \<Rightarrow> demo_cluster" where
  "demo_fresh broken child = \<lparr> dc_initializers = [''a'', ''me''], dc_cm = False, dc_child = child, dc_broken = broken \<rparr>"

lemmas demo_init_defs = demo_initializer_env_def demo_sound_env_def demo_view_def demo_request_def demo_fresh_def

lemma demo_api_laws: "api_laws demo_initializer_env demo_view demo_request ()"
  "api_laws demo_sound_env demo_view demo_request ()"
  by (auto simp: api_laws_def demo_init_defs split: if_splits)

lemma demo_api_answers: "api_answers demo_sound_env demo_view demo_request ()"
  by (simp add: api_answers_def demo_init_defs split: option.splits)

theorem initializer_removed_when_ready_witness:
  "set (vw_initializers demo_view
     (snd (initializer_reconcile demo_initializer_env ''me'' demo_request (demo_fresh False (Some ''Ready''))))) = {''a''}"
proof -
  have "initializer_reconcile demo_initializer_env ''me'' demo_request (demo_fresh False (Some ''Ready'')) =
      ((reconcile_done, None), \<lparr> dc_initializers = [''a''], dc_cm = True, dc_child = Some ''Ready'', dc_broken = False \<rparr>)"
    by code_simp
  with initializer_removed_when_ready [OF demo_api_laws(1) this] show ?thesis
    by (simp add: demo_view_def demo_fresh_def)
qed

text \<open>The patch fails once, is repaired before the next reconciliation, and the cluster is stuck.\<close>

theorem failed_patch_strands_cluster_witness:
  "fst (initializer_reconcile demo_initializer_env ''me'' demo_request (demo_fresh True (Some ''Ready''))) =
     (reconcile_done, Some (Foreign ''conflict'')) \<and>
   ''me'' \<in> set (vw_initializers demo_view (snd (reconcile_history demo_initializer_env ''me'' demo_request
     [\<lambda>w. w\<lparr> dc_broken := False \<rparr>, \<lambda>w. w] (snd (initializer_reconcile demo_initializer_env ''me'' demo_request
       (demo_fresh True (Some ''Ready'')))))))"
proof -
  have run: "initializer_reconcile demo_initializer_env ''me'' demo_request (demo_fresh True (Some ''Ready'')) =
      ((reconcile_done, Some (Foreign ''conflict'')),
       \<lparr> dc_initializers = [''a'', ''me''], dc_cm = True, dc_child = Some ''Ready'', dc_broken = True \<rparr>)"
    by code_simp
  have "list_all (leaves_it demo_view ''me'') [\<lambda>w. w\<lparr> dc_broken := False \<rparr>, \<lambda>w. w]"
    by (simp add: leaves_it_def demo_view_def)
  from failed_patch_strands_cluster [OF demo_api_laws(1) run _ _ this] run show ?thesis
    by (simp add: demo_view_def del: reconcile_history.simps)
qed

theorem cluster_gets_initialized_witness:
  "set (dc_initializers (snd (reconcile_history demo_sound_env ''me'' demo_request
     [\<lambda>w. w, \<lambda>w. w, \<lambda>w. w\<lparr> dc_child := Some ''Ready'' \<rparr>] (demo_fresh False None)))) = {''a''} \<and>
   set (dc_initializers (reconcile_while_asked demo_sound_env ''me'' demo_request
     [\<lambda>w. w, \<lambda>w. w, \<lambda>w. w\<lparr> dc_child := Some ''Ready'' \<rparr>] (demo_fresh False None))) = {''a''}"
proof -
  obtain rs w' where run: "reconcile_history demo_sound_env ''me'' demo_request
      ((\<lambda>w. w) # [\<lambda>w. w] @ [\<lambda>w. w\<lparr> dc_child := Some ''Ready'' \<rparr>]) (demo_fresh False None) = (rs, w')"
    by (metis prod.exhaust)
  have works: "list_all (works_on_child demo_view) [\<lambda>w. w, \<lambda>w. w]"
    by (simp add: works_on_child_def)
  have ready: "makes_ready demo_view (ie_PhaseReady demo_sound_env) (\<lambda>w. w\<lparr> dc_child := Some ''Ready'' \<rparr>)"
    by (simp add: makes_ready_def works_on_child_def demo_init_defs)
  have fresh: "''me'' \<in> set (vw_initializers demo_view (demo_fresh False None))" "\<not> vw_has_cm demo_view (demo_fresh False None)"
    "set (vw_initializers demo_view (demo_fresh False None)) - {''me''} = {''a''}"
    by (auto simp: demo_view_def demo_fresh_def)
  from cluster_gets_initialized [OF demo_api_laws(2) demo_api_answers fresh(1,2) works ready run refl] run fresh(3)
  show ?thesis by (simp add: demo_view_def del: reconcile_history.simps reconcile_while_asked.simps)
qed

end
