(* ===== verification/Controllers.thy ===== *)
theory Controllers
  imports PathAware Initializer
begin

text \<open>
  \<^verbatim>\<open>examples/apiexport/main.go\<close> and \<^verbatim>\<open>examples/path-aware/main.go\<close>: the reconcilers of the two
  ConfigMap controllers, the second over the clusters the path-aware provider resolves. A
  \<open>multicluster\<close> manager, its clusters and their clients are parameters; the events a
  reconciliation records are part of its result, the logger is left out.
\<close>

subsection \<open>The reconcilers\<close>

record 'cl configmap_env =
  ce_GetCluster :: "string \<Rightarrow> 'cl result"
  ce_GetConfigMap :: "'cl \<Rightarrow> string \<times> string \<Rightarrow> kobject result"
  ce_ListBindings :: "'cl \<Rightarrow> kobject list result"
  ce_IsNotFound :: "error \<Rightarrow> bool"

text \<open>\<open>Eventf\<close>: the cluster whose recorder records it, the object, the reason, the action, the note.\<close>

record 'cl cluster_event =
  ce_cluster :: 'cl
  ce_regarding :: kobject
  ce_reason :: string
  ce_action :: string
  ce_note :: string

type_synonym 'cl reconciliation = "(reconcile_result \<times> error option) \<times> 'cl cluster_event list"

definition apiexport_reconcile :: "'cl configmap_env \<Rightarrow> reconcile_request \<Rightarrow> 'cl reconciliation" where
  "apiexport_reconcile E req =
     (case ce_GetCluster E (rq_ClusterName req) of
        Inl err \<Rightarrow> ((reconcile_done, Some (Errorf ''failed to get cluster: %w'' [] [err])), [])
      | Inr cl \<Rightarrow>
          (case ce_GetConfigMap E cl (rq_NamespacedName req) of
             Inl err \<Rightarrow>
               if ce_IsNotFound E err then ((reconcile_done, None), [])
               else ((reconcile_done, Some (Errorf ''failed to get configmap: %w'' [] [err])), [])
           | Inr s \<Rightarrow>
               ((reconcile_done, None),
                [\<lparr> ce_cluster = cl, ce_regarding = s, ce_reason = ''normal'', ce_action = ''ConfigMap Reconciled'',
                   ce_note = ''ConfigMap '' @ ob_name s @ '' reconciled'' \<rparr>])))"

text \<open>
  The loop over the bindings of the cluster. \<open>Some r\<close> is a return from inside the loop; a
  binding without a path and a path without a cluster are logged and skipped.
\<close>

fun binding_loop ::
  "kcpapi \<Rightarrow> 'cl configmap_env \<Rightarrow> reconcile_request \<Rightarrow> kobject list \<Rightarrow> error option option" where
  "binding_loop K E req [] = None"
| "binding_loop K E req (binding # bindings) =
     (case ob_annotations binding (lc_path_key K) of
        None \<Rightarrow> binding_loop K E req bindings
      | Some canonicalPath \<Rightarrow>
          (case ce_GetCluster E canonicalPath of
             Inl err \<Rightarrow> binding_loop K E req bindings
           | Inr clPath \<Rightarrow>
               (case ce_GetConfigMap E clPath (rq_NamespacedName req) of
                  Inl err \<Rightarrow>
                    if ce_IsNotFound E err then Some None
                    else Some (Some (Errorf ''failed to get configmap: %w'' [] [err]))
                | Inr s \<Rightarrow> binding_loop K E req bindings)))"

definition path_event :: "'cl \<Rightarrow> kobject \<Rightarrow> string \<Rightarrow> string \<Rightarrow> 'cl cluster_event" where
  "path_event cl s action verb = \<lparr> ce_cluster = cl, ce_regarding = s, ce_reason = ''ConfigMapChanged'',
     ce_action = action, ce_note = verb @ '' ConfigMap '' @ ob_name s \<rparr>"

definition path_reconcile :: "kcpapi \<Rightarrow> 'cl configmap_env \<Rightarrow> reconcile_request \<Rightarrow> 'cl reconciliation" where
  "path_reconcile K E req =
     (case ce_GetCluster E (rq_ClusterName req) of
        Inl err \<Rightarrow> ((reconcile_done, Some (Errorf ''failed to get cluster: %w'' [] [err])), [])
      | Inr cl \<Rightarrow>
          (case ce_GetConfigMap E cl (rq_NamespacedName req) of
             Inl err \<Rightarrow>
               if ce_IsNotFound E err then ((reconcile_done, None), [])
               else ((reconcile_done, Some (Errorf ''failed to get configmap: %w'' [] [err])), [])
           | Inr s \<Rightarrow>
               let events = [path_event cl s ''ConfigMapReconciling'' ''reconciling'']
               in (case ce_ListBindings E cl of
                     Inl err \<Rightarrow> ((reconcile_done, Some (Errorf ''failed to list apibindings: %w'' [] [err])), events)
                   | Inr bindings \<Rightarrow>
                       (case binding_loop K E req bindings of
                          Some err \<Rightarrow> ((reconcile_done, err), events)
                        | None \<Rightarrow> ((reconcile_done, None),
                            events @ [path_event cl s ''ConfigMapReconciled'' ''reconciled''])))))"

subsection \<open>A cluster and its paths\<close>

text \<open>The provider was told \<open>path\<close> for the cluster \<open>cl\<close>, and nothing about that path since.\<close>

definition path_current :: "kcpapi \<Rightarrow> lifecycle list \<Rightarrow> string \<Rightarrow> lcname \<Rightarrow> bool" where
  "path_current K es path cl \<longleftrightarrow> (\<exists>es1 ob es2. es = es1 @ Add ob # es2 \<and> lc_from K ob = cl \<and> path \<noteq> [] \<and>
     gomap_read (ob_annotations ob) (lc_path_key K) = path \<and> (\<forall>e \<in> set es2. event_path K e \<noteq> path))"

lemma path_current_resolves:
  assumes "path_current K es path cl"
  shows "PathAware_Get K get (Some (pathStore (path_run K es))) path = get (lc_string K cl)"
proof -
  obtain es1 ob es2 where es: "es = es1 @ Add ob # es2" "lc_from K ob = cl" "path \<noteq> []"
    "gomap_read (ob_annotations ob) (lc_path_key K) = path" "\<forall>e \<in> set es2. event_path K e \<noteq> path"
    using assms unfolding path_current_def by blast
  have "ps_paths (pathStore (path_run K (es1 @ [Add ob]))) path = Some cl"
    using es(2-4) by (auto simp: pathHandler_OnAdd_def Store_Add_def Let_def)
  then have "ps_paths (pathStore (path_run K ((es1 @ [Add ob]) @ es2))) path = Some cl"
    using resolve_others [OF es(5), where xs = "es1 @ [Add ob]"] by simp
  then show ?thesis by (simp add: es(1) PathAware_Get_def Store_Get_def)
qed

lemma path_unknown: "ps_paths st n = None \<Longrightarrow> PathAware_Get K get (Some st) n = get n"
  by (simp add: PathAware_Get_def Store_Get_missing)

text \<open>
  The errors of looking the ConfigMap up under the paths of the bindings, in order, when the
  logical cluster of a path is \<open>owner path\<close>: a cluster that is not engaged is skipped.
\<close>

definition lookup_error ::
  "kcpapi \<Rightarrow> (string \<Rightarrow> 'cl result) \<Rightarrow> ('cl \<Rightarrow> kobject result) \<Rightarrow> (string \<Rightarrow> lcname) \<Rightarrow> kobject \<Rightarrow> error option" where
  "lookup_error K get look owner binding =
     (case ob_annotations binding (lc_path_key K) of
        None \<Rightarrow> None
      | Some path \<Rightarrow>
          (case get (lc_string K (owner path)) of
             Inl err \<Rightarrow> None
           | Inr cl \<Rightarrow> (case look cl of Inl err \<Rightarrow> Some err | Inr s \<Rightarrow> None)))"

lemma binding_loop_errors:
  assumes "\<forall>b \<in> set bindings. \<forall>path. ob_annotations b (lc_path_key K) = Some path \<longrightarrow>
      ce_GetCluster E path = get (lc_string K (owner path))"
  shows "binding_loop K E req bindings =
    (case List.map_filter (lookup_error K get (\<lambda>cl. ce_GetConfigMap E cl (rq_NamespacedName req)) owner) bindings of
       [] \<Rightarrow> None
     | err # errs \<Rightarrow> Some (if ce_IsNotFound E err then None else Some (Errorf ''failed to get configmap: %w'' [] [err])))"
  using assms by (induction bindings) (auto simp: lookup_error_def List.map_filter_simps split: option.splits sum.splits)

text \<open>
  Property C22. With the path-aware provider behind the manager, the controller looks a ConfigMap up
  under every path the bindings of its cluster carry. When the provider was told each of these paths
  for some logical cluster, \<open>owner path\<close>, and nothing about the path since, the lookup by path answers
  as the lookup of that cluster by name does; if the ConfigMap is in each of these clusters that is
  engaged, the reconciliation ends without an error after recording both of its events in the
  request's cluster, in order; otherwise the first cluster in the order of the bindings where it is
  not decides: only the first event is recorded and the lookup's error is returned, unless it is
  NotFound. A path of the request's own cluster never fails.
\<close>

theorem paths_lead_to_own_cluster:
  assumes "\<forall>n. ce_GetCluster E n = PathAware_Get K get (Some (pathStore (path_run K es))) n"
    and "ps_paths (pathStore (path_run K es)) (rq_ClusterName req) = None"
    and "get (rq_ClusterName req) = Inr cl"
    and "ce_GetConfigMap E cl (rq_NamespacedName req) = Inr s" and "ce_ListBindings E cl = Inr bindings"
    and "\<forall>b \<in> set bindings. \<forall>path. ob_annotations b (lc_path_key K) = Some path \<longrightarrow> path_current K es path (owner path)"
  shows "(\<forall>b \<in> set bindings. \<forall>path. ob_annotations b (lc_path_key K) = Some path \<longrightarrow>
       ce_GetCluster E path = get (lc_string K (owner path)) \<and>
       (lc_string K (owner path) = rq_ClusterName req \<longrightarrow> ce_GetCluster E path = Inr cl)) \<and>
    path_reconcile K E req =
      (case List.map_filter (lookup_error K get (\<lambda>cl. ce_GetConfigMap E cl (rq_NamespacedName req)) owner) bindings of
         [] \<Rightarrow> ((reconcile_done, None),
           [path_event cl s ''ConfigMapReconciling'' ''reconciling'', path_event cl s ''ConfigMapReconciled'' ''reconciled''])
       | err # errs \<Rightarrow> ((reconcile_done, if ce_IsNotFound E err then None else Some (Errorf ''failed to get configmap: %w'' [] [err])),
           [path_event cl s ''ConfigMapReconciling'' ''reconciling'']))"
proof -
  have own: "ce_GetCluster E (rq_ClusterName req) = Inr cl"
    unfolding assms(1) [rule_format] path_unknown [OF assms(2)] by (rule assms(3))
  have paths: "\<forall>b \<in> set bindings. \<forall>path. ob_annotations b (lc_path_key K) = Some path \<longrightarrow>
      ce_GetCluster E path = get (lc_string K (owner path))"
    using assms(6) path_current_resolves unfolding assms(1) [rule_format] by blast
  then have "\<forall>b \<in> set bindings. \<forall>path. ob_annotations b (lc_path_key K) = Some path \<longrightarrow>
      ce_GetCluster E path = get (lc_string K (owner path)) \<and>
      (lc_string K (owner path) = rq_ClusterName req \<longrightarrow> ce_GetCluster E path = Inr cl)"
    using assms(3) by simp
  moreover have "path_reconcile K E req =
      (case List.map_filter (lookup_error K get (\<lambda>cl. ce_GetConfigMap E cl (rq_NamespacedName req)) owner) bindings of
         [] \<Rightarrow> ((reconcile_done, None),
           [path_event cl s ''ConfigMapReconciling'' ''reconciling'', path_event cl s ''ConfigMapReconciled'' ''reconciled''])
       | err # errs \<Rightarrow> ((reconcile_done, if ce_IsNotFound E err then None else Some (Errorf ''failed to get configmap: %w'' [] [err])),
           [path_event cl s ''ConfigMapReconciling'' ''reconciling'']))"
    using binding_loop_errors [OF paths, of req] own assms(4,5) by (simp add: path_reconcile_def Let_def split: list.split)
  ultimately show ?thesis by (rule conjI)
qed

text \<open>
  A reconciliation that records its final event found the ConfigMap in the request's cluster and
  in every cluster a path of a binding led to; the first event is recorded whenever the
  ConfigMap exists.
\<close>

lemma binding_loop_None:
  assumes "binding_loop K E req bindings = None" and "b \<in> set bindings"
    and "ob_annotations b (lc_path_key K) = Some path" and "ce_GetCluster E path = Inr cl"
  shows "\<not> is_err (ce_GetConfigMap E cl (rq_NamespacedName req))"
  using assms by (induction bindings) (auto split: option.splits sum.splits if_splits)

lemma path_reconcile_events:
  "length (snd (path_reconcile K E req)) = 2 \<longleftrightarrow>
    (\<exists>cl s bindings. ce_GetCluster E (rq_ClusterName req) = Inr cl \<and>
       ce_GetConfigMap E cl (rq_NamespacedName req) = Inr s \<and> ce_ListBindings E cl = Inr bindings \<and>
       binding_loop K E req bindings = None)"
  by (auto simp: path_reconcile_def Let_def split: sum.splits option.splits)

subsection \<open>Witness\<close>

definition demo_configmap :: kobject where
  "demo_configmap = (demo_obj ''c1'' ''default'' ''cm'' [])\<lparr> ob_annotations := Map.empty \<rparr>"

definition demo_clusters :: "string \<Rightarrow> nat result" where
  "demo_clusters n = (if n = ''c1'' then Inr 1 else if n = ''c2'' then Inr 2 else Inl (Foreign ''cluster not found''))"

definition demo_told :: "lifecycle list" where
  "demo_told = [Add (demo_obj ''c2'' [] ''b'' ''root:b''), Add (demo_obj ''c1'' [] ''b'' ''root:a'')]"

text \<open>The ConfigMap is in the first cluster only; \<open>ps\<close> are the paths of the bindings there.\<close>

definition demo_controller :: "string list \<Rightarrow> nat configmap_env" where
  "demo_controller ps = \<lparr> ce_GetCluster = PathAware_Get demo_kcp demo_clusters (Some (pathStore (path_run demo_kcp demo_told))),
     ce_GetConfigMap = (\<lambda>cl _. if cl = 1 then Inr demo_configmap else Inl (NotFound [] ''configmaps'' ''cm'')),
     ce_ListBindings = (\<lambda>_. Inr (map (demo_obj ''c1'' [] ''b'') ps)),
     ce_IsNotFound = (\<lambda>_. True) \<rparr>"

definition demo_owner :: "string \<Rightarrow> lcname" where
  "demo_owner path = (if path = ''root:a'' then ''c1'' else ''c2'')"

lemma demo_current: "path \<in> {''root:a'', ''root:b''} \<Longrightarrow> path_current demo_kcp demo_told path (demo_owner path)"
proof (elim insertE emptyE)
  assume "path = ''root:a''"
  then show "path_current demo_kcp demo_told path (demo_owner path)"
    unfolding path_current_def demo_told_def
    by (intro exI [of _ "[Add (demo_obj ''c2'' [] ''b'' ''root:b'')]"] exI [of _ "demo_obj ''c1'' [] ''b'' ''root:a''"]
        exI [of _ "[]"]) (simp add: demo_owner_def)
next
  assume "path = ''root:b''"
  then show "path_current demo_kcp demo_told path (demo_owner path)"
    unfolding path_current_def demo_told_def
    by (intro exI [of _ "[]"] exI [of _ "demo_obj ''c2'' [] ''b'' ''root:b''"]
        exI [of _ "[Add (demo_obj ''c1'' [] ''b'' ''root:a'')]"]) (simp add: demo_owner_def)
qed

text \<open>Both events when all paths lead to the own cluster, one when a path leads to the other cluster.\<close>

theorem paths_lead_to_own_cluster_witness:
  "map ce_action (snd (path_reconcile demo_kcp (demo_controller [''root:a''])
     \<lparr> rq_ClusterName = ''c1'', rq_NamespacedName = (''default'', ''cm'') \<rparr>)) =
   [''ConfigMapReconciling'', ''ConfigMapReconciled''] \<and>
   map ce_action (snd (path_reconcile demo_kcp (demo_controller [''root:a'', ''root:b''])
     \<lparr> rq_ClusterName = ''c1'', rq_NamespacedName = (''default'', ''cm'') \<rparr>)) =
   [''ConfigMapReconciling'']"
proof -
  let ?req = "\<lparr> rq_ClusterName = ''c1'', rq_NamespacedName = (''default'', ''cm'') \<rparr>"
  have get: "\<forall>n. ce_GetCluster (demo_controller ps) n =
      PathAware_Get demo_kcp demo_clusters (Some (pathStore (path_run demo_kcp demo_told))) n" for ps
    by (simp add: demo_controller_def)
  have free: "ps_paths (pathStore (path_run demo_kcp demo_told)) (rq_ClusterName ?req) = None"
    by (simp add: path_run_def demo_told_def pathHandler_OnAdd_def Store_Add_def new_path_handler_def New_Store_def Let_def)
  have rest: "demo_clusters (rq_ClusterName ?req) = Inr 1"
    "ce_GetConfigMap (demo_controller ps) 1 (rq_NamespacedName ?req) = Inr demo_configmap"
    "ce_ListBindings (demo_controller ps) 1 = Inr (map (demo_obj ''c1'' [] ''b'') ps)" for ps
    by (simp_all add: demo_clusters_def demo_controller_def)
  have told: "\<forall>b \<in> set (map (demo_obj ''c1'' [] ''b'') ps). \<forall>path. ob_annotations b (lc_path_key demo_kcp) = Some path \<longrightarrow>
      path_current demo_kcp demo_told path (demo_owner path)" if "set ps \<subseteq> {''root:a'', ''root:b''}" for ps
    using that demo_current by auto
  have run: "path_reconcile demo_kcp (demo_controller ps) ?req =
      (case List.map_filter (lookup_error demo_kcp demo_clusters
           (\<lambda>cl. ce_GetConfigMap (demo_controller ps) cl (rq_NamespacedName ?req)) demo_owner) (map (demo_obj ''c1'' [] ''b'') ps) of
         [] \<Rightarrow> ((reconcile_done, None),
           [path_event 1 demo_configmap ''ConfigMapReconciling'' ''reconciling'', path_event 1 demo_configmap ''ConfigMapReconciled'' ''reconciled''])
       | err # errs \<Rightarrow> ((reconcile_done, if ce_IsNotFound (demo_controller ps) err then None
             else Some (Errorf ''failed to get configmap: %w'' [] [err])),
           [path_event 1 demo_configmap ''ConfigMapReconciling'' ''reconciling'']))" if "set ps \<subseteq> {''root:a'', ''root:b''}" for ps
    by (rule conjunct2 [OF paths_lead_to_own_cluster [OF get free rest told [OF that]]])
  have "path_reconcile demo_kcp (demo_controller [''root:a'']) ?req = ((reconcile_done, None),
      [path_event 1 demo_configmap ''ConfigMapReconciling'' ''reconciling'', path_event 1 demo_configmap ''ConfigMapReconciled'' ''reconciled''])"
    by (subst run) (simp_all add: List.map_filter_simps lookup_error_def demo_owner_def demo_clusters_def demo_controller_def)
  moreover have "path_reconcile demo_kcp (demo_controller [''root:a'', ''root:b'']) ?req = ((reconcile_done, None),
      [path_event 1 demo_configmap ''ConfigMapReconciling'' ''reconciling''])"
    by (subst run) (simp_all add: List.map_filter_simps lookup_error_def demo_owner_def demo_clusters_def demo_controller_def)
  ultimately show ?thesis by (simp add: path_event_def)
qed

end
