(* ===== verification/Mains.thy ===== *)
theory Mains
  imports ApiExport InitWorkspaces Controllers
begin

text \<open>
  The start of the programs: the \<open>main\<close> functions of \<^verbatim>\<open>examples/apiexport/main.go\<close>,
  \<^verbatim>\<open>examples/path-aware/main.go\<close> and \<^verbatim>\<open>examples/initializingworkspaces/main.go\<close>, which wire a provider
  and a reconciler to a manager, and the \<open>init\<close> functions that register API types, those of the
  examples and that of \<^verbatim>\<open>envtest/scheme.go\<close>. Flags, the loading of the configuration and the manager
  of \<open>multicluster-runtime\<close> are parameters; informational log lines are left out.
\<close>

subsection \<open>Registering API types\<close>

text \<open>
  \<open>add pkg\<close> is the \<open>AddToScheme\<close> of a package, on the scheme of client-go. \<open>runtime.Must\<close> panics
  on an error; the test environment only warns.
\<close>

fun must_add :: "(string \<Rightarrow> 's \<Rightarrow> error option \<times> 's) \<Rightarrow> string list \<Rightarrow> 's \<Rightarrow> 's outcome" where
  "must_add add [] s = Ret s"
| "must_add add (pkg # pkgs) s =
     (case add pkg s of
        (Some err, s') \<Rightarrow> Panic ''runtime.Must''
      | (None, s') \<Rightarrow> must_add add pkgs s')"

fun warn_add :: "(string \<Rightarrow> 's \<Rightarrow> error option \<times> 's) \<Rightarrow> (string \<times> string) list \<Rightarrow> string list \<Rightarrow> 's \<Rightarrow> string list \<times> 's" where
  "warn_add add [] warnings s = (warnings, s)"
| "warn_add add ((pkg, api) # pkgs) warnings s =
     (case add pkg s of
        (Some err, s') \<Rightarrow> warn_add add pkgs (warnings @ [''WARNING: failed to add '' @ api @ '' to scheme'']) s'
      | (None, s') \<Rightarrow> warn_add add pkgs warnings s')"

definition apiexport_init :: "(string \<Rightarrow> 's \<Rightarrow> error option \<times> 's) \<Rightarrow> 's \<Rightarrow> 's outcome" where
  "apiexport_init add s = must_add add [''core/v1alpha1'', ''tenancy/v1alpha1'', ''apis/v1alpha1''] s"

definition pathaware_init :: "(string \<Rightarrow> 's \<Rightarrow> error option \<times> 's) \<Rightarrow> 's \<Rightarrow> 's outcome" where
  "pathaware_init add s = must_add add [''core/v1alpha1'', ''tenancy/v1alpha1'', ''apis/v1alpha1'', ''apis/v1alpha2''] s"

definition initializing_init :: "(string \<Rightarrow> 's \<Rightarrow> error option \<times> 's) \<Rightarrow> 's \<Rightarrow> 's outcome" where
  "initializing_init add s = must_add add [''core/v1alpha1'', ''tenancy/v1alpha1'', ''apis/v1alpha1''] s"

definition envtest_init :: "(string \<Rightarrow> 's \<Rightarrow> error option \<times> 's) \<Rightarrow> 's \<Rightarrow> string list \<times> 's" where
  "envtest_init add s = warn_add add
     [(''apis/v1alpha1'', ''apis.kcp.io/v1alpha1''), (''apis/v1alpha2'', ''apis.kcp.io/v1alpha2''),
      (''core/v1alpha1'', ''core.kcp.io/v1alpha1''), (''tenancy/v1alpha1'', ''tenancy.kcp.io/v1alpha1''),
      (''topology/v1alpha1'', ''topology.kcp.io/v1alpha1'')] [] s"

text \<open>
  \<open>known s\<close> are the packages whose types the scheme knows: \<open>AddToScheme\<close> adds its own when it
  returns nil and never forgets any.
\<close>

definition scheme_ok :: "(string \<Rightarrow> 's \<Rightarrow> error option \<times> 's) \<Rightarrow> ('s \<Rightarrow> string set) \<Rightarrow> bool" where
  "scheme_ok add known \<longleftrightarrow> (\<forall>pkg s. known s \<subseteq> known (snd (add pkg s)) \<and>
     (fst (add pkg s) = None \<longrightarrow> pkg \<in> known (snd (add pkg s))))"

lemma scheme_okD:
  assumes "scheme_ok add known" and "add pkg s = (e, s')"
  shows "known s \<subseteq> known s'" and "e = None \<Longrightarrow> pkg \<in> known s'"
  using assms unfolding scheme_ok_def by (metis snd_conv, metis fst_conv snd_conv)

lemma must_add_known:
  assumes "scheme_ok add known"
  shows "must_add add pkgs s = Ret s' \<Longrightarrow> known s \<union> set pkgs \<subseteq> known s'"
proof (induction pkgs arbitrary: s)
  case (Cons pkg pkgs)
  obtain e s1 where a: "add pkg s = (e, s1)" by fastforce
  then have "e = None" "must_add add pkgs s1 = Ret s'" using Cons.prems by (cases e; simp)+
  then show ?case using Cons.IH [of s1] scheme_okD [OF assms a] by auto
qed simp

text \<open>
  A program that gets past its registrations knows the types of what it handles: the endpoint
  slices and bindings of the apiexport provider, which are of \<open>apis/v1alpha1\<close>, and the bindings of
  \<open>apis/v1alpha2\<close> that the path-aware controller lists.
\<close>

theorem registered_types:
  assumes "scheme_ok add known"
  shows "apiexport_init add s = Ret s' \<Longrightarrow> ''apis/v1alpha1'' \<in> known s'"
    and "pathaware_init add s = Ret s' \<Longrightarrow> {''apis/v1alpha1'', ''apis/v1alpha2''} \<subseteq> known s'"
    and "initializing_init add s = Ret s' \<Longrightarrow> {''core/v1alpha1'', ''tenancy/v1alpha1''} \<subseteq> known s'"
  using must_add_known [OF assms]
  by (fastforce simp: apiexport_init_def pathaware_init_def initializing_init_def simp del: must_add.simps)+

text \<open>The registrations of the test environment never panic; there is one warning for each that fails.\<close>

lemma warn_add_none:
  assumes "\<forall>pkg s. fst (add pkg s) = None"
  shows "fst (warn_add add pkgs warnings s) = warnings"
proof (induction pkgs arbitrary: warnings s)
  case (Cons x pkgs)
  obtain pkg api where x: "x = (pkg, api)" by (cases x)
  obtain e s1 where a: "add pkg s = (e, s1)" by fastforce
  have "fst (add pkg s) = None" using assms by blast
  then have "e = None" by (simp add: a)
  then show ?case using Cons.IH a x by simp
qed simp

subsection \<open>The programs\<close>

text \<open>
  A \<open>main\<close> function logs an error and exits with status 1, or it returns after the manager it
  started has ended.
\<close>

datatype 'm main_end = Exit1 string error | Ran 'm

definition must :: "string \<Rightarrow> 'a result \<Rightarrow> ('a \<Rightarrow> 'm main_end) \<Rightarrow> 'm main_end" where
  "must msg r k = (case r of Inl err \<Rightarrow> Exit1 msg err | Inr x \<Rightarrow> k x)"

text \<open>
  \<open>mn_flag\<close> is what \<open>pflag\<close> parsed, \<open>mn_config\<close> the configuration of \<open>GetConfigOrDie\<close>, which itself
  exits when there is none. \<open>mn_Complete\<close> builds a controller of that name and reconciler into a
  manager, \<open>mn_clusters\<close> are the calls a ConfigMap reconciler makes on it.
\<close>

record ('p, 'm, 'r) main_env =
  mn_flag :: "string \<Rightarrow> string option"
  mn_config :: "rest_config result"
  mn_NewManager :: "rest_config \<Rightarrow> 'p \<Rightarrow> 'm result"
  mn_Complete :: "'m \<Rightarrow> string \<Rightarrow> 'r \<Rightarrow> 'm result"
  mn_Start :: "'m \<Rightarrow> unit result"

definition flag_value :: "('p, 'm, 'r) main_env \<Rightarrow> string \<Rightarrow> string \<Rightarrow> string" where
  "flag_value E name default_value = or_default (mn_flag E name) default_value"

definition apiexport_main ::
  "('p, 'm, reconcile_request \<Rightarrow> 'cl reconciliation) main_env \<Rightarrow> ('m \<Rightarrow> 'cl configmap_env)
     \<Rightarrow> (rest_config \<Rightarrow> string \<Rightarrow> 'p result) \<Rightarrow> 'm main_end" where
  "apiexport_main E clusters new =
     (let endpointSlice = flag_value E ''endpointslice'' ''examples-apiexport-multicluster'' in
      must ''unable to get kubeconfig'' (mn_config E) (\<lambda>cfg.
      must ''unable to construct cluster provider'' (new cfg endpointSlice) (\<lambda>provider.
      must ''unable to set up overall controller manager'' (mn_NewManager E cfg provider) (\<lambda>mgr.
      must ''failed to build controller'' (mn_Complete E mgr ''kcp-configmap-controller'' (apiexport_reconcile (clusters mgr))) (\<lambda>mgr.
      must ''unable to run manager'' (mn_Start E mgr) (\<lambda>_. Ran mgr))))))"

definition pathaware_main ::
  "kcpapi \<Rightarrow> ('p, 'm, reconcile_request \<Rightarrow> 'cl reconciliation) main_env \<Rightarrow> ('m \<Rightarrow> 'cl configmap_env)
     \<Rightarrow> (rest_config \<Rightarrow> string \<Rightarrow> 'p result) \<Rightarrow> 'm main_end" where
  "pathaware_main K E clusters new =
     (let endpointSlice = flag_value E ''endpointslice'' ''examples-path-aware-apiexport-multicluster'' in
      must ''unable to get kubeconfig'' (mn_config E) (\<lambda>cfg.
      must ''unable to construct cluster provider'' (new cfg endpointSlice) (\<lambda>provider.
      must ''unable to set up overall controller manager'' (mn_NewManager E cfg provider) (\<lambda>mgr.
      must ''failed to build controller'' (mn_Complete E mgr ''kcp-configmap-controller'' (path_reconcile K (clusters mgr))) (\<lambda>mgr.
      must ''unable to run manager'' (mn_Start E mgr) (\<lambda>_. Ran mgr))))))"

text \<open>
  The initializer first reads the workspace type to learn the name of its initializer. A log level
  that does not parse is reported and ignored. \<open>im_InitializerForType\<close> is the sdk's.
\<close>

record ('c, 't) init_main_env =
  im_InfoLevel :: string
  im_ParseLevel :: "string \<Rightarrow> nat result"
  im_NewClient :: "rest_config \<Rightarrow> 'c result"
  im_GetType :: "'c \<Rightarrow> string \<Rightarrow> 't result"
  im_InitializerForType :: "'t \<Rightarrow> string"

definition initializing_serve :: "('p, 'm, 'r) main_env \<Rightarrow> 'm \<Rightarrow> 'r \<Rightarrow> 'm main_end" where
  "initializing_serve E mgr reconciler =
     must ''Failed to build controller'' (mn_Complete E mgr ''kcp-initializer-controller'' reconciler) (\<lambda>mgr.
     must ''Unable to run manager'' (mn_Start E mgr) (\<lambda>_. Ran mgr))"

definition initializing_main ::
  "('p, 'm, reconcile_request \<Rightarrow> 'w \<Rightarrow> (reconcile_result \<times> error option) \<times> 'w) main_env \<Rightarrow> ('c, 't) init_main_env
     \<Rightarrow> ('m \<Rightarrow> ('cl, 'w) initializer_env) \<Rightarrow> (rest_config \<Rightarrow> string \<Rightarrow> 'p result) \<Rightarrow> nat option \<times> 'm main_end" where
  "initializing_main E I clusters new =
     (let server = flag_value E ''server'' [];
          workspaceTypeName = flag_value E ''workspace-type'' ''example'';
          level = (case im_ParseLevel I (flag_value E ''log-level'' (im_InfoLevel I)) of Inl err \<Rightarrow> None | Inr l \<Rightarrow> Some l)
      in (level,
      must ''unable to get kubeconfig'' (mn_config E) (\<lambda>cfg0.
      let cfg = (if server \<noteq> [] then cfg0\<lparr> cfg_host := server \<rparr> else cfg0) in
      must ''Unable to construct cluster client'' (im_NewClient I cfg) (\<lambda>client.
      must ''Failed to get WorkspaceType'' (im_GetType I client workspaceTypeName) (\<lambda>wst.
      let initializer = im_InitializerForType I wst in
      must ''Unable to construct cluster provider'' (new cfg workspaceTypeName) (\<lambda>provider.
      must ''Unable to set up overall controller manager'' (mn_NewManager E cfg provider) (\<lambda>mgr.
      initializing_serve E mgr (initializer_reconcile (clusters mgr) initializer))))))))"

lemma must_Ran: "must msg r k = Ran m \<longleftrightarrow> (\<exists>x. r = Inr x \<and> k x = Ran m)"
  by (auto simp: must_def split: sum.split)

subsection \<open>What the running programs do\<close>

text \<open>
  When the apiexport example runs, its manager was made for a provider that engages a logical
  cluster only after it has seen a ready binding of it, takes the URLs from the slice the flag names,
  and its controller reconciles over that manager.
\<close>

theorem apiexport_main_ready_only:
  fixes E :: "((('nc, 's) resolved_options \<times> nat \<times> recorderManager \<times> ('e, 'c, 'h, 'r) provider), 'm,
      reconcile_request \<Rightarrow> 'cl reconciliation) main_env"
  assumes "apiexport_main E clusters (\<lambda>cfg slice. ApiExport_New U C D new_cache cfg slice
      \<lparr> ax_Scheme = None, ax_Log = None, ax_ObjectToWatch = None, ax_AddFilter = None, ax_UpdateFilter = None, ax_Handlers = [] \<rparr>) = Ran m"
  shows "\<exists>cfg ro ca rm p m0. mn_config E = Inr cfg \<and> mn_NewManager E cfg (ro, ca, rm, p) = Inr m0 \<and>
    mn_Complete E m0 ''kcp-configmap-controller'' (apiexport_reconcile (clusters m0)) = Inr m \<and>
    new_cache cfg (ro_Scheme ro) (ro_EndpointSliceObject ro)
      [(''metadata.name'', flag_value E ''endpointslice'' ''examples-apiexport-multicluster'')] = Inr ca \<and>
    ro_AddFilter ro = Some (ConditionReadyFunc U ''Ready'') \<and> ro_UpdateFilter ro = Some (ConditionReadyFunc U ''Ready'') \<and>
    ro_ExtractURLs ro = DefaultExtractURLsFromEndpointSlice U"
proof -
  let ?opts = "\<lparr> ax_Scheme = None, ax_Log = None, ax_ObjectToWatch = None, ax_AddFilter = None, ax_UpdateFilter = None,
      ax_Handlers = [] \<rparr> :: 's apiexport_options"
  obtain cfg ro ca rm p m0 where run: "mn_config E = Inr cfg"
    "ApiExport_New U C D new_cache cfg (flag_value E ''endpointslice'' ''examples-apiexport-multicluster'') ?opts = Inr (ro, ca, rm, p)"
    "mn_NewManager E cfg (ro, ca, rm, p) = Inr m0"
    "mn_Complete E m0 ''kcp-configmap-controller'' (apiexport_reconcile (clusters m0)) = Inr m"
    using assms by (auto simp: apiexport_main_def must_Ran Let_def)
  note filters = ApiExport_New_filters [OF run(2)]
  have "new_cache cfg (ro_Scheme ro) (ro_EndpointSliceObject ro)
      [(''metadata.name'', flag_value E ''endpointslice'' ''examples-apiexport-multicluster'')] = Inr ca"
    using run(2) by (auto simp: ApiExport_New_def New_Provider_def Let_def split: sum.splits)
  then show ?thesis using run(1,3,4) filters(1,2,4)
    by (intro exI [of _ cfg] exI [of _ ro] exI [of _ ca] exI [of _ rm] exI [of _ p] exI [of _ m0] conjI) simp_all
qed

text \<open>
  When the initializer runs, its controller removes the initializer of the very workspace type
  whose endpoints the provider watches, read from the server that the provider watches too.
\<close>

theorem initializing_main_same_type:
  assumes "initializing_main E I clusters new = (level, Ran m)"
  shows "\<exists>cfg c wst p m0. im_NewClient I cfg = Inr c \<and> im_GetType I c (flag_value E ''workspace-type'' ''example'') = Inr wst \<and>
    new cfg (flag_value E ''workspace-type'' ''example'') = Inr p \<and> mn_NewManager E cfg p = Inr m0 \<and>
    mn_Complete E m0 ''kcp-initializer-controller'' (initializer_reconcile (clusters m0) (im_InitializerForType I wst)) = Inr m \<and>
    (flag_value E ''server'' [] \<noteq> [] \<longrightarrow> cfg_host cfg = flag_value E ''server'' [])"
proof -
  obtain cfg0 where "mn_config E = Inr cfg0" using assms by (auto simp: initializing_main_def must_Ran Let_def)
  then show ?thesis
    using assms by (intro exI [of _ "if flag_value E ''server'' [] \<noteq> [] then cfg0\<lparr> cfg_host := flag_value E ''server'' [] \<rparr> else cfg0"])
      (auto simp: initializing_main_def initializing_serve_def must_Ran Let_def)
qed

text \<open>
  A program that fails exits with the message of the step that failed; the steps before it
  succeeded. In particular nothing is built for a workspace type that does not exist.
\<close>

theorem missing_type_exits:
  assumes "mn_config E = Inr cfg0" and "cfg = (if flag_value E ''server'' [] \<noteq> [] then cfg0\<lparr> cfg_host := flag_value E ''server'' [] \<rparr> else cfg0)"
    and "im_NewClient I cfg = Inr c" and "im_GetType I c (flag_value E ''workspace-type'' ''example'') = Inl err"
  shows "snd (initializing_main E I clusters new) = Exit1 ''Failed to get WorkspaceType'' err"
  using assms by (simp add: initializing_main_def must_def Let_def)

end
