(* ===== verification/Watcher.thy ===== *)
theory Watcher
  imports ProviderInv
begin

text \<open>
  \<^verbatim>\<open>cmd/kcp-endpointslice-watcher/main.go\<close>: the command that prints what a provider's lifecycle
  handlers see. The parser of kinds of apimachinery, YAML, the diff printer and \<open>%q\<close> are
  parameters; the handler's state is what was printed, one string per call.
\<close>

subsection \<open>Kinds on the command line\<close>

text \<open>\<open>strings.SplitN\<close> for one character: at most \<open>n\<close> parts, the last one unsplit.\<close>

fun split_n :: "char \<Rightarrow> nat \<Rightarrow> string \<Rightarrow> string list" where
  "split_n c 0 s = []"
| "split_n c (Suc 0) s = [s]"
| "split_n c (Suc (Suc n)) s =
     (case dropWhile (\<lambda>x. x \<noteq> c) s of
        [] \<Rightarrow> [s]
      | _ # rest \<Rightarrow> takeWhile (\<lambda>x. x \<noteq> c) s # split_n c (Suc n) rest)"

text \<open>\<open>parse_arg\<close> is the first result of \<open>schema.ParseKindArg\<close>.\<close>

definition parseKind :: "(string \<Rightarrow> gvk option) \<Rightarrow> string \<Rightarrow> gvk outcome" where
  "parseKind parse_arg kind =
     (if has_suffix kind ''.core''
      then (case split_n CHR ''.'' 3 kind of
              k # v # _ \<Rightarrow> Ret \<lparr> gvk_group = [], gvk_version = v, gvk_kind = k \<rparr>
            | _ \<Rightarrow> Panic ''index out of range'')
      else (case parse_arg kind of
              None \<Rightarrow> Ret \<lparr> gvk_group = [], gvk_version = [], gvk_kind = [] \<rparr>
            | Some g \<Rightarrow> Ret g))"

subsection \<open>The handler\<close>

record watcher_env =
  wa_quote :: "string \<Rightarrow> string"
  wa_yaml :: "kobject \<Rightarrow> string"
  wa_diff :: "string \<Rightarrow> string \<Rightarrow> string \<Rightarrow> string \<Rightarrow> string"

text \<open>\<open>wa_diff old new from to\<close> is the coloured unified diff; \<open>diff\<close> is the flag.\<close>

definition logger_line :: "watcher_env \<Rightarrow> string \<Rightarrow> kobject \<Rightarrow> string" where
  "logger_line W verb ob = verb @ '' '' @ wa_quote W (ob_name ob) @ '' in namespace '' @ wa_quote W (ob_namespace ob) @ [CHR 0x0A]"

definition logger_OnAdd :: "watcher_env \<Rightarrow> bool \<Rightarrow> kobject \<Rightarrow> string list \<Rightarrow> string list" where
  "logger_OnAdd W diff ob out =
     out @ [logger_line W ''add'' ob] @
       (if diff then [wa_diff W [] (wa_yaml W ob) [] ''new'' @ [CHR 0x0A]] else [])"

definition logger_OnUpdate :: "watcher_env \<Rightarrow> bool \<Rightarrow> kobject \<Rightarrow> kobject \<Rightarrow> string list \<Rightarrow> string list" where
  "logger_OnUpdate W diff oldObj newObj out =
     out @ [logger_line W ''update'' oldObj] @
       (if diff then [wa_diff W (wa_yaml W oldObj) (wa_yaml W newObj) ''old'' ''new'' @ [CHR 0x0A]] else [])"

definition logger_OnDelete :: "watcher_env \<Rightarrow> bool \<Rightarrow> kobject \<Rightarrow> string list \<Rightarrow> string list" where
  "logger_OnDelete W diff ob out =
     out @ [logger_line W ''delete'' ob] @
       (if diff then [wa_diff W (wa_yaml W ob) [] ''old'' [] @ [CHR 0x0A]] else [])"

definition logger_handler :: "watcher_env \<Rightarrow> bool \<Rightarrow> string list handler" where
  "logger_handler W diff = \<lparr> OnAdd = logger_OnAdd W diff, OnUpdate = logger_OnUpdate W diff,
     OnDelete = logger_OnDelete W diff \<rparr>"

subsection \<open>The command\<close>

record watcher_flags =
  fl_EndpointSliceGVK :: string
  fl_EndpointSliceName :: string
  fl_URLJsonPath :: string
  fl_ObjectToWatchGVK :: string
  fl_Diff :: bool

text \<open>\<open>unstructured.Unstructured\<close> with \<open>SetGroupVersionKind\<close>.\<close>

definition unstructured_of :: "gvk \<Rightarrow> kobject" where
  "unstructured_of g = \<lparr> ob_name = [], ob_namespace = [], ob_annotations = Map.empty, ob_labels = Map.empty,
     ob_type = ''*unstructured.Unstructured'', ob_class = Unstructured, ob_gvk = g, ob_data = 0 \<rparr>"

definition watcher_options ::
  "('m, 'u, 'q) unstructured_api \<Rightarrow> (string \<Rightarrow> gvk option) \<Rightarrow> watcher_env \<Rightarrow> watcher_flags
     \<Rightarrow> ('nc, string list) options result outcome" where
  "watcher_options U parse_arg W F =
     bind_outcome (parseKind parse_arg (fl_EndpointSliceGVK F)) (\<lambda>slice_kind.
     bind_outcome (parseKind parse_arg (fl_ObjectToWatchGVK F)) (\<lambda>object_kind.
       let opts = \<lparr> op_Scheme = None, op_EndpointSliceObject = Some (unstructured_of slice_kind),
             op_ExtractURLs = None, op_ObjectToWatch = Some (unstructured_of object_kind), op_Log = None,
             op_NewCluster = None, op_AddFilter = None, op_UpdateFilter = None,
             op_Handlers = [logger_handler W (fl_Diff F)] \<rparr>
       in if fl_URLJsonPath F = [] then Ret (Inr opts)
          else (case ExtractURLsByJSONPath U (fl_URLJsonPath F) of
                  Inl err \<Rightarrow> Ret (Inl (Errorf ''error building url extractor: %w'' [] [err]))
                | Inr urlExtractor \<Rightarrow> Ret (Inr (opts\<lparr> op_ExtractURLs := Some urlExtractor \<rparr>)))))"

text \<open>\<open>start\<close> is \<open>Start\<close> of the new provider, with no manager to tell about clusters.\<close>

definition watcher_run ::
  "('m, 'u, 'q) unstructured_api \<Rightarrow> (string \<Rightarrow> gvk option) \<Rightarrow> watcher_env \<Rightarrow> 'nc default_values
     \<Rightarrow> (rest_config \<Rightarrow> nat \<Rightarrow> kobject \<Rightarrow> (string \<times> string) list \<Rightarrow> nat result) \<Rightarrow> rest_config
     \<Rightarrow> (('nc, string list) resolved_options \<times> nat \<times> recorderManager \<times> ('e, 'c, 'h, 'r) provider \<Rightarrow> error option)
     \<Rightarrow> watcher_flags \<Rightarrow> error option outcome" where
  "watcher_run U parse_arg W D new_cache cfg start F =
     bind_outcome (watcher_options U parse_arg W F) (\<lambda>r.
       case r of
         Inl err \<Rightarrow> Ret (Some err)
       | Inr opts \<Rightarrow>
           (case New_Provider D new_cache cfg (fl_EndpointSliceName F) opts of
              Inl err \<Rightarrow> Ret (Some err)
            | Inr p \<Rightarrow> Ret (start p)))"

subsection \<open>Properties\<close>

lemma split_n_head: "CHR ''.'' \<notin> set k \<Longrightarrow> split_n CHR ''.'' (Suc (Suc n)) (k @ CHR ''.'' # rest) = k # split_n CHR ''.'' (Suc n) rest"
proof -
  assume k: "CHR ''.'' \<notin> set k"
  then have "takeWhile (\<lambda>x. x \<noteq> CHR ''.'') (k @ CHR ''.'' # rest) = k"
    "dropWhile (\<lambda>x. x \<noteq> CHR ''.'') (k @ CHR ''.'' # rest) = CHR ''.'' # rest"
    by (induction k) auto
  then show ?thesis by simp
qed

lemma split_n_dot:
  assumes "CHR ''.'' \<in> set s"
  shows "\<exists>k v rest. split_n CHR ''.'' 3 s = k # v # rest"
proof -
  obtain k r where s: "s = k @ CHR ''.'' # r" "CHR ''.'' \<notin> set k" using assms by (metis split_list_first)
  have "\<exists>v rest. split_n CHR ''.'' (Suc (Suc 0)) r = v # rest" by (simp split: list.split)
  then show ?thesis using split_n_head [OF s(2), of "Suc 0" r] s(1) by (auto simp: numeral_3_eq_3)
qed

lemma parseKind_returns: "returned (parseKind parse_arg kind)"
proof (cases "has_suffix kind ''.core''")
  case True
  then have "CHR ''.'' \<in> set kind" by (auto simp: has_suffix_iff)
  from split_n_dot [OF this] show ?thesis using True by (auto simp: parseKind_def)
qed (simp add: parseKind_def split: option.split)

text \<open>The kinds of the core group round-trip through the form the flag takes.\<close>

lemma parseKind_core:
  assumes "CHR ''.'' \<notin> set kind" and "CHR ''.'' \<notin> set version"
  shows "parseKind parse_arg (kind @ ''.'' @ version @ ''.core'') =
    Ret \<lparr> gvk_group = [], gvk_version = version, gvk_kind = kind \<rparr>"
proof -
  have "has_suffix (kind @ ''.'' @ version @ ''.core'') ''.core''"
    by (metis append_assoc has_suffix_append)
  moreover have "split_n CHR ''.'' 3 (kind @ ''.'' @ version @ ''.core'') = [kind, version, ''core'']"
    using split_n_head [OF assms(1), of "Suc 0" "version @ ''.core''"] split_n_head [OF assms(2), of 0 "''core''"]
    by (simp add: numeral_3_eq_3)
  ultimately show ?thesis by (simp add: parseKind_def)
qed

text \<open>
  A group that ends in \<open>.core\<close> is lost: the kind is looked for in the core group, although
  the parser of the library would have found its group.
\<close>

lemma parseKind_core_group:
  "parseKind parse_arg ''Cell.v1.biology.core'' = Ret \<lparr> gvk_group = [], gvk_version = ''v1'', gvk_kind = ''Cell'' \<rparr>"
  by code_simp

text \<open>Also without a version: the group is taken for it.\<close>

lemma parseKind_no_version:
  "parseKind parse_arg ''Pod.core'' = Ret \<lparr> gvk_group = [], gvk_version = ''core'', gvk_kind = ''Pod'' \<rparr>"
  by code_simp

lemma watcher_run_returns: "returned (watcher_run U parse_arg W D new_cache cfg start F)"
proof -
  obtain sk ob where "parseKind parse_arg (fl_EndpointSliceGVK F) = Ret sk"
    "parseKind parse_arg (fl_ObjectToWatchGVK F) = Ret ob"
    using parseKind_returns by (metis returned.elims(2))
  then show ?thesis by (simp add: watcher_run_def watcher_options_def Let_def split: sum.split)
qed

text \<open>
  The provider has the logger as its only handler and no filters, so that every object in the
  virtual workspaces is printed; without a path expression the default extractor is used.
\<close>

lemma watcher_options_result:
  assumes "watcher_options U parse_arg W F = Ret (Inr opts)"
  shows "op_Handlers opts = [logger_handler W (fl_Diff F)]" and "op_AddFilter opts = None" and "op_UpdateFilter opts = None"
    and "op_ExtractURLs opts = None \<longleftrightarrow> fl_URLJsonPath F = []"
    and "op_ExtractURLs opts = Some f \<Longrightarrow> ExtractURLsByJSONPath U (fl_URLJsonPath F) = Inr f"
proof -
  obtain sk ob where k: "parseKind parse_arg (fl_EndpointSliceGVK F) = Ret sk"
    "parseKind parse_arg (fl_ObjectToWatchGVK F) = Ret ob"
    using parseKind_returns by (metis returned.elims(2))
  show "op_Handlers opts = [logger_handler W (fl_Diff F)]" "op_AddFilter opts = None" "op_UpdateFilter opts = None"
    "op_ExtractURLs opts = None \<longleftrightarrow> fl_URLJsonPath F = []"
    "op_ExtractURLs opts = Some f \<Longrightarrow> ExtractURLsByJSONPath U (fl_URLJsonPath F) = Inr f"
    using assms k by (auto simp: watcher_options_def Let_def split: if_splits sum.splits)
qed

fun event_line :: "watcher_env \<Rightarrow> lifecycle \<Rightarrow> string" where
  "event_line W (Add ob) = logger_line W ''add'' ob"
| "event_line W (Upd old new) = logger_line W ''update'' old"
| "event_line W (Rem ob) = logger_line W ''delete'' ob"

lemma watcher_prints_each_event:
  assumes "watcher_options U parse_arg W F = Ret (Inr opts)" and "\<not> fl_Diff F"
  shows "fold (run_lifecycle (op_Handlers opts)) es out = out @ map (event_line W) es"
proof (induction es arbitrary: out)
  case (Cons e es)
  have "run_lifecycle (op_Handlers opts) e out = out @ [event_line W e]"
    unfolding watcher_options_result(1) [OF assms(1)] using assms(2)
    by (cases e) (simp_all add: logger_handler_def logger_OnAdd_def logger_OnUpdate_def logger_OnDelete_def)
  then show ?case using Cons by simp
qed simp

end
