(* ===== verification/Process.thy ===== *)
theory Process
  imports Prelude
begin

text \<open>
  \<^verbatim>\<open>envtest/internal/process/process.go\<close> and \<^verbatim>\<open>bin_path_finder.go\<close>: starting and
  stopping one test process. What the operating system and the two \<open>select\<close> statements
  answer are inputs of the operations; the processes that run, the signals sent and the
  temporary directories are a small record of the operating system. Durations are in
  nanoseconds.
\<close>

subsection \<open>Paths of the standard library\<close>

fun split_on :: "char \<Rightarrow> string \<Rightarrow> string list" where
  "split_on d [] = [[]]"
| "split_on d (c # s) =
     (if c = d then [] # split_on d s
      else case split_on d s of [] \<Rightarrow> [[c]] | w # ws \<Rightarrow> (c # w) # ws)"

fun join_on :: "string \<Rightarrow> string list \<Rightarrow> string" where
  "join_on d [] = []"
| "join_on d [w] = w"
| "join_on d (w # v # ws) = w @ d @ join_on d (v # ws)"

text \<open>\<open>filepath.Clean\<close> on the components, the result kept in reverse.\<close>

fun clean_parts :: "bool \<Rightarrow> string list \<Rightarrow> string list \<Rightarrow> string list" where
  "clean_parts rooted [] out = rev out"
| "clean_parts rooted (w # ws) out =
     (if w = [] \<or> w = ''.'' then clean_parts rooted ws out
      else if w = ''..'' then
        (case out of
           [] \<Rightarrow> clean_parts rooted ws (if rooted then [] else [''..''])
         | t # ts \<Rightarrow> if t = ''..'' then clean_parts rooted ws (w # out) else clean_parts rooted ws ts)
      else clean_parts rooted ws (w # out))"

definition path_Clean :: "string \<Rightarrow> string" where
  "path_Clean p =
     (if p = [] then ''.''
      else let rooted = has_prefix p ''/'';
               body = join_on ''/'' (clean_parts rooted (split_on (CHR ''/'') p) [])
           in if rooted then ''/'' @ body else if body = [] then ''.'' else body)"

definition path_Join :: "string list \<Rightarrow> string" where
  "path_Join ws = (case filter (\<lambda>w. w \<noteq> []) ws of [] \<Rightarrow> [] | vs \<Rightarrow> path_Clean (join_on ''/'' vs))"

text \<open>\<open>path.Base\<close>.\<close>

definition path_Base :: "string \<Rightarrow> string" where
  "path_Base p =
     (if p = [] then ''.''
      else let q = rev (dropWhile (\<lambda>c. c = CHR ''/'') (rev p))
           in if q = [] then ''/'' else last (split_on (CHR ''/'') q))"

subsection \<open>Finding the binary\<close>

definition is_upper :: "char \<Rightarrow> bool" where
  "is_upper c \<longleftrightarrow> 65 \<le> (of_char c :: nat) \<and> (of_char c :: nat) \<le> 90"

definition is_digit :: "char \<Rightarrow> bool" where
  "is_digit c \<longleftrightarrow> 48 \<le> (of_char c :: nat) \<and> (of_char c :: nat) \<le> 57"

definition to_upper :: "char \<Rightarrow> char" where
  "to_upper c = (if 97 \<le> (of_char c :: nat) \<and> (of_char c :: nat) \<le> 122 then char_of ((of_char c :: nat) - 32) else c)"

text \<open>Each maximal run of other characters becomes one underscore; \<open>b\<close>: inside a run.\<close>

fun squeeze :: "bool \<Rightarrow> string \<Rightarrow> string" where
  "squeeze b [] = []"
| "squeeze b (c # s) =
     (if is_upper c \<or> is_digit c then c # squeeze False s
      else if b then squeeze True s else CHR ''_'' # squeeze True s)"

definition sanitizedName :: "string \<Rightarrow> string" where
  "sanitizedName symbolicName = dropWhile is_digit (squeeze False (map to_upper symbolicName))"

text \<open>\<open>os.LookupEnv\<close> is the map; \<open>os.Getenv\<close> does not tell an unset variable from an empty one.\<close>

definition Getenv :: "(string \<rightharpoonup> string) \<Rightarrow> string \<Rightarrow> string" where
  "Getenv env name = (case env name of None \<Rightarrow> [] | Some v \<Rightarrow> v)"

definition BinPathFinder :: "(string \<rightharpoonup> string) \<Rightarrow> string \<Rightarrow> string \<Rightarrow> string" where
  "BinPathFinder env symbolicName assetDirectory =
     (case env (''TEST_ASSET_'' @ sanitizedName symbolicName) of
        Some val \<Rightarrow> val
      | None \<Rightarrow>
          (case env ''TEST_KCP_ASSETS'' of
             Some val \<Rightarrow> path_Join [val, symbolicName]
           | None \<Rightarrow> if assetDirectory \<noteq> [] then path_Join [assetDirectory, symbolicName]
                     else path_Join [''/usr/local/kcp/bin'', symbolicName]))"

lemma squeeze_chars: "c \<in> set (squeeze b s) \<Longrightarrow> is_upper c \<or> is_digit c \<or> c = CHR ''_''"
  by (induction b s rule: squeeze.induct) (auto split: if_splits)

lemma sanitizedName_chars: "c \<in> set (sanitizedName s) \<Longrightarrow> is_upper c \<or> is_digit c \<or> c = CHR ''_''"
  unfolding sanitizedName_def using squeeze_chars set_dropWhileD by fast

lemma sanitizedName_head: "sanitizedName s = c # cs \<Longrightarrow> \<not> is_digit c"
  unfolding sanitizedName_def by (metis dropWhile_eq_Cons_conv)

lemma BinPathFinder_example: "BinPathFinder (Map.empty(''TEST_ASSET_KCP_FRONT_PROXY'' \<mapsto> ''/opt/fp''))
    ''kcp-front-proxy'' ''bin'' = ''/opt/fp'' \<and> BinPathFinder Map.empty ''kcp'' ''hack/../bin'' = ''bin/kcp''"
  by code_simp

subsection \<open>Addresses\<close>

record listen_addr =
  la_Address :: string
  la_Port :: string

definition JoinHostPort :: "string \<Rightarrow> string \<Rightarrow> string" where
  "JoinHostPort host port =
     (if CHR '':'' \<in> set host then ''['' @ host @ '']:'' @ port else host @ '':'' @ port)"

definition HostPort :: "listen_addr \<Rightarrow> string" where
  "HostPort l = JoinHostPort (la_Address l) (la_Port l)"

record url =
  u_Scheme :: string
  u_Host :: string
  u_Path :: string

definition ListenAddr_URL :: "listen_addr \<Rightarrow> string \<Rightarrow> string \<Rightarrow> url" where
  "ListenAddr_URL l scheme path = \<lparr> u_Scheme = scheme, u_Host = HostPort l, u_Path = path \<rparr>"

subsection \<open>The state of a process\<close>

text \<open>
  \<open>ps_Cmd\<close> is nil, a command that did not start, or one that runs as a process; a closed
  \<open>waitDone\<close> channel is \<open>ps_exited\<close> for the current process.
\<close>

record proc_state =
  ps_Cmd :: "nat option option"
  ps_HealthCheck :: url
  ps_Args :: "string list"
  ps_StopTimeout :: int
  ps_StartTimeout :: int
  ps_Dir :: string
  ps_DirNeedsCleaning :: bool
  ps_Path :: string
  ps_ready :: bool
  ps_exited :: bool
  ps_exitErr :: "error option"

datatype signal = SIGTERM | SIGKILL

record os_state =
  os_running :: "nat set"
  os_next :: nat
  os_dirs :: "string set"
  os_signals :: "(nat \<times> signal) list"

definition Process_Init ::
  "(string \<Rightarrow> string \<Rightarrow> string) \<Rightarrow> string result \<Rightarrow> string \<Rightarrow> proc_state \<Rightarrow> os_state
     \<Rightarrow> error option \<times> proc_state \<times> os_state" where
  "Process_Init find_bin mkdirTemp name ps os =
     (if ps_Path ps = [] \<and> name = [] then (Some (Errorf ''must have at least one of name or path'' [] []), ps, os)
      else let ps = (if ps_Path ps = [] then ps\<lparr> ps_Path := find_bin name [] \<rparr> else ps)
           in case (if ps_Dir ps = [] then
                      (case mkdirTemp of
                         Inl err \<Rightarrow> Inl err
                       | Inr newDir \<Rightarrow> Inr (ps\<lparr> ps_Dir := newDir, ps_DirNeedsCleaning := True \<rparr>,
                                           os\<lparr> os_dirs := insert newDir (os_dirs os) \<rparr>))
                    else Inr (ps, os)) of
                Inl err \<Rightarrow> (Some err, ps, os)
              | Inr (ps, os) \<Rightarrow>
                  let ps = (if ps_StartTimeout ps = 0 then ps\<lparr> ps_StartTimeout := 60000000000 \<rparr> else ps);
                      ps = (if ps_StopTimeout ps = 0 then ps\<lparr> ps_StopTimeout := 20000000000 \<rparr> else ps)
                  in (None, ps, os))"

text \<open>The wait goroutine, when a process it waits for ends.\<close>

definition wait_exit :: "nat \<Rightarrow> error option \<Rightarrow> proc_state \<Rightarrow> os_state \<Rightarrow> proc_state \<times> os_state" where
  "wait_exit pid err ps os =
     (ps\<lparr> ps_exitErr := err, ps_exited := True \<rparr>, os\<lparr> os_running := os_running os - {pid} \<rparr>)"

definition send_signal :: "nat \<Rightarrow> signal \<Rightarrow> os_state \<Rightarrow> os_state" where
  "send_signal pid sig os = os\<lparr> os_signals := os_signals os @ [(pid, sig)] \<rparr>"

text \<open>Which channel of the \<open>select\<close> in \<open>Start\<close> is taken.\<close>

datatype start_select = HealthOK | WaitDone "error option" | StartTimedOut

definition Process_Start ::
  "error option \<Rightarrow> start_select \<Rightarrow> proc_state \<Rightarrow> os_state \<Rightarrow> error option \<times> proc_state \<times> os_state" where
  "Process_Start start_err sel ps os =
     (if ps_ready ps then (None, ps, os)
      else case start_err of
        Some err \<Rightarrow> (Some err, ps\<lparr> ps_Cmd := Some None, ps_exited := True \<rparr>, os)
      | None \<Rightarrow>
          let pid = os_next os;
              ps = ps\<lparr> ps_Cmd := Some (Some pid) \<rparr>;
              os = os\<lparr> os_next := pid + 1, os_running := insert pid (os_running os) \<rparr>
          in case sel of
               HealthOK \<Rightarrow> (None, ps\<lparr> ps_ready := True \<rparr>, os)
             | WaitDone err \<Rightarrow>
                 (case wait_exit pid err ps os of (ps, os) \<Rightarrow>
                    (Some (Errorf ''timeout waiting for process %s to start successfully (it may have failed to start, or stopped unexpectedly before becoming ready)''
                       [path_Base (ps_Path ps)] []), ps, os))
             | StartTimedOut \<Rightarrow>
                 (Some (Errorf ''timeout waiting for process %s to start'' [path_Base (ps_Path ps)] []), ps,
                  send_signal pid SIGTERM os))"

definition Process_Exited :: "proc_state \<Rightarrow> bool \<times> error option" where
  "Process_Exited ps = (ps_exited ps, ps_exitErr ps)"

text \<open>
  \<open>Stop\<close>: \<open>term_err\<close> and \<open>kill_err\<close> are the results of the two signals, \<open>sel\<close> tells how
  the process ended, or that it did not within the timeout.
\<close>

datatype stop_select = Ended "error option" | StopTimedOut

definition clean_dir :: "proc_state \<Rightarrow> os_state \<Rightarrow> os_state" where
  "clean_dir ps os = (if ps_DirNeedsCleaning ps then os\<lparr> os_dirs := os_dirs os - {ps_Dir ps} \<rparr> else os)"

definition Process_Stop ::
  "error option \<Rightarrow> stop_select \<Rightarrow> error option \<Rightarrow> proc_state \<Rightarrow> os_state
     \<Rightarrow> error option outcome \<times> proc_state \<times> os_state" where
  "Process_Stop term_err sel kill_err ps os =
     (case ps_Cmd ps of
        None \<Rightarrow> (Ret None, ps, clean_dir ps os)
      | Some process \<Rightarrow>
          if fst (Process_Exited ps) then (Ret None, ps, clean_dir ps os)
          else (case process of
            None \<Rightarrow> (Panic ''invalid memory address or nil pointer dereference'', ps, clean_dir ps os)
          | Some pid \<Rightarrow>
              (case term_err of
                 Some err \<Rightarrow> (Ret (Some (Errorf ''unable to signal for process %s to stop: %w'' [ps_Path ps] [err])),
                              ps, clean_dir ps os)
               | None \<Rightarrow>
                   let os = send_signal pid SIGTERM os
                   in case sel of
                        Ended e \<Rightarrow>
                          (case wait_exit pid e ps os of (ps, os) \<Rightarrow>
                             (Ret None, ps\<lparr> ps_ready := False \<rparr>, clean_dir ps os))
                      | StopTimedOut \<Rightarrow>
                          (case kill_err of
                             Some err \<Rightarrow> (Ret (Some (Errorf ''unable to kill process %s: %w'' [ps_Path ps] [err])),
                                          ps, clean_dir ps os)
                           | None \<Rightarrow> (Ret (Some (Errorf ''timeout waiting for process %s to stop''
                                          [path_Base (ps_Path ps)] [])), ps, clean_dir ps (send_signal pid SIGKILL os))))))"

subsection \<open>The health poller\<close>

text \<open>
  One round is the status or error of the request and whether the stop channel is closed
  when it is looked at afterwards. The list may end before the poller does.
\<close>

datatype poll_end = PolledOK | PollStopped | StillPolling

fun pollURLUntilOK :: "(nat result \<times> bool) list \<Rightarrow> poll_end" where
  "pollURLUntilOK [] = StillPolling"
| "pollURLUntilOK ((res, stop) # rounds) =
     (if res = Inr 200 then PolledOK
      else if stop then PollStopped
      else pollURLUntilOK rounds)"

lemma poll_reaches_ok:
  "\<forall>r \<in> set before. \<not> snd r \<Longrightarrow> pollURLUntilOK (before @ (Inr 200, stop) # later) = PolledOK"
  by (induction before) auto

lemma poll_was_ok:
  "pollURLUntilOK rounds = PolledOK \<Longrightarrow>
     \<exists>before stop later. rounds = before @ (Inr 200, stop) # later \<and> (\<forall>r \<in> set before. \<not> snd r)"
proof (induction rounds rule: pollURLUntilOK.induct)
  case (2 res stop rounds)
  show ?case
  proof (cases "res = Inr 200")
    case True
    then have "(res, stop) # rounds = [] @ (Inr 200, stop) # rounds" by simp
    then show ?thesis by (metis empty_iff list.set(1))
  next
    case False
    then have "\<not> stop" and "pollURLUntilOK rounds = PolledOK" using 2 by (simp_all split: if_splits)
    then obtain before x later where "rounds = before @ (Inr 200, x) # later" "\<forall>r \<in> set before. \<not> snd r"
      using 2 False by blast
    then have "(res, stop) # rounds = ((res, stop) # before) @ (Inr 200, x) # later"
      and "\<forall>r \<in> set ((res, stop) # before). \<not> snd r" using \<open>\<not> stop\<close> by simp_all
    then show ?thesis by blast
  qed
qed simp

lemma pollURLUntilOK_iff:
  "pollURLUntilOK rounds = PolledOK \<longleftrightarrow>
     (\<exists>before stop later. rounds = before @ (Inr 200, stop) # later \<and> (\<forall>r \<in> set before. \<not> snd r))"
  using poll_reaches_ok poll_was_ok by blast

subsection \<open>The life of a process state\<close>

text \<open>
  Calls of \<open>Start\<close> and \<open>Stop\<close> with any answers of the operating system, and processes that
  end on their own, which their wait goroutine records.
\<close>

inductive proc_step :: "proc_state \<times> os_state \<Rightarrow> proc_state \<times> os_state \<Rightarrow> bool" where
  started: "Process_Start start_err sel ps os = (r, ps', os') \<Longrightarrow> proc_step (ps, os) (ps', os')"
| stopped: "Process_Stop term_err sel kill_err ps os = (r, ps', os') \<Longrightarrow> proc_step (ps, os) (ps', os')"
| exits: "pid \<in> os_running os \<Longrightarrow> wait_exit pid err ps os = (ps', os') \<Longrightarrow> proc_step (ps, os) (ps', os')"

inductive proc_reach :: "proc_state \<times> os_state \<Rightarrow> bool" where
  fresh: "ps_Cmd ps = None \<Longrightarrow> \<not> ps_ready ps \<Longrightarrow> \<not> ps_exited ps \<Longrightarrow> os_running os = {} \<Longrightarrow> proc_reach (ps, os)"
| step: "proc_reach s \<Longrightarrow> proc_step s s' \<Longrightarrow> proc_reach s'"

text \<open>
  While no process of the state has ended, the current command, if there is one, runs; a
  ready state has a command; processes are numbered by \<open>os_next\<close>.
\<close>

definition proc_inv :: "proc_state \<times> os_state \<Rightarrow> bool" where
  "proc_inv s \<longleftrightarrow> (case s of (ps, os) \<Rightarrow>
     (\<not> ps_exited ps \<longrightarrow> (case ps_Cmd ps of None \<Rightarrow> os_running os = {} | Some None \<Rightarrow> False
                          | Some (Some pid) \<Rightarrow> pid \<in> os_running os)) \<and>
     (ps_ready ps \<longrightarrow> (\<exists>pid. ps_Cmd ps = Some (Some pid))) \<and> (\<forall>pid \<in> os_running os. pid < os_next os))"

lemma os_update_sel [simp]:
  "os_running (clean_dir ps os) = os_running os" "os_next (clean_dir ps os) = os_next os"
  "os_running (send_signal pid sig os) = os_running os" "os_next (send_signal pid sig os) = os_next os"
  "os_dirs (send_signal pid sig os) = os_dirs os" "os_signals (clean_dir ps os) = os_signals os"
  by (simp_all add: clean_dir_def send_signal_def)

lemma proc_inv_start:
  assumes "Process_Start start_err sel ps os = (r, ps', os')" and "proc_inv (ps, os)"
  shows "proc_inv (ps', os')"
  using assms
  by (auto simp: Process_Start_def proc_inv_def wait_exit_def Let_def less_SucI
    split: if_splits option.splits start_select.splits)

lemma proc_inv_stop:
  assumes "Process_Stop term_err sel kill_err ps os = (r, ps', os')" and "proc_inv (ps, os)"
  shows "proc_inv (ps', os')"
  using assms
  by (auto simp: Process_Stop_def Process_Exited_def proc_inv_def wait_exit_def Let_def
    split: if_splits option.splits stop_select.splits)

lemma proc_inv_exit: "wait_exit pid err ps os = (ps', os') \<Longrightarrow> proc_inv (ps, os) \<Longrightarrow> proc_inv (ps', os')"
  by (auto simp: wait_exit_def proc_inv_def)

lemma proc_inv_step: "proc_step s s' \<Longrightarrow> proc_inv s \<Longrightarrow> proc_inv s'"
  by (induction rule: proc_step.induct) (rule proc_inv_start proc_inv_stop proc_inv_exit, assumption+)+

lemma proc_inv_reach: "proc_reach s \<Longrightarrow> proc_inv s"
proof (induction rule: proc_reach.induct)
  case (fresh ps os)
  then show ?case by (simp add: proc_inv_def)
next
  case (step s s')
  then show ?case using proc_inv_step by blast
qed

text \<open>
  Property C28. \<open>Stop\<close> never panics, whatever happened before. When it returns nil for a state
  whose command runs as a process, that process still runs exactly if some process of the
  state had ended before, because \<open>exited\<close> is never reset; otherwise it has ended and the
  state is no longer ready. The temporary directory is gone in every case.
\<close>

theorem stop_ends_process_iff:
  assumes "proc_reach (ps, os)" and "Process_Stop term_err sel kill_err ps os = (r, ps', os')"
  shows "returned r \<and> (ps_DirNeedsCleaning ps \<longrightarrow> ps_Dir ps \<notin> os_dirs os') \<and>
    (r = Ret None \<longrightarrow> (\<forall>pid. ps_Cmd ps = Some (Some pid) \<longrightarrow>
       (pid \<in> os_running os' \<longleftrightarrow> ps_exited ps \<and> pid \<in> os_running os) \<and> (\<not> ps_exited ps \<longrightarrow> \<not> ps_ready ps')))"
  using proc_inv_reach [OF assms(1)] assms(2)
  by (auto simp: Process_Stop_def Process_Exited_def proc_inv_def wait_exit_def clean_dir_def Let_def
    split: if_splits option.splits stop_select.splits)

text \<open>
  Starting and stopping a process twice leaves the second one running: all four
  calls return nil, the second \<open>Stop\<close> sends no signal, and the state stays ready.
\<close>

theorem second_run_not_stopped:
  assumes "ps_Cmd ps = None" and "\<not> ps_ready ps" and "\<not> ps_exited ps"
    and "Process_Start None HealthOK ps os = (r1, ps1, os1)"
    and "Process_Stop None (Ended e) k ps1 os1 = (r2, ps2, os2)"
    and "Process_Start None HealthOK ps2 os2 = (r3, ps3, os3)"
    and "Process_Stop term_err sel kill_err ps3 os3 = (r4, ps4, os4)"
  shows "r1 = None \<and> r2 = Ret None \<and> r3 = None \<and> r4 = Ret None \<and> ps_ready ps4 \<and>
    os_next os2 \<in> os_running os4 \<and> os_signals os4 = os_signals os2 \<and>
    (\<forall>e2. Process_Start e2 HealthOK ps4 os4 = (None, ps4, os4))"
proof -
  have first: "ps_ready ps1" "ps_Cmd ps1 = Some (Some (os_next os))" "\<not> ps_exited ps1" "r1 = None"
    using assms(1-4) by (auto simp: Process_Start_def Let_def)
  have stop1: "\<not> ps_ready ps2" "ps_exited ps2" "r2 = Ret None"
    using first assms(5) by (auto simp: Process_Stop_def Process_Exited_def wait_exit_def Let_def)
  have second: "ps_ready ps3" "ps_exited ps3" "ps_Cmd ps3 = Some (Some (os_next os2))" "r3 = None"
    "os_next os2 \<in> os_running os3" "os_signals os3 = os_signals os2"
    using stop1 assms(6) by (auto simp: Process_Start_def Let_def)
  have stop2: "ps4 = ps3" "os4 = clean_dir ps3 os3" "r4 = Ret None"
    using second(2,3) assms(7) by (auto simp: Process_Stop_def Process_Exited_def)
  then show ?thesis using first stop1 second by (simp add: Process_Start_def)
qed

text \<open>
  A ready process that ends on its own is never noticed: \<open>Stop\<close> returns nil and
  the state stays ready, so a later \<open>Start\<close> returns nil without starting anything, although
  no process runs.
\<close>

theorem crashed_process_stays_ready:
  assumes "proc_reach (ps, os)" and "ps_ready ps" and "os_running os = {pid}"
    and "wait_exit pid err ps os = (ps1, os1)"
    and "Process_Stop term_err sel kill_err ps1 os1 = (r, ps2, os2)"
    and "Process_Start start_err sel' ps2 os2 = (r', ps3, os3)"
  shows "r = Ret None \<and> r' = None \<and> ps_ready ps3 \<and> os_running os3 = {}"
proof -
  obtain p where cmd: "ps_Cmd ps = Some (Some p)"
    using proc_inv_reach [OF assms(1)] assms(2) by (auto simp: proc_inv_def)
  have exited: "ps_exited ps1" "ps_ready ps1" "ps_Cmd ps1 = Some (Some p)" "os_running os1 = {}"
    using assms(2,3,4) cmd by (auto simp: wait_exit_def)
  then have stop: "r = Ret None" "ps2 = ps1" "os_running os2 = {}"
    using assms(5) by (auto simp: Process_Stop_def Process_Exited_def)
  then show ?thesis using assms(6) exited by (auto simp: Process_Start_def)
qed

subsection \<open>Witnesses\<close>

definition demo_proc :: proc_state where
  "demo_proc = \<lparr> ps_Cmd = None, ps_HealthCheck = \<lparr> u_Scheme = [], u_Host = [], u_Path = [] \<rparr>, ps_Args = [],
     ps_StopTimeout = 0, ps_StartTimeout = 0, ps_Dir = [], ps_DirNeedsCleaning = False,
     ps_Path = ''/bin/kcp'', ps_ready = False, ps_exited = False, ps_exitErr = None \<rparr>"

definition demo_os :: os_state where
  "demo_os = \<lparr> os_running = {}, os_next = 7, os_dirs = {}, os_signals = [] \<rparr>"

lemma demo_proc_reach: "proc_reach (demo_proc, demo_os)"
  by (rule fresh) (simp_all add: demo_proc_def demo_os_def)

text \<open>The state after \<open>Init\<close> and a successful start, as process 7 with a directory.\<close>

definition demo_run :: "proc_state \<times> os_state" where
  "demo_run = snd (Process_Start None HealthOK (demo_proc\<lparr> ps_Dir := ''/tmp/x'', ps_DirNeedsCleaning := True \<rparr>)
     (demo_os\<lparr> os_dirs := {''/tmp/x''} \<rparr>))"

lemma demo_run_reach: "proc_reach demo_run"
proof -
  have "proc_reach (demo_proc\<lparr> ps_Dir := ''/tmp/x'', ps_DirNeedsCleaning := True \<rparr>, demo_os\<lparr> os_dirs := {''/tmp/x''} \<rparr>)"
    by (rule fresh) (simp_all add: demo_proc_def demo_os_def)
  then show ?thesis
    unfolding demo_run_def by (rule proc_reach.step) (metis proc_step.started prod.collapse)
qed

lemma demo_run_sel:
  "ps_Cmd (fst demo_run) = Some (Some 7)" "ps_ready (fst demo_run)" "\<not> ps_exited (fst demo_run)"
  "os_running (snd demo_run) = {7}" "ps_DirNeedsCleaning (fst demo_run)" "ps_Dir (fst demo_run) = ''/tmp/x''"
  by (simp_all add: demo_run_def Process_Start_def demo_proc_def demo_os_def Let_def)

theorem stop_ends_process_iff_witness:
  "\<exists>ps os. Process_Stop None (Ended None) None (fst demo_run) (snd demo_run) = (Ret None, ps, os) \<and>
     7 \<notin> os_running os \<and> ''/tmp/x'' \<notin> os_dirs os \<and> \<not> ps_ready ps"
proof -
  obtain r ps os where stop: "Process_Stop None (Ended None) None (fst demo_run) (snd demo_run) = (r, ps, os)"
    by (metis prod.collapse)
  then have "r = Ret None"
    by (auto simp: Process_Stop_def Process_Exited_def demo_run_sel wait_exit_def Let_def)
  then show ?thesis
    using stop_ends_process_iff [OF _ stop] demo_run_reach demo_run_sel stop by simp
qed

theorem second_run_not_stopped_witness:
  "case Process_Start None HealthOK demo_proc demo_os of (_, ps1, os1) \<Rightarrow>
     case Process_Stop None (Ended None) None ps1 os1 of (_, ps2, os2) \<Rightarrow>
       case Process_Start None HealthOK ps2 os2 of (_, ps3, os3) \<Rightarrow>
         case Process_Stop None (Ended None) None ps3 os3 of (r, ps4, os4) \<Rightarrow>
           r = Ret None \<and> 8 \<in> os_running os4 \<and> os_signals os4 = [(7, SIGTERM)]"
proof -
  obtain r1 ps1 os1 where 1: "Process_Start None HealthOK demo_proc demo_os = (r1, ps1, os1)" by (metis prod.collapse)
  obtain r2 ps2 os2 where 2: "Process_Stop None (Ended None) None ps1 os1 = (r2, ps2, os2)" by (metis prod.collapse)
  obtain r3 ps3 os3 where 3: "Process_Start None HealthOK ps2 os2 = (r3, ps3, os3)" by (metis prod.collapse)
  obtain r4 ps4 os4 where 4: "Process_Stop None (Ended None) None ps3 os3 = (r4, ps4, os4)" by (metis prod.collapse)
  have "ps_Cmd demo_proc = None" "\<not> ps_ready demo_proc" "\<not> ps_exited demo_proc" by (simp_all add: demo_proc_def)
  note r = second_run_not_stopped [OF this 1 2 3 4]
  have "os_next os1 = 8" "os_signals os1 = []" "ps_Cmd ps1 = Some (Some 7)" "\<not> ps_exited ps1"
    using 1 by (auto simp: Process_Start_def demo_proc_def demo_os_def Let_def)
  then have "os_next os2 = 8" "os_signals os2 = [(7, SIGTERM)]"
    using 2 by (auto simp: Process_Stop_def Process_Exited_def wait_exit_def send_signal_def clean_dir_def Let_def
      split: if_splits)
  then show ?thesis using r by (simp add: 1 2 3 4)
qed

theorem crashed_process_stays_ready_witness:
  "case wait_exit 7 (Some (Foreign ''exit status 1'')) (fst demo_run) (snd demo_run) of (ps1, os1) \<Rightarrow>
     case Process_Stop None (Ended None) None ps1 os1 of (_, ps2, os2) \<Rightarrow>
       case Process_Start None HealthOK ps2 os2 of (r, ps3, os3) \<Rightarrow> r = None \<and> os_running os3 = {}"
proof -
  obtain ps1 os1 where 1: "wait_exit 7 (Some (Foreign ''exit status 1'')) (fst demo_run) (snd demo_run) = (ps1, os1)"
    by (metis prod.collapse)
  obtain r2 ps2 os2 where 2: "Process_Stop None (Ended None) None ps1 os1 = (r2, ps2, os2)" by (metis prod.collapse)
  obtain r3 ps3 os3 where 3: "Process_Start None HealthOK ps2 os2 = (r3, ps3, os3)" by (metis prod.collapse)
  have "proc_reach (fst demo_run, snd demo_run)" using demo_run_reach by simp
  from crashed_process_stays_ready [OF this demo_run_sel(2,4) 1 2 3] show ?thesis by (simp add: 1 2 3)
qed

end
