(* ===== verification/Startup.thy ===== *)
theory Startup
  imports Process
begin

text \<open>
  What the harness finds out before it starts anything: \<open>CheckFlag\<close> of
  \<^verbatim>\<open>envtest/internal/process/process.go\<close>, which looks a flag up in the help output of the
  binary, and the initializer of \<^verbatim>\<open>envtest/internal/addr/manager.go\<close>, which picks the directory
  of the port files. Running the command and making directories are parameters.
\<close>

subsection \<open>Flags in the help output\<close>

text \<open>
  The pattern is a flag at the start of a line, after white space, up to a word boundary. The
  flag is put into the pattern as it is, so this matcher is the one for flags of letters, digits
  and hyphens; \<open>match\<close> is the library's matcher for the rest, which may refuse the pattern.
\<close>

definition re_space :: "char \<Rightarrow> bool" where
  "re_space c \<longleftrightarrow> c \<in> {CHR 0x09, CHR 0x0A, CHR 0x0C, CHR 0x0D, CHR '' ''}"

definition re_word :: "char \<Rightarrow> bool" where
  "re_word c \<longleftrightarrow> is_upper c \<or> is_digit c \<or> c = CHR ''_'' \<or> 97 \<le> (of_char c :: nat) \<and> (of_char c :: nat) \<le> 122"

definition literal_flag :: "string \<Rightarrow> bool" where
  "literal_flag flag \<longleftrightarrow> flag \<noteq> [] \<and> list_all (\<lambda>c. re_word c \<or> c = CHR ''-'') flag"

definition re_boundary :: "char \<Rightarrow> string \<Rightarrow> bool" where
  "re_boundary c rest \<longleftrightarrow> re_word c \<noteq> (case rest of [] \<Rightarrow> False | d # _ \<Rightarrow> re_word d)"

definition flag_here :: "string \<Rightarrow> string \<Rightarrow> bool" where
  "flag_here flag s \<longleftrightarrow> has_prefix s (''--'' @ flag) \<and>
     re_boundary (last flag) (drop (length flag + 2) s)"

text \<open>\<open>at_start\<close>: the position is the start of a line.\<close>

fun help_match :: "string \<Rightarrow> bool \<Rightarrow> string \<Rightarrow> bool" where
  "help_match flag at_start [] \<longleftrightarrow> at_start \<and> flag_here flag []"
| "help_match flag at_start (c # s) \<longleftrightarrow>
     at_start \<and> flag_here flag (dropWhile re_space (c # s)) \<or> help_match flag (c = CHR 0x0A) s"

definition CheckFlag ::
  "(string \<Rightarrow> string list \<Rightarrow> string result) \<Rightarrow> (string \<Rightarrow> string \<Rightarrow> bool result) \<Rightarrow> proc_state \<Rightarrow> string \<Rightarrow> bool result" where
  "CheckFlag CombinedOutput match ps flag =
     (case CombinedOutput (ps_Path ps) [''start'', ''options''] of
        Inl err \<Rightarrow> Inl (Errorf ''unable to run command %q to check for flag %q: %w'' [ps_Path ps, flag] [err])
      | Inr outContents \<Rightarrow>
          if literal_flag flag then Inr (help_match flag True outContents)
          else (case match flag outContents of
                  Inl err \<Rightarrow> Inl (Errorf ''unable to check command %q for flag %q in help output: %w''
                    [ps_Path ps, flag] [err])
                | Inr matched \<Rightarrow> Inr matched))"

text \<open>
  A hyphen ends a word, so a flag is also found when it is only the beginning of another one; a
  flag in the middle of a line is not found.
\<close>

lemma check_flag_prefix:
  assumes "CombinedOutput (ps_Path ps) [''start'', ''options''] =
    Inr (''Flags:'' @ [CHR 0x0A] @ ''  --insecure-port int  see --bind'' @ [CHR 0x0A])"
  shows "CheckFlag CombinedOutput match ps ''insecure-port'' = Inr True"
    and "CheckFlag CombinedOutput match ps ''insecure'' = Inr True"
    and "CheckFlag CombinedOutput match ps ''insecure-po'' = Inr False"
    and "CheckFlag CombinedOutput match ps ''bind'' = Inr False"
proof -
  let ?out = "''Flags:'' @ [CHR 0x0A] @ ''  --insecure-port int  see --bind'' @ [CHR 0x0A]"
  have "map literal_flag [''insecure-port'', ''insecure'', ''insecure-po'', ''bind''] = [True, True, True, True]"
    "map (\<lambda>f. help_match f True ?out) [''insecure-port'', ''insecure'', ''insecure-po'', ''bind''] =
       [True, True, False, False]"
    by code_simp+
  then show "CheckFlag CombinedOutput match ps ''insecure-port'' = Inr True"
    "CheckFlag CombinedOutput match ps ''insecure'' = Inr True"
    "CheckFlag CombinedOutput match ps ''insecure-po'' = Inr False"
    "CheckFlag CombinedOutput match ps ''bind'' = Inr False"
    using assms unfolding CheckFlag_def by (simp_all only: sum.case list.map list.inject if_True)
qed

lemma check_flag_error:
  "is_err (CheckFlag CombinedOutput match ps flag) \<longleftrightarrow>
     is_err (CombinedOutput (ps_Path ps) [''start'', ''options'']) \<or>
     \<not> literal_flag flag \<and> (\<exists>out. CombinedOutput (ps_Path ps) [''start'', ''options''] = Inr out \<and> is_err (match flag out))"
  by (auto simp: CheckFlag_def split: sum.splits)

subsection \<open>The directory of the port files\<close>

text \<open>\<open>w\<close> is the file system; the result is the directory.\<close>

definition addr_init ::
  "string result \<Rightarrow> string \<Rightarrow> (string \<Rightarrow> 'w \<Rightarrow> error option \<times> 'w) \<Rightarrow> 'w \<Rightarrow> (string \<times> 'w) outcome" where
  "addr_init UserCacheDir TempDir MkdirAll w =
     (let fallback = (\<lambda>w.
        let cacheDir = path_Join [TempDir, ''kubebuilder-envtest'']
        in case MkdirAll cacheDir w of
             (Some err, w') \<Rightarrow> Panic ''mkdir failed''
           | (None, w') \<Rightarrow> Ret (cacheDir, w'))
      in case UserCacheDir of
           Inl err \<Rightarrow> fallback w
         | Inr baseDir \<Rightarrow>
             let cacheDir = path_Join [baseDir, ''kubebuilder-envtest'']
             in (case MkdirAll cacheDir w of
                   (Some err, w') \<Rightarrow> fallback w'
                 | (None, w') \<Rightarrow> Ret (cacheDir, w')))"

text \<open>The directory exists when the initializer returns.\<close>

lemma addr_init_made:
  assumes "addr_init UserCacheDir TempDir MkdirAll w = Ret (dir, w')"
  shows "\<exists>u. MkdirAll dir u = (None, w')"
    and "dir \<in> {path_Join [base, ''kubebuilder-envtest''] |base. base = TempDir \<or> UserCacheDir = Inr base}"
  using assms by (auto simp: addr_init_def Let_def split: sum.splits prod.splits option.splits)

end
