(* ===== verification/Arguments.thy ===== *)
theory Arguments
  imports Prelude "HOL-Library.List_Lexorder" "HOL-Library.Char_ord"
begin

text \<open>
  \<^verbatim>\<open>envtest/internal/process/arguments.go\<close>: the overridable command-line flags of a test
  process and their rendering. Whether a slice is nil decides whether a flag is passed at
  all, so a Go slice is an option here: \<open>None\<close> is the nil slice.
\<close>

type_synonym slice = "string list option"

fun elems :: "slice \<Rightarrow> string list" where
  "elems None = []"
| "elems (Some xs) = xs"

text \<open>\<open>append\<close>: appending nothing to the nil slice gives the nil slice.\<close>

fun go_append :: "slice \<Rightarrow> string list \<Rightarrow> slice" where
  "go_append (Some a) vals = Some (a @ vals)"
| "go_append None [] = None"
| "go_append None (v # vals) = Some (v # vals)"

lemma elems_go_append [simp]: "elems (go_append s vals) = elems s @ vals"
  by (cases "(s, vals)" rule: go_append.cases) simp_all

lemma go_append_None_iff [simp]: "go_append s vals = None \<longleftrightarrow> s = None \<and> vals = []"
  by (cases "(s, vals)" rule: go_append.cases) simp_all

subsection \<open>One argument\<close>

datatype arg =
    UserArg slice
  | DefaultedArg slice
  | DontPass
  | PassAsName
  | FuncArg "slice \<Rightarrow> slice"

fun arg_Append :: "arg \<Rightarrow> slice \<Rightarrow> arg" where
  "arg_Append (UserArg a) vals = UserArg (go_append a (elems vals))"
| "arg_Append (DefaultedArg a) vals = DefaultedArg (go_append a (elems vals))"
| "arg_Append DontPass vals = UserArg vals"
| "arg_Append PassAsName vals = PassAsName"
| "arg_Append (FuncArg f) vals = FuncArg f"

fun arg_Get :: "arg \<Rightarrow> slice \<Rightarrow> slice" where
  "arg_Get (UserArg a) defaults = a"
| "arg_Get (DefaultedArg a) defaults = go_append (go_append None (elems defaults)) (elems a)"
| "arg_Get DontPass defaults = None"
| "arg_Get PassAsName defaults = Some []"
| "arg_Get (FuncArg f) defaults = f defaults"

subsection \<open>The set of arguments\<close>

type_synonym arguments = "string \<rightharpoonup> arg"

definition EmptyArguments :: arguments where
  "EmptyArguments = Map.empty"

definition Arguments_Get :: "arguments \<Rightarrow> string \<Rightarrow> arg" where
  "Arguments_Get a key = (case a key of Some vals \<Rightarrow> vals | None \<Rightarrow> DefaultedArg None)"

definition Enable :: "string \<Rightarrow> arguments \<Rightarrow> arguments" where
  "Enable key a = a(key \<mapsto> PassAsName)"

definition Disable :: "string \<Rightarrow> arguments \<Rightarrow> arguments" where
  "Disable key a = a(key \<mapsto> DontPass)"

definition Arguments_Append :: "string \<Rightarrow> slice \<Rightarrow> arguments \<Rightarrow> arguments" where
  "Arguments_Append key values a =
     (let vals = (case a key of Some v \<Rightarrow> v | None \<Rightarrow> DefaultedArg (Some []))
      in a(key \<mapsto> arg_Append vals values))"

definition AppendNoDefaults :: "string \<Rightarrow> slice \<Rightarrow> arguments \<Rightarrow> arguments" where
  "AppendNoDefaults key values a =
     (let vals = (case a key of Some v \<Rightarrow> v | None \<Rightarrow> UserArg (Some []))
      in a(key \<mapsto> arg_Append vals values))"

definition Arguments_Set :: "string \<Rightarrow> slice \<Rightarrow> arguments \<Rightarrow> arguments" where
  "Arguments_Set key values a = a(key \<mapsto> UserArg values)"

definition SetRaw :: "string \<Rightarrow> arg \<Rightarrow> arguments \<Rightarrow> arguments" where
  "SetRaw key val a = a(key \<mapsto> val)"

lemmas arguments_defs = EmptyArguments_def Arguments_Get_def Enable_def Disable_def Arguments_Append_def
  AppendNoDefaults_def Arguments_Set_def SetRaw_def

subsection \<open>Rendering\<close>

text \<open>\<open>ks\<close> and \<open>ls\<close> are the orders in which the two maps are ranged over.\<close>

fun unset_keys :: "arguments \<Rightarrow> string list \<Rightarrow> string list \<Rightarrow> string list" where
  "unset_keys a [] keysInOrder = keysInOrder"
| "unset_keys a (key # ks) keysInOrder =
     (if a key \<noteq> None then unset_keys a ks keysInOrder else unset_keys a ks (keysInOrder @ [key]))"

definition render_flag :: "string \<Rightarrow> slice \<Rightarrow> string list" where
  "render_flag key vals =
     (case vals of
        None \<Rightarrow> []
      | Some [] \<Rightarrow> [''--'' @ key]
      | Some vs \<Rightarrow> map (\<lambda>v. ''--'' @ key @ ''='' @ v) vs)"

definition default_of :: "(string \<rightharpoonup> slice) \<Rightarrow> string \<Rightarrow> slice" where
  "default_of defaults key = (case defaults key of None \<Rightarrow> None | Some s \<Rightarrow> s)"

fun render_loop :: "arguments \<Rightarrow> (string \<rightharpoonup> slice) \<Rightarrow> string list \<Rightarrow> string list \<Rightarrow> string list" where
  "render_loop a defaults [] res = res"
| "render_loop a defaults (key # keys) res =
     render_loop a defaults keys (res @ render_flag key (arg_Get (Arguments_Get a key) (default_of defaults key)))"

definition AsStrings :: "arguments \<Rightarrow> (string \<rightharpoonup> slice) \<Rightarrow> string list \<Rightarrow> string list \<Rightarrow> string list" where
  "AsStrings a defaults ks ls = render_loop a defaults (sort (unset_keys a ks [] @ ls)) []"

subsection \<open>The output does not depend on the order of the maps\<close>

definition rendered :: "arguments \<Rightarrow> (string \<rightharpoonup> slice) \<Rightarrow> string \<Rightarrow> string list" where
  "rendered a defaults key = render_flag key (arg_Get (Arguments_Get a key) (default_of defaults key))"

lemma unset_keys_eq: "unset_keys a ks acc = acc @ filter (\<lambda>k. a k = None) ks"
  by (induction ks arbitrary: acc) simp_all

lemma render_loop_eq: "render_loop a defaults keys res = res @ concat (map (rendered a defaults) keys)"
  by (induction keys arbitrary: res) (simp_all add: rendered_def)

lemma rendered_keys:
  assumes "range_of defaults ks" and "range_of a ls"
  shows "sort (unset_keys a ks [] @ ls) = sorted_list_of_set (dom defaults \<union> dom a)"
proof -
  let ?keys = "filter (\<lambda>k. a k = None) ks @ ls"
  have "distinct ?keys" and "set ?keys = dom defaults \<union> dom a"
    using assms by (auto simp: range_of_def)
  then show ?thesis
    by (metis unset_keys_eq append_Nil distinct_remdups_id sorted_list_of_set_sort_remdups)
qed

text \<open>
  The rendered command line is the flags of all keys that have a default or were
  set by the user, each once, in the order of the keys, whatever order the two Go maps are
  ranged over: rendering is deterministic.
\<close>

theorem as_strings_deterministic:
  assumes "range_of defaults ks" and "range_of a ls"
  shows "AsStrings a defaults ks ls =
    concat (map (rendered a defaults) (sorted_list_of_set (dom defaults \<union> dom a)))"
  by (simp add: AsStrings_def render_loop_eq rendered_keys [OF assms])

subsection \<open>Reading the flags back\<close>

text \<open>How a program reads one flag: the name up to the first equals sign, and the value.\<close>

definition parse_flag :: "string \<Rightarrow> string \<times> string option" where
  "parse_flag s = (let body = drop 2 s in
     (takeWhile (\<lambda>c. c \<noteq> CHR ''='') body,
      case dropWhile (\<lambda>c. c \<noteq> CHR ''='') body of [] \<Rightarrow> None | _ # v \<Rightarrow> Some v))"

text \<open>What was asked for: nothing, the name alone, or one value after the other.\<close>

definition flag_values :: "slice \<Rightarrow> string option list" where
  "flag_values vals = (case vals of None \<Rightarrow> [] | Some [] \<Rightarrow> [None] | Some vs \<Rightarrow> map Some vs)"

lemma parse_flag_name: "CHR ''='' \<notin> set key \<Longrightarrow> parse_flag (''--'' @ key) = (key, None)"
proof -
  assume "CHR ''='' \<notin> set key"
  then have "\<forall>c \<in> set key. c \<noteq> CHR ''=''" by blast
  then have ends: "takeWhile (\<lambda>c. c \<noteq> CHR ''='') key = key" "dropWhile (\<lambda>c. c \<noteq> CHR ''='') key = []"
    by (simp_all only: takeWhile_eq_all_conv dropWhile_eq_Nil_conv)
  have "drop 2 (''--'' @ key) = key" by simp
  then show ?thesis by (simp only: parse_flag_def Let_def ends list.case)
qed

lemma parse_flag_value: "CHR ''='' \<notin> set key \<Longrightarrow> parse_flag (''--'' @ key @ ''='' @ v) = (key, Some v)"
proof -
  assume "CHR ''='' \<notin> set key"
  then have "\<forall>c \<in> set key. c \<noteq> CHR ''=''" by blast
  then show ?thesis by (simp add: parse_flag_def Let_def takeWhile_append2 dropWhile_append2)
qed

lemma parse_render:
  "CHR ''='' \<notin> set key \<Longrightarrow> map parse_flag (render_flag key vals) = map (Pair key) (flag_values vals)"
  using parse_flag_name [of key] parse_flag_value [of key]
  by (simp add: render_flag_def flag_values_def split: option.split list.split)

lemma filter_concat_unique:
  assumes "distinct keys" and "\<And>k x. k \<in> set keys \<Longrightarrow> x \<in> set (f k) \<Longrightarrow> P x \<longleftrightarrow> k = key"
  shows "filter P (concat (map f keys)) = (if key \<in> set keys then f key else [])"
  using assms
proof (induction keys)
  case (Cons k keys)
  have "filter P (concat (map f keys)) = (if key \<in> set keys then f key else [])"
    using Cons.IH Cons.prems by simp
  moreover have "filter P (f k) = (if k = key then f k else [])"
    using Cons.prems(2) [of k] by (auto intro: filter_True filter_False)
  ultimately show ?case using Cons.prems(1) by auto
qed simp

lemma parsed_flags:
  assumes "range_of defaults ks" and "range_of a ls"
    and "\<forall>k \<in> dom defaults \<union> dom a. CHR ''='' \<notin> set k"
  shows "filter (\<lambda>f. fst f = key) (map parse_flag (AsStrings a defaults ks ls)) =
    map (Pair key) (flag_values (arg_Get (Arguments_Get a key) (default_of defaults key)))"
proof -
  let ?keys = "sort (unset_keys a ks [] @ ls)"
  let ?vals = "\<lambda>k. flag_values (arg_Get (Arguments_Get a k) (default_of defaults k))"
  have fin: "finite (dom defaults \<union> dom a)" using assms(1,2) by (metis List.finite_set finite_UnI range_of_def)
  have keys: "set ?keys = dom defaults \<union> dom a" "distinct ?keys"
    unfolding rendered_keys [OF assms(1,2)] using fin by simp_all
  have "map parse_flag (rendered a defaults k) = map (Pair k) (?vals k)" if "k \<in> set ?keys" for k
    unfolding rendered_def by (rule parse_render) (use that assms(3) keys(1) in blast)
  then have "map (\<lambda>k. map parse_flag (rendered a defaults k)) ?keys = map (\<lambda>k. map (Pair k) (?vals k)) ?keys"
    by (intro map_cong refl)
  then have "map parse_flag (AsStrings a defaults ks ls) = concat (map (\<lambda>k. map (Pair k) (?vals k)) ?keys)"
    by (simp only: AsStrings_def render_loop_eq map_concat map_map comp_def append_Nil)
  then have "filter (\<lambda>f. fst f = key) (map parse_flag (AsStrings a defaults ks ls)) =
      (if key \<in> set ?keys then map (Pair key) (?vals key) else [])"
    by (simp only:) (rule filter_concat_unique [OF keys(2)], auto)
  moreover have "?vals key = []" if "key \<notin> set ?keys"
  proof -
    have "defaults key = None" "a key = None" using that unfolding keys(1) by (auto simp: domIff)
    then show ?thesis by (simp add: flag_values_def Arguments_Get_def default_of_def)
  qed
  ultimately show ?thesis by simp
qed

text \<open>
  Property C29. Parsing the rendered command line gives back, for every flag, exactly the
  values its argument yields over the default, in order, and the bare name when the argument
  is an empty non-nil slice; nothing when it is nil. Flag names have no equals sign.
\<close>

theorem as_strings_roundtrip:
  assumes "range_of defaults ks" and "range_of a ls"
    and "\<forall>k \<in> dom defaults \<union> dom a. CHR ''='' \<notin> set k"
  shows "map snd (filter (\<lambda>f. fst f = key) (map parse_flag (AsStrings a defaults ks ls))) =
    flag_values (arg_Get (Arguments_Get a key) (default_of defaults key))"
  by (simp add: parsed_flags [OF assms] comp_def)

subsection \<open>What the operations ask for\<close>

definition asked :: "arguments \<Rightarrow> string \<Rightarrow> slice \<Rightarrow> string option list" where
  "asked a key defaults = flag_values (arg_Get (Arguments_Get a key) defaults)"

lemma asked_Enable: "asked (Enable key a) key d = [None]"
  by (simp add: asked_def arguments_defs flag_values_def)

lemma asked_Disable: "asked (Disable key a) key d = []"
  by (simp add: asked_def arguments_defs flag_values_def)

lemma asked_Set: "vs \<noteq> [] \<Longrightarrow> asked (Arguments_Set key (Some vs) a) key d = map Some vs"
  by (cases vs) (simp_all add: asked_def arguments_defs flag_values_def)

lemma asked_other:
  assumes "k \<noteq> key"
  shows "asked (Enable key a) k d = asked a k d" and "asked (Disable key a) k d = asked a k d"
    and "asked (Arguments_Set key v a) k d = asked a k d" and "asked (Arguments_Append key v a) k d = asked a k d"
    and "asked (AppendNoDefaults key v a) k d = asked a k d" and "asked (SetRaw key r a) k d = asked a k d"
  using assms by (simp_all add: asked_def arguments_defs Let_def)

text \<open>
  Appending in any number of steps: an untouched flag gets the defaults and then all the
  values, a flag set or disabled before gets what was set and then the values, and a flag
  passed as its name only, or computed by a function, ignores them.
\<close>

definition append_all :: "string \<Rightarrow> string list list \<Rightarrow> arguments \<Rightarrow> arguments" where
  "append_all key vss a = fold (\<lambda>vs. Arguments_Append key (Some vs)) vss a"

lemma Arguments_Append_again:
  "a key = Some (UserArg s) \<Longrightarrow> Arguments_Append key (Some vs) a key = Some (UserArg (go_append s vs))"
  "a key = Some (DefaultedArg s) \<Longrightarrow> Arguments_Append key (Some vs) a key = Some (DefaultedArg (go_append s vs))"
  "a key = None \<Longrightarrow> Arguments_Append key (Some vs) a key = Some (DefaultedArg (Some vs))"
  "a key = Some DontPass \<Longrightarrow> Arguments_Append key (Some vs) a key = Some (UserArg (Some vs))"
  by (simp_all add: Arguments_Append_def Let_def)

lemma append_all_user:
  "a key = Some (UserArg (Some us)) \<Longrightarrow> append_all key vss a key = Some (UserArg (Some (us @ concat vss)))"
  unfolding append_all_def
  by (induction vss arbitrary: a us) (simp_all add: Arguments_Append_again)

lemma append_all_defaulted:
  "a key = Some (DefaultedArg (Some us)) \<Longrightarrow> append_all key vss a key = Some (DefaultedArg (Some (us @ concat vss)))"
  unfolding append_all_def
  by (induction vss arbitrary: a us) (simp_all add: Arguments_Append_again)

text \<open>
  Appending the values \<open>vss\<close> one call after the other: to a flag nothing was
  said about, the command gets the defaults followed by all the values; to a disabled flag,
  the values without the defaults; and a flag that was set keeps its values before them.
\<close>

theorem appended_flag_values:
  assumes "concat (vs # vss) \<noteq> []"
  shows "(a key = None \<longrightarrow>
      asked (append_all key (vs # vss) a) key d = map Some (elems d @ concat (vs # vss))) \<and>
    asked (append_all key (vs # vss) (Disable key a)) key d = map Some (concat (vs # vss)) \<and>
    asked (append_all key (vs # vss) (Arguments_Set key (Some us) a)) key d = map Some (us @ concat (vs # vss))"
proof -
  have step: "append_all key (vs # vss) b = append_all key vss (Arguments_Append key (Some vs) b)" for b
    by (simp add: append_all_def)
  have shown: "flag_values (Some xs) = map Some xs" if "xs \<noteq> []" for xs :: "string list"
    using that by (cases xs) (simp_all add: flag_values_def)
  have "go_append (go_append None (elems d)) (concat (vs # vss)) = Some (elems d @ concat (vs # vss))"
    by (metis assms elems.elims elems_go_append go_append_None_iff self_append_conv2 elems.simps)
  then have "asked (append_all key (vs # vss) a) key d = map Some (elems d @ concat (vs # vss))" if "a key = None"
    using append_all_defaulted [of "Arguments_Append key (Some vs) a" key vs vss] assms that
    by (simp add: step Arguments_Append_again asked_def Arguments_Get_def shown)
  moreover have "asked (append_all key (vs # vss) (Disable key a)) key d = map Some (concat (vs # vss))"
    using append_all_user [of "Arguments_Append key (Some vs) (Disable key a)" key vs vss] assms
    by (simp add: step Arguments_Append_again Disable_def asked_def Arguments_Get_def shown)
  moreover have "asked (append_all key (vs # vss) (Arguments_Set key (Some us) a)) key d = map Some (us @ concat (vs # vss))"
    using append_all_user [of "Arguments_Set key (Some us) a" key us "vs # vss"] assms
    by (simp add: Arguments_Set_def asked_def Arguments_Get_def shown)
  ultimately show ?thesis by blast
qed

text \<open>
  The nil slice at work: \<open>Set\<close> without values drops the flag, \<open>AppendNoDefaults\<close> without
  values passes its name, and an empty default passes nothing.
\<close>

lemma no_values:
  "asked (Arguments_Set key None a) key d = []"
  "a key = None \<Longrightarrow> asked (AppendNoDefaults key None a) key d = [None]"
  "a key = None \<Longrightarrow> asked a key (Some []) = []"
  by (simp_all add: asked_def arguments_defs flag_values_def Let_def)

subsection \<open>Witnesses\<close>

definition demo_arg_defaults :: "string \<rightharpoonup> slice" where
  "demo_arg_defaults = [''v'' \<mapsto> Some [''2''], ''bind'' \<mapsto> Some [''0''], ''tls'' \<mapsto> Some [''on'']]"

definition demo_arguments :: arguments where
  "demo_arguments = Enable ''audit'' (Disable ''tls'' (Arguments_Append ''v'' (Some [''4'']) EmptyArguments))"

lemma demo_argument_ranges:
  "range_of demo_arg_defaults [''v'', ''bind'', ''tls'']" "range_of demo_arguments [''v'', ''tls'', ''audit'']"
  by (auto simp: range_of_def demo_arg_defaults_def demo_arguments_def arguments_defs Let_def)

lemma demo_argument_keys:
  "sorted_list_of_set (dom demo_arg_defaults \<union> dom demo_arguments) = [''audit'', ''bind'', ''tls'', ''v'']"
  unfolding rendered_keys [OF demo_argument_ranges, symmetric]
  by (simp add: unset_keys_eq demo_arguments_def arguments_defs Let_def)

theorem as_strings_deterministic_witness:
  "AsStrings demo_arguments demo_arg_defaults [''v'', ''bind'', ''tls''] [''v'', ''tls'', ''audit''] =
     [''--audit'', ''--bind=0'', ''--v=2'', ''--v=4'']"
  unfolding as_strings_deterministic [OF demo_argument_ranges] demo_argument_keys
  by (simp add: rendered_def render_flag_def default_of_def demo_arg_defaults_def demo_arguments_def
    arguments_defs Let_def)

theorem as_strings_roundtrip_witness:
  "map snd (filter (\<lambda>f. fst f = ''v'') (map parse_flag
     (AsStrings demo_arguments demo_arg_defaults [''v'', ''bind'', ''tls''] [''v'', ''tls'', ''audit''])))
   = [Some ''2'', Some ''4'']"
proof -
  have "\<forall>k \<in> dom demo_arg_defaults \<union> dom demo_arguments. CHR ''='' \<notin> set k"
    by (simp add: demo_arg_defaults_def demo_arguments_def arguments_defs Let_def)
  from as_strings_roundtrip [OF demo_argument_ranges this, of "''v''"] show ?thesis
    by (simp add: default_of_def demo_arg_defaults_def demo_arguments_def arguments_defs flag_values_def Let_def)
qed

theorem appended_flag_values_witness:
  "asked (append_all ''v'' [[''4''], [''5'']] EmptyArguments) ''v'' (Some [''2'']) = [Some ''2'', Some ''4'', Some ''5'']"
  using appended_flag_values [of "[''4'']" "[[''5'']]" EmptyArguments "''v''" "Some [''2'']" "[]"]
  by (simp add: EmptyArguments_def)

end
