(* ===== verification/Addr.thy ===== *)
theory Addr
  imports Process
begin

text \<open>
  \<^verbatim>\<open>envtest/internal/addr/manager.go\<close> and \<^verbatim>\<open>envtest/internal/flock\<close>: suggesting a port
  for a test server. A port is reserved across processes by a locked file in a cache
  directory, and candidates stay listened on until the suggestion is made. The file system
  and the network are records of functions over the state \<open>'w\<close> they act on; times are in
  milliseconds.
\<close>

subsection \<open>Decimal numbers\<close>

definition digit_char :: "nat \<Rightarrow> char" where
  "digit_char d = char_of (48 + d)"

fun itoa :: "nat \<Rightarrow> string" where
  "itoa n = (if n < 10 then [digit_char n] else itoa (n div 10) @ [digit_char (n mod 10)])"

declare itoa.simps [simp del]

fun digits_value :: "nat \<Rightarrow> string \<Rightarrow> nat" where
  "digits_value acc [] = acc"
| "digits_value acc (c # s) = digits_value (10 * acc + (of_char c - 48)) s"

lemma digits_value_append: "digits_value acc (s @ [c]) = 10 * digits_value acc s + (of_char c - 48)"
  by (induction acc s rule: digits_value.induct) simp_all

lemma digit_char_value [simp]: "d < 10 \<Longrightarrow> of_char (digit_char d) - 48 = d"
  by (simp add: digit_char_def)

lemma digits_value_itoa: "digits_value 0 (itoa n) = n"
proof (induction n rule: itoa.induct)
  case (1 n)
  show ?case
  proof (cases "n < 10")
    case True
    then show ?thesis by (simp add: itoa.simps [of n])
  next
    case False
    then show ?thesis using 1 by (simp add: itoa.simps [of n] digits_value_append)
  qed
qed

lemma itoa_inject [simp]: "itoa m = itoa n \<longleftrightarrow> m = n"
  by (metis digits_value_itoa)

subsection \<open>File locks\<close>

text \<open>\<open>errors.Is\<close>: the error itself or one it wraps.\<close>

fun errors_Is :: "error \<Rightarrow> error \<Rightarrow> bool" where
  "errors_Is (Errorf f vs ws) target \<longleftrightarrow> Errorf f vs ws = target \<or> list_ex (\<lambda>e. errors_Is e target) ws"
| "errors_Is (Joined ws) target \<longleftrightarrow> Joined ws = target \<or> list_ex (\<lambda>e. errors_Is e target) ws"
| "errors_Is (NotFound g k n) target \<longleftrightarrow> NotFound g k n = target"
| "errors_Is (Foreign s) target \<longleftrightarrow> Foreign s = target"

definition ErrAlreadyLocked :: error where
  "ErrAlreadyLocked = Errorf ''the file is already locked'' [] []"

text \<open>What \<open>Acquire\<close> uses of \<open>x/sys/unix\<close>, and the tests on its errors.\<close>

record 'w unix_env =
  ux_Open :: "string \<Rightarrow> 'w \<Rightarrow> nat result \<times> 'w"
  ux_Flock :: "nat \<Rightarrow> 'w \<Rightarrow> error option \<times> 'w"
  ux_is_exist :: "error \<Rightarrow> bool"
  ux_is_wouldblock :: "error \<Rightarrow> bool"

definition Acquire :: "'w unix_env \<Rightarrow> string \<Rightarrow> 'w \<Rightarrow> error option \<times> 'w" where
  "Acquire U path w =
     (case ux_Open U path w of
        (Inl err, w') \<Rightarrow>
          (Some (if ux_is_exist U err then Errorf ''cannot lock file %q: %w'' [path] [ErrAlreadyLocked] else err), w')
      | (Inr fd, w') \<Rightarrow>
          (case ux_Flock U fd w' of
             (None, w'') \<Rightarrow> (None, w'')
           | (Some err, w'') \<Rightarrow>
               (Some (if ux_is_wouldblock U err then Errorf ''cannot lock file %q: %w'' [path] [ErrAlreadyLocked]
                      else err), w'')))"

subsection \<open>The port cache\<close>

text \<open>
  \<open>fe_walk\<close> is what \<open>fs.WalkDir\<close> visits below the cache directory: the path, whether it is a
  regular file, and the error of the visit.
\<close>

record 'w fs_env =
  fe_cacheDir :: string
  fe_walk :: "'w \<Rightarrow> (string \<times> bool \<times> error option) list"
  fe_ModTime :: "string \<Rightarrow> 'w \<Rightarrow> nat result"
  fe_now :: "'w \<Rightarrow> nat"
  fe_Remove :: "string \<Rightarrow> 'w \<Rightarrow> error option \<times> 'w"
  fe_not_exist :: "error \<Rightarrow> bool"

definition portReserveTime :: nat where "portReserveTime = 120000"

definition portConflictRetry :: nat where "portConflictRetry = 100"

definition portFilePrefix :: string where "portFilePrefix = ''port-''"

fun remove_outdated :: "'w fs_env \<Rightarrow> (string \<times> bool \<times> error option) list \<Rightarrow> 'w \<Rightarrow> error option \<times> 'w" where
  "remove_outdated F [] w = (None, w)"
| "remove_outdated F ((path, regular, visit_err) # visits) w =
     (case visit_err of
        Some err \<Rightarrow> (Some err, w)
      | None \<Rightarrow>
          if \<not> regular \<or> \<not> has_prefix path portFilePrefix then remove_outdated F visits w
          else case fe_ModTime F path w of
            Inl err \<Rightarrow> if fe_not_exist F err then remove_outdated F visits w else (Some err, w)
          | Inr modTime \<Rightarrow>
              if fe_now F w - modTime > portReserveTime
              then (case fe_Remove F (path_Join [fe_cacheDir F, path]) w of
                      (None, w') \<Rightarrow> remove_outdated F visits w'
                    | (Some err, w') \<Rightarrow> if fe_not_exist F err then remove_outdated F visits w' else (Some err, w'))
              else remove_outdated F visits w)"

definition port_path :: "'w fs_env \<Rightarrow> nat \<Rightarrow> string" where
  "port_path F port = fe_cacheDir F @ ''/'' @ portFilePrefix @ itoa port"

definition portCache_add :: "'w unix_env \<Rightarrow> 'w fs_env \<Rightarrow> nat \<Rightarrow> 'w \<Rightarrow> (bool \<times> error option) \<times> 'w" where
  "portCache_add U F port w =
     (case remove_outdated F (fe_walk F w) w of
        (Some err, w') \<Rightarrow> ((False, Some err), w')
      | (None, w') \<Rightarrow>
          (case Acquire U (port_path F port) w' of
             (None, w'') \<Rightarrow> ((True, None), w'')
           | (Some err, w'') \<Rightarrow> ((False, if errors_Is err ErrAlreadyLocked then None else Some err), w'')))"

subsection \<open>Suggesting a port\<close>

text \<open>Listeners are numbered; \<open>ne_Listen\<close> returns the listener and its port.\<close>

record 'w net_env =
  ne_Resolve :: "string \<Rightarrow> string result"
  ne_Listen :: "string \<Rightarrow> 'w \<Rightarrow> (nat \<times> nat) result \<times> 'w"
  ne_Close :: "nat \<Rightarrow> 'w \<Rightarrow> 'w"

definition suggest :: "'w net_env \<Rightarrow> string \<Rightarrow> 'w \<Rightarrow> (nat \<times> nat \<times> string) result \<times> 'w" where
  "suggest N listenHost w =
     (let listenHost = (if listenHost = [] then ''localhost'' else listenHost)
      in case ne_Resolve N (JoinHostPort listenHost ''0'') of
           Inl err \<Rightarrow> (Inl err, w)
         | Inr ip \<Rightarrow>
             (case ne_Listen N ip w of
                (Inl err, w') \<Rightarrow> (Inl err, w')
              | (Inr (l, port), w') \<Rightarrow> (Inr (l, port, ip), w')))"

text \<open>
  The loop, with the attempts left and the listeners to close when the function returns, the
  last one first.
\<close>

definition close_all :: "'w net_env \<Rightarrow> nat list \<Rightarrow> 'w \<Rightarrow> 'w" where
  "close_all N listeners w = fold (ne_Close N) listeners w"

fun suggest_loop ::
  "'w unix_env \<Rightarrow> 'w fs_env \<Rightarrow> 'w net_env \<Rightarrow> string \<Rightarrow> nat \<Rightarrow> nat list \<Rightarrow> 'w \<Rightarrow> (nat \<times> string) result \<times> 'w" where
  "suggest_loop U F N host 0 listeners w =
     (Inl (Errorf ''no free ports found after %d retries'' [itoa portConflictRetry] []), close_all N listeners w)"
| "suggest_loop U F N host (Suc n) listeners w =
     (case suggest N host w of
        (Inl err, w') \<Rightarrow> (Inl err, close_all N listeners w')
      | (Inr (l, port, resolvedHost), w') \<Rightarrow>
          (case portCache_add U F port w' of
             ((ok, err), w'') \<Rightarrow>
               if ok then (Inr (port, resolvedHost), close_all N (l # listeners) w'')
               else (case err of
                       Some e \<Rightarrow> (Inl e, close_all N (l # listeners) w'')
                     | None \<Rightarrow> suggest_loop U F N host n (l # listeners) w'')))"

definition Suggest ::
  "'w unix_env \<Rightarrow> 'w fs_env \<Rightarrow> 'w net_env \<Rightarrow> string \<Rightarrow> 'w \<Rightarrow> (nat \<times> string) result \<times> 'w" where
  "Suggest U F N listenHost w = suggest_loop U F N listenHost portConflictRetry [] w"

subsection \<open>What the system promises\<close>

text \<open>
  \<open>held w\<close> are the open listeners with their ports and \<open>locked w\<close> the files some process
  holds a lock on. The kernel gives a port nobody listens on, files can be visited and
  removed, opening a file for locking creates it if needed, and the lock is refused exactly
  while another holder has it.
\<close>

definition net_ok :: "'w net_env \<Rightarrow> string \<Rightarrow> string \<Rightarrow> ('w \<Rightarrow> nat \<rightharpoonup> nat) \<Rightarrow> ('w \<Rightarrow> string set) \<Rightarrow> bool" where
  "net_ok N host ip held locked \<longleftrightarrow>
     ne_Resolve N (JoinHostPort (if host = [] then ''localhost'' else host) ''0'') = Inr ip \<and>
     (\<forall>w. \<exists>l port w'. ne_Listen N ip w = (Inr (l, port), w') \<and> held w l = None \<and> port \<notin> ran (held w) \<and>
        held w' = (held w)(l \<mapsto> port) \<and> locked w' = locked w) \<and>
     (\<forall>l w. held (ne_Close N l w) = (held w)(l := None) \<and> locked (ne_Close N l w) = locked w)"

definition files_ok :: "'w fs_env \<Rightarrow> ('w \<Rightarrow> nat \<rightharpoonup> nat) \<Rightarrow> ('w \<Rightarrow> string set) \<Rightarrow> bool" where
  "files_ok F held locked \<longleftrightarrow>
     (\<forall>w. list_all (\<lambda>(path, regular, err). err = None) (fe_walk F w)) \<and>
     (\<forall>path w e. fe_ModTime F path w = Inl e \<longrightarrow> fe_not_exist F e) \<and>
     (\<forall>path w e w'. fe_Remove F path w = (Some e, w') \<longrightarrow> fe_not_exist F e) \<and>
     (\<forall>path w r w'. fe_Remove F path w = (r, w') \<longrightarrow> held w' = held w \<and> locked w' \<subseteq> locked w)"

definition locks_ok :: "'w unix_env \<Rightarrow> ('w \<Rightarrow> nat \<rightharpoonup> nat) \<Rightarrow> ('w \<Rightarrow> string set) \<Rightarrow> bool" where
  "locks_ok U held locked \<longleftrightarrow> (\<forall>path w r w'. Acquire U path w = (r, w') \<longrightarrow> held w' = held w \<and>
     (if path \<in> locked w then (\<exists>e. r = Some e \<and> errors_Is e ErrAlreadyLocked) \<and> locked w' = locked w
      else r = None \<and> locked w' = insert path (locked w)))"

text \<open>
  The reservations in \<open>young\<close> are held by others and are not older than the reservation time in any
  state of the call; removing a file releases no lock but its own.
\<close>

definition young_ok :: "'w fs_env \<Rightarrow> ('w \<Rightarrow> string set) \<Rightarrow> string set \<Rightarrow> bool" where
  "young_ok F locked young \<longleftrightarrow>
     (\<forall>path w t. path_Join [fe_cacheDir F, path] \<in> young \<longrightarrow> fe_ModTime F path w = Inr t \<longrightarrow>
        fe_now F w - t \<le> portReserveTime) \<and>
     (\<forall>path w r w'. fe_Remove F path w = (r, w') \<longrightarrow> locked w - {path} \<subseteq> locked w')"

definition addr_ok ::
  "'w unix_env \<Rightarrow> 'w fs_env \<Rightarrow> 'w net_env \<Rightarrow> string \<Rightarrow> string \<Rightarrow> ('w \<Rightarrow> nat \<rightharpoonup> nat) \<Rightarrow> ('w \<Rightarrow> string set) \<Rightarrow> bool" where
  "addr_ok U F N host ip held locked \<longleftrightarrow> net_ok N host ip held locked \<and> files_ok F held locked \<and> locks_ok U held locked"

lemma net_okD:
  assumes "net_ok N host ip held locked"
  shows "\<exists>l port w'. suggest N host w = (Inr (l, port, ip), w') \<and> held w l = None \<and> port \<notin> ran (held w) \<and>
        held w' = (held w)(l \<mapsto> port) \<and> locked w' = locked w"
    and "held (ne_Close N k v) = (held v)(k := None)" and "locked (ne_Close N k v) = locked v"
proof -
  obtain l port w' where l: "ne_Listen N ip w = (Inr (l, port), w')" "held w l = None" "port \<notin> ran (held w)"
    "held w' = (held w)(l \<mapsto> port)" "locked w' = locked w" using assms by (fastforce simp: net_ok_def)
  have "ne_Resolve N (JoinHostPort (if host = [] then ''localhost'' else host) ''0'') = Inr ip"
    using assms by (simp only: net_ok_def)
  with l show "\<exists>l port w'. suggest N host w = (Inr (l, port, ip), w') \<and> held w l = None \<and> port \<notin> ran (held w) \<and>
        held w' = (held w)(l \<mapsto> port) \<and> locked w' = locked w"
    by (simp add: suggest_def Let_def)
qed (use assms in \<open>simp_all add: net_ok_def\<close>)

lemma files_okD:
  assumes "files_ok F held locked"
  shows "list_all (\<lambda>(path, regular, err). err = None) (fe_walk F w)"
    and "fe_ModTime F path w = Inl e \<Longrightarrow> fe_not_exist F e"
    and "fe_Remove F path w = (r, w') \<Longrightarrow> held w' = held w \<and> locked w' \<subseteq> locked w"
    and "fe_Remove F path w = (Some e, w') \<Longrightarrow> fe_not_exist F e"
  using assms unfolding files_ok_def by blast+

lemma locks_okD:
  assumes "locks_ok U held locked" and "Acquire U path w = (r, w')"
  shows "held w' = held w"
    and "path \<in> locked w \<Longrightarrow> \<exists>e. r = Some e \<and> errors_Is e ErrAlreadyLocked" and "path \<in> locked w \<Longrightarrow> locked w' = locked w"
    and "path \<notin> locked w \<Longrightarrow> r = None" and "path \<notin> locked w \<Longrightarrow> locked w' = insert path (locked w)"
  using assms(1) [unfolded locks_ok_def, rule_format, OF assms(2)] by simp_all

lemma addr_okD:
  assumes "addr_ok U F N host ip held locked"
  shows "net_ok N host ip held locked" and "files_ok F held locked" and "locks_ok U held locked"
  using assms by (simp_all add: addr_ok_def)

lemma port_path_inject [simp]: "port_path F p = port_path F q \<longleftrightarrow> p = q"
  by (simp add: port_path_def)

subsection \<open>Removing outdated reservations\<close>

lemma remove_outdated_fine:
  assumes ok: "files_ok F held locked" and "list_all (\<lambda>(path, regular, err). err = None) visits"
  shows "\<exists>w'. remove_outdated F visits w = (None, w') \<and> held w' = held w \<and> locked w' \<subseteq> locked w"
  using assms(2)
proof (induction visits arbitrary: w)
  case (Cons v visits)
  obtain path regular err where v: "v = (path, regular, err)" by (cases v)
  have IH: "\<exists>w'. remove_outdated F visits u = (None, w') \<and> held w' = held u \<and> locked w' \<subseteq> locked u" for u
    using Cons by simp
  show ?case
  proof (cases "\<not> regular \<or> \<not> has_prefix path portFilePrefix")
    case True
    then show ?thesis using Cons.prems IH v by simp
  next
    case False
    show ?thesis
    proof (cases "fe_ModTime F path w")
      case (Inl e)
      then show ?thesis using False Cons.prems IH v files_okD(2) [OF ok Inl] by simp
    next
      case (Inr t)
      obtain r u where rm: "fe_Remove F (path_Join [fe_cacheDir F, path]) w = (r, u)"
        by (cases "fe_Remove F (path_Join [fe_cacheDir F, path]) w")
      have gone: "held u = held w" "locked u \<subseteq> locked w" using files_okD(3) [OF ok rm] by simp_all
      have "r = Some e \<Longrightarrow> fe_not_exist F e" for e using files_okD(4) [OF ok] rm by blast
      then show ?thesis using False Cons.prems IH [of u] IH [of w] v Inr rm gone
        by (cases r) auto
    qed
  qed
qed simp

lemma remove_outdated_young:
  assumes "young_ok F locked young" and "remove_outdated F visits w = (r, w')" and "young \<subseteq> locked w"
  shows "young \<subseteq> locked w'"
  using assms(2,3)
proof (induction visits arbitrary: w)
  case (Cons v visits)
  obtain path regular err where v: "v = (path, regular, err)" by (cases v)
  let ?file = "path_Join [fe_cacheDir F, path]"
  have old: "?file \<notin> young" if "fe_ModTime F path w = Inr t" "fe_now F w - t > portReserveTime" for t
  proof
    assume "?file \<in> young"
    then have "fe_now F w - t \<le> portReserveTime" using assms(1) that(1) unfolding young_ok_def by blast
    then show False using that(2) by simp
  qed
  have kept: "young \<subseteq> locked u" if "fe_Remove F ?file w = (q, u)" "?file \<notin> young" for q u
  proof -
    have "locked w - {?file} \<subseteq> locked u" using assms(1) that(1) unfolding young_ok_def by blast
    then show ?thesis using that(2) Cons.prems(2) by blast
  qed
  show ?case
    using Cons v old kept by (auto split: option.splits if_splits sum.splits prod.splits)
qed simp

lemma portCache_add_fine:
  assumes ok: "addr_ok U F N host ip held locked" and y: "young_ok F locked young" "young \<subseteq> locked w"
  obtains w' where "portCache_add U F port w = ((True, None), w')" "held w' = held w"
      "locked w' \<subseteq> insert (port_path F port) (locked w)" "port_path F port \<in> locked w'" "port_path F port \<notin> young"
    | w' where "portCache_add U F port w = ((False, None), w')" "held w' = held w"
      "locked w' \<subseteq> locked w" "port_path F port \<in> locked w'" "young \<subseteq> locked w'"
proof -
  obtain u where u: "remove_outdated F (fe_walk F w) w = (None, u)" "held u = held w" "locked u \<subseteq> locked w"
    using remove_outdated_fine [OF addr_okD(2) [OF ok] files_okD(1) [OF addr_okD(2) [OF ok]]] by blast
  have yu: "young \<subseteq> locked u" by (rule remove_outdated_young [OF y(1) u(1) y(2)])
  obtain r v where acq: "Acquire U (port_path F port) u = (r, v)" by (cases "Acquire U (port_path F port) u")
  note a = locks_okD [OF addr_okD(3) [OF ok] acq]
  show ?thesis
  proof (cases "port_path F port \<in> locked u")
    case True
    then obtain e where "r = Some e" "errors_Is e ErrAlreadyLocked" "locked v = locked u" "held v = held u"
      using a by auto
    then show ?thesis using True u yu acq that(2) [of v] by (simp add: portCache_add_def)
  next
    case False
    then have "r = None" "locked v = insert (port_path F port) (locked u)" "held v = held u" using a by blast+
    then show ?thesis using u yu False acq that(1) [of v] by (auto simp: portCache_add_def)
  qed
qed

lemma close_all_fine:
  assumes "addr_ok U F N host ip held locked"
  shows "held (close_all N ls w) = (\<lambda>l. if l \<in> set ls then None else held w l)"
    and "locked (close_all N ls w) = locked w"
proof -
  have "held (fold (ne_Close N) ls w) = (\<lambda>l. if l \<in> set ls then None else held w l) \<and>
      locked (fold (ne_Close N) ls w) = locked w"
    by (induction ls arbitrary: w) (auto simp: net_okD(2,3) [OF addr_okD(1) [OF assms]])
  then show "held (close_all N ls w) = (\<lambda>l. if l \<in> set ls then None else held w l)"
    and "locked (close_all N ls w) = locked w" by (simp_all add: close_all_def)
qed

subsection \<open>A port is found\<close>

text \<open>
  The loop's invariant: the listeners opened so far hold different ports, all refused, so
  their lock files were held from the start; and nothing else changed.
\<close>

definition busy :: "'w fs_env \<Rightarrow> ('w \<Rightarrow> string set) \<Rightarrow> 'w \<Rightarrow> nat set" where
  "busy F locked w = {port. port_path F port \<in> locked w}"

lemma suggest_loop_fine:
  assumes ok: "addr_ok U F N host ip held locked" and y: "young_ok F locked young" and kept: "young \<subseteq> locked w"
    and base: "held w = (\<lambda>l. if l \<in> set ls then map_of (zip ls ps) l else held0 l)" "\<forall>l \<in> set ls. held0 l = None"
    and ports: "length ps = length ls" "distinct ls" "distinct ps" "set ps \<subseteq> B" "finite B" "busy F locked w \<subseteq> B"
    and fuel: "card B < length ls + n"
  shows "\<exists>port w'. suggest_loop U F N host n ls w = (Inr (port, ip), w') \<and> held w' = held0 \<and>
    port_path F port \<in> locked w' \<and> port \<notin> ran held0 \<and> port_path F port \<notin> young"
  using kept base ports fuel
proof (induction n arbitrary: ls ps w)
  case 0
  have "card (set ps) \<le> card B" using 0 by (intro card_mono)
  then show ?case using 0 by (simp add: distinct_card)
next
  case (Suc n)
  obtain l port w1 where s: "suggest N host w = (Inr (l, port, ip), w1)" "held w l = None" "port \<notin> ran (held w)"
    "held w1 = (held w)(l \<mapsto> port)" "locked w1 = locked w" using net_okD(1) [OF addr_okD(1) [OF ok]] by blast
  have held_ls: "held w k = Some (ps ! i)" if "i < length ls" "k = ls ! i" for i k
    using that Suc.prems(2,4,5) by (simp add: map_of_zip_nth)
  have l: "l \<notin> set ls" using held_ls s(2) by (metis in_set_conv_nth option.distinct(1))
  have "port \<notin> set ps" using held_ls s(3) Suc.prems(4) by (metis in_set_conv_nth ranI)
  have "held0 l = None" using s(2) l Suc.prems(2) by simp
  have "ran held0 \<subseteq> ran (held w)"
  proof
    fix q assume "q \<in> ran held0"
    then obtain k where "held0 k = Some q" by (auto simp: ran_def)
    moreover from this have "k \<notin> set ls" using Suc.prems(3) by auto
    ultimately show "q \<in> ran (held w)" using Suc.prems(2) by (auto simp: ran_def)
  qed
  then have free: "port \<notin> ran held0" using s(3) by blast
  have closing: "(\<lambda>k. if k \<in> set (l # ls) then None else held w1 k) = held0"
    using Suc.prems(2,3) \<open>held0 l = None\<close> s(4) by (auto simp: fun_eq_iff)
  have "young \<subseteq> locked w1" using Suc.prems(1) s(5) by simp
  then show ?case
  proof (rule portCache_add_fine [OF ok y, of w1 port])
    fix w2 assume w2: "portCache_add U F port w1 = ((True, None), w2)" "held w2 = held w1"
      "port_path F port \<in> locked w2" "port_path F port \<notin> young"
    have "held (close_all N (l # ls) w2) = held0" unfolding close_all_fine(1) [OF ok] w2(2) by (rule closing)
    then show ?thesis using s(1) w2(1,3,4) close_all_fine(2) [OF ok] free by simp
  next
    fix w2 assume w2: "portCache_add U F port w1 = ((False, None), w2)" "held w2 = held w1"
      "locked w2 \<subseteq> locked w1" "port_path F port \<in> locked w2" "young \<subseteq> locked w2"
    have "port \<in> B" using w2(3,4) s(5) Suc.prems(9) by (auto simp: busy_def)
    have "busy F locked w2 \<subseteq> B" using w2(3) s(5) Suc.prems(9) by (auto simp: busy_def)
    have "\<exists>port w'. suggest_loop U F N host n (l # ls) w2 = (Inr (port, ip), w') \<and> held w' = held0 \<and>
        port_path F port \<in> locked w' \<and> port \<notin> ran held0 \<and> port_path F port \<notin> young"
    proof (rule Suc.IH [of w2 "l # ls" "port # ps"])
      show "held w2 = (\<lambda>k. if k \<in> set (l # ls) then map_of (zip (l # ls) (port # ps)) k else held0 k)"
        unfolding w2(2) s(4) Suc.prems(2) using l by (auto simp: fun_eq_iff)
    qed (use Suc.prems l \<open>port \<notin> set ps\<close> \<open>port \<in> B\<close> \<open>held0 l = None\<close> \<open>busy F locked w2 \<subseteq> B\<close> w2(5) in simp_all)
    then show ?thesis using s(1) w2(1) by simp
  qed
qed

text \<open>
  Property C38. Suggesting a port ends with one as long as fewer than a hundred ports are
  reserved: every refused candidate stays listened on until the end, so the kernel never
  offers it again and the hundred attempts suffice. Nobody listened on the port, it is not one of
  the \<open>young\<close> ports that others reserved within the reservation time, its reservation is held
  afterwards, and every listener opened on the way is closed. (A reservation older than that is
  removed, and its port may be suggested.)
\<close>

theorem suggest_finds_port:
  assumes "addr_ok U F N host ip held locked" and "young_ok F locked young" and "young \<subseteq> locked w"
    and "finite (busy F locked w)" and "card (busy F locked w) < portConflictRetry"
  shows "\<exists>port w'. Suggest U F N host w = (Inr (port, ip), w') \<and> held w' = held w \<and>
    port_path F port \<in> locked w' \<and> port \<notin> ran (held w) \<and> port_path F port \<notin> young"
  unfolding Suggest_def
  using suggest_loop_fine [OF assms(1-3), of "[]" "[]" "held w" "busy F locked w" portConflictRetry] assms(4,5) by simp

subsection \<open>Witness\<close>

text \<open>A system that remembers its listeners, the locked files and the last file opened.\<close>

record demo_sys =
  ds_held :: "(nat \<times> nat) list"
  ds_locked :: "string list"
  ds_opened :: string

definition demo_unix :: "demo_sys unix_env" where
  "demo_unix = \<lparr> ux_Open = (\<lambda>path w. (Inr 3, w\<lparr> ds_opened := path \<rparr>)),
     ux_Flock = (\<lambda>fd w. if ds_opened w \<in> set (ds_locked w) then (Some (Foreign ''EWOULDBLOCK''), w)
                        else (None, w\<lparr> ds_locked := ds_opened w # ds_locked w \<rparr>)),
     ux_is_exist = (\<lambda>_. False), ux_is_wouldblock = (\<lambda>e. e = Foreign ''EWOULDBLOCK'') \<rparr>"

definition demo_files :: "demo_sys fs_env" where
  "demo_files = \<lparr> fe_cacheDir = ''/c'', fe_walk = (\<lambda>w. [(''.'', False, None), (''port-1'', True, None)]),
     fe_ModTime = (\<lambda>_ _. Inr 0), fe_now = (\<lambda>_. 1000), fe_Remove = (\<lambda>_ w. (None, w)), fe_not_exist = (\<lambda>_. True) \<rparr>"

definition demo_net :: "demo_sys net_env" where
  "demo_net = \<lparr> ne_Resolve = (\<lambda>_. Inr ''127.0.0.1''),
     ne_Listen = (\<lambda>_ w. let l = Suc (sum_list (map fst (ds_held w))); port = Suc (sum_list (map snd (ds_held w)))
                        in (Inr (l, port), w\<lparr> ds_held := (l, port) # ds_held w \<rparr>)),
     ne_Close = (\<lambda>l w. w\<lparr> ds_held := filter (\<lambda>(k, _). k \<noteq> l) (ds_held w) \<rparr>) \<rparr>"

lemma fresh_sum: "x \<in> set xs \<Longrightarrow> x < Suc (sum_list xs)" for x :: nat
  using member_le_sum_list [of x xs] by simp

lemma ran_map_of_subset: "ran (map_of xs) \<subseteq> snd ` set xs"
  by (auto simp: ran_def dest!: map_of_SomeD) force

lemma map_of_filter_fst: "map_of (filter (\<lambda>(k, _). k \<noteq> l) xs) = (map_of xs)(l := None)"
  by (induction xs) auto

lemma demo_addr_ok:
  "addr_ok demo_unix demo_files demo_net [] ''127.0.0.1'' (\<lambda>w. map_of (ds_held w)) (\<lambda>w. set (ds_locked w))"
  unfolding addr_ok_def
proof (intro conjI)
  have "map_of xs (Suc (sum_list (map fst xs))) = None" for xs :: "(nat \<times> nat) list"
    using fresh_sum [of _ "map fst xs"] by (metis less_irrefl map_of_eq_None_iff list.set_map)
  moreover have "Suc (sum_list (map snd xs)) \<notin> ran (map_of xs)" for xs :: "(nat \<times> nat) list"
    using fresh_sum [of _ "map snd xs"] ran_map_of_subset [of xs] by (metis less_irrefl list.set_map subsetD)
  ultimately show "net_ok demo_net [] ''127.0.0.1'' (\<lambda>w. map_of (ds_held w)) (\<lambda>w. set (ds_locked w))"
    by (simp add: net_ok_def demo_net_def Let_def map_of_filter_fst)
  show "files_ok demo_files (\<lambda>w. map_of (ds_held w)) (\<lambda>w. set (ds_locked w))"
    by (simp add: files_ok_def demo_files_def)
  show "locks_ok demo_unix (\<lambda>w. map_of (ds_held w)) (\<lambda>w. set (ds_locked w))"
    by (auto simp: locks_ok_def Acquire_def demo_unix_def ErrAlreadyLocked_def split: if_splits)
qed

definition demo_sys0 :: demo_sys where
  "demo_sys0 = \<lparr> ds_held = [], ds_locked = [''/c/port-1''], ds_opened = [] \<rparr>"

lemma demo_busy: "busy demo_files (\<lambda>w. set (ds_locked w)) demo_sys0 = {1}"
proof -
  have "itoa 1 = ''1''" by code_simp
  then have "port_path demo_files 1 = ''/c/port-1''"
    by (simp add: port_path_def demo_files_def portFilePrefix_def)
  then have "busy demo_files (\<lambda>w. set (ds_locked w)) demo_sys0 = {p. port_path demo_files p = port_path demo_files 1}"
    by (simp add: busy_def demo_sys0_def)
  then show ?thesis by simp
qed

theorem suggest_finds_port_witness:
  "\<exists>port w. Suggest demo_unix demo_files demo_net [] demo_sys0 = (Inr (port, ''127.0.0.1''), w) \<and>
     map_of (ds_held w) = Map.empty \<and> port_path demo_files port \<in> set (ds_locked w) \<and> port_path demo_files port \<noteq> ''/c/port-1''"
proof -
  have young: "young_ok demo_files (\<lambda>w. set (ds_locked w)) {''/c/port-1''}" "{''/c/port-1''} \<subseteq> set (ds_locked demo_sys0)"
    by (auto simp: young_ok_def demo_files_def portReserveTime_def demo_sys0_def)
  show ?thesis
    using suggest_finds_port [OF demo_addr_ok young] unfolding demo_busy
    by (simp add: portConflictRetry_def) (simp add: demo_sys0_def)
qed

end
