(* ===== verification/TinyCA.thy ===== *)
theory TinyCA
  imports Prelude
begin

text \<open>
  \<^verbatim>\<open>envtest/internal/certs/tinyca.go\<close>: the certificate authority of the test servers.
  Keys \<open>'k\<close>, certificates \<open>'c\<close> and encodings \<open>'b\<close> belong to the crypto packages, whose
  functions are a record over the state \<open>'w\<close> (random numbers, the clock, name resolution)
  they use; \<open>'ip\<close> are parsed IP addresses. Times are in hours.
\<close>

datatype ext_key_usage = ServerAuth | ClientAuth

datatype key_usage = KeyEncipherment | DigitalSignature

record 'ip cert_config =
  cc_CommonName :: string
  cc_Organization :: "string list"
  cc_DNSNames :: "string list"
  cc_IPs :: "'ip list"
  cc_Usages :: "ext_key_usage list"

record 'ip cert_template =
  ct_CommonName :: string
  ct_Organization :: "string list"
  ct_DNSNames :: "string list"
  ct_IPAddresses :: "'ip list"
  ct_SerialNumber :: int
  ct_KeyUsage :: "key_usage list"
  ct_ExtKeyUsage :: "ext_key_usage list"
  ct_NotBefore :: nat
  ct_NotAfter :: nat

record ('k, 'c, 'b, 'ip, 'w) crypto_env =
  cy_GenerateKey :: "'w \<Rightarrow> 'k result \<times> 'w"
  cy_NewSelfSignedCACert :: "string \<Rightarrow> string list \<Rightarrow> 'k \<Rightarrow> 'w \<Rightarrow> 'c result \<times> 'w"
  cy_now :: "'w \<Rightarrow> nat"
  cy_CreateCertificate :: "'ip cert_template \<Rightarrow> 'c \<Rightarrow> 'k \<Rightarrow> 'k \<Rightarrow> 'w \<Rightarrow> 'b result \<times> 'w"
  cy_ParseCertificate :: "'b \<Rightarrow> 'c result"
  cy_Raw :: "'c \<Rightarrow> 'b"
  cy_MarshalPKCS8 :: "'k \<Rightarrow> 'b result"
  cy_EncodePEM :: "string \<Rightarrow> 'b \<Rightarrow> string"
  cy_ParseIP :: "string \<Rightarrow> 'ip option"
  cy_LookupHost :: "string \<Rightarrow> 'w \<Rightarrow> string list result"

subsection \<open>Pairs of key and certificate\<close>

record ('k, 'c) cert_pair =
  cp_Key :: 'k
  cp_Cert :: 'c

definition CertBytes :: "('k, 'c, 'b, 'ip, 'w) crypto_env \<Rightarrow> ('k, 'c) cert_pair \<Rightarrow> string" where
  "CertBytes Y k = cy_EncodePEM Y ''CERTIFICATE'' (cy_Raw Y (cp_Cert k))"

definition AsBytes :: "('k, 'c, 'b, 'ip, 'w) crypto_env \<Rightarrow> ('k, 'c) cert_pair \<Rightarrow> (string \<times> string) result" where
  "AsBytes Y k =
     (case cy_MarshalPKCS8 Y (cp_Key k) of
        Inl err \<Rightarrow> Inl (Errorf ''unable to encode private key: %w'' [] [err])
      | Inr rawKeyData \<Rightarrow> Inr (CertBytes Y k, cy_EncodePEM Y ''PRIVATE KEY'' rawKeyData))"

subsection \<open>The authority\<close>

record ('k, 'c) tiny_ca =
  ca_CA :: "('k, 'c) cert_pair"
  ca_orgName :: string
  ca_nextSerial :: int

definition NewTinyCA :: "('k, 'c, 'b, 'ip, 'w) crypto_env \<Rightarrow> 'w \<Rightarrow> ('k, 'c) tiny_ca result \<times> 'w" where
  "NewTinyCA Y w =
     (case cy_GenerateKey Y w of
        (Inl err, w') \<Rightarrow> (Inl (Errorf ''unable to generate private key for CA: %w'' [] [err]), w')
      | (Inr key, w') \<Rightarrow>
          (case cy_NewSelfSignedCACert Y ''envtest-environment'' [''envtest''] key w' of
             (Inl err, w'') \<Rightarrow> (Inl (Errorf ''unable to generate certificate for CA: %w'' [] [err]), w'')
           | (Inr cert, w'') \<Rightarrow>
               (Inr \<lparr> ca_CA = \<lparr> cp_Key = key, cp_Cert = cert \<rparr>, ca_orgName = ''envtest'', ca_nextSerial = 1 \<rparr>, w'')))"

definition cert_template_of :: "'ip cert_config \<Rightarrow> int \<Rightarrow> nat \<Rightarrow> 'ip cert_template" where
  "cert_template_of cfg serial now = \<lparr> ct_CommonName = cc_CommonName cfg, ct_Organization = cc_Organization cfg,
     ct_DNSNames = cc_DNSNames cfg, ct_IPAddresses = cc_IPs cfg, ct_SerialNumber = serial,
     ct_KeyUsage = [KeyEncipherment, DigitalSignature], ct_ExtKeyUsage = cc_Usages cfg,
     ct_NotBefore = now, ct_NotAfter = now + 168 \<rparr>"

text \<open>The serial number is taken before the certificate is made, so a failure uses it up.\<close>

definition makeCert ::
  "('k, 'c, 'b, 'ip, 'w) crypto_env \<Rightarrow> 'ip cert_config \<Rightarrow> ('k, 'c) tiny_ca \<Rightarrow> 'w
     \<Rightarrow> ('k, 'c) cert_pair result \<times> ('k, 'c) tiny_ca \<times> 'w" where
  "makeCert Y cfg c w =
     (let now = cy_now Y w
      in case cy_GenerateKey Y w of
           (Inl err, w') \<Rightarrow> (Inl (Errorf ''unable to create private key: %w'' [] [err]), c, w')
         | (Inr key, w') \<Rightarrow>
             let serial = ca_nextSerial c;
                 c = c\<lparr> ca_nextSerial := ca_nextSerial c + 1 \<rparr>
             in case cy_CreateCertificate Y (cert_template_of cfg serial now) (cp_Cert (ca_CA c)) key
                       (cp_Key (ca_CA c)) w' of
                  (Inl err, w'') \<Rightarrow> (Inl (Errorf ''unable to create certificate: %w'' [] [err]), c, w'')
                | (Inr certRaw, w'') \<Rightarrow>
                    (case cy_ParseCertificate Y certRaw of
                       Inl err \<Rightarrow> (Inl (Errorf ''generated invalid certificate, could not parse: %w'' [] [err]), c, w'')
                     | Inr cert \<Rightarrow> (Inr \<lparr> cp_Key = key, cp_Cert = cert \<rparr>, c, w'')))"

fun resolve_loop ::
  "('k, 'c, 'b, 'ip, 'w) crypto_env \<Rightarrow> 'w \<Rightarrow> string list \<Rightarrow> string list \<Rightarrow> 'ip list \<Rightarrow> (string list \<times> 'ip list) result" where
  "resolve_loop Y w [] dnsNames ips = Inr (dnsNames, ips)"
| "resolve_loop Y w (name # names) dnsNames ips =
     (if name = [] then resolve_loop Y w names dnsNames ips
      else case cy_ParseIP Y name of
        Some ip \<Rightarrow> resolve_loop Y w names dnsNames (ips @ [ip])
      | None \<Rightarrow>
          (case cy_LookupHost Y name w of
             Inl err \<Rightarrow> Inl err
           | Inr nameIPs \<Rightarrow>
               resolve_loop Y w names (dnsNames @ [name]) (ips @ List.map_filter (cy_ParseIP Y) nameIPs)))"

definition resolveNames ::
  "('k, 'c, 'b, 'ip, 'w) crypto_env \<Rightarrow> 'w \<Rightarrow> string list \<Rightarrow> (string list \<times> 'ip list) result" where
  "resolveNames Y w names = resolve_loop Y w names [] []"

definition NewServingCert ::
  "('k, 'c, 'b, 'ip, 'w) crypto_env \<Rightarrow> string list \<Rightarrow> ('k, 'c) tiny_ca \<Rightarrow> 'w
     \<Rightarrow> ('k, 'c) cert_pair result \<times> ('k, 'c) tiny_ca \<times> 'w" where
  "NewServingCert Y names0 c w =
     (let names = (if names0 = [] then [''localhost''] else names0)
      in case resolveNames Y w names of
           Inl err \<Rightarrow> (Inl err, c, w)
         | Inr (dnsNames, ips) \<Rightarrow>
             makeCert Y \<lparr> cc_CommonName = ''localhost'', cc_Organization = [ca_orgName c], cc_DNSNames = dnsNames,
               cc_IPs = ips, cc_Usages = [ServerAuth] \<rparr> c w)"

record client_info =
  ci_Name :: string
  ci_Groups :: "string list"

definition NewClientCert ::
  "('k, 'c, 'b, 'ip, 'w) crypto_env \<Rightarrow> client_info \<Rightarrow> ('k, 'c) tiny_ca \<Rightarrow> 'w
     \<Rightarrow> ('k, 'c) cert_pair result \<times> ('k, 'c) tiny_ca \<times> 'w" where
  "NewClientCert Y user c w =
     makeCert Y \<lparr> cc_CommonName = ci_Name user, cc_Organization = ci_Groups user, cc_DNSNames = [], cc_IPs = [],
       cc_Usages = [ClientAuth] \<rparr> c w"

subsection \<open>Names of a serving certificate\<close>

text \<open>
  The names that are no addresses, in order, and the addresses given or found for them. A
  lookup that fails is the only error.
\<close>

definition is_dns_name :: "('k, 'c, 'b, 'ip, 'w) crypto_env \<Rightarrow> string \<Rightarrow> bool" where
  "is_dns_name Y name \<longleftrightarrow> name \<noteq> [] \<and> cy_ParseIP Y name = None"

definition name_ips :: "('k, 'c, 'b, 'ip, 'w) crypto_env \<Rightarrow> 'w \<Rightarrow> string \<Rightarrow> 'ip list" where
  "name_ips Y w name =
     (if name = [] then [] else case cy_ParseIP Y name of
        Some ip \<Rightarrow> [ip]
      | None \<Rightarrow> (case cy_LookupHost Y name w of Inl _ \<Rightarrow> [] | Inr ns \<Rightarrow> List.map_filter (cy_ParseIP Y) ns))"

lemma resolve_loop_eq:
  "resolve_loop Y w names ds ips = Inr r \<Longrightarrow>
     r = (ds @ filter (is_dns_name Y) names, ips @ concat (map (name_ips Y w) names))"
proof (induction names arbitrary: ds ips)
  case (Cons name names)
  have here: "\<not> is_dns_name Y [] \<and> name_ips Y w [] = []"
    "name \<noteq> [] \<Longrightarrow> cy_ParseIP Y name = Some ip \<Longrightarrow> \<not> is_dns_name Y name \<and> name_ips Y w name = [ip]"
    "name \<noteq> [] \<Longrightarrow> cy_ParseIP Y name = None \<Longrightarrow> cy_LookupHost Y name w = Inr ns \<Longrightarrow>
       is_dns_name Y name \<and> name_ips Y w name = List.map_filter (cy_ParseIP Y) ns" for ip ns
    by (simp_all add: is_dns_name_def name_ips_def)
  show ?case
    using Cons.prems by (auto simp: here split: if_splits option.splits sum.splits dest!: Cons.IH)
qed simp

lemma resolveNames_eq:
  "resolveNames Y w names = Inr r \<Longrightarrow> r = (filter (is_dns_name Y) names, concat (map (name_ips Y w) names))"
  unfolding resolveNames_def by (drule resolve_loop_eq) simp

subsection \<open>Serial numbers\<close>

datatype cert_request = Serving "string list" | Client client_info

fun issue ::
  "('k, 'c, 'b, 'ip, 'w) crypto_env \<Rightarrow> cert_request \<Rightarrow> ('k, 'c) tiny_ca \<Rightarrow> 'w
     \<Rightarrow> ('k, 'c) cert_pair result \<times> ('k, 'c) tiny_ca \<times> 'w" where
  "issue Y (Serving names) c w = NewServingCert Y names c w"
| "issue Y (Client user) c w = NewClientCert Y user c w"

text \<open>The certificates one authority issues for a sequence of requests.\<close>

fun issue_all ::
  "('k, 'c, 'b, 'ip, 'w) crypto_env \<Rightarrow> cert_request list \<Rightarrow> ('k, 'c) tiny_ca \<Rightarrow> 'w \<Rightarrow> ('k, 'c) cert_pair list" where
  "issue_all Y [] c w = []"
| "issue_all Y (r # rs) c w =
     (case issue Y r c w of
        (Inl _, c', w') \<Rightarrow> issue_all Y rs c' w'
      | (Inr p, c', w') \<Rightarrow> p # issue_all Y rs c' w')"

text \<open>
  The documented behaviour of \<open>x509\<close>: a created certificate parses to one with the serial
  number of the template, signed by the parent's key.
\<close>

definition x509_ok ::
  "('k, 'c, 'b, 'ip, 'w) crypto_env \<Rightarrow> ('c \<Rightarrow> int) \<Rightarrow> ('c \<Rightarrow> 'k \<Rightarrow> bool) \<Rightarrow> bool" where
  "x509_ok Y serial signed_by \<longleftrightarrow> (\<forall>t parent pub priv w raw w' cert.
     cy_CreateCertificate Y t parent pub priv w = (Inr raw, w') \<longrightarrow> cy_ParseCertificate Y raw = Inr cert \<longrightarrow>
       serial cert = ct_SerialNumber t \<and> signed_by cert priv)"

lemma makeCert_serial:
  assumes "x509_ok Y serial signed_by" and "makeCert Y cfg c w = (r, c', w')"
  shows "ca_CA c' = ca_CA c" and "ca_nextSerial c \<le> ca_nextSerial c'"
    and "r = Inr p \<Longrightarrow> serial (cp_Cert p) = ca_nextSerial c"
    and "r = Inr p \<Longrightarrow> ca_nextSerial c' = ca_nextSerial c + 1"
    and "r = Inr p \<Longrightarrow> signed_by (cp_Cert p) (cp_Key (ca_CA c))"
  using assms(2) assms(1) [unfolded x509_ok_def, rule_format]
  by (auto simp: makeCert_def cert_template_of_def Let_def split: prod.splits sum.splits)

lemma issue_serial:
  assumes "x509_ok Y serial signed_by" and "issue Y req c w = (r, c', w')"
  shows "ca_CA c' = ca_CA c" and "ca_nextSerial c \<le> ca_nextSerial c'"
    and "r = Inr p \<Longrightarrow> serial (cp_Cert p) = ca_nextSerial c"
    and "r = Inr p \<Longrightarrow> ca_nextSerial c' = ca_nextSerial c + 1"
    and "r = Inr p \<Longrightarrow> signed_by (cp_Cert p) (cp_Key (ca_CA c))"
  using assms(2) makeCert_serial [OF assms(1)]
  by (cases req; auto simp: NewServingCert_def NewClientCert_def Let_def split: sum.splits prod.splits)+

lemma issue_all_serials:
  assumes "x509_ok Y serial signed_by"
  shows "sorted_wrt (<) (map (serial \<circ> cp_Cert) (issue_all Y reqs c w)) \<and>
    (\<forall>p \<in> set (issue_all Y reqs c w). ca_nextSerial c \<le> serial (cp_Cert p) \<and> signed_by (cp_Cert p) (cp_Key (ca_CA c)))"
proof (induction reqs arbitrary: c w)
  case (Cons req reqs)
  obtain r c' w' where i: "issue Y req c w = (r, c', w')" by (cases "issue Y req c w")
  note s = issue_serial [OF assms i]
  show ?case
  proof (cases r)
    case (Inl err)
    then show ?thesis using Cons.IH [of c' w'] i s(1,2) by force
  next
    case (Inr p)
    then show ?thesis using Cons.IH [of c' w'] i s(1,2) s(3-5) [OF Inr] by force
  qed
qed simp

text \<open>
  Property C39. The certificates a new authority issues, to servers and clients alike, have
  strictly increasing positive serial numbers, also when requests in between fail, and all
  are signed by the authority's key.
\<close>

theorem serial_numbers_unique:
  assumes "x509_ok Y serial signed_by" and "NewTinyCA Y w0 = (Inr ca, w1)"
  shows "sorted_wrt (<) (map (serial \<circ> cp_Cert) (issue_all Y reqs ca w)) \<and>
    list_all (\<lambda>p. 0 < serial (cp_Cert p) \<and> signed_by (cp_Cert p) (cp_Key (ca_CA ca))) (issue_all Y reqs ca w)"
proof -
  have "ca_nextSerial ca = 1" using assms(2) by (auto simp: NewTinyCA_def split: prod.splits sum.splits)
  then show ?thesis using issue_all_serials [OF assms(1), of reqs ca w] by (force simp: list_all_iff)
qed

subsection \<open>Witness\<close>

text \<open>Certificates are their serial number and the key that signed them; every third key fails.\<close>

definition demo_crypto :: "(nat, int \<times> nat, int \<times> nat, nat, nat) crypto_env" where
  "demo_crypto = \<lparr> cy_GenerateKey = (\<lambda>w. (if w mod 3 = 2 then Inl (Foreign ''no entropy'') else Inr w, w + 1)),
     cy_NewSelfSignedCACert = (\<lambda>_ _ k w. (Inr (0, k), w)), cy_now = (\<lambda>w. w),
     cy_CreateCertificate = (\<lambda>t _ _ priv w. (Inr (ct_SerialNumber t, priv), w)), cy_ParseCertificate = Inr,
     cy_Raw = (\<lambda>c. c), cy_MarshalPKCS8 = (\<lambda>k. Inr (0, k)), cy_EncodePEM = (\<lambda>t _. t),
     cy_ParseIP = (\<lambda>s. if s = ''127.0.0.1'' then Some 0 else None), cy_LookupHost = (\<lambda>_ _. Inr [''127.0.0.1'']) \<rparr>"

definition demo_ca :: "(nat, int \<times> nat) tiny_ca" where
  "demo_ca = \<lparr> ca_CA = \<lparr> cp_Key = 0, cp_Cert = (0, 0) \<rparr>, ca_orgName = ''envtest'', ca_nextSerial = 1 \<rparr>"

lemma demo_x509_ok: "x509_ok demo_crypto fst (\<lambda>c k. snd c = k)"
  by (auto simp: x509_ok_def demo_crypto_def)

lemma demo_ca_made: "NewTinyCA demo_crypto 0 = (Inr demo_ca, 1)"
  by (simp add: NewTinyCA_def demo_crypto_def demo_ca_def)

theorem serial_numbers_unique_witness:
  "\<exists>a b c. map (fst \<circ> cp_Cert) (issue_all demo_crypto [Serving [], Client \<lparr> ci_Name = ''x'', ci_Groups = [] \<rparr>,
      Serving [''127.0.0.1''], Client \<lparr> ci_Name = ''y'', ci_Groups = [''g''] \<rparr>] demo_ca 1) = [a, b, c] \<and>
    0 < a \<and> a < b \<and> b < c"
proof -
  let ?issued = "issue_all demo_crypto [Serving [], Client \<lparr> ci_Name = ''x'', ci_Groups = [] \<rparr>,
      Serving [''127.0.0.1''], Client \<lparr> ci_Name = ''y'', ci_Groups = [''g''] \<rparr>] demo_ca 1"
  have "length ?issued = 3"
    by (simp add: NewServingCert_def NewClientCert_def makeCert_def resolveNames_def demo_crypto_def Let_def)
  then obtain p q r where "?issued = [p, q, r]"
    by (auto simp: numeral_3_eq_3 length_Suc_conv)
  then show ?thesis
    using serial_numbers_unique [OF demo_x509_ok demo_ca_made, of "[Serving [], Client \<lparr> ci_Name = ''x'', ci_Groups = [] \<rparr>,
      Serving [''127.0.0.1''], Client \<lparr> ci_Name = ''y'', ci_Groups = [''g''] \<rparr>]" 1] by auto
qed

end
