(* ===== verification/ControlPlane.thy ===== *)
theory ControlPlane
  imports Arguments Addr TinyCA
begin

text \<open>
  \<^verbatim>\<open>envtest/internal/controlplane\<close>: the test control plane. A \<open>Shard\<close> prepares
  ports, certificates and arguments and runs one kcp process; \<open>Kcp\<close> starts its root shard
  and provisions a default user. The state of an operation is the Go object, the state
  \<open>'w\<close> of files, network and random numbers, and the processes of the operating system.
\<close>

subsection \<open>Client certificate authentication\<close>

record ('k, 'c) certAuthn =
  au_ca :: "('k, 'c) tiny_ca"
  au_certDir :: string

text \<open>Users' rest configurations, with the fields the control plane sets or reads.\<close>

record user_config =
  uc_Host :: string
  uc_APIPath :: string
  uc_CAData :: string
  uc_CertData :: string
  uc_KeyData :: string
  uc_BearerToken :: string
  uc_Username :: string
  uc_Password :: string

definition empty_config :: user_config where
  "empty_config = \<lparr> uc_Host = [], uc_APIPath = [], uc_CAData = [], uc_CertData = [], uc_KeyData = [],
     uc_BearerToken = [], uc_Username = [], uc_Password = [] \<rparr>"

definition NewCertAuthn :: "('k, 'c, 'b, 'ip, 'w) crypto_env \<Rightarrow> 'w \<Rightarrow> ('k, 'c) certAuthn result \<times> 'w" where
  "NewCertAuthn Y w =
     (case NewTinyCA Y w of
        (Inl err, w') \<Rightarrow> (Inl (Errorf ''unable to provision client certificate auth CA: %w'' [] [err]), w')
      | (Inr ca, w') \<Rightarrow> (Inr \<lparr> au_ca = ca, au_certDir = [] \<rparr>, w'))"

definition Authn_AddUser ::
  "('k, 'c, 'b, 'ip, 'w) crypto_env \<Rightarrow> client_info \<Rightarrow> user_config \<Rightarrow> ('k, 'c) certAuthn \<Rightarrow> 'w
     \<Rightarrow> user_config result \<times> ('k, 'c) certAuthn \<times> 'w" where
  "Authn_AddUser Y user baseCfg a w =
     (case NewClientCert Y user (au_ca a) w of
        (Inl err, ca, w') \<Rightarrow>
          (Inl (Errorf ''unable to create client certificates for %s: %w'' [ci_Name user] [err]), a\<lparr> au_ca := ca \<rparr>, w')
      | (Inr certs, ca, w') \<Rightarrow>
          (case AsBytes Y certs of
             Inl err \<Rightarrow> (Inl (Errorf ''unable to serialize client certificates for %s: %w'' [ci_Name user] [err]),
                         a\<lparr> au_ca := ca \<rparr>, w')
           | Inr (crt, key) \<Rightarrow>
               (Inr (baseCfg\<lparr> uc_CertData := crt, uc_KeyData := key \<rparr>), a\<lparr> au_ca := ca \<rparr>, w')))"

definition caCrtPath :: "('k, 'c) certAuthn \<Rightarrow> string" where
  "caCrtPath a = path_Join [au_certDir a, ''client-cert-auth-ca.crt'']"

definition Authn_Configure ::
  "string \<Rightarrow> arguments \<Rightarrow> ('k, 'c) certAuthn \<Rightarrow> arguments \<times> ('k, 'c) certAuthn" where
  "Authn_Configure workDir args a =
     (let a = a\<lparr> au_certDir := workDir \<rparr> in (Arguments_Set ''client-ca-file'' (Some [caCrtPath a]) args, a))"

definition Authn_Start ::
  "('k, 'c, 'b, 'ip, 'w) crypto_env \<Rightarrow> (string \<Rightarrow> string \<Rightarrow> 'w \<Rightarrow> error option \<times> 'w) \<Rightarrow> ('k, 'c) certAuthn \<Rightarrow> 'w
     \<Rightarrow> error option \<times> 'w" where
  "Authn_Start Y write a w =
     (if au_certDir a = [] then (Some (Errorf ''start called before configure'' [] []), w)
      else case write (caCrtPath a) (CertBytes Y (ca_CA (au_ca a))) w of
        (Some err, w') \<Rightarrow> (Some (Errorf ''unable to save the client certificate CA to %s: %w'' [caCrtPath a] [err]), w')
      | (None, w') \<Rightarrow> (None, w'))"

definition Authn_Stop :: "('k, 'c) certAuthn \<Rightarrow> error option" where
  "Authn_Stop a = None"

subsection \<open>A shard\<close>

record ('k, 'c) shard =
  sh_ListenAddr :: listen_addr
  sh_CA :: string
  sh_Authn :: "('k, 'c) certAuthn option"
  sh_PeerPort :: string
  sh_ClientPort :: string
  sh_Path :: string
  sh_RootDir :: string
  sh_StartTimeout :: int
  sh_StopTimeout :: int
  sh_processState :: "proc_state option"
  sh_args :: "arguments option"

text \<open>A nil shard is replaced by the zero one.\<close>

definition zero_shard :: "('k, 'c) shard" where
  "zero_shard = \<lparr> sh_ListenAddr = \<lparr> la_Address = [], la_Port = [] \<rparr>, sh_CA = [], sh_Authn = None, sh_PeerPort = [],
     sh_ClientPort = [], sh_Path = [], sh_RootDir = [], sh_StartTimeout = 0, sh_StopTimeout = 0,
     sh_processState = None, sh_args = None \<rparr>"

text \<open>
  What a shard uses: the crypto packages, the port reservation, files, and the orders in
  which the maps of defaults and of arguments are ranged over.
\<close>

record ('k, 'c, 'b, 'ip, 'w) shard_env =
  se_crypto :: "('k, 'c, 'b, 'ip, 'w) crypto_env"
  se_unix :: "'w unix_env"
  se_files :: "'w fs_env"
  se_net :: "'w net_env"
  se_Stat :: "string \<Rightarrow> 'w \<Rightarrow> error option"
  se_WriteFile :: "string \<Rightarrow> string \<Rightarrow> 'w \<Rightarrow> error option \<times> 'w"
  se_find_bin :: "string \<Rightarrow> string \<Rightarrow> string"
  se_MkdirTemp :: "'w \<Rightarrow> string result \<times> 'w"
  se_default_order :: "(string \<rightharpoonup> slice) \<Rightarrow> string list"
  se_args_order :: "arguments \<Rightarrow> string list"

type_synonym ('k, 'c, 'w) shard_state = "('k, 'c) shard \<times> 'w \<times> os_state"

definition Configure :: "('k, 'c) shard \<Rightarrow> arguments \<times> ('k, 'c) shard" where
  "Configure s = (case sh_args s of Some a \<Rightarrow> (a, s) | None \<Rightarrow> (EmptyArguments, s\<lparr> sh_args := Some EmptyArguments \<rparr>))"

definition defaultArgs :: "('k, 'c) shard \<Rightarrow> (string \<rightharpoonup> slice)" where
  "defaultArgs s = [''root-directory'' \<mapsto> Some [sh_RootDir s], ''secure-port'' \<mapsto> Some [la_Port (sh_ListenAddr s)],
     ''bind-address'' \<mapsto> Some [la_Address (sh_ListenAddr s)], ''embedded-etcd-peer-port'' \<mapsto> Some [sh_PeerPort s],
     ''embedded-etcd-client-port'' \<mapsto> Some [sh_ClientPort s],
     ''external-hostname'' \<mapsto> Some [la_Address (sh_ListenAddr s)]]"

definition suggest_port ::
  "('k, 'c, 'b, 'ip, 'w) shard_env \<Rightarrow> string \<Rightarrow> (nat \<Rightarrow> string \<Rightarrow> ('k, 'c) shard \<Rightarrow> ('k, 'c) shard)
     \<Rightarrow> ('k, 'c, 'w) shard_state \<Rightarrow> error option \<times> ('k, 'c, 'w) shard_state" where
  "suggest_port E msg assign st = (case st of (s, w, os) \<Rightarrow>
     (case Suggest (se_unix E) (se_files E) (se_net E) [] w of
        (Inl err, w') \<Rightarrow> (Some (Errorf msg [] [err]), s, w', os)
      | (Inr (port, host), w') \<Rightarrow> (None, assign port host s, w', os)))"

definition configurePorts ::
  "('k, 'c, 'b, 'ip, 'w) shard_env \<Rightarrow> ('k, 'c, 'w) shard_state \<Rightarrow> error option \<times> ('k, 'c, 'w) shard_state" where
  "configurePorts E =
     and_then (\<lambda>(s, w, os).
       if la_Port (sh_ListenAddr s) = [] \<or> la_Address (sh_ListenAddr s) = []
       then suggest_port E ''unable to provision unused secure port: %w''
              (\<lambda>port host s. s\<lparr> sh_ListenAddr := \<lparr> la_Address = host, la_Port = itoa port \<rparr> \<rparr>) (s, w, os)
       else (None, s, w, os))
     (and_then (\<lambda>(s, w, os).
       if sh_PeerPort s = []
       then suggest_port E ''unable to provision unused etcd peer port: %w''
              (\<lambda>port host s. s\<lparr> sh_PeerPort := itoa port \<rparr>) (s, w, os)
       else (None, s, w, os))
     (\<lambda>(s, w, os).
       if sh_ClientPort s = []
       then suggest_port E ''unable to provision unused etcd client port: %w''
              (\<lambda>port host s. s\<lparr> sh_ClientPort := itoa port \<rparr>) (s, w, os)
       else (None, s, w, os)))"

definition write_file ::
  "('k, 'c, 'b, 'ip, 'w) shard_env \<Rightarrow> string \<Rightarrow> string
     \<Rightarrow> ('k, 'c, 'w) shard_state \<Rightarrow> error option \<times> ('k, 'c, 'w) shard_state" where
  "write_file E name contents st = (case st of (s, w, os) \<Rightarrow>
     (case se_WriteFile E (path_Join [sh_RootDir s, name]) contents w of (r, w') \<Rightarrow> (r, s, w', os)))"

text \<open>An existing serving certificate ends it at once, with the nil error of \<open>Stat\<close>.\<close>

definition populateServingCerts ::
  "('k, 'c, 'b, 'ip, 'w) shard_env \<Rightarrow> (error \<Rightarrow> bool)
     \<Rightarrow> ('k, 'c, 'w) shard_state \<Rightarrow> error option \<times> ('k, 'c, 'w) shard_state" where
  "populateServingCerts E is_not_exist st = (case st of (s, w, os) \<Rightarrow>
     (case se_Stat E (path_Join [sh_RootDir s, ''apiserver.crt'']) w of
        None \<Rightarrow> (None, st)
      | Some statErr \<Rightarrow>
          if \<not> is_not_exist statErr then (Some statErr, st)
          else case NewTinyCA (se_crypto E) w of
            (Inl err, w1) \<Rightarrow> (Some err, s, w1, os)
          | (Inr ca, w1) \<Rightarrow>
              (case NewServingCert (se_crypto E) [] ca w1 of
                 (Inl err, _, w2) \<Rightarrow> (Some err, s, w2, os)
               | (Inr servingCerts, ca, w2) \<Rightarrow>
                   (case AsBytes (se_crypto E) servingCerts of
                      Inl err \<Rightarrow> (Some err, s, w2, os)
                    | Inr (certData, keyData) \<Rightarrow>
                        and_then (write_file E ''apiserver.crt'' certData)
                        (and_then (write_file E ''apiserver.key'' keyData)
                        (\<lambda>(s, w, os).
                          let s = s\<lparr> sh_CA := CertBytes (se_crypto E) (ca_CA ca) \<rparr>
                          in case NewTinyCA (se_crypto E) w of
                               (Inl err, w3) \<Rightarrow> (Some err, s, w3, os)
                             | (Inr saCA, w3) \<Rightarrow>
                                 (case AsBytes (se_crypto E) (ca_CA saCA) of
                                    Inl err \<Rightarrow> (Some err, s, w3, os)
                                  | Inr (saCert, saKey) \<Rightarrow>
                                      and_then (write_file E ''sa-signer.crt'' saCert)
                                        (write_file E ''sa-signer.key'' saKey) (s, w3, os))))
                        (s, w2, os)))))"

definition init_process ::
  "('k, 'c, 'b, 'ip, 'w) shard_env \<Rightarrow> ('k, 'c, 'w) shard_state \<Rightarrow> error option \<times> ('k, 'c, 'w) shard_state" where
  "init_process E st = (case st of (s, w, os) \<Rightarrow>
     let ps = \<lparr> ps_Cmd = None, ps_HealthCheck = \<lparr> u_Scheme = [], u_Host = [], u_Path = [] \<rparr>, ps_Args = [],
           ps_StopTimeout = sh_StopTimeout s, ps_StartTimeout = sh_StartTimeout s, ps_Dir = sh_RootDir s,
           ps_DirNeedsCleaning = False, ps_Path = sh_Path s, ps_ready = False, ps_exited = False, ps_exitErr = None \<rparr>;
         (dir, w') = (if sh_RootDir s = [] then se_MkdirTemp E w else (Inr [], w))
     in case Process_Init (se_find_bin E) dir ''kcp'' ps os of
          (r, ps', os') \<Rightarrow> (r, s\<lparr> sh_processState := Some ps' \<rparr>, w', os'))"

text \<open>\<open>f\<close> on the process state, which \<open>setProcessState\<close> has set.\<close>

definition map_process :: "(proc_state \<Rightarrow> proc_state) \<Rightarrow> ('k, 'c) shard \<Rightarrow> ('k, 'c) shard" where
  "map_process f s = s\<lparr> sh_processState := map_option f (sh_processState s) \<rparr>"

definition adopt_process :: "('k, 'c) shard \<Rightarrow> ('k, 'c) shard" where
  "adopt_process s = (case sh_processState s of
      None \<Rightarrow> s
    | Some ps \<Rightarrow>
        let ps = ps\<lparr> ps_HealthCheck := ListenAddr_URL (sh_ListenAddr s) ''https'' ''/readyz'' \<rparr>
        in s\<lparr> sh_processState := Some ps, sh_RootDir := ps_Dir ps, sh_Path := ps_Path ps,
              sh_StartTimeout := ps_StartTimeout ps, sh_StopTimeout := ps_StopTimeout ps \<rparr>)"

definition default_authn ::
  "('k, 'c, 'b, 'ip, 'w) shard_env \<Rightarrow> ('k, 'c, 'w) shard_state \<Rightarrow> error option \<times> ('k, 'c, 'w) shard_state" where
  "default_authn E st = (case st of (s, w, os) \<Rightarrow>
     (case sh_Authn s of
        Some _ \<Rightarrow> (None, st)
      | None \<Rightarrow>
          (case NewCertAuthn (se_crypto E) w of
             (Inl err, w') \<Rightarrow> (Some err, s, w', os)
           | (Inr authn, w') \<Rightarrow> (None, s\<lparr> sh_Authn := Some authn \<rparr>, w', os))))"

definition configure_authn :: "('k, 'c) shard \<Rightarrow> ('k, 'c) shard" where
  "configure_authn s = (case sh_Authn s of
      None \<Rightarrow> s
    | Some a \<Rightarrow> (case Configure s of (args, s) \<Rightarrow>
        (case Authn_Configure (sh_RootDir s) args a of
           (args, a) \<Rightarrow> s\<lparr> sh_args := Some args, sh_Authn := Some a \<rparr>)))"

definition shard_args ::
  "('k, 'c, 'b, 'ip, 'w) shard_env \<Rightarrow> ('k, 'c) shard \<Rightarrow> string list" where
  "shard_args E s = (let args = fst (Configure s)
     in ''start'' # AsStrings args (defaultArgs s) (se_default_order E (defaultArgs s)) (se_args_order E args))"

definition render_args ::
  "('k, 'c, 'b, 'ip, 'w) shard_env \<Rightarrow> ('k, 'c, 'w) shard_state \<Rightarrow> error option \<times> ('k, 'c, 'w) shard_state" where
  "render_args E st = (case st of (s, w, os) \<Rightarrow>
     let s = configure_authn s
     in (None, map_process (\<lambda>ps. ps\<lparr> ps_Args := shard_args E s \<rparr>) s, w, os))"

definition adopt_step :: "('k, 'c, 'w) shard_state \<Rightarrow> error option \<times> ('k, 'c, 'w) shard_state" where
  "adopt_step st = (case st of (s, w, os) \<Rightarrow> (None, adopt_process s, w, os))"

definition setProcessState ::
  "('k, 'c, 'b, 'ip, 'w) shard_env \<Rightarrow> (error \<Rightarrow> bool)
     \<Rightarrow> ('k, 'c, 'w) shard_state \<Rightarrow> error option \<times> ('k, 'c, 'w) shard_state" where
  "setProcessState E is_not_exist =
     and_then (init_process E)
     (and_then (configurePorts E)
     (and_then adopt_step
     (and_then (populateServingCerts E is_not_exist)
     (and_then (default_authn E)
     (render_args E)))))"

definition start_authn ::
  "('k, 'c, 'b, 'ip, 'w) shard_env \<Rightarrow> ('k, 'c, 'w) shard_state \<Rightarrow> error option \<times> ('k, 'c, 'w) shard_state" where
  "start_authn E st = (case st of (s, w, os) \<Rightarrow>
     (case sh_Authn s of
        None \<Rightarrow> (None, st)
      | Some a \<Rightarrow> (case Authn_Start (se_crypto E) (se_WriteFile E) a w of (r, w') \<Rightarrow> (r, s, w', os))))"

definition shard_prepare ::
  "('k, 'c, 'b, 'ip, 'w) shard_env \<Rightarrow> (error \<Rightarrow> bool)
     \<Rightarrow> ('k, 'c, 'w) shard_state \<Rightarrow> error option \<times> ('k, 'c, 'w) shard_state" where
  "shard_prepare E is_not_exist = and_then (setProcessState E is_not_exist) (start_authn E)"

definition start_process ::
  "error option \<Rightarrow> start_select \<Rightarrow> ('k, 'c, 'w) shard_state \<Rightarrow> error option \<times> ('k, 'c, 'w) shard_state" where
  "start_process start_err sel st = (case st of (s, w, os) \<Rightarrow>
     (case sh_processState s of
        None \<Rightarrow> (None, st)
      | Some ps \<Rightarrow> (case Process_Start start_err sel ps os of
           (r, ps', os') \<Rightarrow> (r, s\<lparr> sh_processState := Some ps' \<rparr>, w, os'))))"

definition Shard_Start ::
  "('k, 'c, 'b, 'ip, 'w) shard_env \<Rightarrow> (error \<Rightarrow> bool) \<Rightarrow> error option \<Rightarrow> start_select
     \<Rightarrow> ('k, 'c, 'w) shard_state \<Rightarrow> error option \<times> ('k, 'c, 'w) shard_state" where
  "Shard_Start E is_not_exist start_err sel =
     and_then (shard_prepare E is_not_exist) (start_process start_err sel)"

text \<open>\<open>Authn\<close> is embedded: calling \<open>Stop\<close> of a nil one panics.\<close>

definition Shard_Stop ::
  "error option \<Rightarrow> stop_select \<Rightarrow> error option \<Rightarrow> ('k, 'c, 'w) shard_state
     \<Rightarrow> error option outcome \<times> ('k, 'c, 'w) shard_state" where
  "Shard_Stop term_err sel kill_err st = (case st of (s, w, os) \<Rightarrow>
     (case (case sh_processState s of
              None \<Rightarrow> (Ret None, s, os)
            | Some ps \<Rightarrow>
                let s = (if ps_DirNeedsCleaning ps then s\<lparr> sh_RootDir := [] \<rparr> else s)
                in case Process_Stop term_err sel kill_err ps os of
                     (r, ps', os') \<Rightarrow> (r, s\<lparr> sh_processState := Some ps' \<rparr>, os')) of
        (Panic m, s', os') \<Rightarrow> (Panic m, s', w, os')
      | (Ret (Some err), s', os') \<Rightarrow> (Ret (Some err), s', w, os')
      | (Ret None, s', os') \<Rightarrow>
          (case sh_Authn s' of
             None \<Rightarrow> (Panic ''invalid memory address or nil pointer dereference'', s', w, os')
           | Some a \<Rightarrow> (Ret (Authn_Stop a), s', w, os'))))"

end
