(* ===== verification/ShardLife.thy ===== *)
theory ShardLife
  imports ControlPlane Interfaces
begin

text \<open>
  What starting and stopping a shard guarantees: the steps of the preparation leave the
  process state alone, so every start has a fresh one and every successful stop ends the
  process it started; and the command line says what the shard was configured with.
\<close>

subsection \<open>Steps that only prepare\<close>

definition same_process :: "('k, 'c, 'w) shard_state \<Rightarrow> ('k, 'c, 'w) shard_state \<Rightarrow> bool" where
  "same_process st st' \<longleftrightarrow> (case st of (s, w, os) \<Rightarrow> case st' of (s', w', os') \<Rightarrow>
     os' = os \<and> sh_processState s' = sh_processState s \<and> sh_RootDir s' = sh_RootDir s \<and>
     sh_Authn s' = sh_Authn s \<and> sh_args s' = sh_args s)"

abbreviation prepares :: "(('k, 'c, 'w) shard_state \<Rightarrow> error option \<times> ('k, 'c, 'w) shard_state) \<Rightarrow> bool" where
  "prepares \<equiv> always same_process"

lemma same_process_refl [simp]: "same_process st st"
  by (simp add: same_process_def split: prod.split)

lemma same_process_trans: "same_process a b \<Longrightarrow> same_process b c \<Longrightarrow> same_process a c"
  by (auto simp: same_process_def split: prod.splits)

interpretation prep: step_relation same_process
  by unfold_locales (rule same_process_refl, rule same_process_trans)

lemmas prepares_and_then [intro] = prep.step_sequence

lemma prepares_write_file [intro]: "prepares (write_file E name contents)"
  by (auto simp: always_def write_file_def same_process_def split: prod.splits)

lemma suggest_port_same:
  assumes "\<And>port host s. sh_processState (assign port host s) = sh_processState s \<and>
     sh_RootDir (assign port host s) = sh_RootDir s \<and> sh_Authn (assign port host s) = sh_Authn s \<and>
     sh_args (assign port host s) = sh_args s"
  shows "same_process st (snd (suggest_port E msg assign st))"
  using assms by (auto simp: suggest_port_def same_process_def split: prod.splits sum.splits)

lemma prepares_configurePorts: "prepares (configurePorts E)"
  unfolding configurePorts_def
  by (intro prepares_and_then; auto simp: always_def split: prod.splits intro: suggest_port_same)

lemma prepares_service_account:
  "prepares (\<lambda>(s, w, os).
     let s = s\<lparr> sh_CA := ca \<rparr>
     in case NewTinyCA Y w of
          (Inl err, w3) \<Rightarrow> (Some err, s, w3, os)
        | (Inr saCA, w3) \<Rightarrow>
            (case AsBytes Y (ca_CA saCA) of
               Inl err \<Rightarrow> (Some err, s, w3, os)
             | Inr (saCert, saKey) \<Rightarrow>
                 and_then (write_file E ''sa-signer.crt'' saCert) (write_file E ''sa-signer.key'' saKey) (s, w3, os)))"
proof -
  have both: "prepares (and_then (write_file E n c) (write_file E m d))" for n c m d by blast
  have "same_process (s, w, os) (snd (and_then (write_file E n c) (write_file E m d) (s\<lparr> sh_CA := ca \<rparr>, w3, os)))"
    for s :: "('a, 'b) shard" and w w3 os n c m d
  proof -
    have "same_process (s, w, os) (s\<lparr> sh_CA := ca \<rparr>, w3, os)" by (simp add: same_process_def)
    then show ?thesis using both [unfolded always_def] same_process_trans by blast
  qed
  then show ?thesis
    by (auto simp: always_def Let_def split: prod.splits sum.splits) (simp_all add: same_process_def)
qed

lemma prepares_populateServingCerts: "prepares (populateServingCerts E is_not_exist)"
proof -
  have all: "same_process (s, w, os) (snd (and_then (write_file E n c) (and_then (write_file E m d) g) (s, w2, os)))"
    if "prepares g" for s w w2 os n c m d g
  proof -
    have "same_process (s, w, os) (s, w2, os)" by (simp add: same_process_def)
    moreover have "prepares (and_then (write_file E n c) (and_then (write_file E m d) g))" using that by blast
    ultimately show ?thesis using same_process_trans unfolding always_def by blast
  qed
  show ?thesis
    unfolding always_def
  proof
    fix st show "same_process st (snd (populateServingCerts E is_not_exist st))"
    proof (cases st)
      case (fields s w os)
      show ?thesis
        unfolding fields populateServingCerts_def prod.case
        by (auto split: option.split sum.split prod.split intro!: all [OF prepares_service_account])
           (simp_all add: same_process_def)
    qed
  qed
qed

subsection \<open>A prepared shard\<close>

definition fresh_process :: "proc_state \<Rightarrow> bool" where
  "fresh_process ps \<longleftrightarrow> ps_Cmd ps = None \<and> \<not> ps_ready ps \<and> \<not> ps_exited ps"

text \<open>
  The process state is the one of this start, its directory the shard's root directory,
  temporary iff \<open>temp\<close>, and authentication is configured to use it.
\<close>

definition prepared :: "bool \<Rightarrow> ('k, 'c) shard \<Rightarrow> bool" where
  "prepared temp s \<longleftrightarrow> (\<exists>ps a. sh_processState s = Some ps \<and> fresh_process ps \<and> ps_Dir ps = sh_RootDir s \<and>
     ps_DirNeedsCleaning ps = temp \<and> sh_Authn s = Some a \<and> au_certDir a = sh_RootDir s)"

lemma init_process_fresh:
  assumes "init_process E (s, w, os) = (None, s', w', os')"
  obtains ps where "sh_processState s' = Some ps" "fresh_process ps" "ps_DirNeedsCleaning ps = (sh_RootDir s = [])"
    "os_running os' = os_running os" "os_next os' = os_next os" "sh_args s' = sh_args s" "sh_Authn s' = sh_Authn s"
    "sh_RootDir s \<noteq> [] \<longrightarrow> ps_Dir ps = sh_RootDir s"
    "fst (se_MkdirTemp E w) \<noteq> Inr [] \<longrightarrow> ps_Dir ps \<noteq> []"
  using assms
  by (cases "sh_RootDir s = []")
     (auto simp: init_process_def Process_Init_def fresh_process_def Let_def split: if_splits sum.splits prod.splits)

lemma adopt_process_Some:
  assumes "sh_processState s = Some ps" and "fresh_process ps"
  shows "\<exists>qs. sh_processState (adopt_process s) = Some qs \<and> fresh_process qs \<and> ps_Dir qs = sh_RootDir (adopt_process s) \<and>
    ps_DirNeedsCleaning qs = ps_DirNeedsCleaning ps" and "sh_RootDir (adopt_process s) = ps_Dir ps" and "sh_args (adopt_process s) = sh_args s"
    and "sh_Authn (adopt_process s) = sh_Authn s"
  using assms by (simp_all add: adopt_process_def fresh_process_def Let_def)

lemma default_authn_result:
  assumes "default_authn E (s, w, os) = (None, s', w', os')"
  shows "\<exists>a. sh_Authn s' = Some a \<and> (s' = s \<or> s' = s\<lparr> sh_Authn := Some a \<rparr>)" and "os' = os"
  using assms by (auto simp: default_authn_def split: option.splits prod.splits sum.splits)

lemma configure_authn_Some:
  assumes "sh_Authn s = Some a"
  shows "\<exists>b. configure_authn s = s\<lparr> sh_args := Some (Arguments_Set ''client-ca-file''
           (Some [path_Join [sh_RootDir s, ''client-cert-auth-ca.crt'']]) (fst (Configure s))), sh_Authn := Some b \<rparr> \<and>
         au_certDir b = sh_RootDir s"
  using assms by (auto simp: configure_authn_def Configure_def Authn_Configure_def caCrtPath_def Let_def
    split: option.split)

lemma setProcessState_result:
  assumes "setProcessState E is_not_exist (s, w, os) = (None, s', w', os')"
  shows "prepared (sh_RootDir s = []) s'" and "os_running os' = os_running os" and "os_next os' = os_next os"
    and "sh_args s' = Some (Arguments_Set ''client-ca-file''
       (Some [path_Join [sh_RootDir s', ''client-cert-auth-ca.crt'']]) (fst (Configure s)))"
    and "map_option ps_Args (sh_processState s') = Some (shard_args E s')"
    and "sh_RootDir s \<noteq> [] \<Longrightarrow> sh_RootDir s' = sh_RootDir s"
    and "\<forall>w. fst (se_MkdirTemp E w) \<noteq> Inr [] \<Longrightarrow> sh_RootDir s' \<noteq> []"
proof -
  obtain u1 u2 u3 u4 where "init_process E (s, w, os) = (None, u1)" "configurePorts E u1 = (None, u2)"
    "populateServingCerts E is_not_exist (snd (adopt_step u2)) = (None, u3)" "default_authn E u3 = (None, u4)"
    "render_args E u4 = (None, s', w', os')"
    using assms by (auto simp only: setProcessState_def and_then_None_iff snd_conv)
  moreover obtain s1 w1 os1 s2 w2 os2 s3 w3 os3 s4 w4 os4
    where "u1 = (s1, w1, os1)" "u2 = (s2, w2, os2)" "u3 = (s3, w3, os3)" "u4 = (s4, w4, os4)"
    by (cases u1; cases u2; cases u3; cases u4) blast
  ultimately have 1: "init_process E (s, w, os) = (None, s1, w1, os1)"
    and 2: "configurePorts E (s1, w1, os1) = (None, s2, w2, os2)"
    and 3: "populateServingCerts E is_not_exist (adopt_process s2, w2, os2) = (None, s3, w3, os3)"
    and 4: "default_authn E (s3, w3, os3) = (None, s4, w4, os4)"
    and 5: "s' = map_process (\<lambda>ps. ps\<lparr> ps_Args := shard_args E (configure_authn s4) \<rparr>) (configure_authn s4)" "os' = os4"
    by (simp_all add: adopt_step_def render_args_def Let_def)
  obtain ps where ps: "sh_processState s1 = Some ps" "fresh_process ps" "ps_DirNeedsCleaning ps = (sh_RootDir s = [])"
    "os_running os1 = os_running os" "os_next os1 = os_next os" "sh_args s1 = sh_args s"
    "sh_RootDir s \<noteq> [] \<longrightarrow> ps_Dir ps = sh_RootDir s" "fst (se_MkdirTemp E w) \<noteq> Inr [] \<longrightarrow> ps_Dir ps \<noteq> []"
    by (rule init_process_fresh [OF 1])
  have same2: "os2 = os1" "sh_processState s2 = Some ps" "sh_args s2 = sh_args s"
    using prep.step_result [OF prepares_configurePorts 2] ps by (simp_all add: same_process_def)
  note ad = adopt_process_Some [OF same2(2) ps(2)]
  have same3: "os3 = os2" "sh_processState s3 = sh_processState (adopt_process s2)"
    "sh_RootDir s3 = sh_RootDir (adopt_process s2)" "sh_args s3 = sh_args s"
    using prep.step_result [OF prepares_populateServingCerts 3] ad same2(3) by (simp_all add: same_process_def)
  obtain qs where qs: "sh_processState s3 = Some qs" "fresh_process qs" "ps_Dir qs = sh_RootDir s3"
    "ps_DirNeedsCleaning qs = (sh_RootDir s = [])" using ad(1) same3 ps(3) by auto
  obtain a where a: "sh_Authn s4 = Some a" "s4 = s3 \<or> s4 = s3\<lparr> sh_Authn := Some a \<rparr>" and os4: "os4 = os3"
    using default_authn_result [OF 4] by blast
  have q4: "sh_processState s4 = Some qs" "sh_RootDir s4 = sh_RootDir s3" "sh_args s4 = sh_args s"
    using a(2) qs(1) same3(4) by auto
  have conf: "fst (Configure s4) = fst (Configure s)" using q4(3) by (simp add: Configure_def split: option.split)
  obtain b where b: "configure_authn s4 = s4\<lparr> sh_args := Some (Arguments_Set ''client-ca-file''
      (Some [path_Join [sh_RootDir s4, ''client-cert-auth-ca.crt'']]) (fst (Configure s))), sh_Authn := Some b \<rparr>"
    "au_certDir b = sh_RootDir s4" using configure_authn_Some [OF a(1)] unfolding conf by blast
  have args_eq: "shard_args E (map_process f t) = shard_args E t" for f t
    by (simp add: shard_args_def defaultArgs_def map_process_def Configure_def split: option.split)
  show "prepared (sh_RootDir s = []) s'"
    unfolding prepared_def 5(1) b(1) map_process_def using q4 qs b(2) by (simp add: fresh_process_def)
  show "os_running os' = os_running os" "os_next os' = os_next os" using 5(2) os4 same3(1) same2(1) ps(4,5) by simp_all
  show "sh_args s' = Some (Arguments_Set ''client-ca-file''
       (Some [path_Join [sh_RootDir s', ''client-cert-auth-ca.crt'']]) (fst (Configure s)))"
    unfolding 5(1) b(1) map_process_def by simp
  show "map_option ps_Args (sh_processState s') = Some (shard_args E s')"
    unfolding 5(1) args_eq unfolding b(1) map_process_def using q4(1) by simp
  show "sh_RootDir s' = sh_RootDir s" if "sh_RootDir s \<noteq> []"
    unfolding 5(1) b(1) map_process_def using q4(2) same3(3) ad(2) ps(7) that by simp
  show "sh_RootDir s' \<noteq> []" if "\<forall>w. fst (se_MkdirTemp E w) \<noteq> Inr []"
    unfolding 5(1) b(1) map_process_def using q4(2) same3(3) ad(2) ps(8) that by simp
qed

subsection \<open>Start and stop\<close>

lemma shard_prepare_result:
  assumes "shard_prepare E is_not_exist (s, w, os) = (None, s', w', os')"
  shows "prepared (sh_RootDir s = []) s'" and "os_running os' = os_running os" and "os_next os' = os_next os"
    and "sh_RootDir s \<noteq> [] \<Longrightarrow> sh_RootDir s' = sh_RootDir s"
    and "\<forall>w. fst (se_MkdirTemp E w) \<noteq> Inr [] \<Longrightarrow> sh_RootDir s' \<noteq> []"
proof -
  obtain u where u: "setProcessState E is_not_exist (s, w, os) = (None, u)" "start_authn E u = (None, s', w', os')"
    using assms by (auto simp only: shard_prepare_def and_then_None_iff)
  obtain s1 w1 os1 where st: "u = (s1, w1, os1)" by (cases u) blast
  have "s' = s1 \<and> os' = os1" using u(2) unfolding st start_authn_def by (auto split: option.splits prod.splits)
  then show "prepared (sh_RootDir s = []) s'" and "os_running os' = os_running os" and "os_next os' = os_next os"
    and "sh_RootDir s \<noteq> [] \<Longrightarrow> sh_RootDir s' = sh_RootDir s"
    and "\<forall>w. fst (se_MkdirTemp E w) \<noteq> Inr [] \<Longrightarrow> sh_RootDir s' \<noteq> []"
    using setProcessState_result(1-3,6,7) [OF u(1) [unfolded st]] by simp_all
qed

text \<open>A shard that runs as process \<open>pid\<close>.\<close>

definition running_shard :: "bool \<Rightarrow> nat \<Rightarrow> ('k, 'c) shard \<Rightarrow> bool" where
  "running_shard temp pid s \<longleftrightarrow> (\<exists>ps. sh_processState s = Some ps \<and> ps_Cmd ps = Some (Some pid) \<and> \<not> ps_exited ps \<and>
     ps_Dir ps = sh_RootDir s \<and> ps_DirNeedsCleaning ps = temp) \<and> sh_Authn s \<noteq> None"

lemma Process_Start_fresh:
  assumes "Process_Start start_err sel ps os = (None, ps', os')" and "fresh_process ps"
  shows "ps' = ps\<lparr> ps_Cmd := Some (Some (os_next os)), ps_ready := True \<rparr>"
    and "os_running os' = insert (os_next os) (os_running os)"
  using assms
  by (auto simp: Process_Start_def fresh_process_def Let_def wait_exit_def
    split: if_splits option.splits start_select.splits)

lemma Shard_Start_running:
  assumes "Shard_Start E is_not_exist start_err sel (s, w, os) = (None, s', w', os')"
  shows "running_shard (sh_RootDir s = []) (os_next os) s'" and "os_running os' = insert (os_next os) (os_running os)"
    and "sh_RootDir s \<noteq> [] \<Longrightarrow> sh_RootDir s' = sh_RootDir s"
    and "\<forall>w. fst (se_MkdirTemp E w) \<noteq> Inr [] \<Longrightarrow> sh_RootDir s' \<noteq> []"
proof -
  obtain u where u: "shard_prepare E is_not_exist (s, w, os) = (None, u)" "start_process start_err sel u = (None, s', w', os')"
    using assms by (auto simp only: Shard_Start_def and_then_None_iff)
  obtain s1 w1 os1 where st: "u = (s1, w1, os1)" by (cases u) blast
  note 1 = u(1) [unfolded st] and 2 = u(2) [unfolded st start_process_def prod.case]
  note p = shard_prepare_result [OF 1]
  obtain ps a where ps: "sh_processState s1 = Some ps" "fresh_process ps" "ps_Dir ps = sh_RootDir s1"
    "ps_DirNeedsCleaning ps = (sh_RootDir s = [])" "sh_Authn s1 = Some a"
    using p(1) by (auto simp: prepared_def)
  obtain ps' where "Process_Start start_err sel ps os1 = (None, ps', os')" and s': "s' = s1\<lparr> sh_processState := Some ps' \<rparr>"
    using 2 ps(1) by (auto split: prod.splits)
  note q = Process_Start_fresh [OF this(1) ps(2)]
  show "running_shard (sh_RootDir s = []) (os_next os) s'"
    unfolding running_shard_def s' q(1) using ps p(3) by (simp add: fresh_process_def)
  show "os_running os' = insert (os_next os) (os_running os)" using q(2) p(2,3) by simp
  show "sh_RootDir s' = sh_RootDir s" if "sh_RootDir s \<noteq> []" unfolding s' using p(4) that by simp
  show "sh_RootDir s' \<noteq> []" if "\<forall>w. fst (se_MkdirTemp E w) \<noteq> Inr []" unfolding s' using p(5) that by simp
qed

lemma Process_Stop_running:
  assumes "Process_Stop term_err sel kill_err ps os = (r, ps', os')"
    and "ps_Cmd ps = Some (Some pid)" and "\<not> ps_exited ps"
  shows "returned r" and "r = Ret None \<Longrightarrow> os_running os' = os_running os - {pid}"
    and "ps_DirNeedsCleaning ps \<Longrightarrow> ps_Dir ps \<notin> os_dirs os'"
  using assms
  by (auto simp: Process_Stop_def Process_Exited_def wait_exit_def clean_dir_def Let_def
    split: if_splits option.splits stop_select.splits)

lemma Shard_Stop_running:
  assumes "running_shard temp pid s" and "Shard_Stop term_err sel kill_err (s, w, os) = (r, s', w', os')"
  shows "returned r" and "r = Ret None \<Longrightarrow> os_running os' = os_running os - {pid}"
    and "temp \<Longrightarrow> sh_RootDir s \<notin> os_dirs os' \<and> sh_RootDir s' = []" and "\<not> temp \<Longrightarrow> sh_RootDir s' = sh_RootDir s"
proof -
  obtain ps a where ps: "sh_processState s = Some ps" "ps_Cmd ps = Some (Some pid)" "\<not> ps_exited ps"
    "ps_Dir ps = sh_RootDir s" "ps_DirNeedsCleaning ps = temp" and a: "sh_Authn s = Some a"
    using assms(1) by (auto simp: running_shard_def)
  obtain q ps' os1 where stop: "Process_Stop term_err sel kill_err ps os = (q, ps', os1)" by (metis prod_cases3)
  note facts = Process_Stop_running [OF stop ps(2,3)]
  have "r = q \<and> os' = os1 \<and> sh_RootDir s' = (if temp then [] else sh_RootDir s)"
    using assms(2) ps a stop facts(1)
    by (cases q) (auto simp: Shard_Stop_def Authn_Stop_def Let_def split: option.splits)
  then show "returned r" and "r = Ret None \<Longrightarrow> os_running os' = os_running os - {pid}"
    and "temp \<Longrightarrow> sh_RootDir s \<notin> os_dirs os' \<and> sh_RootDir s' = []" and "\<not> temp \<Longrightarrow> sh_RootDir s' = sh_RootDir s"
    using facts ps(4,5) by simp_all
qed

text \<open>
  Property C40. Stopping a shard that was started ends what the start began, also when the
  same shard was started and stopped before: it never panics, a temporary root directory is
  removed and forgotten, so that the next start makes a fresh one, and when it returns nil
  the process of this start does not run any more.
\<close>

theorem shard_stop_ends_start:
  assumes "Shard_Start E is_not_exist start_err sel (s, w, os) = (None, s1, w1, os1)"
    and "Shard_Stop term_err stop_sel kill_err (s1, w1, os1) = (r, s2, w2, os2)"
  shows "returned r \<and> (r = Ret None \<longrightarrow> os_running os2 = os_running os - {os_next os}) \<and>
    (if sh_RootDir s = [] then sh_RootDir s1 \<notin> os_dirs os2 \<and> sh_RootDir s2 = [] else sh_RootDir s2 = sh_RootDir s1)"
  using Shard_Stop_running [OF Shard_Start_running(1) [OF assms(1)] assms(2)] Shard_Start_running(2) [OF assms(1)]
  by auto

text \<open>A shard whose start failed before authentication was set up cannot be stopped.\<close>

lemma stop_without_authn_panics:
  assumes "sh_Authn s = None" and "sh_processState s = None"
  shows "\<not> returned (fst (Shard_Stop term_err sel kill_err (s, w, os)))"
  using assms by (simp add: Shard_Stop_def)

lemma Process_Init_no_dir:
  assumes "ps_Dir ps = []" and "name \<noteq> []"
  shows "\<exists>qs. Process_Init find_bin (Inl err) name ps os = (Some err, qs, os) \<and> ps_Cmd qs = ps_Cmd ps"
  using assms by (simp add: Process_Init_def Let_def)

lemma failed_init_leaves_no_authn:
  assumes "sh_Authn s = None" and "sh_RootDir s = []" and "se_MkdirTemp E w = (Inl err, w')"
    and "Shard_Start E is_not_exist start_err sel (s, w, os) = (r, s1, w1, os1)"
  shows "r = Some err \<and> \<not> returned (fst (Shard_Stop term_err stop_sel kill_err (s1, w1, os1)))"
proof -
  obtain ps where "init_process E (s, w, os) = (Some err, s\<lparr> sh_processState := Some ps \<rparr>, w', os)" "ps_Cmd ps = None"
  proof -
    let ?ps = "\<lparr> ps_Cmd = None, ps_HealthCheck = \<lparr> u_Scheme = [], u_Host = [], u_Path = [] \<rparr>, ps_Args = [],
       ps_StopTimeout = sh_StopTimeout s, ps_StartTimeout = sh_StartTimeout s, ps_Dir = sh_RootDir s,
       ps_DirNeedsCleaning = False, ps_Path = sh_Path s, ps_ready = False, ps_exited = False, ps_exitErr = None \<rparr>"
    obtain qs where "Process_Init (se_find_bin E) (Inl err) ''kcp'' ?ps os = (Some err, qs, os)" "ps_Cmd qs = None"
      using Process_Init_no_dir [of ?ps "''kcp''" "se_find_bin E" err os] assms(2) by auto
    then show thesis using that [of qs] assms(2,3) by (simp add: init_process_def)
  qed
  then have "r = Some err" "s1 = s\<lparr> sh_processState := Some ps \<rparr>" "ps_Cmd ps = None"
    using assms(4) by (simp_all add: Shard_Start_def shard_prepare_def setProcessState_def and_then_def)
  then show ?thesis using assms(1) by (simp add: Shard_Stop_def Process_Stop_def Let_def)
qed

subsection \<open>The command line\<close>

lemma prepared_flags:
  assumes "setProcessState E is_not_exist (s, w, os) = (None, s', w', os')"
    and "range_of (defaultArgs s') (se_default_order E (defaultArgs s'))"
    and "range_of (fst (Configure s')) (se_args_order E (fst (Configure s')))"
    and "\<forall>k \<in> dom (fst (Configure s)). CHR ''='' \<notin> set k"
  shows "\<exists>flags. map_option ps_Args (sh_processState s') = Some (''start'' # flags) \<and>
    (\<forall>key. map snd (filter (\<lambda>f. fst f = key) (map parse_flag flags)) =
       (if key = ''client-ca-file'' then [Some (path_Join [sh_RootDir s', ''client-cert-auth-ca.crt''])]
        else asked (fst (Configure s)) key (default_of (defaultArgs s') key)))"
proof -
  note r = setProcessState_result(4,5) [OF assms(1)]
  let ?file = "path_Join [sh_RootDir s', ''client-cert-auth-ca.crt'']"
  let ?args = "Arguments_Set ''client-ca-file'' (Some [?file]) (fst (Configure s))"
  let ?flags = "AsStrings ?args (defaultArgs s') (se_default_order E (defaultArgs s')) (se_args_order E ?args)"
  have conf: "fst (Configure s') = ?args" using r(1) by (simp add: Configure_def)
  then have flags: "shard_args E s' = ''start'' # ?flags" by (simp add: shard_args_def Let_def)
  have "\<forall>k \<in> dom (defaultArgs s') \<union> dom ?args. CHR ''='' \<notin> set k"
    using assms(4) by (auto simp: defaultArgs_def Arguments_Set_def split: if_splits)
  then have "map snd (filter (\<lambda>f. fst f = key) (map parse_flag ?flags)) =
      flag_values (arg_Get (Arguments_Get ?args key) (default_of (defaultArgs s') key))" for key
    by (simp add: parsed_flags [OF assms(2) assms(3) [unfolded conf]] comp_def)
  moreover have "flag_values (arg_Get (Arguments_Get ?args key) d) =
      (if key = ''client-ca-file'' then [Some ?file] else asked (fst (Configure s)) key d)" for key d
    by (simp add: asked_def Arguments_Get_def Arguments_Set_def flag_values_def)
  ultimately show ?thesis using r(2) flags by auto
qed

text \<open>
  The command line of a prepared shard is \<open>start\<close> followed by flags that parse
  back to the configuration: the client CA file in the root directory, whatever the user had
  set for it; for every other flag what the user's arguments yield over the defaults; so the
  shard's own directory and port when the user said nothing about them.
\<close>

theorem shard_command_line:
  assumes "setProcessState E is_not_exist (s, w, os) = (None, s', w', os')"
    and "range_of (defaultArgs s') (se_default_order E (defaultArgs s'))"
    and "range_of (fst (Configure s')) (se_args_order E (fst (Configure s')))"
    and "\<forall>k \<in> dom (fst (Configure s)). CHR ''='' \<notin> set k"
  shows "\<exists>flags. map_option ps_Args (sh_processState s') = Some (''start'' # flags) \<and>
    (\<forall>key. map snd (filter (\<lambda>f. fst f = key) (map parse_flag flags)) =
       (if key = ''client-ca-file'' then [Some (path_Join [sh_RootDir s', ''client-cert-auth-ca.crt''])]
        else asked (fst (Configure s)) key (default_of (defaultArgs s') key)))"
  by (rule prepared_flags [OF assms])

subsection \<open>Witnesses\<close>

text \<open>
  A machine whose state counts what was made: keys are numbers, ports are handed out in
  order, every lock is granted; \<open>ex\<close>: certificate files are there already.
\<close>

definition demo_keys :: "(nat, int \<times> nat, int \<times> nat, nat, nat) crypto_env" where
  "demo_keys = \<lparr> cy_GenerateKey = (\<lambda>w. (Inr w, w + 1)),
     cy_NewSelfSignedCACert = (\<lambda>_ _ k w. (Inr (0, k), w)), cy_now = (\<lambda>w. w),
     cy_CreateCertificate = (\<lambda>t _ _ priv w. (Inr (ct_SerialNumber t, priv), w)), cy_ParseCertificate = Inr,
     cy_Raw = (\<lambda>c. c), cy_MarshalPKCS8 = (\<lambda>k. Inr (0, k)), cy_EncodePEM = (\<lambda>t _. CHR ''-'' # t),
     cy_ParseIP = (\<lambda>s. if s = ''127.0.0.1'' then Some 0 else None), cy_LookupHost = (\<lambda>_ _. Inr [''127.0.0.1'']) \<rparr>"

definition demo_shard_env :: "bool \<Rightarrow> (nat, int \<times> nat, int \<times> nat, nat, nat) shard_env" where
  "demo_shard_env ex = \<lparr> se_crypto = demo_keys,
     se_unix = \<lparr> ux_Open = (\<lambda>_ w. (Inr 3, w)), ux_Flock = (\<lambda>_ w. (None, w)), ux_is_exist = (\<lambda>_. False),
       ux_is_wouldblock = (\<lambda>_. False) \<rparr>,
     se_files = \<lparr> fe_cacheDir = ''/c'', fe_walk = (\<lambda>_. []), fe_ModTime = (\<lambda>_ _. Inr 0), fe_now = (\<lambda>w. w),
       fe_Remove = (\<lambda>_ w. (None, w)), fe_not_exist = (\<lambda>_. True) \<rparr>,
     se_net = \<lparr> ne_Resolve = (\<lambda>_. Inr ''127.0.0.1''), ne_Listen = (\<lambda>_ w. (Inr (w, 5 + w), w + 1)),
       ne_Close = (\<lambda>_ w. w) \<rparr>,
     se_Stat = (\<lambda>_ _. if ex then None else Some (Foreign ''no such file'')),
     se_WriteFile = (\<lambda>_ _ w. (None, w)), se_find_bin = (\<lambda>name _. name), se_MkdirTemp = (\<lambda>w. (Inr ''/t'', w)),
     se_default_order = (\<lambda>_. [''secure-port'', ''root-directory'', ''bind-address'', ''external-hostname'',
       ''embedded-etcd-peer-port'', ''embedded-etcd-client-port'']),
     se_args_order = (\<lambda>m. filter (\<lambda>k. m k \<noteq> None) [''v'', ''client-ca-file'']) \<rparr>"

definition demo_os0 :: os_state where
  "demo_os0 = \<lparr> os_running = {}, os_next = 1, os_dirs = {}, os_signals = [] \<rparr>"

definition demo_shard :: "(nat, int \<times> nat) shard" where
  "demo_shard = zero_shard\<lparr> sh_args := Some [''v'' \<mapsto> UserArg (Some [''2''])] \<rparr>"

definition demo_started :: "(nat, int \<times> nat) shard \<times> nat \<times> os_state" where
  "demo_started = snd (Shard_Start (demo_shard_env False) (\<lambda>_. True) None HealthOK (demo_shard, 0, demo_os0))"

definition demo_stopped :: "error option outcome \<times> (nat, int \<times> nat) shard \<times> nat \<times> os_state" where
  "demo_stopped = Shard_Stop None (Ended None) None demo_started"

lemma demo_runs:
  "fst (Shard_Start (demo_shard_env False) (\<lambda>_. True) None HealthOK (demo_shard, 0, demo_os0)) = None"
  "fst demo_stopped = Ret None"
  by code_simp+

text \<open>A shard with no root directory started and stopped leaves no process, no directory and an unset root directory.\<close>

theorem shard_stop_ends_start_witness:
  "os_running (snd (snd (snd demo_stopped))) = {} \<and> sh_RootDir (fst demo_started) \<notin> os_dirs (snd (snd (snd demo_stopped))) \<and>
   sh_RootDir (fst (snd demo_stopped)) = []"
proof -
  obtain s1 w1 os1 where 1: "demo_started = (s1, w1, os1)" by (cases demo_started) blast
  obtain r s2 w2 os2 where 2: "demo_stopped = (r, s2, w2, os2)" by (cases demo_stopped) blast
  have "Shard_Start (demo_shard_env False) (\<lambda>_. True) None HealthOK (demo_shard, 0, demo_os0) = (None, s1, w1, os1)"
    using demo_runs(1) 1 unfolding demo_started_def by (simp add: prod_eq_iff)
  moreover have "Shard_Stop None (Ended None) None (s1, w1, os1) = (r, s2, w2, os2)"
    using 2 unfolding demo_stopped_def 1 .
  ultimately show ?thesis
    using shard_stop_ends_start [of "demo_shard_env False" "\<lambda>_. True" None HealthOK demo_shard 0 demo_os0 s1 w1 os1 None "Ended None" None r s2 w2 os2]
      demo_runs(2) unfolding 1 2 by (simp add: demo_os0_def demo_shard_def zero_shard_def)
qed

definition demo_prepared :: "(nat, int \<times> nat) shard" where
  "demo_prepared = fst (snd (setProcessState (demo_shard_env False) (\<lambda>_. True) (demo_shard, 0, demo_os0)))"

lemma demo_prepares: "fst (setProcessState (demo_shard_env False) (\<lambda>_. True) (demo_shard, 0, demo_os0)) = None"
  by code_simp

theorem shard_command_line_witness:
  "\<exists>flags. map_option ps_Args (sh_processState demo_prepared) = Some (''start'' # flags) \<and>
     map snd (filter (\<lambda>f. fst f = ''client-ca-file'') (map parse_flag flags)) =
       [Some (path_Join [sh_RootDir demo_prepared, ''client-cert-auth-ca.crt''])] \<and>
     map snd (filter (\<lambda>f. fst f = ''v'') (map parse_flag flags)) = [Some ''2'']"
proof -
  obtain w os where run: "setProcessState (demo_shard_env False) (\<lambda>_. True) (demo_shard, 0, demo_os0) = (None, demo_prepared, w, os)"
    using demo_prepares unfolding demo_prepared_def by (cases "setProcessState (demo_shard_env False) (\<lambda>_. True) (demo_shard, 0, demo_os0)") auto
  have conf: "fst (Configure demo_shard) = [''v'' \<mapsto> UserArg (Some [''2''])]" by (simp add: demo_shard_def Configure_def)
  note args = setProcessState_result(4) [OF run, unfolded conf]
  have "range_of (defaultArgs demo_prepared) (se_default_order (demo_shard_env False) (defaultArgs demo_prepared))"
    by (auto simp: range_of_def demo_shard_env_def defaultArgs_def)
  moreover have "range_of (fst (Configure demo_prepared)) (se_args_order (demo_shard_env False) (fst (Configure demo_prepared)))"
    by (auto simp: range_of_def demo_shard_env_def Configure_def args Arguments_Set_def split: if_splits)
  moreover have "\<forall>k \<in> dom (fst (Configure demo_shard)). CHR ''='' \<notin> set k" unfolding conf by simp
  ultimately obtain flags where flags: "map_option ps_Args (sh_processState demo_prepared) = Some (''start'' # flags)"
    "\<And>key. map snd (filter (\<lambda>f. fst f = key) (map parse_flag flags)) =
       (if key = ''client-ca-file'' then [Some (path_Join [sh_RootDir demo_prepared, ''client-cert-auth-ca.crt''])]
        else asked (fst (Configure demo_shard)) key (default_of (defaultArgs demo_prepared) key))"
    using shard_command_line [OF run] by blast
  have "asked (fst (Configure demo_shard)) ''v'' d = [Some ''2'']" for d
    unfolding conf by (simp add: asked_def Arguments_Get_def flag_values_def)
  then show ?thesis by (intro exI [of _ flags]) (simp add: flags)
qed

end
