(* ===== verification/Plane.thy ===== *)
theory Plane
  imports ShardLife
begin

text \<open>
  \<^verbatim>\<open>envtest/internal/controlplane/plane.go\<close> and \<^verbatim>\<open>kubectl.go\<close>: \<open>Kcp\<close> starts its root shard
  and provisions a default user with a kubeconfig; a provisioned user's configuration is
  completed from the running shard.
\<close>

subsection \<open>URLs as strings\<close>

text \<open>\<open>net/url\<close>: \<open>String\<close> escapes the bytes that are not allowed in a host or a path.\<close>

definition unreserved :: "char \<Rightarrow> bool" where
  "unreserved c \<longleftrightarrow> c \<in> set ''ABCDEFGHIJKLMNOPQRSTUVWXYZabcdefghijklmnopqrstuvwxyz0123456789-_.~''"

definition host_char :: "char \<Rightarrow> bool" where
  "host_char c \<longleftrightarrow> unreserved c \<or> c \<in> set ''!$&()*+,;=:[]<>'' \<or> c = CHR 0x27 \<or> c = CHR 0x22"

definition path_char :: "char \<Rightarrow> bool" where
  "path_char c \<longleftrightarrow> unreserved c \<or> c \<in> set ''$&+,/:;=@''"

definition url_escape :: "(char \<Rightarrow> bool) \<Rightarrow> string \<Rightarrow> string" where
  "url_escape allowed s = concat (map (\<lambda>c. if allowed c then [c]
     else [CHR ''%'', ''0123456789ABCDEF'' ! (of_char c div 16), ''0123456789ABCDEF'' ! (of_char c mod 16)]) s)"

definition url_String :: "url \<Rightarrow> string" where
  "url_String u =
     (let path = (if u_Path u = ''*'' then ''*'' else url_escape path_char (u_Path u));
          start = (if u_Scheme u = [] then [] else u_Scheme u @ '':'') @
                  (if u_Scheme u = [] \<and> u_Host u = [] then []
                   else (if u_Host u \<noteq> [] \<or> u_Path u \<noteq> [] then ''//'' else []) @ url_escape host_char (u_Host u)) @
                  (if path \<noteq> [] \<and> hd path \<noteq> CHR ''/'' \<and> u_Host u \<noteq> [] then ''/'' else [])
      in start @ (if start = [] \<and> CHR '':'' \<in> set (takeWhile (\<lambda>c. c \<noteq> CHR ''/'') path) then ''./'' else []) @ path)"

subsection \<open>Kubeconfig files\<close>

record kube_cluster =
  kl_Server :: string
  kl_CertificateAuthorityData :: string

record kube_auth_info =
  ki_ClientCertificateData :: string
  ki_ClientKeyData :: string
  ki_Token :: string
  ki_Username :: string
  ki_Password :: string

record kube_context =
  kx_Cluster :: string
  kx_AuthInfo :: string

record kube_config =
  kf_Clusters :: "string \<rightharpoonup> kube_cluster"
  kf_AuthInfos :: "string \<rightharpoonup> kube_auth_info"
  kf_Contexts :: "string \<rightharpoonup> kube_context"
  kf_CurrentContext :: string

text \<open>
  What the code calls: client-go's \<open>IsConfigTransportTLS\<close> and \<open>clientcmd.Write\<close>, the host
  that \<open>url.Parse\<close> finds, and the creation of and writing to temporary files.
\<close>

record 'w kube_env =
  ke_IsConfigTransportTLS :: "user_config \<Rightarrow> bool"
  ke_ParseHost :: "string \<Rightarrow> string result"
  ke_Write :: "kube_config \<Rightarrow> string result"
  ke_CreateTemp :: "string \<Rightarrow> string \<Rightarrow> 'w \<Rightarrow> string result \<times> 'w"
  ke_WriteOut :: "string \<Rightarrow> string \<Rightarrow> 'w \<Rightarrow> error option \<times> 'w"

definition envtestName :: string where "envtestName = ''envtest''"

definition kube_config_of :: "string \<Rightarrow> string \<Rightarrow> user_config \<Rightarrow> kube_config" where
  "kube_config_of protocol host cfg =
     \<lparr> kf_Clusters = [envtestName \<mapsto>
         \<lparr> kl_Server = url_String \<lparr> u_Scheme = protocol, u_Host = host, u_Path = uc_APIPath cfg \<rparr>,
           kl_CertificateAuthorityData = uc_CAData cfg \<rparr>],
       kf_AuthInfos = [envtestName \<mapsto>
         \<lparr> ki_ClientCertificateData = uc_CertData cfg, ki_ClientKeyData = uc_KeyData cfg, ki_Token = uc_BearerToken cfg,
           ki_Username = uc_Username cfg, ki_Password = uc_Password cfg \<rparr>],
       kf_Contexts = [envtestName \<mapsto> \<lparr> kx_Cluster = envtestName, kx_AuthInfo = envtestName \<rparr>],
       kf_CurrentContext = envtestName \<rparr>"

definition KubeConfigFromREST :: "'w kube_env \<Rightarrow> user_config \<Rightarrow> string result" where
  "KubeConfigFromREST V cfg =
     (let protocol = (if \<not> ke_IsConfigTransportTLS V cfg then ''http'' else ''https'')
      in case ke_ParseHost V (uc_Host cfg) of
           Inl err \<Rightarrow> Inl (Errorf ''unable to interpret config's host value as a URL: %w'' [] [err])
         | Inr host \<Rightarrow>
             (case ke_Write V (kube_config_of protocol host cfg) of
                Inl err \<Rightarrow> Inl (Errorf ''unable to serialize kubeconfig file: %w'' [] [err])
              | Inr contents \<Rightarrow> Inr contents))"

record kube_ctl =
  kc_Path :: string
  kc_Opts :: "string list"

text \<open>\<open>run\<close> is the execution of the command, with its output and error.\<close>

definition KubeCtl_Run ::
  "(string \<Rightarrow> string \<Rightarrow> string) \<Rightarrow> (string \<Rightarrow> string list \<Rightarrow> 'o) \<Rightarrow> string list \<Rightarrow> kube_ctl \<Rightarrow> 'o \<times> kube_ctl" where
  "KubeCtl_Run find_bin run args k =
     (let k = (if kc_Path k = [] then k\<lparr> kc_Path := find_bin ''kubectl'' [] \<rparr> else k)
      in (run (kc_Path k) (kc_Opts k @ args), k))"

subsection \<open>Kcp and its users\<close>

record ('k, 'c) kcp =
  kp_RootShard :: "('k, 'c) shard option"
  kp_KubectlPath :: string
  kp_defaultUserCfg :: "user_config option"
  kp_defaultUserKubectl :: "kube_ctl option"

text \<open>The handle a user has of its \<open>Kcp\<close> is an argument of the operations.\<close>

record auth_user =
  us_cfg :: user_config
  us_cfgIsComplete :: bool
  us_kubectl :: "kube_ctl option"

definition nil_dereference :: string where
  "nil_dereference = ''invalid memory address or nil pointer dereference''"

definition not_started :: string where
  "not_started = ''the API server has not yet been started, please do that before accessing connection details''"

definition User_Config :: "('k, 'c) kcp \<Rightarrow> auth_user \<Rightarrow> user_config outcome \<times> auth_user" where
  "User_Config plane u =
     (if us_cfgIsComplete u then (Ret (us_cfg u), u)
      else case kp_RootShard plane of
        None \<Rightarrow> (Panic nil_dereference, u)
      | Some s \<Rightarrow>
          if sh_CA s = [] then (Panic not_started, u)
          else let cfg = (us_cfg u)\<lparr> uc_CAData := sh_CA s,
                       uc_Host := url_String (ListenAddr_URL (sh_ListenAddr s) ''https'' ''/'') \<rparr>
               in (Ret cfg, u\<lparr> us_cfg := cfg, us_cfgIsComplete := True \<rparr>))"

definition User_KubeConfig :: "'w kube_env \<Rightarrow> ('k, 'c) kcp \<Rightarrow> auth_user \<Rightarrow> string result outcome" where
  "User_KubeConfig V plane u = bind_outcome (fst (User_Config plane u)) (\<lambda>cfg. Ret (KubeConfigFromREST V cfg))"

definition User_Kubectl ::
  "'w kube_env \<Rightarrow> ('k, 'c) kcp \<Rightarrow> auth_user \<Rightarrow> 'w \<Rightarrow> kube_ctl result outcome \<times> auth_user \<times> 'w" where
  "User_Kubectl V plane u w =
     (case us_kubectl u of
        Some k \<Rightarrow> (Ret (Inr k), u, w)
      | None \<Rightarrow>
          (case kp_RootShard plane of
             None \<Rightarrow> (Panic nil_dereference, u, w)
           | Some s \<Rightarrow>
               if sh_RootDir s = [] then (Panic not_started, u, w)
               else case ke_CreateTemp V (sh_RootDir s) ''*.kubecfg'' w of
                 (Inl err, w1) \<Rightarrow> (Ret (Inl (Errorf ''unable to create file for kubeconfig: %w'' [] [err])), u, w1)
               | (Inr name, w1) \<Rightarrow>
                   (case User_Config plane u of
                      (Panic m, u1) \<Rightarrow> (Panic m, u1, w1)
                    | (Ret cfg, u1) \<Rightarrow>
                        (case KubeConfigFromREST V cfg of
                           Inl err \<Rightarrow> (Ret (Inl err), u1, w1)
                         | Inr contents \<Rightarrow>
                             (case ke_WriteOut V name contents w1 of
                                (Some err, w2) \<Rightarrow>
                                  (Ret (Inl (Errorf ''unable to write kubeconfig to disk at %s: %w'' [name] [err])), u1, w2)
                              | (None, w2) \<Rightarrow>
                                  let k = \<lparr> kc_Path = kp_KubectlPath plane, kc_Opts = [''--kubeconfig='' @ name] \<rparr>
                                  in (Ret (Inr k), u1\<lparr> us_kubectl := Some k \<rparr>, w2))))))"

definition GetRootShard :: "('k, 'c) kcp \<Rightarrow> ('k, 'c) shard \<times> ('k, 'c) kcp" where
  "GetRootShard f = (case kp_RootShard f of
      Some s \<Rightarrow> (s, f)
    | None \<Rightarrow> (zero_shard, f\<lparr> kp_RootShard := Some zero_shard \<rparr>))"

text \<open>A nil base configuration is replaced by an empty one.\<close>

definition Kcp_AddUser ::
  "('k, 'c, 'b, 'ip, 'w) shard_env \<Rightarrow> client_info \<Rightarrow> user_config option \<Rightarrow> ('k, 'c) kcp \<Rightarrow> 'w
     \<Rightarrow> auth_user result \<times> ('k, 'c) kcp \<times> 'w" where
  "Kcp_AddUser E user baseConfig f w =
     (case GetRootShard f of
        (s, f) \<Rightarrow>
          (case sh_Authn s of
             None \<Rightarrow> (Inl (Errorf ''no API server authentication is configured yet.  The API server defaults one when Start is called, did you mean to use that?'' [] []), f, w)
           | Some a \<Rightarrow>
               (case Authn_AddUser (se_crypto E) user (case baseConfig of None \<Rightarrow> empty_config | Some c \<Rightarrow> c) a w of
                  (r, a', w') \<Rightarrow>
                    (map_sum (\<lambda>e. e) (\<lambda>cfg. \<lparr> us_cfg = cfg, us_cfgIsComplete = False, us_kubectl = None \<rparr>) r,
                     f\<lparr> kp_RootShard := Some (s\<lparr> sh_Authn := Some a' \<rparr>) \<rparr>, w'))))"

definition default_user :: client_info where
  "default_user = \<lparr> ci_Name = ''default'', ci_Groups = [''system:kcp:admin''] \<rparr>"

definition provision_default ::
  "('k, 'c, 'b, 'ip, 'w) shard_env \<Rightarrow> 'w kube_env \<Rightarrow> ('k, 'c) kcp \<Rightarrow> 'w
     \<Rightarrow> error option outcome \<times> ('k, 'c) kcp \<times> 'w" where
  "provision_default E V f w =
     (case Kcp_AddUser E default_user (Some empty_config) f w of
        (Inl err, f, w) \<Rightarrow> (Ret (Some (Errorf ''unable to provision the default (legacy) user: %w'' [] [err])), f, w)
      | (Inr user, f, w) \<Rightarrow>
          (case User_Kubectl V f user w of
             (Panic m, _, w) \<Rightarrow> (Panic m, f, w)
           | (Ret (Inl err), _, w) \<Rightarrow>
               (Ret (Some (Errorf ''unable to provision the default (legacy) kubeconfig: %w'' [] [err])), f, w)
           | (Ret (Inr kubectl), user, w) \<Rightarrow>
               (case User_Config f user of
                  (Panic m, _) \<Rightarrow> (Panic m, f, w)
                | (Ret cfg, _) \<Rightarrow>
                    (Ret None, f\<lparr> kp_defaultUserCfg := Some cfg, kp_defaultUserKubectl := Some kubectl \<rparr>, w))))"

text \<open>
  \<open>stops\<close> are the signal results and the way the process ends for the deferred \<open>Stop\<close>,
  which runs when \<open>Start\<close> returns an error after the shard has started.
\<close>

type_synonym stop_env = "error option \<times> stop_select \<times> error option"

definition stop_root ::
  "stop_env \<Rightarrow> ('k, 'c) kcp \<times> 'w \<times> os_state \<Rightarrow> error option outcome \<times> ('k, 'c) kcp \<times> 'w \<times> os_state" where
  "stop_root stops st = (case st of (f, w, os) \<Rightarrow>
     (case kp_RootShard f of
        None \<Rightarrow> (Ret None, f, w, os)
      | Some s \<Rightarrow>
          (case stops of (term_err, sel, kill_err) \<Rightarrow>
             (case Shard_Stop term_err sel kill_err (s, w, os) of
                (r, s', w', os') \<Rightarrow> (r, f\<lparr> kp_RootShard := Some s' \<rparr>, w', os')))))"

definition Kcp_Start ::
  "('k, 'c, 'b, 'ip, 'w) shard_env \<Rightarrow> 'w kube_env \<Rightarrow> (error \<Rightarrow> bool) \<Rightarrow> error option \<Rightarrow> start_select \<Rightarrow> stop_env
     \<Rightarrow> ('k, 'c) kcp \<times> 'w \<times> os_state \<Rightarrow> error option outcome \<times> ('k, 'c) kcp \<times> 'w \<times> os_state" where
  "Kcp_Start E V is_not_exist start_err sel stops st = (case st of (f, w, os) \<Rightarrow>
     (case GetRootShard f of (s, f) \<Rightarrow>
        (case Shard_Start E is_not_exist start_err sel (s, w, os) of
           (Some err, s, w, os) \<Rightarrow> (Ret (Some err), f\<lparr> kp_RootShard := Some s \<rparr>, w, os)
         | (None, s, w, os) \<Rightarrow>
             (case provision_default E V (f\<lparr> kp_RootShard := Some s \<rparr>) w of
                (Panic m, f, w) \<Rightarrow> (Panic m, f, w, os)
              | (Ret None, f, w) \<Rightarrow> (Ret None, f, w, os)
              | (Ret (Some err), f, w) \<Rightarrow>
                  (case stop_root stops (f, w, os) of
                     (Panic m, st) \<Rightarrow> (Panic m, st)
                   | (Ret _, st) \<Rightarrow> (Ret (Some err), st))))))"

text \<open>\<open>aggregate\<close> is apimachinery's \<open>NewAggregate\<close>.\<close>

definition Kcp_Stop ::
  "(error list \<Rightarrow> error option) \<Rightarrow> stop_env \<Rightarrow> ('k, 'c) kcp \<times> 'w \<times> os_state
     \<Rightarrow> error option outcome \<times> ('k, 'c) kcp \<times> 'w \<times> os_state" where
  "Kcp_Stop aggregate stops st =
     (case stop_root stops st of
        (Panic m, st) \<Rightarrow> (Panic m, st)
      | (Ret None, st) \<Rightarrow> (Ret (aggregate []), st)
      | (Ret (Some err), st) \<Rightarrow> (Ret (aggregate [err]), st))"

end
