(* ===== verification/PlaneLife.thy ===== *)
theory PlaneLife
  imports Plane
begin

text \<open>
  What starting \<open>Kcp\<close> guarantees: the three ways it can end, when the default user's
  configuration points at the running shard, and when it panics.
\<close>

subsection \<open>The serving authority of a prepared shard\<close>

abbreviation same_CA :: "('k, 'c, 'w) shard_state \<Rightarrow> ('k, 'c, 'w) shard_state \<Rightarrow> bool" where
  "same_CA st st' \<equiv> sh_CA (fst st') = sh_CA (fst st)"

abbreviation keeps_CA :: "(('k, 'c, 'w) shard_state \<Rightarrow> error option \<times> ('k, 'c, 'w) shard_state) \<Rightarrow> bool" where
  "keeps_CA \<equiv> always same_CA"

interpretation ca: step_relation same_CA
  by unfold_locales simp_all

lemmas keeps_CA_D = ca.step_result [unfolded fst_conv]

lemmas keeps_CA_and_then [intro] = ca.step_sequence

lemma keeps_CA_init: "keeps_CA (init_process E)"
  by (auto simp: always_def init_process_def Let_def split: prod.splits if_splits)

lemma keeps_CA_ports: "keeps_CA (configurePorts E)"
  unfolding configurePorts_def
  by (intro keeps_CA_and_then; auto simp: always_def suggest_port_def split: if_splits prod.splits sum.splits)

lemma keeps_CA_adopt: "keeps_CA adopt_step"
  by (auto simp: always_def adopt_step_def adopt_process_def Let_def split: option.splits)

lemma keeps_CA_default_authn: "keeps_CA (default_authn E)"
  by (auto simp: always_def default_authn_def split: option.splits prod.splits sum.splits)

lemma keeps_CA_render: "keeps_CA (render_args E)"
  by (auto simp: always_def render_args_def configure_authn_def map_process_def Configure_def Authn_Configure_def Let_def
    split: option.splits)

lemma keeps_CA_start_authn: "keeps_CA (start_authn E)"
  by (auto simp: always_def start_authn_def split: option.splits prod.splits)

lemma keeps_CA_start_process: "keeps_CA (start_process start_err sel)"
  by (auto simp: always_def start_process_def split: option.splits prod.splits)

lemma keeps_CA_write_file: "keeps_CA (write_file E name contents)"
  by (auto simp: always_def write_file_def split: prod.splits)

text \<open>An existing serving certificate leaves the authority as it was, otherwise it is a new one.\<close>

lemma populateServingCerts_CA:
  assumes "populateServingCerts E is_not_exist (s, w, os) = (None, s', w', os')"
  shows "se_Stat E (path_Join [sh_RootDir s, ''apiserver.crt'']) w = None \<Longrightarrow> sh_CA s' = sh_CA s"
    and "se_Stat E (path_Join [sh_RootDir s, ''apiserver.crt'']) w \<noteq> None \<Longrightarrow> \<exists>p. sh_CA s' = CertBytes (se_crypto E) p"
  using assms
  by (auto simp: populateServingCerts_def and_then_None_iff Let_def write_file_def
    split: option.splits if_splits prod.splits sum.splits)

text \<open>\<open>ex\<close>: whether the serving certificate exists, as \<open>Stat\<close> sees it.\<close>

definition stat_says :: "('k, 'c, 'b, 'ip, 'w) shard_env \<Rightarrow> bool \<Rightarrow> bool" where
  "stat_says E ex \<longleftrightarrow> (\<forall>path w. (se_Stat E path w = None) = ex)"

lemma setProcessState_CA:
  assumes "setProcessState E is_not_exist (s, w, os) = (None, s', w', os')" and "stat_says E ex"
  shows "if ex then sh_CA s' = sh_CA s else \<exists>p. sh_CA s' = CertBytes (se_crypto E) p"
proof -
  obtain u1 u2 u3 u4 u5 where u: "init_process E (s, w, os) = (None, u1)" "configurePorts E u1 = (None, u2)"
    "adopt_step u2 = (None, u3)" "populateServingCerts E is_not_exist u3 = (None, u4)"
    "default_authn E u4 = (None, u5)" "render_args E u5 = (None, s', w', os')"
    using assms(1) unfolding setProcessState_def by (simp only: and_then_None_iff) blast
  obtain s1 w1 os1 s2 w2 os2 s3 w3 os3 s4 w4 os4 s5 w5 os5 where eqs: "u1 = (s1, w1, os1)" "u2 = (s2, w2, os2)"
    "u3 = (s3, w3, os3)" "u4 = (s4, w4, os4)" "u5 = (s5, w5, os5)"
    by (cases u1; cases u2; cases u3; cases u4; cases u5) blast
  note u = u [unfolded eqs]
  have "sh_CA s3 = sh_CA s" "sh_CA s' = sh_CA s4"
    using keeps_CA_D [OF keeps_CA_init u(1)] keeps_CA_D [OF keeps_CA_ports u(2)] keeps_CA_D [OF keeps_CA_adopt u(3)]
      keeps_CA_D [OF keeps_CA_default_authn u(5)] keeps_CA_D [OF keeps_CA_render u(6)] by simp_all
  moreover have "se_Stat E path w3 = None \<longleftrightarrow> ex" for path using assms(2) by (simp add: stat_says_def)
  ultimately show ?thesis using populateServingCerts_CA [OF u(4)] by auto
qed

lemma Shard_Start_CA:
  assumes "Shard_Start E is_not_exist start_err sel (s, w, os) = (None, s', w', os')" and "stat_says E ex"
  shows "if ex then sh_CA s' = sh_CA s else \<exists>p. sh_CA s' = CertBytes (se_crypto E) p"
proof -
  obtain u1 u2 where u: "setProcessState E is_not_exist (s, w, os) = (None, u1)" "start_authn E u1 = (None, u2)"
    "start_process start_err sel u2 = (None, s', w', os')"
    using assms(1) by (auto simp only: Shard_Start_def shard_prepare_def and_then_None_iff)
  obtain s1 w1 os1 s2 w2 os2 where eqs: "u1 = (s1, w1, os1)" "u2 = (s2, w2, os2)"
    by (cases u1; cases u2) blast
  note u = u [unfolded eqs]
  have "sh_CA s' = sh_CA s1"
    using keeps_CA_D [OF keeps_CA_start_authn u(2)] keeps_CA_D [OF keeps_CA_start_process u(3)] by simp
  then show ?thesis using setProcessState_CA [OF u(1) assms(2)] by simp
qed

subsection \<open>Provisioning the default user\<close>

text \<open>The address and authority of the shard \<open>s\<close> in a configuration.\<close>

definition points_at :: "('k, 'c) shard \<Rightarrow> user_config \<Rightarrow> bool" where
  "points_at s cfg \<longleftrightarrow> uc_CAData cfg = sh_CA s \<and> sh_CA s \<noteq> [] \<and>
     uc_Host cfg = url_String (ListenAddr_URL (sh_ListenAddr s) ''https'' ''/'')"

lemma User_Config_result:
  assumes "kp_RootShard f = Some s" and "\<not> us_cfgIsComplete u"
  shows "sh_CA s = [] \<Longrightarrow> User_Config f u = (Panic not_started, u)"
    and "sh_CA s \<noteq> [] \<Longrightarrow> \<exists>cfg. User_Config f u = (Ret cfg, u\<lparr> us_cfg := cfg, us_cfgIsComplete := True \<rparr>) \<and> points_at s cfg"
  using assms by (simp_all add: User_Config_def points_at_def Let_def)

lemma User_Kubectl_result:
  assumes "kp_RootShard f = Some s" and "\<not> us_cfgIsComplete u" and "us_kubectl u = None" and "sh_RootDir s \<noteq> []"
    and "User_Kubectl V f u w = (r, u', w')"
  shows "sh_CA s = [] \<Longrightarrow> \<nexists>k. r = Ret (Inr k)" and "sh_CA s \<noteq> [] \<Longrightarrow> returned r"
    and "r = Ret (Inr k) \<Longrightarrow> us_cfgIsComplete u' \<and> points_at s (us_cfg u')"
  using assms User_Config_result [OF assms(1,2)]
  by (cases "sh_CA s = []"; force simp: User_Kubectl_def Let_def split: prod.splits sum.splits option.splits)+

lemma Kcp_AddUser_result:
  assumes "kp_RootShard f = Some s" and "sh_Authn s \<noteq> None" and "Kcp_AddUser E user base f w = (r, f', w')"
  shows "\<exists>a. f' = f\<lparr> kp_RootShard := Some (s\<lparr> sh_Authn := Some a \<rparr>) \<rparr>"
    and "r = Inr u \<Longrightarrow> \<not> us_cfgIsComplete u \<and> us_kubectl u = None"
  using assms by (auto simp: Kcp_AddUser_def GetRootShard_def split: prod.splits option.splits)
    (metis map_sum.simps(1,2) sum.exhaust_sel auth_user.select_convs(2,3) Inl_Inr_False Inr_inject)+

lemma provision_default_result:
  assumes "kp_RootShard f = Some s" and "sh_Authn s \<noteq> None" and "sh_RootDir s \<noteq> []"
    and "provision_default E V f w = (r, f', w')"
  shows "\<exists>a. kp_RootShard f' = Some (s\<lparr> sh_Authn := Some a \<rparr>)"
    and "sh_CA s = [] \<Longrightarrow> r \<noteq> Ret None" and "sh_CA s \<noteq> [] \<Longrightarrow> returned r"
    and "r = Ret None \<Longrightarrow> \<exists>cfg k. kp_defaultUserCfg f' = Some cfg \<and> points_at s cfg \<and> kp_defaultUserKubectl f' = Some k"
proof -
  obtain q g v where add: "Kcp_AddUser E default_user (Some empty_config) f w = (q, g, v)" by (metis prod_cases3)
  obtain a where g: "g = f\<lparr> kp_RootShard := Some (s\<lparr> sh_Authn := Some a \<rparr>) \<rparr>"
    using Kcp_AddUser_result(1) [OF assms(1,2) add] by blast
  have "(\<exists>a. kp_RootShard f' = Some (s\<lparr> sh_Authn := Some a \<rparr>)) \<and> (sh_CA s = [] \<longrightarrow> r \<noteq> Ret None) \<and> (sh_CA s \<noteq> [] \<longrightarrow> returned r) \<and>
    (r = Ret None \<longrightarrow> (\<exists>cfg k. kp_defaultUserCfg f' = Some cfg \<and> points_at s cfg \<and> kp_defaultUserKubectl f' = Some k))"
  proof (cases q)
    case (Inl err)
    then show ?thesis using assms(4) add g by (auto simp: provision_default_def)
  next
    case (Inr u)
    let ?s = "s\<lparr> sh_Authn := Some a \<rparr>"
    have root: "kp_RootShard g = Some ?s" using g by simp
    have u: "\<not> us_cfgIsComplete u" "us_kubectl u = None"
      using Kcp_AddUser_result(2) [OF assms(1,2) add Inr] by simp_all
    obtain p u' v' where k: "User_Kubectl V g u v = (p, u', v')" by (metis prod_cases3)
    have dir: "sh_RootDir ?s \<noteq> []" using assms(3) by simp
    note kr = User_Kubectl_result [OF root u dir k]
    consider m where "p = Panic m" | err where "p = Ret (Inl err)" | kc where "p = Ret (Inr kc)"
      by (cases p) (auto elim: sumE)
    then show ?thesis
    proof cases
      case 1
      then show ?thesis using assms(4) add Inr k root kr(2) by (simp add: provision_default_def) blast
    next
      case 2
      then show ?thesis using assms(4) add Inr k root by (auto simp: provision_default_def)
    next
      case 3
      with kr(1,3) have "sh_CA s \<noteq> []" "us_cfgIsComplete u'" "points_at s (us_cfg u')" by (auto simp: points_at_def)
      then show ?thesis using assms(4) add Inr k 3 root by (auto simp: provision_default_def User_Config_def)
    qed
  qed
  then show "\<exists>a. kp_RootShard f' = Some (s\<lparr> sh_Authn := Some a \<rparr>)"
    and "sh_CA s = [] \<Longrightarrow> r \<noteq> Ret None" and "sh_CA s \<noteq> [] \<Longrightarrow> returned r"
    and "r = Ret None \<Longrightarrow> \<exists>cfg k. kp_defaultUserCfg f' = Some cfg \<and> points_at s cfg \<and> kp_defaultUserKubectl f' = Some k"
    by blast+
qed

subsection \<open>The outcome of Start\<close>

lemma Process_Stop_signalled:
  assumes "Process_Stop None (Ended e) kill_err ps os = (r, ps', os')" and "ps_Cmd ps = Some (Some pid)" and "\<not> ps_exited ps"
  shows "r = Ret None"
  using assms by (simp add: Process_Stop_def Process_Exited_def Let_def wait_exit_def)

lemma Shard_Stop_signalled:
  assumes "running_shard temp pid s" and "Shard_Stop None (Ended e) kill_err (s, w, os) = (r, s', w', os')"
  shows "os_running os' = os_running os - {pid}"
proof -
  obtain ps where ps: "sh_processState s = Some ps" "ps_Cmd ps = Some (Some pid)" "\<not> ps_exited ps" "sh_Authn s \<noteq> None"
    using assms(1) by (auto simp: running_shard_def)
  obtain q ps' os1 where stop: "Process_Stop None (Ended e) kill_err ps os = (q, ps', os1)" by (metis prod_cases3)
  have "q = Ret None" by (rule Process_Stop_signalled [OF stop ps(2,3)])
  then have "r = Ret None"
    using assms(2) ps stop by (auto simp: Shard_Stop_def Authn_Stop_def Let_def split: option.splits if_splits)
  then show ?thesis using Shard_Stop_running(2) [OF assms] by simp
qed

lemma running_shard_Authn: "running_shard temp pid s \<Longrightarrow> running_shard temp pid (s\<lparr> sh_Authn := Some a \<rparr>)"
  by (simp add: running_shard_def)

lemma stop_root_running:
  assumes "kp_RootShard f = Some s" and "running_shard temp pid s" and "stop_root stops (f, w, os) = (r, f', w', os')"
  shows "returned r" and "\<exists>s'. kp_RootShard f' = Some s' \<and> (if temp then sh_RootDir s' = [] \<and> sh_RootDir s \<notin> os_dirs os'
      else sh_RootDir s' = sh_RootDir s)"
    and "r = Ret None \<Longrightarrow> os_running os' = os_running os - {pid}"
    and "stops = (None, Ended e, kill_err) \<Longrightarrow> os_running os' = os_running os - {pid}"
proof -
  obtain term_err sel kill_err' where stops: "stops = (term_err, sel, kill_err')" by (cases stops)
  obtain s' where stop: "Shard_Stop term_err sel kill_err' (s, w, os) = (r, s', w', os')" and f': "kp_RootShard f' = Some s'"
    using assms(1,3) stops by (auto simp: stop_root_def split: prod.splits)
  note facts = Shard_Stop_running [OF assms(2) stop]
  show "returned r" by (rule facts(1))
  show "\<exists>s'. kp_RootShard f' = Some s' \<and> (if temp then sh_RootDir s' = [] \<and> sh_RootDir s \<notin> os_dirs os'
      else sh_RootDir s' = sh_RootDir s)"
    using facts(3,4) f' by simp
  show "os_running os' = os_running os - {pid}" if "r = Ret None" by (rule facts(2) [OF that])
  show "os_running os' = os_running os - {pid}" if "stops = (None, Ended e, kill_err)"
    using Shard_Stop_signalled [OF assms(2), of e kill_err w os r s' w' os'] stop that stops by simp
qed

lemma Kcp_Start_cases:
  assumes "Kcp_Start E V is_not_exist start_err sel stops (f, w, os) = (r, f', w', os')"
    and "\<forall>w. fst (se_MkdirTemp E w) \<noteq> Inr []"
  obtains (failed) err s where "Shard_Start E is_not_exist start_err sel (fst (GetRootShard f), w, os) = (Some err, s, w', os')"
      "r = Ret (Some err)" "kp_RootShard f' = Some s"
  | (panicked) s w1 os1 a m where
      "Shard_Start E is_not_exist start_err sel (fst (GetRootShard f), w, os) = (None, s, w1, os1)"
      "r = Panic m" "sh_CA s = []" "kp_RootShard f' = Some (s\<lparr> sh_Authn := Some a \<rparr>)" "os' = os1"
  | (ready) s w1 os1 a cfg k where
      "Shard_Start E is_not_exist start_err sel (fst (GetRootShard f), w, os) = (None, s, w1, os1)"
      "r = Ret None" "kp_RootShard f' = Some (s\<lparr> sh_Authn := Some a \<rparr>)" "os' = os1"
      "kp_defaultUserCfg f' = Some cfg" "points_at s cfg" "kp_defaultUserKubectl f' = Some k"
  | (stopped) s w1 os1 a err g w2 q where
      "Shard_Start E is_not_exist start_err sel (fst (GetRootShard f), w, os) = (None, s, w1, os1)"
      "r = Ret (Some err)" "kp_RootShard g = Some (s\<lparr> sh_Authn := Some a \<rparr>)" "stop_root stops (g, w2, os1) = (q, f', w', os')"
proof -
  obtain s0 f0 where root: "GetRootShard f = (s0, f0)" by (cases "GetRootShard f")
  obtain q s w1 os1 where start: "Shard_Start E is_not_exist start_err sel (s0, w, os) = (q, s, w1, os1)" by (metis prod_cases4)
  show thesis
  proof (cases q)
    case (Some err)
    then have "r = Ret (Some err)" "f' = f0\<lparr> kp_RootShard := Some s \<rparr>" "w' = w1" "os' = os1"
      using assms(1) root start by (simp_all add: Kcp_Start_def)
    then show thesis using failed start root Some by simp
  next
    case None
    note run = Shard_Start_running [OF start [unfolded None]]
    let ?f = "f0\<lparr> kp_RootShard := Some s \<rparr>"
    obtain p g w2 where prov: "provision_default E V ?f w1 = (p, g, w2)" by (metis prod_cases3)
    have "kp_RootShard ?f = Some s" "sh_Authn s \<noteq> None" "sh_RootDir s \<noteq> []"
      using run(1) run(4) [OF assms(2)] by (simp_all add: running_shard_def)
    note pr = provision_default_result [OF this prov]
    obtain a where g: "kp_RootShard g = Some (s\<lparr> sh_Authn := Some a \<rparr>)" using pr(1) by blast
    have step: "(r, f', w', os') = (case (p, g, w2) of
        (Panic m, f, w) \<Rightarrow> (Panic m, f, w, os1) | (Ret None, f, w) \<Rightarrow> (Ret None, f, w, os1)
      | (Ret (Some err), f, w) \<Rightarrow>
          (case stop_root stops (f, w, os1) of (Panic m, st) \<Rightarrow> (Panic m, st) | (Ret _, st) \<Rightarrow> (Ret (Some err), st)))"
      using root start None prov assms(1) by (simp add: Kcp_Start_def)
    have start': "Shard_Start E is_not_exist start_err sel (fst (GetRootShard f), w, os) = (None, s, w1, os1)"
      using start None root by simp
    consider m where "p = Panic m" | "p = Ret None" | err where "p = Ret (Some err)" by (cases p) (auto elim: option.exhaust)
    then show thesis
    proof cases
      case 1
      then show thesis using panicked [OF start' _ _ _ _, of m a] pr(3) step g by fastforce
    next
      case 2
      then show thesis using ready [OF start'] pr(4) step g by auto
    next
      case 3
      obtain x h w3 os3 where stop: "stop_root stops (g, w2, os1) = (x, h, w3, os3)" by (metis prod_cases4)
      then show thesis
        using stopped [OF start' _ g, of err w2 x] stop_root_running(1) [OF g running_shard_Authn [OF run(1)] stop] 3 step
        by (cases x) auto
    qed
  qed
qed

text \<open>
  Property C24. The outcomes of starting \<open>Kcp\<close>. On success the shard runs, and the default user has
  a kubectl and a configuration that points at its address and trusts its authority. An error is
  one of two: the shard itself did not start, and \<open>Start\<close> returns its error with the shard, the
  processes and the files as \<open>Shard.Start\<close> left them, nothing being stopped; or the shard runs, the
  default user could not be provisioned, and the shard's \<open>Stop\<close> has been called: a temporary root
  directory is gone and forgotten, any other is kept, and the process has ended when that \<open>Stop\<close>
  returned nil, in particular when the process follows the signal; what \<open>Stop\<close> returned is not
  reported. A panic leaves the process running, and happens only when the shard has no authority.
\<close>

theorem kcp_start_outcome:
  assumes "Kcp_Start E V is_not_exist start_err sel stops (f, w, os) = (r, f', w', os')"
    and "\<forall>w. fst (se_MkdirTemp E w) \<noteq> Inr []"
  shows "case r of
      Ret None \<Rightarrow> (\<exists>s cfg k. kp_RootShard f' = Some s \<and> running_shard (sh_RootDir (fst (GetRootShard f)) = []) (os_next os) s \<and>
        kp_defaultUserCfg f' = Some cfg \<and> points_at s cfg \<and> kp_defaultUserKubectl f' = Some k \<and>
        os_running os' = insert (os_next os) (os_running os))
    | Ret (Some err) \<Rightarrow>
        (\<exists>s. Shard_Start E is_not_exist start_err sel (fst (GetRootShard f), w, os) = (Some err, s, w', os') \<and> kp_RootShard f' = Some s) \<or>
        (\<exists>s w1 os1 a g w2 q s'. Shard_Start E is_not_exist start_err sel (fst (GetRootShard f), w, os) = (None, s, w1, os1) \<and>
          kp_RootShard g = Some (s\<lparr> sh_Authn := Some a \<rparr>) \<and> stop_root stops (g, w2, os1) = (Ret q, f', w', os') \<and>
          kp_RootShard f' = Some s' \<and>
          (if sh_RootDir (fst (GetRootShard f)) = [] then sh_RootDir s' = [] \<and> sh_RootDir s \<notin> os_dirs os' else sh_RootDir s' = sh_RootDir s) \<and>
          (q = None \<or> (\<exists>e kill_err. stops = (None, Ended e, kill_err)) \<longrightarrow> os_running os' = os_running os - {os_next os}))
    | Panic m \<Rightarrow> (\<exists>s. kp_RootShard f' = Some s \<and> sh_CA s = [] \<and> os_running os' = insert (os_next os) (os_running os))"
proof (cases rule: Kcp_Start_cases [OF assms(1,2), case_names failed panicked ready stopped])
  case (failed err s)
  then show ?thesis by simp
next
  case (panicked s w1 os1 a m)
  then show ?thesis using Shard_Start_running(2) [OF panicked(1)] by simp
next
  case (ready s w1 os1 a cfg k)
  then show ?thesis
    using Shard_Start_running(1,2) [OF ready(1)] running_shard_Authn [OF Shard_Start_running(1) [OF ready(1)], of a]
    by (simp add: points_at_def)
next
  case (stopped s w1 os1 a err g w2 q)
  note run = Shard_Start_running [OF stopped(1)]
  note st = stop_root_running [OF stopped(3) running_shard_Authn [OF run(1)] stopped(4)]
  obtain q' where q: "q = Ret q'" using st(1) by (cases q) auto
  have dir: "sh_RootDir (s\<lparr> sh_Authn := Some a \<rparr>) = sh_RootDir s" by simp
  obtain s' where s': "kp_RootShard f' = Some s'" "if sh_RootDir (fst (GetRootShard f)) = [] then sh_RootDir s' = [] \<and> sh_RootDir s \<notin> os_dirs os'
      else sh_RootDir s' = sh_RootDir s"
    using st(2) [unfolded dir] by (elim exE conjE) (rule that)
  have ended: "os_running os' = os_running os - {os_next os}" if "q' = None \<or> (\<exists>e kill_err. stops = (None, Ended e, kill_err))"
    using that st(3,4) q run(2) by auto
  show ?thesis
    unfolding stopped(2) outcome.case option.case
    by (intro disjI2 exI conjI, rule stopped(1), rule stopped(3), rule stopped(4) [unfolded q], rule s'(1), rule s'(2)) (use ended in blast)
qed

text \<open>
  Whether \<open>Kcp\<close> starts depends on the root directory of the shard: with a
  serving certificate already in it \<open>Start\<close> never returns nil, and it panics in no other case.
\<close>

theorem kcp_start_existing_certs:
  assumes "Kcp_Start E V is_not_exist start_err sel stops (f, w, os) = (r, f', w', os')"
    and "\<forall>w. fst (se_MkdirTemp E w) \<noteq> Inr []" and "\<forall>t b. cy_EncodePEM (se_crypto E) t b \<noteq> []"
    and "stat_says E ex" and "sh_CA (fst (GetRootShard f)) = []"
  shows "if ex then r \<noteq> Ret None else returned r"
proof -
  have pem: "CertBytes (se_crypto E) p \<noteq> []" for p using assms(3) by (simp add: CertBytes_def)
  have ca: "sh_CA s = [] \<longleftrightarrow> ex"
    if "Shard_Start E is_not_exist start_err sel (fst (GetRootShard f), w, os) = (None, s, w1, os1)" for s w1 os1
    using Shard_Start_CA [OF that assms(4)] assms(5) by (cases ex) (auto simp: pem [THEN not_sym])
  show ?thesis
  proof (cases rule: Kcp_Start_cases [OF assms(1,2), case_names failed panicked ready stopped])
    case (panicked s w1 os1 a m)
    then show ?thesis using ca [OF panicked(1)] by simp
  next
    case (ready s w1 os1 a cfg k)
    then show ?thesis using ca [OF ready(1)] by (simp add: points_at_def)
  qed simp_all
qed

subsection \<open>Witnesses\<close>

definition demo_kube :: "nat kube_env" where
  "demo_kube = \<lparr> ke_IsConfigTransportTLS = (\<lambda>_. True), ke_ParseHost = (\<lambda>_. Inr ''127.0.0.1:5''), ke_Write = (\<lambda>_. Inr ''kubeconfig''),
     ke_CreateTemp = (\<lambda>dir pattern w. (Inr (dir @ ''/1.kubecfg''), w + 1)), ke_WriteOut = (\<lambda>_ _ w. (None, w)) \<rparr>"

definition demo_kcp :: "(nat, int \<times> nat) kcp" where
  "demo_kcp = \<lparr> kp_RootShard = Some demo_shard, kp_KubectlPath = ''kubectl'', kp_defaultUserCfg = None, kp_defaultUserKubectl = None \<rparr>"

definition demo_plane :: "bool \<Rightarrow> error option outcome \<times> (nat, int \<times> nat) kcp \<times> nat \<times> os_state" where
  "demo_plane ex = Kcp_Start (demo_shard_env ex) demo_kube (\<lambda>_. True) None HealthOK (None, Ended None, None) (demo_kcp, 0, demo_os0)"

lemma demo_plane_ready: "fst (demo_plane False) = Ret None"
  by code_simp

lemma demo_plane_env: "\<forall>w. fst (se_MkdirTemp (demo_shard_env ex) w) \<noteq> Inr []"
  by (simp add: demo_shard_env_def)

text \<open>The default user of a started plane reaches the shard under its address.\<close>

theorem kcp_start_outcome_witness:
  "\<exists>s cfg. kp_RootShard (fst (snd (demo_plane False))) = Some s \<and> kp_defaultUserCfg (fst (snd (demo_plane False))) = Some cfg \<and>
     points_at s cfg \<and> os_running (snd (snd (snd (demo_plane False)))) = {1}"
proof -
  obtain f w os where run: "demo_plane False = (Ret None, f, w, os)" using demo_plane_ready by (cases "demo_plane False") auto
  show ?thesis
    using kcp_start_outcome [OF run [unfolded demo_plane_def] demo_plane_env] unfolding run by (auto simp: demo_os0_def)
qed

text \<open>The same plane over a root directory that holds a certificate does not start.\<close>

theorem kcp_start_existing_certs_witness: "fst (demo_plane True) \<noteq> Ret None"
proof -
  obtain r f w os where run: "demo_plane True = (r, f, w, os)" by (cases "demo_plane True") blast
  have "stat_says (demo_shard_env True) True" by (simp add: stat_says_def demo_shard_env_def)
  moreover have "\<forall>t b. cy_EncodePEM (se_crypto (demo_shard_env True)) t b \<noteq> []"
    by (simp add: demo_shard_env_def demo_keys_def)
  ultimately show ?thesis
    using kcp_start_existing_certs [OF run [unfolded demo_plane_def] demo_plane_env] unfolding run
    by (simp add: GetRootShard_def demo_kcp_def demo_shard_def zero_shard_def)
qed

end
