(* ===== verification/ShardRestart.thy ===== *)
theory ShardRestart
  imports ShardLife
begin

text \<open>
  Starting a shard again after a start that failed: where its temporary directories are, and
  which of them a later \<open>Stop\<close> removes.
\<close>

subsection \<open>Directories of a shard exist\<close>

definition dir_ok :: "os_state \<Rightarrow> string \<Rightarrow> bool" where
  "dir_ok os d \<longleftrightarrow> d = [] \<or> d \<in> os_dirs os"

definition dirs_ok :: "('k, 'c, 'w) shard_state \<Rightarrow> bool" where
  "dirs_ok st \<longleftrightarrow> (case st of (s, w, os) \<Rightarrow> dir_ok os (sh_RootDir s) \<and>
     (case sh_processState s of None \<Rightarrow> True | Some ps \<Rightarrow> dir_ok os (ps_Dir ps)))"

definition dirs_grow :: "('k, 'c, 'w) shard_state \<Rightarrow> ('k, 'c, 'w) shard_state \<Rightarrow> bool" where
  "dirs_grow st st' \<longleftrightarrow> (dirs_ok st \<longrightarrow> dirs_ok st' \<and> os_dirs (snd (snd st)) \<subseteq> os_dirs (snd (snd st')))"

abbreviation keeps_dirs :: "(('k, 'c, 'w) shard_state \<Rightarrow> error option \<times> ('k, 'c, 'w) shard_state) \<Rightarrow> bool" where
  "keeps_dirs \<equiv> always dirs_grow"

interpretation dirs: step_relation dirs_grow
  by unfold_locales (auto simp: dirs_grow_def)

lemmas keeps_dirs_and_then [intro] = dirs.step_sequence

lemma keeps_dirs_D:
  assumes "keeps_dirs f" and "dirs_ok st" and "f st = (r, st')"
  shows "dirs_ok st'" and "os_dirs (snd (snd st)) \<subseteq> os_dirs (snd (snd st'))"
  using dirs.step_result [OF assms(1,3)] assms(2) by (simp_all add: dirs_grow_def)

lemma keeps_dirs_prepares: "prepares f \<Longrightarrow> keeps_dirs f"
  by (auto simp: always_def dirs_grow_def same_process_def dirs_ok_def split: prod.splits) metis+

lemma keeps_dirs_adopt: "keeps_dirs adopt_step"
  by (auto simp: always_def dirs_grow_def dirs_ok_def adopt_step_def adopt_process_def Let_def split: option.splits)

lemma keeps_dirs_default_authn: "keeps_dirs (default_authn E)"
  by (auto simp: always_def dirs_grow_def dirs_ok_def default_authn_def split: option.splits prod.splits sum.splits)

lemma keeps_dirs_render: "keeps_dirs (render_args E)"
  by (auto simp: always_def dirs_grow_def dirs_ok_def render_args_def configure_authn_def map_process_def Configure_def
      Authn_Configure_def Let_def split: option.splits)

lemma keeps_dirs_start_authn: "keeps_dirs (start_authn E)"
  by (auto simp: always_def dirs_grow_def dirs_ok_def start_authn_def split: option.splits prod.splits)

lemma Process_Start_dirs:
  assumes "Process_Start start_err sel ps os = (r, ps', os')"
  shows "ps_Dir ps' = ps_Dir ps" and "os_dirs os' = os_dirs os"
  using assms by (auto simp: Process_Start_def wait_exit_def Let_def split: if_splits option.splits start_select.splits)

lemma keeps_dirs_start_process: "keeps_dirs (start_process start_err sel)"
  by (auto simp: always_def dirs_grow_def dirs_ok_def dir_ok_def start_process_def Process_Start_dirs split: option.splits prod.splits)

lemma init_process_dirs:
  assumes "dir_ok os (sh_RootDir s)" and "init_process E (s, w, os) = (r, u)"
  shows "dirs_ok u" and "os_dirs os \<subseteq> os_dirs (snd (snd u))"
  using assms
  by (auto simp: init_process_def dirs_ok_def dir_ok_def Process_Init_def Let_def split: if_splits sum.splits prod.splits)

lemma Shard_Start_dirs:
  assumes "dir_ok os (sh_RootDir s)" and "Shard_Start E is_not_exist start_err sel (s, w, os) = (r, s', w', os')"
  shows "dir_ok os' (sh_RootDir s')" and "os_dirs os \<subseteq> os_dirs os'"
proof -
  let ?tail = "and_then (configurePorts E) (and_then adopt_step (and_then (populateServingCerts E is_not_exist)
     (and_then (default_authn E) (render_args E))))"
  obtain q u where init: "init_process E (s, w, os) = (q, u)" by (cases "init_process E (s, w, os)")
  note iu = init_process_dirs [OF assms(1) init]
  have eq: "Shard_Start E is_not_exist start_err sel (s, w, os) = (case q of Some err \<Rightarrow> (Some err, u)
      | None \<Rightarrow> and_then (and_then ?tail (start_authn E)) (start_process start_err sel) u)"
    by (simp add: Shard_Start_def shard_prepare_def setProcessState_def and_then_def init split: option.split)
  have kd: "keeps_dirs (and_then (and_then ?tail (start_authn E)) (start_process start_err sel))"
    by (intro keeps_dirs_and_then keeps_dirs_prepares prepares_configurePorts prepares_populateServingCerts keeps_dirs_adopt
      keeps_dirs_default_authn keeps_dirs_render keeps_dirs_start_authn keeps_dirs_start_process)
  have "dirs_ok (s', w', os') \<and> os_dirs os \<subseteq> os_dirs os'"
  proof (cases q)
    case (Some err)
    then show ?thesis using eq assms(2) iu by (cases u) simp
  next
    case None
    then have "and_then (and_then ?tail (start_authn E)) (start_process start_err sel) u = (r, s', w', os')"
      using eq assms(2) by simp
    from keeps_dirs_D [OF kd iu(1) this] show ?thesis using iu(2) by auto
  qed
  then show "dir_ok os' (sh_RootDir s')" and "os_dirs os \<subseteq> os_dirs os'" by (simp_all add: dirs_ok_def)
qed

text \<open>
  A temporary directory is only removed when the first start succeeds. When a
  start fails after the shard took over its temporary directory, the next start takes the
  directory for one the user chose, and the \<open>Stop\<close> that follows leaves it behind.
\<close>

theorem retried_start_leaks_dir:
  assumes "sh_RootDir s = []" and "Shard_Start E is_not_exist start_err sel (s, w, os) = (Some err, s1, w1, os1)"
    and "sh_RootDir s1 \<noteq> []"
    and "Shard_Start E is_not_exist start_err' sel' (s1, w1, os1) = (None, s2, w2, os2)"
    and "Shard_Stop term_err stop_sel kill_err (s2, w2, os2) = (r, s3, w3, os3)"
  shows "sh_RootDir s1 \<in> os_dirs os3 \<and> sh_RootDir s3 = sh_RootDir s1"
proof -
  have "dir_ok os (sh_RootDir s)" using assms(1) by (simp add: dir_ok_def)
  then have d1: "sh_RootDir s1 \<in> os_dirs os1" using Shard_Start_dirs(1) [OF _ assms(2)] assms(3) by (simp add: dir_ok_def)
  then have d2: "sh_RootDir s1 \<in> os_dirs os2" using Shard_Start_dirs(2) [OF _ assms(4)] by (auto simp: dir_ok_def)
  have run: "running_shard False (os_next os1) s2" "sh_RootDir s2 = sh_RootDir s1"
    using Shard_Start_running(1,3) [OF assms(4)] assms(3) by simp_all
  then obtain ps where ps: "sh_processState s2 = Some ps" "\<not> ps_DirNeedsCleaning ps"
    by (auto simp: running_shard_def)
  obtain q ps' os4 where stop: "Process_Stop term_err stop_sel kill_err ps os2 = (q, ps', os4)" by (metis prod_cases3)
  have "os_dirs os4 = os_dirs os2"
    using stop ps(2) by (auto simp: Process_Stop_def wait_exit_def clean_dir_def send_signal_def Let_def
      split: if_splits option.splits stop_select.splits)
  moreover have "os3 = os4"
    using assms(5) ps stop by (auto simp: Shard_Stop_def Let_def split: outcome.splits option.splits if_splits)
  ultimately show ?thesis using d2 run Shard_Stop_running(4) [OF run(1) assms(5)] by simp
qed

subsection \<open>Witness\<close>

definition demo_slow :: "error option \<times> (nat, int \<times> nat) shard \<times> nat \<times> os_state" where
  "demo_slow = Shard_Start (demo_shard_env False) (\<lambda>_. True) None StartTimedOut (demo_shard, 0, demo_os0)"

definition demo_again :: "error option \<times> (nat, int \<times> nat) shard \<times> nat \<times> os_state" where
  "demo_again = Shard_Start (demo_shard_env False) (\<lambda>_. True) None HealthOK (snd demo_slow)"

definition demo_end :: "error option outcome \<times> (nat, int \<times> nat) shard \<times> nat \<times> os_state" where
  "demo_end = Shard_Stop None (Ended None) None (snd demo_again)"

lemma demo_restart:
  "fst demo_slow \<noteq> None" "sh_RootDir (fst (snd demo_slow)) = ''/t''" "fst demo_again = None"
  by code_simp+

theorem retried_start_leaks_dir_witness: "''/t'' \<in> os_dirs (snd (snd (snd demo_end)))"
proof -
  obtain r0 s1 w1 os1 where 1: "demo_slow = (r0, s1, w1, os1)" by (cases demo_slow) blast
  obtain r1 s2 w2 os2 where 2: "demo_again = (r1, s2, w2, os2)" by (cases demo_again) blast
  obtain r2 s3 w3 os3 where 3: "demo_end = (r2, s3, w3, os3)" by (cases demo_end) blast
  obtain err where r0: "r0 = Some err" using demo_restart(1) unfolding 1 by (cases r0) auto
  have start: "Shard_Start (demo_shard_env False) (\<lambda>_. True) None StartTimedOut (demo_shard, 0, demo_os0) = (Some err, s1, w1, os1)"
    using 1 unfolding r0 demo_slow_def .
  have again: "Shard_Start (demo_shard_env False) (\<lambda>_. True) None HealthOK (s1, w1, os1) = (None, s2, w2, os2)"
    using 2 demo_restart(3) unfolding demo_again_def 1 by simp
  have stop: "Shard_Stop None (Ended None) None (s2, w2, os2) = (r2, s3, w3, os3)"
    using 3 unfolding demo_end_def 2 by simp
  have "sh_RootDir s1 = ''/t''" using demo_restart(2) unfolding 1 by simp
  moreover have "sh_RootDir demo_shard = []" by (simp add: demo_shard_def zero_shard_def)
  ultimately show ?thesis using retried_start_leaks_dir [OF _ start _ again stop] unfolding 3 by simp
qed

end
