(* ===== verification/Durations.thy ===== *)
theory Durations
  imports Addr
begin

text \<open>
  The durations of Go's \<^verbatim>\<open>time\<close> package that \<^verbatim>\<open>envtest/server.go\<close> and \<^verbatim>\<open>envtest/sharded.go\<close>
  read from variables and print in errors: \<open>ParseDuration\<close> and \<open>Duration.String\<close>. A duration
  is a number of nanoseconds, 64 bits wide with sign.
\<close>

subsection \<open>Rounding to 53 bits\<close>

text \<open>
  A fraction such as the one of \<open>1.5h\<close> is scaled in \<open>float64\<close>. A positive float is a pair of
  positive integers, its numerator and denominator; \<open>round53\<close> rounds a quotient to the nearest
  float, ties to even. The numbers here are far from the ends of the exponent range.
\<close>

function bit_length :: "int \<Rightarrow> nat" where
  "bit_length n = (if n \<le> 0 then 0 else Suc (bit_length (n div 2)))"
  by pat_completeness auto
termination by (relation "measure nat") auto

declare bit_length.simps [simp del]

definition shift :: "int \<Rightarrow> int \<Rightarrow> int \<times> int \<Rightarrow> int \<times> int" where
  "shift base k = (\<lambda>(n, d). if 0 \<le> k then (n * base ^ nat k, d) else (n, d * base ^ nat (- k)))"

definition round53 :: "int \<times> int \<Rightarrow> int \<times> int" where
  "round53 x =
     (let k0 = 53 - (int (bit_length (fst x)) - int (bit_length (snd x)));
          k = (case shift 2 k0 x of (n, d) \<Rightarrow> if n \<ge> d * 2 ^ 53 then k0 - 1 else k0)
      in case shift 2 k x of (n, d) \<Rightarrow>
           let q = n div d; r = 2 * (n mod d);
               q = (if r > d \<or> r = d \<and> odd q then q + 1 else q)
           in shift 2 (- k) (q, 1))"

definition fl_mult :: "int \<times> int \<Rightarrow> int \<times> int \<Rightarrow> int \<times> int" where
  "fl_mult x y = round53 (fst x * fst y, snd x * snd y)"

definition fl_div :: "int \<times> int \<Rightarrow> int \<times> int \<Rightarrow> int \<times> int" where
  "fl_div x y = round53 (fst x * snd y, snd x * fst y)"

text \<open>\<open>uint64(float64(f) * (float64(unit) / scale))\<close>.\<close>

definition scaled_fraction :: "int \<Rightarrow> int \<Rightarrow> int \<Rightarrow> int" where
  "scaled_fraction f unit scale =
     (case fl_mult (round53 (f, 1)) (fl_div (unit, 1) (scale, 1)) of (n, d) \<Rightarrow> n div d)"

subsection \<open>Parsing\<close>

definition digit_int :: "char \<Rightarrow> int" where
  "digit_int c = of_char c - 48"

text \<open>\<open>leadingInt\<close>: \<open>None\<close> is overflow.\<close>

fun leading_int :: "int \<Rightarrow> string \<Rightarrow> (int \<times> string) option" where
  "leading_int x [] = Some (x, [])"
| "leading_int x (c # s) =
     (if \<not> is_digit c then Some (x, c # s)
      else if x > 2 ^ 63 div 10 then None
      else let y = x * 10 + digit_int c in if y > 2 ^ 63 then None else leading_int y s)"

text \<open>\<open>leadingFraction\<close>: digits that no longer fit are skipped.\<close>

fun leading_fraction :: "bool \<Rightarrow> int \<Rightarrow> int \<Rightarrow> string \<Rightarrow> int \<times> int \<times> string" where
  "leading_fraction overflow x scale [] = (x, scale, [])"
| "leading_fraction overflow x scale (c # s) =
     (if \<not> is_digit c then (x, scale, c # s)
      else if overflow \<or> x > (2 ^ 63 - 1) div 10 then leading_fraction True x scale s
      else let y = x * 10 + digit_int c
           in if y > 2 ^ 63 then leading_fraction True x scale s else leading_fraction False y (scale * 10) s)"

definition unit_map :: "string \<Rightarrow> int option" where
  "unit_map = map_of [(''ns'', 1), (''us'', 1000), ([CHR 0xC2, CHR 0xB5, CHR ''s''], 1000),
     ([CHR 0xCE, CHR 0xBC, CHR ''s''], 1000), (''ms'', 1000000), (''s'', 1000000000),
     (''m'', 60000000000), (''h'', 3600000000000)]"

definition invalid_duration :: error where
  "invalid_duration = Foreign ''time: invalid duration''"

definition unit_char :: "char \<Rightarrow> bool" where
  "unit_char c \<longleftrightarrow> \<not> (c = CHR ''.'' \<or> is_digit c)"

text \<open>One number with its unit: its value and what follows.\<close>

definition fraction_part :: "string \<Rightarrow> int \<times> int \<times> bool \<times> string" where
  "fraction_part s =
     (case s of
        [] \<Rightarrow> (0, 1, False, s)
      | c # s' \<Rightarrow>
          if c = CHR ''.''
          then (case leading_fraction False 0 1 s' of (f, scale, rest) \<Rightarrow> (f, scale, length rest \<noteq> length s', rest))
          else (0, 1, False, s))"

definition duration_part :: "string \<Rightarrow> (int \<times> string) result" where
  "duration_part s =
     (if s = [] \<or> \<not> (hd s = CHR ''.'' \<or> is_digit (hd s)) then Inl invalid_duration
      else case leading_int 0 s of
        None \<Rightarrow> Inl invalid_duration
      | Some (v, s1) \<Rightarrow>
          (case fraction_part s1 of
             (f, scale, post, s2) \<Rightarrow>
               if length s1 = length s \<and> \<not> post then Inl invalid_duration
               else let u = takeWhile unit_char s2; rest = dropWhile unit_char s2
                    in if u = [] then Inl (Foreign ''time: missing unit in duration'')
                       else case unit_map u of
                         None \<Rightarrow> Inl (Foreign ''time: unknown unit in duration'')
                       | Some unit \<Rightarrow>
                           if v > 2 ^ 63 div unit then Inl invalid_duration
                           else let w = v * unit + (if f > 0 then scaled_fraction f unit scale else 0)
                                in if w > 2 ^ 63 then Inl invalid_duration else Inr (w, rest)))"

lemma leading_int_rest: "leading_int x s = Some (v, rest) \<Longrightarrow> length rest \<le> length s"
  by (induction x s rule: leading_int.induct) (auto simp: Let_def le_SucI split: if_splits)

lemma leading_fraction_rest: "leading_fraction b x sc s = (f, sc', rest) \<Longrightarrow> length rest \<le> length s"
  by (induction b x sc s rule: leading_fraction.induct) (auto simp: Let_def le_SucI split: if_splits)

lemma fraction_part_rest: "fraction_part s = (f, sc, post, rest) \<Longrightarrow> length rest \<le> length s"
  by (auto simp: fraction_part_def dest!: leading_fraction_rest split: list.splits prod.splits if_splits)

lemma duration_part_shorter:
  assumes "duration_part s = Inr (w, rest)"
  shows "length rest < length s"
proof -
  obtain v s1 where v: "leading_int 0 s = Some (v, s1)"
    using assms by (auto simp: duration_part_def split: if_splits option.splits)
  obtain f sc post s2 where f: "fraction_part s1 = (f, sc, post, s2)" by (metis prod_cases4)
  have "rest = dropWhile unit_char s2 \<and> takeWhile unit_char s2 \<noteq> []"
    using assms by (auto simp: duration_part_def v f Let_def split: if_splits option.splits)
  then have "length rest < length s2"
    by (metis append_Nil length_append length_greater_0_conv less_add_same_cancel2 takeWhile_dropWhile_id)
  then show ?thesis using leading_int_rest [OF v] fraction_part_rest [OF f] by simp
qed

function parse_parts :: "int \<Rightarrow> string \<Rightarrow> int result" where
  "parse_parts d s =
     (if s = [] then Inr d
      else case duration_part s of
        Inl err \<Rightarrow> Inl err
      | Inr (v, rest) \<Rightarrow> if d + v > 2 ^ 63 then Inl invalid_duration else parse_parts (d + v) rest)"
  by pat_completeness auto
termination
  by (relation "measure (\<lambda>(d, s). length s)") (auto dest: duration_part_shorter)

declare parse_parts.simps [simp del]

definition ParseDuration :: "string \<Rightarrow> int result" where
  "ParseDuration orig =
     (let neg = has_prefix orig ''-''; s = (if neg \<or> has_prefix orig ''+'' then tl orig else orig)
      in if s = ''0'' then Inr 0
         else if s = [] then Inl invalid_duration
         else case parse_parts 0 s of
           Inl err \<Rightarrow> Inl err
         | Inr d \<Rightarrow> if neg then Inr (- d) else if d > 2 ^ 63 - 1 then Inl invalid_duration else Inr d)"

subsection \<open>Printing\<close>

function print_int :: "int \<Rightarrow> string \<Rightarrow> string" where
  "print_int n buf =
     (if n < 10 then char_of (48 + n) # buf else print_int (n div 10) (char_of (48 + n mod 10) # buf))"
  by pat_completeness auto
termination by (relation "measure (\<lambda>(n, buf). nat n)") auto

declare print_int.simps [simp del]

text \<open>\<open>fmtFrac\<close>: up to \<open>prec\<close> digits of the fraction, without trailing zeros.\<close>

fun fmt_frac :: "nat \<Rightarrow> bool \<Rightarrow> int \<Rightarrow> string \<Rightarrow> string \<times> int" where
  "fmt_frac 0 shown v buf = (if shown then CHR ''.'' # buf else buf, v)"
| "fmt_frac (Suc prec) shown v buf =
     (let d = v mod 10; shown = shown \<or> d \<noteq> 0
      in fmt_frac prec shown (v div 10) (if shown then char_of (48 + d) # buf else buf))"

definition Duration_String :: "int \<Rightarrow> string" where
  "Duration_String d =
     (let u = \<bar>d\<bar>;
          body =
            (if u < 1000000000
             then if u = 0 then ''0s''
                  else if u < 1000 then print_int u ''ns''
                  else if u < 1000000
                  then (case fmt_frac 3 False u [CHR 0xC2, CHR 0xB5, CHR ''s''] of (buf, n) \<Rightarrow> print_int n buf)
                  else (case fmt_frac 6 False u ''ms'' of (buf, n) \<Rightarrow> print_int n buf)
             else (case fmt_frac 9 False u ''s'' of
                (buf, n) \<Rightarrow>
                  let buf = print_int (n mod 60) buf; n = n div 60
                  in if n > 0
                     then let buf = print_int (n mod 60) (CHR ''m'' # buf); n = n div 60
                          in if n > 0 then print_int n (CHR ''h'' # buf) else buf
                     else buf))
      in if d < 0 then CHR ''-'' # body else body)"

subsection \<open>Whole seconds\<close>

lemma is_digit_char: "0 \<le> n \<Longrightarrow> n < 10 \<Longrightarrow> is_digit (char_of (48 + n :: int)) \<and> digit_int (char_of (48 + n :: int)) = n"
proof -
  assume n: "0 \<le> n" "n < 10"
  then have v: "(of_char (char_of (48 + n :: int) :: char) :: int) = 48 + n" by simp
  have "(of_char (char_of (48 + n :: int) :: char) :: nat) = nat (48 + n)"
    using v n by (metis nat_int of_char_of of_nat_of_char)
  then show ?thesis using n v by (simp add: is_digit_def digit_int_def le_nat_iff nat_le_iff)
qed

lemma print_int_cons: "\<exists>c rest. print_int n buf = c # rest \<and> length (print_int n buf) > length buf"
proof (induction n buf rule: print_int.induct)
  case (1 n buf)
  then show ?case by (cases "n < 10") (auto simp: print_int.simps [of n])
qed

lemma print_int_head: "0 \<le> n \<Longrightarrow> is_digit (hd (print_int n buf))"
proof (induction n buf rule: print_int.induct)
  case (1 n buf)
  then show ?case using is_digit_char [of n] by (cases "n < 10") (simp_all add: print_int.simps [of n])
qed

lemma leading_print_int:
  "0 \<le> n \<Longrightarrow> n \<le> 2 ^ 63 \<Longrightarrow> leading_int 0 (print_int n buf) = leading_int n buf"
proof (induction n buf rule: print_int.induct)
  case (1 n buf)
  show ?case
  proof (cases "n < 10")
    case True
    then show ?thesis using is_digit_char [of n] 1(2) by (simp add: print_int.simps [of n])
  next
    case False
    let ?c = "char_of (48 + n mod 10) :: char"
    have c: "is_digit ?c" "digit_int ?c = n mod 10" using is_digit_char [of "n mod 10"] by simp_all
    have le: "\<not> n div 10 > 2 ^ 63 div 10" using 1(3) by (simp add: zdiv_mono1)
    have "leading_int 0 (print_int n buf) = leading_int (n div 10) (?c # buf)"
      using 1 False by (simp add: print_int.simps [of n])
    also have "\<dots> = leading_int n buf"
      using c le 1(3) by (simp only: leading_int.simps Let_def if_False not_True_eq_False) simp
    finally show ?thesis .
  qed
qed

text \<open>A whole number of a unit is parsed to that many units, as long as it fits.\<close>

lemma parse_whole_units:
  assumes "unit_map u = Some unit" and "0 \<le> n" and "n * unit \<le> 2 ^ 63 - 1"
  shows "ParseDuration (print_int n u) = Inr (n * unit)"
proof -
  have u: "1 \<le> unit" "u \<noteq> []" "list_all unit_char u" "hd u \<noteq> CHR ''.''"
    using assms(1) by (auto simp: unit_map_def unit_char_def is_digit_def split: if_splits)
  have "n * 1 \<le> n * unit" using u(1) assms(2) by (intro mult_left_mono) auto
  then have n: "n \<le> 2 ^ 63" using assms(3) by simp
  obtain c rest where s: "print_int n u = c # rest" "length u < length (print_int n u)"
    using print_int_cons by blast
  have c: "is_digit c" using print_int_head [OF assms(2), of u] s(1) by simp
  obtain d us where us: "u = d # us" "unit_char d" using u(2,3) by (cases u) auto
  have li: "leading_int 0 (print_int n u) = Some (n, u)"
    using leading_print_int [OF assms(2) n, of u] us by (simp add: unit_char_def)
  have fp: "fraction_part u = (0, 1, False, u)"
    using u(4) us(1) by (simp add: fraction_part_def)
  have tw: "takeWhile unit_char u = u" "dropWhile unit_char u = []"
    using u(3) by (simp_all add: takeWhile_eq_all_conv dropWhile_eq_Nil_conv list_all_iff)
  have le: "\<not> n > 2 ^ 63 div unit" using zdiv_mono1 [of "n * unit" "2 ^ 63" unit] assms(3) u(1) by simp
  have "hd (print_int n u) = c" "print_int n u \<noteq> []" "length u \<noteq> length (print_int n u)" using s by simp_all
  then have part: "duration_part (print_int n u) = Inr (n * unit, [])"
    using c u(2) assms(1,3) le by (simp add: duration_part_def Let_def li fp tw)
  have "c \<noteq> CHR ''-''" "c \<noteq> CHR ''+''" using c by (auto simp: is_digit_def)
  moreover have "rest \<noteq> []" using s us(1) by auto
  ultimately show ?thesis
    using part assms(3) s(1) by (simp add: ParseDuration_def parse_parts.simps)
qed

text \<open>Both directions, fractions, limits and errors, evaluated.\<close>

lemma durations_evaluated:
  "map ParseDuration [''1.5h'', ''1h30m'', ''-2m'', ''0'', ''.5s'', ''1.1h''] =
     map Inr [5400000000000, 5400000000000, - 120000000000, 0, 500000000, 3960000000000]"
  "list_all (\<lambda>s. is_err (ParseDuration s)) [[], ''-'', ''5'', ''3x'', ''.s'', ''1h 2m'', ''9223372036854775808ns'']"
  "map Duration_String [90000000000, 120000000000, 0, -1500000, 100, 5400000000000] =
     [''1m30s'', ''2m0s'', ''0s'', ''-1.5ms'', ''100ns'', ''1h30m0s'']"
  by code_simp+

end
