(* ===== verification/EnvServer.thy ===== *)
theory EnvServer
  imports PlaneLife ShardRestart Durations
begin

text \<open>
  \<^verbatim>\<open>envtest/server.go\<close>: the test environment starts its own control plane, trying up to five
  times, or uses an existing one. Durations are in nanoseconds.
\<close>

subsection \<open>The environment\<close>

record ('k, 'c) environment =
  en_Kcp :: "('k, 'c) kcp"
  en_Scheme :: "nat option"
  en_Config :: "user_config option"
  en_BinaryAssetsDirectory :: string
  en_UseExistingKcp :: "bool option"
  en_ExistingKcpContext :: string
  en_KcpStartTimeout :: int
  en_KcpStopTimeout :: int

text \<open>
  What the environment calls: the environment variables, the loading
  of a kubeconfig, the client of controller-runtime and its \<open>Get\<close> of a namespace, and the
  polling helper of apimachinery.
\<close>

record ('cl, 'w) server_env =
  sv_env :: "string \<rightharpoonup> string"
  sv_GetConfigWithContext :: "string \<Rightarrow> 'w \<Rightarrow> user_config result \<times> 'w"
  sv_New :: "user_config \<Rightarrow> 'w \<Rightarrow> 'cl result \<times> 'w"
  sv_GetNamespace :: "'cl \<Rightarrow> string \<Rightarrow> 'w \<Rightarrow> error option \<times> 'w"
  sv_Poll :: "('w \<Rightarrow> bool \<times> 'w) \<Rightarrow> 'w \<Rightarrow> error option \<times> 'w"
  sv_default_scheme :: nat

definition to_lower :: "char \<Rightarrow> char" where
  "to_lower c = (if is_upper c then char_of ((of_char c :: nat) + 32) else c)"

definition useExistingKcp :: "('cl, 'w) server_env \<Rightarrow> ('k, 'c) environment \<Rightarrow> bool" where
  "useExistingKcp S te = (case en_UseExistingKcp te of
      None \<Rightarrow> map to_lower (Getenv (sv_env S) ''USE_EXISTING_KCP'') = ''true''
    | Some b \<Rightarrow> b)"

definition defaultKcpPlaneStartTimeout :: int where "defaultKcpPlaneStartTimeout = 60000000000"

definition defaultKcpStopTimeout :: int where "defaultKcpStopTimeout = 20000000000"

text \<open>A duration from its field, the variable, or the default; a parse error clears the field.\<close>

definition default_timeout :: "('cl, 'w) server_env \<Rightarrow> string \<Rightarrow> int \<Rightarrow> int \<Rightarrow> error option \<times> int" where
  "default_timeout S variable fallback t =
     (if t \<noteq> 0 then (None, t)
      else let envVal = Getenv (sv_env S) variable
           in if envVal \<noteq> []
              then (case ParseDuration envVal of Inl err \<Rightarrow> (Some err, 0) | Inr d \<Rightarrow> (None, d))
              else (None, fallback))"

definition defaultTimeouts :: "('cl, 'w) server_env \<Rightarrow> ('k, 'c) environment \<Rightarrow> error option \<times> ('k, 'c) environment" where
  "defaultTimeouts S te =
     (case default_timeout S ''TEST_KCP_START_TIMEOUT'' defaultKcpPlaneStartTimeout (en_KcpStartTimeout te) of
        (Some err, t) \<Rightarrow> (Some err, te\<lparr> en_KcpStartTimeout := t \<rparr>)
      | (None, t) \<Rightarrow>
          let te = te\<lparr> en_KcpStartTimeout := t \<rparr>
          in case default_timeout S ''TEST_KCP_STOP_TIMEOUT'' defaultKcpStopTimeout (en_KcpStopTimeout te) of
               (r, t) \<Rightarrow> (r, te\<lparr> en_KcpStopTimeout := t \<rparr>))"

text \<open>A variable that holds a whole number of a unit sets the timeout to exactly that.\<close>

lemma timeout_from_variable:
  assumes "unit_map u = Some unit" and "0 \<le> n" and "n * unit \<le> 2 ^ 63 - 1"
    and "Getenv (sv_env S) variable = print_int n u"
  shows "default_timeout S variable fallback 0 = (None, n * unit)"
  using parse_whole_units [OF assms(1-3)] assms(4) print_int_cons [of n u]
  by (auto simp: default_timeout_def)

subsection \<open>Starting the control plane\<close>

text \<open>
  \<open>att\<close> gives, for the number of the attempt, what happens to the process: the result of
  starting it, which event \<open>Start\<close> sees, and how a deferred \<open>Stop\<close> goes.
\<close>

type_synonym attempts = "nat \<Rightarrow> error option \<times> start_select \<times> stop_env"

definition kcp_attempt ::
  "('k, 'c, 'b, 'ip, 'w) shard_env \<Rightarrow> 'w kube_env \<Rightarrow> (error \<Rightarrow> bool) \<Rightarrow> attempts \<Rightarrow> nat
     \<Rightarrow> ('k, 'c) kcp \<times> 'w \<times> os_state \<Rightarrow> error option outcome \<times> ('k, 'c) kcp \<times> 'w \<times> os_state" where
  "kcp_attempt E V is_not_exist att i st = (case att i of
     (start_err, sel, stops) \<Rightarrow> Kcp_Start E V is_not_exist start_err sel stops st)"

fun start_loop ::
  "('k, 'c, 'b, 'ip, 'w) shard_env \<Rightarrow> 'w kube_env \<Rightarrow> (error \<Rightarrow> bool) \<Rightarrow> attempts \<Rightarrow> nat \<Rightarrow> nat \<Rightarrow> error list
     \<Rightarrow> ('k, 'c) kcp \<times> 'w \<times> os_state \<Rightarrow> error option outcome \<times> ('k, 'c) kcp \<times> 'w \<times> os_state" where
  "start_loop E V is_not_exist att numTries 0 err st =
     (Ret (Some (Errorf ''failed to start the controlplane. retried %d times: %w'' [itoa numTries] err)), st)"
| "start_loop E V is_not_exist att numTries (Suc left) err st =
     (case kcp_attempt E V is_not_exist att numTries st of
        (Panic m, st) \<Rightarrow> (Panic m, st)
      | (Ret None, st) \<Rightarrow> (Ret None, st)
      | (Ret (Some e), st) \<Rightarrow> start_loop E V is_not_exist att (numTries + 1) left [e] st)"

definition maxRetries :: nat where "maxRetries = 5"

definition startControlPlane ::
  "('k, 'c, 'b, 'ip, 'w) shard_env \<Rightarrow> 'w kube_env \<Rightarrow> (error \<Rightarrow> bool) \<Rightarrow> attempts
     \<Rightarrow> ('k, 'c) kcp \<times> 'w \<times> os_state \<Rightarrow> error option outcome \<times> ('k, 'c) kcp \<times> 'w \<times> os_state" where
  "startControlPlane E V is_not_exist att st = start_loop E V is_not_exist att 0 maxRetries [] st"

definition waitForRootWorkspaceDefaultNamespace ::
  "('cl, 'w) server_env \<Rightarrow> user_config \<Rightarrow> 'w \<Rightarrow> error option \<times> 'w" where
  "waitForRootWorkspaceDefaultNamespace S config w =
     (let cfg = config\<lparr> uc_Host := uc_Host config @ ''/clusters/root'' \<rparr>
      in case sv_New S cfg w of
           (Inl err, w1) \<Rightarrow> (Some (Errorf ''unable to create client: %w'' [] [err]), w1)
         | (Inr cs, w1) \<Rightarrow>
             sv_Poll S (\<lambda>w. case sv_GetNamespace S cs ''default'' w of (err, w') \<Rightarrow> (err = None, w')) w1)"

definition admin_user :: client_info where
  "admin_user = \<lparr> ci_Name = ''admin'', ci_Groups = [''system:kcp:admin''] \<rparr>"

text \<open>
  The two ways to a configuration. They end with \<open>None\<close>, or with the configuration and
  error that \<open>Start\<close> returns at once.
\<close>

type_synonym ('k, 'c, 'w) env_state = "('k, 'c) environment \<times> 'w \<times> os_state"
type_synonym early_return = "(user_config option \<times> error) option"

definition existing_config ::
  "('cl, 'w) server_env \<Rightarrow> ('k, 'c, 'w) env_state \<Rightarrow> early_return \<times> ('k, 'c, 'w) env_state" where
  "existing_config S st = (case st of (te, w, os) \<Rightarrow>
     (case en_Config te of
        Some _ \<Rightarrow> (None, st)
      | None \<Rightarrow>
          let kubeContext = (if en_ExistingKcpContext te = [] then Getenv (sv_env S) ''EXISTING_KCP_CONTEXT''
                             else en_ExistingKcpContext te)
          in case sv_GetConfigWithContext S kubeContext w of
               (Inl err, w') \<Rightarrow>
                 (Some (None, Errorf ''unable to get configuration for existing cluster: %w'' [] [err]), te, w', os)
             | (Inr cfg, w') \<Rightarrow>
                 let te = te\<lparr> en_Config := Some cfg \<rparr>
                 in if contains (uc_Host cfg) ''/clusters/''
                    then (Some (None, Errorf ([CHR 0x27] @ ''%s'' @ [CHR 0x27] @ '' contains /clusters/ but should point to base context'') [uc_Host cfg] []), te, w', os)
                    else (None, te, w', os)))"

definition start_new ::
  "('k, 'c, 'b, 'ip, 'w) shard_env \<Rightarrow> 'w kube_env \<Rightarrow> (error \<Rightarrow> bool) \<Rightarrow> attempts \<Rightarrow> ('cl, 'w) server_env
     \<Rightarrow> ('k, 'c, 'w) env_state \<Rightarrow> early_return outcome \<times> ('k, 'c, 'w) env_state" where
  "start_new E V is_not_exist att S st = (case st of (te, w, os) \<Rightarrow>
     (case GetRootShard (en_Kcp te) of (s, k) \<Rightarrow>
        let assets = en_BinaryAssetsDirectory te;
            s = s\<lparr> sh_Path := BinPathFinder (sv_env S) ''kcp'' assets \<rparr>;
            k = k\<lparr> kp_RootShard := Some s, kp_KubectlPath := BinPathFinder (sv_env S) ''kubectl'' assets \<rparr>
        in case defaultTimeouts S te of
             (Some err, te) \<Rightarrow>
               (Ret (Some (None, Errorf ''failed to default controlplane timeouts: %w'' [] [err])), te\<lparr> en_Kcp := k \<rparr>, w, os)
           | (None, te) \<Rightarrow>
               let s = s\<lparr> sh_StartTimeout := en_KcpStartTimeout te, sh_StopTimeout := en_KcpStopTimeout te \<rparr>
               in case startControlPlane E V is_not_exist att (k\<lparr> kp_RootShard := Some s \<rparr>, w, os) of
                    (Panic m, k, w, os) \<Rightarrow> (Panic m, te\<lparr> en_Kcp := k \<rparr>, w, os)
                  | (Ret (Some err), k, w, os) \<Rightarrow>
                      (Ret (Some (None, Errorf ''unable to start control plane itself: %w'' [] [err])), te\<lparr> en_Kcp := k \<rparr>, w, os)
                  | (Ret None, k, w, os) \<Rightarrow>
                      (case Kcp_AddUser E admin_user (Some empty_config) k w of
                         (Inl err, k, w) \<Rightarrow>
                           (Ret (Some (en_Config te, Errorf ''unable to provision admin user: %w'' [] [err])),
                            te\<lparr> en_Kcp := k \<rparr>, w, os)
                       | (Inr adminUser, k, w) \<Rightarrow>
                           (case User_Config k adminUser of
                              (Panic m, _) \<Rightarrow> (Panic m, te\<lparr> en_Kcp := k \<rparr>, w, os)
                            | (Ret cfg, _) \<Rightarrow> (Ret None, te\<lparr> en_Kcp := k, en_Config := Some cfg \<rparr>, w, os)))))"

text \<open>The end of \<open>Start\<close>: the scheme, and the wait for the default namespace.\<close>

definition finish_start ::
  "('cl, 'w) server_env \<Rightarrow> ('k, 'c, 'w) env_state
     \<Rightarrow> (user_config option \<times> error option) outcome \<times> ('k, 'c, 'w) env_state" where
  "finish_start S st = (case st of (te, w, os) \<Rightarrow>
     let te = (if en_Scheme te = None then te\<lparr> en_Scheme := Some (sv_default_scheme S) \<rparr> else te)
     in case en_Config te of
          None \<Rightarrow> (Panic nil_dereference, te, w, os)
        | Some cfg \<Rightarrow>
            (case waitForRootWorkspaceDefaultNamespace S cfg w of
               (Some err, w') \<Rightarrow>
                 (Ret (None, Some (Errorf ''default namespace didn't register within deadline: %w'' [] [err])), te, w', os)
             | (None, w') \<Rightarrow> (Ret (Some cfg, None), te, w', os)))"

definition Environment_Start ::
  "('k, 'c, 'b, 'ip, 'w) shard_env \<Rightarrow> 'w kube_env \<Rightarrow> (error \<Rightarrow> bool) \<Rightarrow> attempts \<Rightarrow> ('cl, 'w) server_env
     \<Rightarrow> ('k, 'c, 'w) env_state \<Rightarrow> (user_config option \<times> error option) outcome \<times> ('k, 'c, 'w) env_state" where
  "Environment_Start E V is_not_exist att S st =
     (case (if useExistingKcp S (fst st) then (case existing_config S st of (r, st) \<Rightarrow> (Ret r, st))
            else start_new E V is_not_exist att S st) of
        (Panic m, st) \<Rightarrow> (Panic m, st)
      | (Ret (Some (cfg, err)), st) \<Rightarrow> (Ret (cfg, Some err), st)
      | (Ret None, st) \<Rightarrow> finish_start S st)"

definition Environment_Stop ::
  "(error list \<Rightarrow> error option) \<Rightarrow> stop_env \<Rightarrow> ('cl, 'w) server_env
     \<Rightarrow> ('k, 'c, 'w) env_state \<Rightarrow> error option outcome \<times> ('k, 'c, 'w) env_state" where
  "Environment_Stop aggregate stops S st = (case st of (te, w, os) \<Rightarrow>
     (if useExistingKcp S te then (Ret None, st)
      else case Kcp_Stop aggregate stops (en_Kcp te, w, os) of (r, k, w, os) \<Rightarrow> (r, te\<lparr> en_Kcp := k \<rparr>, w, os)))"

definition Environment_AddUser ::
  "('k, 'c, 'b, 'ip, 'w) shard_env \<Rightarrow> client_info \<Rightarrow> user_config option \<Rightarrow> ('k, 'c) environment \<Rightarrow> 'w
     \<Rightarrow> auth_user result \<times> ('k, 'c) environment \<times> 'w" where
  "Environment_AddUser E user baseConfig te w = (case Kcp_AddUser E user baseConfig (en_Kcp te) w of
     (r, k, w') \<Rightarrow> (r, te\<lparr> en_Kcp := k \<rparr>, w'))"

subsection \<open>The attempts\<close>

text \<open>The state before attempt \<open>i\<close>.\<close>

primrec kcp_state ::
  "('k, 'c, 'b, 'ip, 'w) shard_env \<Rightarrow> 'w kube_env \<Rightarrow> (error \<Rightarrow> bool) \<Rightarrow> attempts
     \<Rightarrow> ('k, 'c) kcp \<times> 'w \<times> os_state \<Rightarrow> nat \<Rightarrow> ('k, 'c) kcp \<times> 'w \<times> os_state" where
  "kcp_state E V is_not_exist att st 0 = st"
| "kcp_state E V is_not_exist att st (Suc i) =
     snd (kcp_attempt E V is_not_exist att i (kcp_state E V is_not_exist att st i))"

definition attempt_fails ::
  "('k, 'c, 'b, 'ip, 'w) shard_env \<Rightarrow> 'w kube_env \<Rightarrow> (error \<Rightarrow> bool) \<Rightarrow> attempts
     \<Rightarrow> ('k, 'c) kcp \<times> 'w \<times> os_state \<Rightarrow> nat \<Rightarrow> bool" where
  "attempt_fails E V is_not_exist att st i \<longleftrightarrow>
     (\<exists>e. fst (kcp_attempt E V is_not_exist att i (kcp_state E V is_not_exist att st i)) = Ret (Some e))"

lemma start_loop_ready:
  "start_loop E V is_not_exist att i left err (kcp_state E V is_not_exist att st i) = (Ret None, st') \<longleftrightarrow>
    (\<exists>j < i + left. i \<le> j \<and> (\<forall>l \<in> {i..<j}. attempt_fails E V is_not_exist att st l) \<and>
      kcp_attempt E V is_not_exist att j (kcp_state E V is_not_exist att st j) = (Ret None, st'))"
proof (induction left arbitrary: i err)
  case 0
  then show ?case by auto
next
  case (Suc left)
  let ?a = "\<lambda>j. kcp_attempt E V is_not_exist att j (kcp_state E V is_not_exist att st j)"
  let ?fails = "attempt_fails E V is_not_exist att st"
  have split: "(\<exists>j < i + Suc left. i \<le> j \<and> (\<forall>l \<in> {i..<j}. ?fails l) \<and> ?a j = (Ret None, st')) \<longleftrightarrow>
      ?a i = (Ret None, st') \<or> ?fails i \<and> (\<exists>j < Suc i + left. Suc i \<le> j \<and> (\<forall>l \<in> {Suc i..<j}. ?fails l) \<and> ?a j = (Ret None, st'))"
    (is "?all \<longleftrightarrow> _ \<or> _ \<and> ?later")
  proof
    assume ?all
    then obtain j where j: "j < i + Suc left" "i \<le> j" "\<forall>l \<in> {i..<j}. ?fails l" "?a j = (Ret None, st')" by blast
    show "?a i = (Ret None, st') \<or> ?fails i \<and> ?later"
    proof (cases "j = i")
      case False
      then have "?fails i" "Suc i \<le> j" using j(2,3) by auto
      then show ?thesis using j by (intro disjI2 conjI exI [of _ j]) auto
    qed (use j in simp)
  next
    assume "?a i = (Ret None, st') \<or> ?fails i \<and> ?later"
    then consider "?a i = (Ret None, st')" | "?fails i" ?later by blast
    then show ?all
    proof cases
      case 1
      then show ?thesis by (intro exI [of _ i]) auto
    next
      case 2
      then obtain j where "j < Suc i + left" "Suc i \<le> j" "\<forall>l \<in> {Suc i..<j}. ?fails l" "?a j = (Ret None, st')" by blast
      moreover have "?fails l" if "l \<in> {i..<j}" for l
        using that 2(1) calculation(3) by (cases "l = i") auto
      ultimately show ?thesis by (intro exI [of _ j]) auto
    qed
  qed
  obtain r u where a: "?a i = (r, u)" by (cases "?a i")
  have u: "kcp_state E V is_not_exist att st (Suc i) = u" using a by simp
  consider m where "r = Panic m" | "r = Ret None" | e where "r = Ret (Some e)" by (cases r) (auto elim: option.exhaust)
  then show ?case
  proof cases
    case 3
    then show ?thesis unfolding split using Suc.IH [of "Suc i" "[e]", unfolded u] a by (simp add: attempt_fails_def)
  qed (unfold split, use a in \<open>simp_all add: attempt_fails_def\<close>)
qed

text \<open>
  \<open>startControlPlane\<close> succeeds exactly when one of the first five attempts
  does, and leaves the state of the first that succeeds: it stops there, and does not try a
  sixth time.
\<close>

theorem control_plane_tried_five_times:
  "startControlPlane E V is_not_exist att st = (Ret None, st') \<longleftrightarrow>
    (\<exists>j < 5. list_all (attempt_fails E V is_not_exist att st) [0..<j] \<and>
      kcp_attempt E V is_not_exist att j (kcp_state E V is_not_exist att st j) = (Ret None, st'))"
proof -
  have "startControlPlane E V is_not_exist att st =
      start_loop E V is_not_exist att 0 5 [] (kcp_state E V is_not_exist att st 0)"
    by (simp only: startControlPlane_def maxRetries_def kcp_state.simps)
  then show ?thesis unfolding start_loop_ready list_all_iff by (simp only: start_loop_ready add_0 le0 simp_thms set_upt)
qed

subsection \<open>A started environment\<close>

lemma kcp_start_ready:
  assumes "Kcp_Start E V is_not_exist start_err sel stops (f, w, os) = (Ret None, f', w', os')"
    and "\<forall>w. fst (se_MkdirTemp E w) \<noteq> Inr []"
  obtains s temp where "kp_RootShard f' = Some s" "running_shard temp (os_next os) s" "os_next os \<in> os_running os'" "sh_CA s \<noteq> []"
proof (cases rule: Kcp_Start_cases [OF assms, case_names failed panicked ready stopped])
  case (ready s w1 os1 a cfg k)
  then show thesis
    using Shard_Start_running(1,2) [OF ready(1)] running_shard_Authn [OF Shard_Start_running(1) [OF ready(1)], of a] that
    by (auto simp: points_at_def)
qed (use that in auto)

lemma startControlPlane_ready:
  assumes "startControlPlane E V is_not_exist att st = (Ret None, f', w', os')"
    and "\<forall>w. fst (se_MkdirTemp E w) \<noteq> Inr []"
  obtains s temp pid where "kp_RootShard f' = Some s" "running_shard temp pid s" "pid \<in> os_running os'" "sh_CA s \<noteq> []"
proof -
  obtain j where j: "kcp_attempt E V is_not_exist att j (kcp_state E V is_not_exist att st j) = (Ret None, f', w', os')"
    using start_loop_ready [of E V is_not_exist att 0 maxRetries "[]" st "(f', w', os')"] assms(1)
    unfolding startControlPlane_def by (simp only: kcp_state.simps) blast
  obtain f w os where "kcp_state E V is_not_exist att st j = (f, w, os)" by (metis prod_cases3)
  moreover obtain x y z where "att j = (x, y, z)" by (metis prod_cases3)
  ultimately have "Kcp_Start E V is_not_exist x y z (f, w, os) = (Ret None, f', w', os')"
    using j by (simp add: kcp_attempt_def)
  then show thesis by (rule kcp_start_ready [OF _ assms(2)]) (rule that)
qed

lemma start_new_ready:
  assumes "start_new E V is_not_exist att S (te, w, os) = (Ret None, te', w', os')"
    and "\<forall>w. fst (se_MkdirTemp E w) \<noteq> Inr []"
  obtains s temp pid cfg where "kp_RootShard (en_Kcp te') = Some s" "running_shard temp pid s" "pid \<in> os_running os'"
    "en_Config te' = Some cfg" "points_at s cfg" "en_UseExistingKcp te' = en_UseExistingKcp te"
proof -
  obtain s0 k0 where root: "GetRootShard (en_Kcp te) = (s0, k0)" by (cases "GetRootShard (en_Kcp te)")
  obtain q te1 where dt: "defaultTimeouts S te = (q, te1)" by (cases "defaultTimeouts S te")
  have "q = None" using assms(1) root dt by (cases q) (auto simp: start_new_def Let_def)
  have same: "en_UseExistingKcp te1 = en_UseExistingKcp te"
    using dt by (auto simp: defaultTimeouts_def Let_def split: prod.splits option.splits)
  let ?k = "k0\<lparr> kp_KubectlPath := BinPathFinder (sv_env S) ''kubectl'' (en_BinaryAssetsDirectory te),
      kp_RootShard := Some (s0\<lparr> sh_Path := BinPathFinder (sv_env S) ''kcp'' (en_BinaryAssetsDirectory te),
        sh_StartTimeout := en_KcpStartTimeout te1, sh_StopTimeout := en_KcpStopTimeout te1 \<rparr>) \<rparr>"
  obtain r k w1 os1 where start: "startControlPlane E V is_not_exist att (?k, w, os) = (r, k, w1, os1)" by (metis prod_cases4)
  have "r = Ret None"
    using assms(1) root dt \<open>q = None\<close> start
    by (auto simp: start_new_def Let_def split: outcome.splits option.splits)
  note start = start [unfolded this]
  obtain s temp pid where s: "kp_RootShard k = Some s" "running_shard temp pid s" "pid \<in> os_running os1" "sh_CA s \<noteq> []"
    by (rule startControlPlane_ready [OF start assms(2)])
  obtain a g w2 where add: "Kcp_AddUser E admin_user (Some empty_config) k w1 = (a, g, w2)" by (metis prod_cases3)
  have authn: "sh_Authn s \<noteq> None" using s(2) by (simp add: running_shard_def)
  note added = Kcp_AddUser_result [OF s(1) authn add]
  obtain b where g: "kp_RootShard g = Some (s\<lparr> sh_Authn := Some b \<rparr>)" using added(1) by auto
  obtain u where a: "a = Inr u"
    using assms(1) root dt \<open>q = None\<close> start add by (cases a) (simp_all add: start_new_def Let_def)
  obtain cfg u' where cfg: "User_Config g u = (Ret cfg, u')" "points_at (s\<lparr> sh_Authn := Some b \<rparr>) cfg"
    using User_Config_result(2) [OF g] added(2) [OF a] s(4) by fastforce
  have "te' = te1\<lparr> en_Kcp := g, en_Config := Some cfg \<rparr> \<and> os' = os1"
    using assms(1) root dt \<open>q = None\<close> start add a cfg(1) by (simp add: start_new_def Let_def)
  then show thesis
    using that [of "s\<lparr> sh_Authn := Some b \<rparr>" temp pid cfg] g running_shard_Authn [OF s(2)] s(3) cfg(2) same by simp
qed

lemma finish_start_result:
  assumes "finish_start S (te, w, os) = (Ret (c, None), te', w', os')"
  shows "c = en_Config te' \<and> en_Config te' = en_Config te \<and> en_Kcp te' = en_Kcp te \<and>
    en_UseExistingKcp te' = en_UseExistingKcp te \<and> os' = os"
  using assms by (auto simp: finish_start_def Let_def split: option.splits prod.splits if_splits)

lemma Environment_Start_ready:
  assumes "Environment_Start E V is_not_exist att S (te, w, os) = (Ret (c, None), te', w', os')"
    and "\<not> useExistingKcp S te" and "\<forall>w. fst (se_MkdirTemp E w) \<noteq> Inr []"
  obtains s temp pid cfg where "kp_RootShard (en_Kcp te') = Some s" "running_shard temp pid s" "pid \<in> os_running os'"
    "c = Some cfg" "en_Config te' = Some cfg" "points_at s cfg" "en_UseExistingKcp te' = en_UseExistingKcp te"
proof -
  obtain r te1 w1 os1 where new: "start_new E V is_not_exist att S (te, w, os) = (r, te1, w1, os1)" by (metis prod_cases4)
  have r: "r = Ret None" and fin: "finish_start S (te1, w1, os1) = (Ret (c, None), te', w', os')"
    using assms(1,2) new by (auto simp: Environment_Start_def split: outcome.splits option.splits)
  note fin = finish_start_result [OF fin]
  show thesis
    by (rule start_new_ready [OF new [unfolded r] assms(3)]) (use fin that in auto)
qed

text \<open>
  Property C25. The configuration that a new environment's \<open>Start\<close> returns without error
  reaches the shard that now runs, under the authority that serves it, and \<open>Stop\<close> of that
  environment ends the process of the shard when it follows the signal.
\<close>

theorem environment_start_and_stop:
  assumes "Environment_Start E V is_not_exist att S (te, w, os) = (Ret (c, None), te', w', os')"
    and "\<not> useExistingKcp S te" and "\<forall>w. fst (se_MkdirTemp E w) \<noteq> Inr []"
    and "Environment_Stop aggregate (None, Ended e, kill_err) S (te', v, os') = (r, te2, w2, os2)"
  shows "\<exists>s cfg pid. kp_RootShard (en_Kcp te') = Some s \<and> c = Some cfg \<and> en_Config te' = c \<and> points_at s cfg \<and>
    pid \<in> os_running os' \<and> os_running os2 = os_running os' - {pid} \<and> returned r"
proof (rule Environment_Start_ready [OF assms(1-3)])
  fix s :: "('a, 'b) shard" and temp pid cfg
  assume s: "kp_RootShard (en_Kcp te') = Some s" "running_shard temp pid s" "pid \<in> os_running os'"
    "c = Some cfg" "en_Config te' = Some cfg" "points_at s cfg" "en_UseExistingKcp te' = en_UseExistingKcp te"
  have "\<not> useExistingKcp S te'" using assms(2) s(7) by (simp add: useExistingKcp_def)
  then obtain k where stop: "Kcp_Stop aggregate (None, Ended e, kill_err) (en_Kcp te', v, os') = (r, k, w2, os2)"
    using assms(4) by (auto simp: Environment_Stop_def split: prod.splits)
  obtain q k' w3 os3 where root: "stop_root (None, Ended e, kill_err) (en_Kcp te', v, os') = (q, k', w3, os3)"
    by (metis prod_cases4)
  note facts = stop_root_running [OF s(1,2) root]
  have "os2 = os3 \<and> returned r"
    using stop root facts(1) by (cases q) (auto simp: Kcp_Stop_def split: option.splits)
  then show ?thesis using s facts(4) [OF refl] by auto
qed

text \<open>
  The check that an existing cluster's configuration is not for a single
  workspace is made only when the configuration is loaded: after it has failed, the next
  \<open>Start\<close> uses the refused configuration and, when its workspace answers, returns it.
\<close>

theorem refused_config_used_again:
  assumes "useExistingKcp S te" and "en_Config te = None"
    and "Environment_Start E V is_not_exist att S (te, w, os) = (Ret (c, Some err), te1, w1, os1)"
    and "en_Config te1 = Some cfg" and "contains (uc_Host cfg) ''/clusters/''"
    and "fst (waitForRootWorkspaceDefaultNamespace S cfg w1) = None"
  shows "c = None \<and> fst (Environment_Start E V is_not_exist att S (te1, w1, os1)) = Ret (Some cfg, None)"
proof -
  let ?start = "Environment_Start E V is_not_exist att S"
  obtain q te2 w2 os2 where ex: "existing_config S (te, w, os) = (q, te2, w2, os2)" by (metis prod_cases4)
  have "en_UseExistingKcp te1 = en_UseExistingKcp te \<and> c = None"
    using assms(1-3) ex
    by (auto simp: Environment_Start_def existing_config_def finish_start_def Let_def
      split: sum.splits option.splits prod.splits if_splits)
  then have "useExistingKcp S te1" "c = None" using assms(1) by (simp_all add: useExistingKcp_def)
  then show ?thesis using assms(4,6)
    by (cases "waitForRootWorkspaceDefaultNamespace S cfg w1")
       (simp add: Environment_Start_def existing_config_def finish_start_def Let_def)
qed

subsection \<open>Witnesses\<close>

definition demo_server :: "string \<Rightarrow> (unit, nat) server_env" where
  "demo_server host = \<lparr> sv_env = Map.empty,
     sv_GetConfigWithContext = (\<lambda>_ w. (Inr (empty_config\<lparr> uc_Host := host \<rparr>), w)), sv_New = (\<lambda>_ w. (Inr (), w)),
     sv_GetNamespace = (\<lambda>_ _ w. (None, w)), sv_Poll = (\<lambda>cond w. case cond w of (ok, w') \<Rightarrow>
       (if ok then None else Some (Foreign ''context deadline exceeded''), w')), sv_default_scheme = 0 \<rparr>"

definition demo_environment :: "bool \<Rightarrow> (nat, int \<times> nat) environment" where
  "demo_environment existing = \<lparr> en_Kcp = demo_kcp, en_Scheme = None, en_Config = None, en_BinaryAssetsDirectory = ''/bin'',
     en_UseExistingKcp = Some existing, en_ExistingKcpContext = [], en_KcpStartTimeout = 0, en_KcpStopTimeout = 0 \<rparr>"

definition demo_env_start ::
  "bool \<Rightarrow> string \<Rightarrow> (nat, int \<times> nat) environment \<times> nat \<times> os_state
     \<Rightarrow> (user_config option \<times> error option) outcome \<times> (nat, int \<times> nat) environment \<times> nat \<times> os_state" where
  "demo_env_start slow host = Environment_Start (demo_shard_env False) demo_kube (\<lambda>_. True)
     (\<lambda>i. (None, if slow \<and> i = 0 then StartTimedOut else HealthOK, None, Ended None, None)) (demo_server host)"

lemma demo_env_ready:
  "map_option snd (case fst (demo_env_start True [] (demo_environment False, 0, demo_os0)) of Ret c \<Rightarrow> Some c | Panic _ \<Rightarrow> None) = Some None"
  by code_simp

text \<open>The first attempt is too slow, the second is ready in time.\<close>

definition demo_env_started :: "(user_config option \<times> error option) outcome \<times> (nat, int \<times> nat) environment \<times> nat \<times> os_state" where
  "demo_env_started = demo_env_start True [] (demo_environment False, 0, demo_os0)"

definition demo_env_stopped :: "error option outcome \<times> (nat, int \<times> nat) environment \<times> nat \<times> os_state" where
  "demo_env_stopped = Environment_Stop errors_Join (None, Ended None, None) (demo_server []) (snd demo_env_started)"

theorem environment_start_and_stop_witness:
  "\<exists>pid. pid \<in> os_running (snd (snd (snd demo_env_started))) \<and> pid \<notin> os_running (snd (snd (snd demo_env_stopped))) \<and>
     returned (fst demo_env_stopped)"
proof -
  obtain p te w os where eq: "demo_env_started = (p, te, w, os)" by (metis prod_cases4)
  obtain c where "p = Ret (c, None)"
    using demo_env_ready unfolding demo_env_started_def [symmetric] eq by (cases p) auto
  note run = eq [unfolded this]
  obtain r te2 w2 os2 where stop: "demo_env_stopped = (r, te2, w2, os2)" by (cases demo_env_stopped) blast
  have "\<not> useExistingKcp (demo_server []) (demo_environment False)" by (simp add: useExistingKcp_def demo_environment_def)
  moreover have "Environment_Stop errors_Join (None, Ended None, None) (demo_server []) (te, w, os) = (r, te2, w2, os2)"
    using stop unfolding demo_env_stopped_def run by simp
  ultimately show ?thesis
    using environment_start_and_stop [OF run [unfolded demo_env_started_def demo_env_start_def] _ demo_plane_env]
    unfolding run stop by fastforce
qed

definition demo_refused :: "(user_config option \<times> error option) outcome \<times> (nat, int \<times> nat) environment \<times> nat \<times> os_state" where
  "demo_refused = demo_env_start False ''https://kcp/clusters/root'' (demo_environment True, 0, demo_os0)"

theorem refused_config_used_again_witness:
  "fst (demo_env_start False ''https://kcp/clusters/root'' (snd demo_refused)) =
     Ret (Some (empty_config\<lparr> uc_Host := ''https://kcp/clusters/root'' \<rparr>), None)"
proof -
  let ?cfg = "empty_config\<lparr> uc_Host := ''https://kcp/clusters/root'' \<rparr>"
  have has: "contains (uc_Host ?cfg) ''/clusters/''" by (simp add: empty_config_def)
  obtain err te where run: "demo_refused = (Ret (None, Some err), te, 0, demo_os0)" "en_Config te = Some ?cfg"
    using has by (simp add: demo_refused_def demo_env_start_def Environment_Start_def existing_config_def useExistingKcp_def
      demo_environment_def demo_server_def Let_def)
  have "useExistingKcp (demo_server ''https://kcp/clusters/root'') (demo_environment True)" "en_Config (demo_environment True) = None"
    by (simp_all add: useExistingKcp_def demo_environment_def)
  moreover have "fst (waitForRootWorkspaceDefaultNamespace (demo_server ''https://kcp/clusters/root'') ?cfg (0 :: nat)) = None"
    by (simp add: waitForRootWorkspaceDefaultNamespace_def demo_server_def Let_def)
  ultimately show ?thesis
    using refused_config_used_again [OF _ _ run(1) [unfolded demo_refused_def demo_env_start_def] run(2) has]
    unfolding run(1) demo_env_start_def by simp
qed

end
