(* ===== verification/ShardTrust.thy ===== *)
theory ShardTrust
  imports ShardLife
begin

text \<open>
  The parts of a shard together: the authority whose certificate kcp is told to trust, by its
  command line and a file, is the one that signs the certificates of the shard's users.
\<close>

subsection \<open>Files\<close>

text \<open>\<open>file w\<close> are the contents of the files; a write that succeeds is read back.\<close>

definition write_ok :: "('k, 'c, 'b, 'ip, 'w) shard_env \<Rightarrow> ('w \<Rightarrow> string \<rightharpoonup> string) \<Rightarrow> bool" where
  "write_ok E file \<longleftrightarrow> (\<forall>path contents w w'. se_WriteFile E path contents w = (None, w') \<longrightarrow> file w' path = Some contents)"

text \<open>
  A prepared shard has written the certificate of its authority to the file that it configured.
\<close>

lemma shard_prepare_authn:
  assumes "shard_prepare E is_not_exist (s, w, os) = (None, s', w', os')" and "write_ok E file"
  obtains a v u where "setProcessState E is_not_exist (s, w, os) = (None, s', v, u)" "sh_Authn s' = Some a"
    "file w' (path_Join [sh_RootDir s', ''client-cert-auth-ca.crt'']) = Some (CertBytes (se_crypto E) (ca_CA (au_ca a)))"
proof -
  obtain x where x: "setProcessState E is_not_exist (s, w, os) = (None, x)" "start_authn E x = (None, s', w', os')"
    using assms(1) by (auto simp only: shard_prepare_def and_then_None_iff)
  obtain t v u where st: "x = (t, v, u)" by (cases x) blast
  have "prepared (sh_RootDir s = []) t" by (rule setProcessState_result(1) [OF x(1) [unfolded st]])
  then obtain a where a: "sh_Authn t = Some a" "au_certDir a = sh_RootDir t" by (auto simp: prepared_def)
  obtain r v' where run: "Authn_Start (se_crypto E) (se_WriteFile E) a v = (r, v')"
    by (cases "Authn_Start (se_crypto E) (se_WriteFile E) a v")
  have eq: "r = None" "s' = t" "w' = v'" using x(2) a(1) run unfolding st start_authn_def by simp_all
  have "se_WriteFile E (caCrtPath a) (CertBytes (se_crypto E) (ca_CA (au_ca a))) v = (None, w')"
    using run eq by (auto simp: Authn_Start_def split: if_splits prod.splits option.splits)
  then have "file w' (caCrtPath a) = Some (CertBytes (se_crypto E) (ca_CA (au_ca a)))"
    using assms(2) by (simp add: write_ok_def)
  then show thesis using that [of v u a] x(1) a eq(2) unfolding st by (simp add: caCrtPath_def)
qed

lemma Authn_AddUser_signed:
  assumes "x509_ok Y serial signed_by" and "Authn_AddUser Y user base a v = (Inr cfg, a', v')"
  shows "\<exists>p. AsBytes Y p = Inr (uc_CertData cfg, uc_KeyData cfg) \<and> signed_by (cp_Cert p) (cp_Key (ca_CA (au_ca a)))"
    and "ca_CA (au_ca a') = ca_CA (au_ca a)"
proof -
  obtain q c w where cert: "NewClientCert Y user (au_ca a) v = (q, c, w)" by (metis prod_cases3)
  obtain p where p: "q = Inr p" using assms(2) cert by (cases q) (simp_all add: Authn_AddUser_def)
  obtain crt key where b: "AsBytes Y p = Inr (crt, key)"
    using assms(2) cert p by (cases "AsBytes Y p") (auto simp: Authn_AddUser_def)
  have cfg: "cfg = base\<lparr> uc_CertData := crt, uc_KeyData := key \<rparr>" "a' = a\<lparr> au_ca := c \<rparr>"
    using assms(2) cert p b by (simp_all add: Authn_AddUser_def)
  note made = makeCert_serial [OF assms(1) cert [unfolded NewClientCert_def p]]
  show "\<exists>p. AsBytes Y p = Inr (uc_CertData cfg, uc_KeyData cfg) \<and> signed_by (cp_Cert p) (cp_Key (ca_CA (au_ca a)))"
    using b made(5) unfolding cfg(1) by auto
  show "ca_CA (au_ca a') = ca_CA (au_ca a)" using made(1) unfolding cfg(2) by simp
qed

text \<open>
  Property C35. A prepared shard trusts the users it provisions: the one value of the flag
  \<open>client-ca-file\<close> on the command line names a file that holds the certificate of an
  authority, and a user added to the shard gets a certificate signed by that authority's key.
\<close>

theorem shard_trusts_its_users:
  assumes "shard_prepare E is_not_exist (s, w, os) = (None, s', w', os')"
    and "range_of (defaultArgs s') (se_default_order E (defaultArgs s'))"
    and "range_of (fst (Configure s')) (se_args_order E (fst (Configure s')))"
    and "\<forall>k \<in> dom (fst (Configure s)). CHR ''='' \<notin> set k"
    and "write_ok E file" and "x509_ok (se_crypto E) serial signed_by"
    and "sh_Authn s' = Some a" and "Authn_AddUser (se_crypto E) user base a v = (Inr cfg, a', v')"
  shows "\<exists>flags path p. map_option ps_Args (sh_processState s') = Some (''start'' # flags) \<and>
    map snd (filter (\<lambda>f. fst f = ''client-ca-file'') (map parse_flag flags)) = [Some path] \<and>
    file w' path = Some (CertBytes (se_crypto E) (ca_CA (au_ca a))) \<and>
    AsBytes (se_crypto E) p = Inr (uc_CertData cfg, uc_KeyData cfg) \<and> signed_by (cp_Cert p) (cp_Key (ca_CA (au_ca a)))"
proof (rule shard_prepare_authn [OF assms(1,5)])
  fix b z y
  assume prep: "setProcessState E is_not_exist (s, w, os) = (None, s', z, y)" and b: "sh_Authn s' = Some b"
    "file w' (path_Join [sh_RootDir s', ''client-cert-auth-ca.crt'']) = Some (CertBytes (se_crypto E) (ca_CA (au_ca b)))"
  obtain flags where "map_option ps_Args (sh_processState s') = Some (''start'' # flags)"
    "map snd (filter (\<lambda>f. fst f = ''client-ca-file'') (map parse_flag flags)) =
       [Some (path_Join [sh_RootDir s', ''client-cert-auth-ca.crt''])]"
    using prepared_flags [OF prep assms(2-4)] by auto
  then show ?thesis using b assms(7) Authn_AddUser_signed(1) [OF assms(6,8)] by auto
qed

subsection \<open>Witness\<close>

text \<open>The machine of the other witnesses, with a disk.\<close>

type_synonym demo_disk = "nat \<times> (string \<rightharpoonup> string)"

definition demo_disk_keys :: "(nat, int \<times> nat, int \<times> nat, nat, demo_disk) crypto_env" where
  "demo_disk_keys = \<lparr> cy_GenerateKey = (\<lambda>w. (Inr (fst w), (fst w + 1, snd w))),
     cy_NewSelfSignedCACert = (\<lambda>_ _ k w. (Inr (0, k), w)), cy_now = fst,
     cy_CreateCertificate = (\<lambda>t _ _ priv w. (Inr (ct_SerialNumber t, priv), w)), cy_ParseCertificate = Inr,
     cy_Raw = (\<lambda>c. c), cy_MarshalPKCS8 = (\<lambda>k. Inr (0, k)), cy_EncodePEM = (\<lambda>t c. t @ itoa (snd c)),
     cy_ParseIP = (\<lambda>s. if s = ''127.0.0.1'' then Some 0 else None), cy_LookupHost = (\<lambda>_ _. Inr [''127.0.0.1'']) \<rparr>"

definition demo_disk_env :: "(nat, int \<times> nat, int \<times> nat, nat, demo_disk) shard_env" where
  "demo_disk_env = \<lparr> se_crypto = demo_disk_keys,
     se_unix = \<lparr> ux_Open = (\<lambda>_ w. (Inr 3, w)), ux_Flock = (\<lambda>_ w. (None, w)), ux_is_exist = (\<lambda>_. False),
       ux_is_wouldblock = (\<lambda>_. False) \<rparr>,
     se_files = \<lparr> fe_cacheDir = ''/c'', fe_walk = (\<lambda>_. []), fe_ModTime = (\<lambda>_ _. Inr 0), fe_now = fst,
       fe_Remove = (\<lambda>_ w. (None, w)), fe_not_exist = (\<lambda>_. True) \<rparr>,
     se_net = \<lparr> ne_Resolve = (\<lambda>_. Inr ''127.0.0.1''), ne_Listen = (\<lambda>_ w. (Inr (fst w, 5 + fst w), (fst w + 1, snd w))),
       ne_Close = (\<lambda>_ w. w) \<rparr>,
     se_Stat = (\<lambda>path w. if snd w path = None then Some (Foreign ''no such file'') else None),
     se_WriteFile = (\<lambda>path contents w. (None, (fst w, (snd w)(path \<mapsto> contents)))),
     se_find_bin = (\<lambda>name _. name), se_MkdirTemp = (\<lambda>w. (Inr ''/t'', w)),
     se_default_order = (\<lambda>_. [''secure-port'', ''root-directory'', ''bind-address'', ''external-hostname'',
       ''embedded-etcd-peer-port'', ''embedded-etcd-client-port'']),
     se_args_order = (\<lambda>m. filter (\<lambda>k. m k \<noteq> None) [''v'', ''client-ca-file'']) \<rparr>"

definition demo_trust :: "error option \<times> (nat, int \<times> nat) shard \<times> demo_disk \<times> os_state" where
  "demo_trust = shard_prepare demo_disk_env (\<lambda>_. True) (demo_shard, (0, Map.empty), demo_os0)"

definition demo_user :: "user_config result \<times> (nat, int \<times> nat) certAuthn \<times> demo_disk" where
  "demo_user = Authn_AddUser demo_disk_keys \<lparr> ci_Name = ''alice'', ci_Groups = [''devs''] \<rparr> empty_config
     (the (sh_Authn (fst (snd demo_trust)))) (7, Map.empty)"

lemma demo_trust_runs: "fst demo_trust = None" "\<not> is_err (fst demo_user)"
  by code_simp+

lemma demo_disk_ok: "write_ok demo_disk_env snd" "x509_ok (se_crypto demo_disk_env) fst (\<lambda>c k. snd c = k)"
  by (auto simp: write_ok_def x509_ok_def demo_disk_env_def demo_disk_keys_def)

theorem shard_trusts_its_users_witness:
  "\<exists>path a p d. AsBytes demo_disk_keys p = Inr d \<and>
     snd (fst (snd (snd demo_trust))) path = Some (CertBytes demo_disk_keys (ca_CA (au_ca a))) \<and>
     sh_Authn (fst (snd demo_trust)) = Some a \<and> snd (cp_Cert p) = cp_Key (ca_CA (au_ca a))"
proof -
  obtain q s w os where eq: "demo_trust = (q, s, w, os)" by (metis prod_cases4)
  have "q = None" using demo_trust_runs(1) unfolding eq by simp
  note run = eq [unfolded this]
  obtain r a' v' where eq': "demo_user = (r, a', v')" by (metis prod_cases3)
  obtain cfg where "r = Inr cfg" using demo_trust_runs(2) unfolding eq' by (cases r) auto
  note user = eq' [unfolded this]
  have prep: "shard_prepare demo_disk_env (\<lambda>_. True) (demo_shard, (0, Map.empty), demo_os0) = (None, s, w, os)"
    using run unfolding demo_trust_def .
  obtain a z y where a: "setProcessState demo_disk_env (\<lambda>_. True) (demo_shard, (0, Map.empty), demo_os0) = (None, s, z, y)"
    "sh_Authn s = Some a"
    by (rule shard_prepare_authn [OF prep demo_disk_ok(1)])
  have conf: "fst (Configure demo_shard) = [''v'' \<mapsto> UserArg (Some [''2''])]" by (simp add: demo_shard_def Configure_def)
  note args = setProcessState_result(4) [OF a(1), unfolded conf]
  have order: "range_of (defaultArgs s) (se_default_order demo_disk_env (defaultArgs s))"
    by (auto simp: range_of_def demo_disk_env_def defaultArgs_def)
  have order': "range_of (fst (Configure s)) (se_args_order demo_disk_env (fst (Configure s)))"
    by (auto simp: range_of_def demo_disk_env_def Configure_def args Arguments_Set_def split: if_splits)
  have plain: "\<forall>k \<in> dom (fst (Configure demo_shard)). CHR ''='' \<notin> set k" unfolding conf by simp
  have add: "Authn_AddUser (se_crypto demo_disk_env) \<lparr> ci_Name = ''alice'', ci_Groups = [''devs''] \<rparr> empty_config a
      (7, Map.empty) = (Inr cfg, a', v')"
    using user a(2) unfolding demo_user_def run by (simp add: demo_disk_env_def)
  have crypto: "se_crypto demo_disk_env = demo_disk_keys" by (simp add: demo_disk_env_def)
  show ?thesis
    using shard_trusts_its_users [OF prep order order' plain demo_disk_ok a(2) add] a(2)
    unfolding run crypto fst_conv snd_conv by blast
qed

end
