(* ===== verification/Sharded.thy ===== *)
theory Sharded
  imports ControlPlane Durations
begin

text \<open>
  \<^verbatim>\<open>envtest/sharded.go\<close> and \<^verbatim>\<open>sharded_unix.go\<close>: a multi-shard kcp run as one
  subprocess. The subprocess leads a process group, numbered like the subprocess; the log
  files it writes to are numbered too.
\<close>

subsection \<open>State\<close>

text \<open>
  \<open>sd_cmd\<close> is nil, a command with no process, or one with a process; \<open>sd_waitDone\<close> is
  the nil channel, or whether the channel is closed.
\<close>

record sharded =
  sd_NumberOfShards :: int
  sd_WorkDir :: string
  sd_ExtraArgs :: "string list"
  sd_StartTimeout :: int
  sd_StopTimeout :: int
  sd_cmd :: "nat option option"
  sd_logFile :: "nat option"
  sd_config :: "user_config option"
  sd_started :: bool
  sd_waitDone :: "bool option"
  sd_waitErr :: "error option"

text \<open>The subprocesses with the command lines they were started with, and the open log files.\<close>

record sharded_os =
  so_running :: "(nat \<times> string list) list"
  so_next :: nat
  so_logs :: "nat list"
  so_signals :: "(nat \<times> signal) list"

record ('raw, 'w) sharded_env =
  de_env :: "string \<rightharpoonup> string"
  de_Getwd :: "'w \<Rightarrow> string result"
  de_LookPath :: "string \<Rightarrow> 'w \<Rightarrow> string result"
  de_MkdirAll :: "string \<Rightarrow> 'w \<Rightarrow> error option \<times> 'w"
  de_OpenFile :: "string \<Rightarrow> 'w \<Rightarrow> error option \<times> 'w"
  de_LoadFromFile :: "string \<Rightarrow> 'w \<Rightarrow> 'raw result"
  de_ClientConfig :: "'raw \<Rightarrow> string \<Rightarrow> user_config result"
  de_Signaled :: "error \<Rightarrow> bool option"

type_synonym 'w sharded_state = "sharded \<times> 'w \<times> sharded_os"

subsection \<open>Numbers\<close>

text \<open>\<open>strconv.Itoa\<close> and \<open>strconv.Atoi\<close> on 64-bit integers.\<close>

definition Itoa :: "int \<Rightarrow> string" where
  "Itoa n = (if n < 0 then CHR ''-'' # itoa (nat (- n)) else itoa (nat n))"

definition Atoi :: "string \<Rightarrow> int result" where
  "Atoi s =
     (let neg = has_prefix s ''-''; digits = (if neg \<or> has_prefix s ''+'' then tl s else s);
          n = int (digits_value 0 digits)
      in if digits = [] \<or> \<not> list_all is_digit digits then Inl (Foreign ''strconv.Atoi: invalid syntax'')
         else if neg then (if n > 2 ^ 63 then Inl (Foreign ''strconv.Atoi: value out of range'') else Inr (- n))
         else if n \<ge> 2 ^ 63 then Inl (Foreign ''strconv.Atoi: value out of range'') else Inr n)"

subsection \<open>Defaults\<close>

definition defaultNumberOfShards :: int where "defaultNumberOfShards = 2"

definition defaultStartTimeout :: int where "defaultStartTimeout = 120000000000"

definition defaultStopTimeout :: int where "defaultStopTimeout = 20000000000"

text \<open>A field from its variable, or the default; a value that does not parse is an error.\<close>

definition env_default ::
  "('raw, 'w) sharded_env \<Rightarrow> string \<Rightarrow> (string \<Rightarrow> int result) \<Rightarrow> int \<Rightarrow> int \<Rightarrow> int result" where
  "env_default D name parse fallback x =
     (if x \<noteq> 0 then Inr x
      else let v = Getenv (de_env D) name
           in if v = [] then Inr fallback
              else case parse v of
                Inl err \<Rightarrow> Inl (Errorf ''envtest: parse %s=%q: %w'' [name, v] [err])
              | Inr n \<Rightarrow> Inr n)"

definition default_WorkDir :: "('raw, 'w) sharded_env \<Rightarrow> 'w \<Rightarrow> string \<Rightarrow> string result" where
  "default_WorkDir D w dir =
     (if dir \<noteq> [] then Inr dir
      else let v = Getenv (de_env D) ''KCP_TEST_WORK_DIR''
           in if v \<noteq> [] then Inr v
              else case de_Getwd D w of Inl err \<Rightarrow> Inl (Errorf ''envtest: getwd: %w'' [] [err]) | Inr cwd \<Rightarrow> Inr cwd)"

definition applyDefaults :: "('raw, 'w) sharded_env \<Rightarrow> 'w \<Rightarrow> sharded \<Rightarrow> error option \<times> sharded" where
  "applyDefaults D w s =
     (case env_default D ''KCP_NUMBER_OF_SHARDS'' Atoi defaultNumberOfShards (sd_NumberOfShards s) of
        Inl err \<Rightarrow> (Some err, s)
      | Inr n \<Rightarrow>
          let s = s\<lparr> sd_NumberOfShards := n \<rparr>
          in case default_WorkDir D w (sd_WorkDir s) of
               Inl err \<Rightarrow> (Some err, s)
             | Inr dir \<Rightarrow>
                 let s = s\<lparr> sd_WorkDir := dir \<rparr>
                 in case env_default D ''TEST_KCP_START_TIMEOUT'' ParseDuration defaultStartTimeout (sd_StartTimeout s) of
                      Inl err \<Rightarrow> (Some err, s)
                    | Inr d \<Rightarrow>
                        let s = s\<lparr> sd_StartTimeout := d \<rparr>
                        in case env_default D ''TEST_KCP_STOP_TIMEOUT'' ParseDuration defaultStopTimeout (sd_StopTimeout s) of
                             Inl err \<Rightarrow> (Some err, s)
                           | Inr d \<Rightarrow> (None, s\<lparr> sd_StopTimeout := d \<rparr>))"

definition resolveShardedTestServer :: "('raw, 'w) sharded_env \<Rightarrow> 'w \<Rightarrow> string result" where
  "resolveShardedTestServer D w =
     (let v = Getenv (de_env D) ''KCP_ASSET_SHARDED_TEST_SERVER''
      in if v \<noteq> [] then Inr v
         else case de_LookPath D ''sharded-test-server'' w of
           Inl err \<Rightarrow> Inl (Errorf ''envtest: locate sharded-test-server (set %s or add to PATH): %w''
                             [''KCP_ASSET_SHARDED_TEST_SERVER''] [err])
         | Inr p \<Rightarrow> Inr p)"

definition loadAdminConfig :: "('raw, 'w) sharded_env \<Rightarrow> string \<Rightarrow> 'w \<Rightarrow> user_config result" where
  "loadAdminConfig D path w = (case de_LoadFromFile D path w of
      Inl err \<Rightarrow> Inl err
    | Inr raw \<Rightarrow> de_ClientConfig D raw ''base'')"

definition shard_name :: "nat \<Rightarrow> string" where
  "shard_name i = (if i = 0 then ''root'' else ''shard-'' @ itoa i)"

text \<open>A negative number of shards cannot be the length of a slice.\<close>

definition ShardNames :: "sharded \<Rightarrow> string list outcome" where
  "ShardNames s =
     (if sd_NumberOfShards s < 0 then Panic ''makeslice: len out of range''
      else Ret (map shard_name [0..<nat (sd_NumberOfShards s)]))"

subsection \<open>Stopping\<close>

definition closeLog :: "sharded \<Rightarrow> sharded_os \<Rightarrow> sharded \<times> sharded_os" where
  "closeLog s os = (case sd_logFile s of
      None \<Rightarrow> (s, os)
    | Some l \<Rightarrow> (s\<lparr> sd_logFile := None \<rparr>, os\<lparr> so_logs := filter (\<lambda>x. x \<noteq> l) (so_logs os) \<rparr>))"

text \<open>The wait goroutine records the end of the subprocess.\<close>

definition subprocess_ends :: "nat \<Rightarrow> error option \<Rightarrow> sharded \<Rightarrow> sharded_os \<Rightarrow> sharded \<times> sharded_os" where
  "subprocess_ends pid e s os =
     (s\<lparr> sd_waitErr := e, sd_waitDone := Some True \<rparr>, os\<lparr> so_running := filter (\<lambda>p. fst p \<noteq> pid) (so_running os) \<rparr>)"

definition signal_group :: "nat \<Rightarrow> signal \<Rightarrow> sharded_os \<Rightarrow> sharded_os" where
  "signal_group pgid sig os = os\<lparr> so_signals := so_signals os @ [(pgid, sig)] \<rparr>"

definition isSignalExit :: "('raw, 'w) sharded_env \<Rightarrow> error \<Rightarrow> bool" where
  "isSignalExit D err = (case de_Signaled D err of Some signaled \<Rightarrow> signaled | None \<Rightarrow> False)"

definition exit_result :: "('raw, 'w) sharded_env \<Rightarrow> sharded \<Rightarrow> error option" where
  "exit_result D s = (case sd_waitErr s of
      None \<Rightarrow> None
    | Some err \<Rightarrow> if \<not> isSignalExit D err then Some err else None)"

text \<open>How the subprocess ends after SIGTERM: in time, or after the SIGKILL that follows.\<close>

datatype group_stop = Exits "error option" | Killed "error option"

definition Sharded_Stop ::
  "('raw, 'w) sharded_env \<Rightarrow> group_stop \<Rightarrow> 'w sharded_state \<Rightarrow> error option \<times> 'w sharded_state" where
  "Sharded_Stop D sel st = (case st of (s, w, os) \<Rightarrow>
     (case (sd_cmd s, sd_waitDone s) of
        (Some (Some pid), Some closed) \<Rightarrow>
          if closed then
            (case closeLog (s\<lparr> sd_cmd := Some None \<rparr>) os of (s, os) \<Rightarrow> (exit_result D s, s, w, os))
          else
            let os = signal_group pid SIGTERM os
            in case sel of
                 Exits e \<Rightarrow>
                   (case subprocess_ends pid e s os of (s, os) \<Rightarrow>
                      (case closeLog (s\<lparr> sd_cmd := Some None \<rparr>) os of (s, os) \<Rightarrow> (exit_result D s, s, w, os)))
               | Killed e \<Rightarrow>
                   (case subprocess_ends pid e s (signal_group pid SIGKILL os) of (s, os) \<Rightarrow>
                      (case closeLog (s\<lparr> sd_cmd := Some None \<rparr>) os of (s, os) \<Rightarrow>
                         (Some (Errorf ''envtest: sharded-test-server did not exit within %s, killed''
                            [Duration_String (sd_StopTimeout s)] []), s, w, os)))
      | _ \<Rightarrow> (case closeLog s os of (s, os) \<Rightarrow> (None, s, w, os))))"

subsection \<open>Starting\<close>

text \<open>
  A round of \<open>waitReady\<close>: what \<open>Stat\<close> finds (\<open>Inl\<close> a not-exist error or another one), and
  the channel of the \<open>select\<close> that is ready when there is no sentinel file yet. A subprocess that
  exits while a sentinel file, perhaps one of an earlier run, is already there is not seen to exit
  here; its end is then a step of \<open>Sharded_Stop\<close>.
\<close>

datatype stat_result = Found | Missing | StatErr error

datatype ready_select = SubprocessDone "error option" | CtxDone error | TickDone

fun waitReady ::
  "('raw, 'w) sharded_env \<Rightarrow> nat \<Rightarrow> (stat_result \<times> ready_select) list \<Rightarrow> sharded \<Rightarrow> sharded_os
     \<Rightarrow> (error option \<times> sharded \<times> sharded_os) option" where
  "waitReady D pid [] s os = None"
| "waitReady D pid ((stat, sel) # rounds) s os =
     (let readyPath = path_Join [sd_WorkDir s, ''.kcp'', ''ready-to-test''];
          logPath = path_Join [sd_WorkDir s, ''.kcp-sharded-test-server'', ''envtest.log'']
      in case stat of
           Found \<Rightarrow> Some (None, s, os)
         | StatErr err \<Rightarrow> Some (Some (Errorf ''envtest: stat %s: %w'' [readyPath] [err]), s, os)
         | Missing \<Rightarrow>
             (case sel of
                SubprocessDone e \<Rightarrow>
                  (case subprocess_ends pid e s os of (s, os) \<Rightarrow>
                     Some (Some (case e of
                        Some err \<Rightarrow> Errorf ''envtest: sharded-test-server exited before ready: %w (see %s)'' [logPath] [err]
                      | None \<Rightarrow> Errorf ''envtest: sharded-test-server exited before ready (see %s)'' [logPath] []), s, os))
              | CtxDone err \<Rightarrow>
                  Some (Some (Errorf ''envtest: sharded-test-server not ready within %s: %w (see %s)''
                     [Duration_String (sd_StartTimeout s), logPath] [err]), s, os)
              | TickDone \<Rightarrow> waitReady D pid rounds s os))"

text \<open>\<open>start_err\<close> is the result of starting the command.\<close>

definition launch ::
  "('raw, 'w) sharded_env \<Rightarrow> error option \<Rightarrow> string \<Rightarrow> 'w sharded_state \<Rightarrow> error option \<times> 'w sharded_state" where
  "launch D start_err binary st = (case st of (s, w, os) \<Rightarrow>
     (case de_MkdirAll D (path_Join [sd_WorkDir s, ''.kcp-sharded-test-server'']) w of
        (Some err, w1) \<Rightarrow> (Some (Errorf ''envtest: create log dir: %w'' [] [err]), s, w1, os)
      | (None, w1) \<Rightarrow>
          let logPath = path_Join [sd_WorkDir s, ''.kcp-sharded-test-server'', ''envtest.log'']
          in case de_OpenFile D logPath w1 of
               (Some err, w2) \<Rightarrow> (Some (Errorf ''envtest: open log file %s: %w'' [logPath] [err]), s, w2, os)
             | (None, w2) \<Rightarrow>
                 let logF = so_next os;
                     s = s\<lparr> sd_logFile := Some logF, sd_cmd := Some None \<rparr>;
                     args = [''-number-of-shards'', Itoa (sd_NumberOfShards s), ''-work-dir-path'', sd_WorkDir s]
                       @ sd_ExtraArgs s;
                     os = os\<lparr> so_next := logF + 1, so_logs := logF # so_logs os \<rparr>
                 in case start_err of
                      Some err \<Rightarrow>
                        (case closeLog s os of (s, os) \<Rightarrow>
                           (Some (Errorf ''envtest: start sharded-test-server: %w'' [] [err]), s, w2, os))
                    | None \<Rightarrow>
                        let pid = so_next os
                        in (None, s\<lparr> sd_cmd := Some (Some pid), sd_waitDone := Some False \<rparr>, w2,
                            os\<lparr> so_next := pid + 1, so_running := (pid, binary # args) # so_running os \<rparr>)))"

text \<open>After the launch: wait, load the configuration, and stop again when either fails.\<close>

definition await_config ::
  "('raw, 'w) sharded_env \<Rightarrow> (stat_result \<times> ready_select) list \<Rightarrow> group_stop
     \<Rightarrow> 'w sharded_state \<Rightarrow> (error option \<times> 'w sharded_state) option" where
  "await_config D rounds stop_sel st = (case st of (s, w, os) \<Rightarrow>
     (case sd_cmd s of
        Some (Some pid) \<Rightarrow>
          (case waitReady D pid rounds s os of
             None \<Rightarrow> None
           | Some (Some err, s, os) \<Rightarrow> Some (Some err, snd (Sharded_Stop D stop_sel (s, w, os)))
           | Some (None, s, os) \<Rightarrow>
               let kubeconfigPath = path_Join [sd_WorkDir s, ''.kcp'', ''admin.kubeconfig'']
               in case loadAdminConfig D kubeconfigPath w of
                    Inl err \<Rightarrow> Some (Some (Errorf ''envtest: load %s: %w'' [kubeconfigPath] [err]),
                                     snd (Sharded_Stop D stop_sel (s, w, os)))
                  | Inr cfg \<Rightarrow> Some (None, s\<lparr> sd_config := Some cfg \<rparr>, w, os))
      | _ \<Rightarrow> Some (None, st)))"

definition Sharded_Start ::
  "('raw, 'w) sharded_env \<Rightarrow> error option \<Rightarrow> (stat_result \<times> ready_select) list \<Rightarrow> group_stop
     \<Rightarrow> 'w sharded_state \<Rightarrow> (error option \<times> 'w sharded_state) option" where
  "Sharded_Start D start_err rounds stop_sel st = (case st of (s, w, os) \<Rightarrow>
     (if sd_started s then Some (Some (Errorf ''envtest: Sharded.Start called twice'' [] []), st)
      else case applyDefaults D w (s\<lparr> sd_started := True \<rparr>) of
        (Some err, s) \<Rightarrow> Some (Some err, s, w, os)
      | (None, s) \<Rightarrow>
          (case resolveShardedTestServer D w of
             Inl err \<Rightarrow> Some (Some err, s, w, os)
           | Inr binary \<Rightarrow>
               (case launch D start_err binary (s, w, os) of
                  (Some err, st) \<Rightarrow> Some (Some err, st)
                | (None, st) \<Rightarrow> await_config D rounds stop_sel st))))"

subsection \<open>Reachable states\<close>

inductive sharded_reach :: "('raw, 'w) sharded_env \<Rightarrow> 'w sharded_state \<Rightarrow> bool" for D where
  fresh: "sd_cmd s = None \<Longrightarrow> sd_logFile s = None \<Longrightarrow> sd_waitDone s = None \<Longrightarrow> \<not> sd_started s \<Longrightarrow>
     so_running os = [] \<Longrightarrow> so_logs os = [] \<Longrightarrow> sharded_reach D (s, w, os)"
| start: "sharded_reach D st \<Longrightarrow> Sharded_Start D start_err rounds stop_sel st = Some (r, st') \<Longrightarrow> sharded_reach D st'"
| stop: "sharded_reach D st \<Longrightarrow> Sharded_Stop D stop_sel st = (r, st') \<Longrightarrow> sharded_reach D st'"
| exits: "sharded_reach D (s, w, os) \<Longrightarrow> sd_cmd s = Some (Some pid) \<Longrightarrow> sd_waitDone s = Some False \<Longrightarrow>
     subprocess_ends pid e s os = (s', os') \<Longrightarrow> sharded_reach D (s', w', os')"

text \<open>What runs and what is open is what the fields say.\<close>

definition live_pids :: "sharded \<Rightarrow> nat list" where
  "live_pids s = (case (sd_cmd s, sd_waitDone s) of (Some (Some pid), Some False) \<Rightarrow> [pid] | _ \<Rightarrow> [])"

definition open_logs :: "sharded \<Rightarrow> nat list" where
  "open_logs s = (case sd_logFile s of None \<Rightarrow> [] | Some l \<Rightarrow> [l])"

lemma live_pids_frame [simp]: "live_pids (s\<lparr> sd_logFile := x \<rparr>) = live_pids s" "live_pids (s\<lparr> sd_config := c \<rparr>) = live_pids s"
  by (simp_all add: live_pids_def)

definition sharded_inv :: "'w sharded_state \<Rightarrow> bool" where
  "sharded_inv st \<longleftrightarrow> (case st of (s, w, os) \<Rightarrow>
     map fst (so_running os) = live_pids s \<and> so_logs os = open_logs s \<and>
     (\<not> sd_started s \<longrightarrow> sd_cmd s = None \<and> sd_logFile s = None \<and> sd_waitDone s = None))"

lemma closeLog_result:
  assumes "closeLog s os = (s', os')" and "so_logs os = open_logs s"
  shows "so_logs os' = []" and "sd_logFile s' = None" and "s' = s\<lparr> sd_logFile := None \<rparr>" and "so_running os' = so_running os"
  using assms by (auto simp: closeLog_def open_logs_def split: option.splits)

lemma subprocess_ends_result:
  assumes "subprocess_ends pid e s os = (s', os')" and "map fst (so_running os) = [pid]"
  shows "so_running os' = []" and "s' = s\<lparr> sd_waitErr := e, sd_waitDone := Some True \<rparr>" and "so_logs os' = so_logs os"
proof -
  have "\<forall>p \<in> set (so_running os). fst p = pid" using assms(2) by (auto dest!: map_eq_Cons_D)
  then show "so_running os' = []" "s' = s\<lparr> sd_waitErr := e, sd_waitDone := Some True \<rparr>" "so_logs os' = so_logs os"
    using assms(1) by (auto simp: subprocess_ends_def filter_empty_conv)
qed

text \<open>After \<open>Stop\<close> nothing runs, no log is open and there is no process to stop.\<close>

definition released :: "'w sharded_state \<Rightarrow> bool" where
  "released st \<longleftrightarrow> (case st of (s, w, os) \<Rightarrow> so_running os = [] \<and> so_logs os = [] \<and> sd_logFile s = None \<and> live_pids s = [] \<and>
     (\<forall>pid. sd_cmd s = Some (Some pid) \<longrightarrow> sd_waitDone s = None))"

lemma closed_releases:
  assumes "closeLog (s\<lparr> sd_cmd := Some None \<rparr>) os = (s', os')" and "so_running os = []" and "so_logs os = open_logs s"
  shows "released (s', w, os')" and "sd_started s' = sd_started s" and "sd_config s' = sd_config s"
proof -
  have "so_logs os = open_logs (s\<lparr> sd_cmd := Some None \<rparr>)" using assms(3) by (simp add: open_logs_def)
  note c = closeLog_result [OF assms(1) this]
  show "released (s', w, os')" "sd_started s' = sd_started s" "sd_config s' = sd_config s"
    using c(1,2,4) assms(2) unfolding c(3) by (simp_all add: released_def live_pids_def)
qed

lemma Sharded_Stop_releases:
  assumes "sharded_inv (s, w, os)" and "Sharded_Stop D sel (s, w, os) = (r, s', w', os')"
  shows "released (s', w', os') \<and> sd_started s' = sd_started s \<and> sd_config s' = sd_config s \<and>
    (\<not> sd_started s \<longrightarrow> sd_cmd s' = None \<and> sd_waitDone s' = None)"
proof -
  have inv: "map fst (so_running os) = live_pids s" "so_logs os = open_logs s"
    "\<not> sd_started s \<Longrightarrow> sd_cmd s = None \<and> sd_logFile s = None \<and> sd_waitDone s = None"
    using assms(1) by (simp_all add: sharded_inv_def)
  consider (idle) "\<forall>pid. sd_cmd s = Some (Some pid) \<longrightarrow> sd_waitDone s = None"
    | (ended) pid where "sd_cmd s = Some (Some pid)" "sd_waitDone s = Some True"
    | (live) pid where "sd_cmd s = Some (Some pid)" "sd_waitDone s = Some False"
    by (cases "sd_waitDone s") auto
  then show ?thesis
  proof cases
    case idle
    then have none: "live_pids s = []" by (auto simp: live_pids_def split: option.splits)
    obtain t os1 where c: "closeLog s os = (t, os1)" by (cases "closeLog s os")
    have "s' = t \<and> os' = os1"
      using assms(2) idle c by (auto simp: Sharded_Stop_def split: option.splits)
    then show ?thesis
      using closeLog_result [OF c inv(2)] idle none inv(1,3) by (auto simp: released_def)
  next
    case ended
    have "closeLog (s\<lparr> sd_cmd := Some None \<rparr>) os = (s', os')"
      using assms(2) ended by (simp add: Sharded_Stop_def split: prod.splits)
    then show ?thesis using closed_releases [of s os s' os'] inv ended by (auto simp: live_pids_def)
  next
    case live
    obtain e sig where sel: "sel = Exits e \<and> sig = [] \<or> sel = Killed e \<and> sig = [(pid, SIGKILL)]" by (cases sel) auto
    let ?os = "os\<lparr> so_signals := so_signals os @ [(pid, SIGTERM)] @ sig \<rparr>"
    obtain t os1 where ends: "subprocess_ends pid e s ?os = (t, os1)" by (cases "subprocess_ends pid e s ?os")
    have "map fst (so_running ?os) = [pid]" using inv(1) live by (simp add: live_pids_def)
    note t = subprocess_ends_result [OF ends this]
    have "closeLog (t\<lparr> sd_cmd := Some None \<rparr>) os1 = (s', os')"
      using assms(2) live sel ends by (auto simp: Sharded_Stop_def signal_group_def split: prod.splits)
    moreover have "so_logs os1 = open_logs t" using inv(2) unfolding t(2,3) by (simp add: open_logs_def)
    ultimately show ?thesis using closed_releases [of t os1 s' os'] t(1) inv(3) live unfolding t(2) by auto
  qed
qed

lemma released_inv: "released (s, w, os) \<Longrightarrow> sd_started s \<or> sd_cmd s = None \<and> sd_waitDone s = None \<Longrightarrow> sharded_inv (s, w, os)"
  by (auto simp: released_def sharded_inv_def open_logs_def)

lemma applyDefaults_frame:
  assumes "applyDefaults D w s = (r, s')"
  shows "sd_cmd s' = sd_cmd s" and "sd_logFile s' = sd_logFile s" and "sd_waitDone s' = sd_waitDone s"
    and "sd_started s' = sd_started s" and "sd_ExtraArgs s' = sd_ExtraArgs s"
  using assms by (auto simp: applyDefaults_def Let_def split: sum.splits)

text \<open>The command line for a shard.\<close>

definition sharded_args :: "('raw, 'w) sharded_env \<Rightarrow> sharded \<Rightarrow> string list" where
  "sharded_args D s = [''-number-of-shards'', Itoa (sd_NumberOfShards s), ''-work-dir-path'', sd_WorkDir s] @ sd_ExtraArgs s"

lemma launch_result:
  assumes "sd_cmd s = None" and "sd_logFile s = None" and "sd_waitDone s = None" and "sd_started s"
    and "so_running os = []" and "so_logs os = []" and "launch D start_err binary (s, w, os) = (r, s', w', os')"
  shows "r = Some err \<Longrightarrow> released (s', w', os')" and "sd_started s'" and "sharded_inv (s', w', os')"
    and "r = None \<Longrightarrow> \<exists>pid. sd_cmd s' = Some (Some pid) \<and> sd_waitDone s' = Some False \<and> so_running os' = [(pid, binary # sharded_args D s')]"
  using assms
  by (auto simp: launch_def released_def sharded_inv_def live_pids_def open_logs_def closeLog_def sharded_args_def Let_def
    split: prod.splits option.splits)

lemma waitReady_result:
  assumes "waitReady D pid rounds s os = Some (r, s', os')" and "sharded_inv (s, w, os)"
    and "sd_cmd s = Some (Some pid)" and "sd_waitDone s = Some False"
  shows "sharded_inv (s', w, os') \<and> sd_started s' = sd_started s \<and> (r = None \<longrightarrow> s' = s \<and> os' = os)"
  using assms(1)
proof (induction rounds)
  case (Cons round rounds)
  obtain stat sel where round: "round = (stat, sel)" by (cases round)
  have ends: "sharded_inv (t, w, os1) \<and> sd_started t = sd_started s" if "subprocess_ends pid e s os = (t, os1)" for e t os1
  proof -
    have "map fst (so_running os) = [pid]" using assms(2-4) by (simp add: sharded_inv_def live_pids_def)
    note t = subprocess_ends_result [OF that this]
    have "sd_started s" using assms(2,3) by (auto simp: sharded_inv_def)
    then show ?thesis using assms(2,3) t(1,3) unfolding t(2) by (simp add: sharded_inv_def live_pids_def open_logs_def)
  qed
  show ?case
  proof (cases stat)
    case Missing
    then show ?thesis using Cons ends round assms(2)
      by (cases sel) (auto simp: Let_def split: prod.splits)
  qed (use Cons.prems round assms(2) in \<open>auto simp: Let_def\<close>)
qed simp

lemma await_config_result:
  assumes "await_config D rounds stop_sel (s, w, os) = Some (r, s', w', os')" and "sharded_inv (s, w, os)"
    and "sd_cmd s = Some (Some pid)" and "sd_waitDone s = Some False"
  shows "r \<noteq> None \<Longrightarrow> released (s', w', os')" and "sharded_inv (s', w', os')"
    and "r = None \<Longrightarrow> so_running os' = so_running os \<and> sd_config s' \<noteq> None \<and> sharded_args D s' = sharded_args D s"
proof -
  have started: "sd_started s" using assms(2,3) by (auto simp: sharded_inv_def)
  have "(r \<noteq> None \<longrightarrow> released (s', w', os')) \<and> sharded_inv (s', w', os') \<and>
      (r = None \<longrightarrow> so_running os' = so_running os \<and> sd_config s' \<noteq> None \<and> sharded_args D s' = sharded_args D s)"
  proof (cases "waitReady D pid rounds s os")
    case None
    then show ?thesis using assms(1,3) by (simp add: await_config_def)
  next
    case (Some res)
    obtain q t os1 where res: "res = (q, t, os1)" by (cases res)
    note wr = waitReady_result [OF Some [unfolded res] assms(2-4)]
    obtain a s2 w2 os2 where stop: "Sharded_Stop D stop_sel (t, w, os1) = (a, s2, w2, os2)" by (metis prod_cases4)
    note rel = Sharded_Stop_releases [OF conjunct1 [OF wr] stop]
    then have "sd_started s2" using wr started by simp
    then have stopped: "released (s2, w2, os2) \<and> sharded_inv (s2, w2, os2)" using rel released_inv [of s2 w2 os2] by simp
    show ?thesis
    proof (cases q)
      case (Some err)
      then show ?thesis using assms(1,3) \<open>waitReady D pid rounds s os = Some res\<close> res stop stopped by (auto simp: await_config_def)
    next
      case None
      then have "t = s" "os1 = os" using wr by simp_all
      then show ?thesis
        using assms(1-3) \<open>waitReady D pid rounds s os = Some res\<close> res None stop stopped
        by (auto simp: await_config_def Let_def sharded_args_def sharded_inv_def open_logs_def split: sum.splits)
    qed
  qed
  then show "r \<noteq> None \<Longrightarrow> released (s', w', os')" and "sharded_inv (s', w', os')"
    and "r = None \<Longrightarrow> so_running os' = so_running os \<and> sd_config s' \<noteq> None \<and> sharded_args D s' = sharded_args D s" by blast+
qed

lemma Sharded_Start_result:
  assumes "Sharded_Start D start_err rounds stop_sel (s, w, os) = Some (r, s', w', os')" and "sharded_inv (s, w, os)"
  shows "sharded_inv (s', w', os')"
    and "\<not> sd_started s \<Longrightarrow> r \<noteq> None \<Longrightarrow> released (s', w', os')"
    and "\<not> sd_started s \<Longrightarrow> r = None \<Longrightarrow>
      \<exists>pid binary. so_running os' = [(pid, binary # sharded_args D s')] \<and> sd_config s' \<noteq> None"
proof -
  have "sharded_inv (s', w', os') \<and> (\<not> sd_started s \<longrightarrow> (r \<noteq> None \<longrightarrow> released (s', w', os')) \<and>
      (r = None \<longrightarrow> (\<exists>pid binary. so_running os' = [(pid, binary # sharded_args D s')] \<and> sd_config s' \<noteq> None)))"
  proof (cases "sd_started s")
    case True
    then show ?thesis using assms by (simp add: Sharded_Start_def)
  next
    case False
    then have idle: "sd_cmd s = None" "sd_logFile s = None" "sd_waitDone s = None" "so_running os = []" "so_logs os = []"
      using assms(2) by (auto simp: sharded_inv_def live_pids_def open_logs_def)
    obtain q t where def: "applyDefaults D w (s\<lparr> sd_started := True \<rparr>) = (q, t)" by (cases "applyDefaults D w (s\<lparr> sd_started := True \<rparr>)")
    have t: "sd_cmd t = None" "sd_logFile t = None" "sd_waitDone t = None" "sd_started t"
      using applyDefaults_frame [OF def] idle by simp_all
    have rel: "released (t, w, os) \<and> sharded_inv (t, w, os)"
      using t idle by (simp add: released_def sharded_inv_def live_pids_def open_logs_def)
    show ?thesis
    proof (cases "q = None \<and> \<not> is_err (resolveShardedTestServer D w)")
      case False
      then show ?thesis using assms(1) \<open>\<not> sd_started s\<close> def rel
        by (cases q; cases "resolveShardedTestServer D w") (auto simp: Sharded_Start_def)
    next
      case True
      then obtain binary where b: "q = None" "resolveShardedTestServer D w = Inr binary"
        by (cases "resolveShardedTestServer D w") auto
      obtain p t2 w2 os2 where la: "launch D start_err binary (t, w, os) = (p, t2, w2, os2)" by (metis prod_cases4)
      note lr = launch_result [OF t idle(4,5) la]
      have start: "Sharded_Start D start_err rounds stop_sel (s, w, os) = (case p of Some err \<Rightarrow> Some (Some err, t2, w2, os2)
          | None \<Rightarrow> await_config D rounds stop_sel (t2, w2, os2))"
        using \<open>\<not> sd_started s\<close> def b la by (simp add: Sharded_Start_def split: option.split)
      show ?thesis
      proof (cases p)
        case (Some err)
        then show ?thesis using start assms(1) lr(1) [OF Some] lr(3) by auto
      next
        case None
        obtain pid where pid: "sd_cmd t2 = Some (Some pid)" "sd_waitDone t2 = Some False"
          "so_running os2 = [(pid, binary # sharded_args D t2)]" using lr(4) [OF None] by blast
        have "await_config D rounds stop_sel (t2, w2, os2) = Some (r, s', w', os')" using start assms(1) None by simp
        note ac = await_config_result [OF this lr(3) pid(1,2)]
        show ?thesis using ac pid(3) by (cases r) auto
      qed
    qed
  qed
  then show "sharded_inv (s', w', os')"
    and "\<not> sd_started s \<Longrightarrow> r \<noteq> None \<Longrightarrow> released (s', w', os')"
    and "\<not> sd_started s \<Longrightarrow> r = None \<Longrightarrow>
      \<exists>pid binary. so_running os' = [(pid, binary # sharded_args D s')] \<and> sd_config s' \<noteq> None" by simp_all
qed

lemma sharded_inv_reach: "sharded_reach D st \<Longrightarrow> sharded_inv st"
proof (induction rule: sharded_reach.induct)
  case (fresh s os w)
  then show ?case by (simp add: sharded_inv_def live_pids_def open_logs_def)
next
  case (start st start_err rounds stop_sel r st')
  obtain s w os s' w' os' where eqs: "st = (s, w, os)" "st' = (s', w', os')" by (cases st; cases st') blast
  show ?case using Sharded_Start_result(1) [OF start.hyps(2) [unfolded eqs] start.IH [unfolded eqs]] unfolding eqs .
next
  case (stop st stop_sel r st')
  obtain s w os s' w' os' where eqs: "st = (s, w, os)" "st' = (s', w', os')" by (cases st; cases st') blast
  note rel = Sharded_Stop_releases [OF stop.IH [unfolded eqs] stop.hyps(2) [unfolded eqs]]
  then show ?case unfolding eqs using released_inv [of s' w' os'] by (cases "sd_started s") simp_all
next
  case (exits s w os pid e s' os' w')
  have "map fst (so_running os) = [pid]" using exits by (simp add: sharded_inv_def live_pids_def)
  note t = subprocess_ends_result [OF exits.hyps(4) this]
  have "sd_started s" using exits by (auto simp: sharded_inv_def)
  then show ?case using exits t(1,3) unfolding t(2) by (simp add: sharded_inv_def live_pids_def open_logs_def)
qed

text \<open>
  Property C27. The first \<open>Start\<close> of a sharded server is all or nothing. When it returns nil
  exactly one subprocess runs, with the command line of the configured fields, and there is
  an admin configuration; when it returns an error nothing is left: no subprocess, no open
  log file, and nothing to stop.
\<close>

theorem sharded_start_all_or_nothing:
  assumes "sharded_reach D (s, w, os)" and "\<not> sd_started s"
    and "Sharded_Start D start_err rounds stop_sel (s, w, os) = Some (r, s', w', os')"
  shows "if r = None
    then \<exists>pid binary. so_running os' = [(pid, binary # sharded_args D s')] \<and> sd_config s' \<noteq> None
    else so_running os' = [] \<and> so_logs os' = [] \<and> live_pids s' = []"
  using Sharded_Start_result(2,3) [OF assms(3) sharded_inv_reach [OF assms(1)] assms(2)] by (simp add: released_def)

text \<open>
  Property C26. Whatever was started, has ended or was stopped before, \<open>Stop\<close> leaves no
  subprocess and no open log file, and a second \<open>Stop\<close> returns nil and changes nothing.
\<close>

theorem sharded_stop_releases:
  assumes "sharded_reach D st" and "Sharded_Stop D stop_sel st = (r, s', w', os')"
  shows "so_running os' = [] \<and> so_logs os' = [] \<and> Sharded_Stop D stop_sel' (s', w', os') = (None, s', w', os')"
proof -
  obtain s w os where st: "st = (s, w, os)" by (cases st) blast
  have "released (s', w', os')"
    using Sharded_Stop_releases [OF sharded_inv_reach [OF assms(1), unfolded st] assms(2) [unfolded st]] by blast
  then show ?thesis by (auto simp: released_def Sharded_Stop_def closeLog_def split: option.splits)
qed

text \<open>\<open>Start\<close> does return: some round sees the sentinel, the end of the subprocess or of the context.\<close>

lemma waitReady_returns:
  "\<exists>round \<in> set rounds. round \<noteq> (Missing, TickDone) \<Longrightarrow> \<exists>res. waitReady D pid rounds s os = Some res"
proof (induction rounds)
  case (Cons round rounds)
  obtain stat sel where "round = (stat, sel)" by (cases round)
  then show ?case using Cons by (cases stat; cases sel) (auto simp: Let_def split: prod.splits)
qed simp

theorem sharded_start_returns:
  assumes "\<exists>round \<in> set rounds. round \<noteq> (Missing, TickDone)"
  shows "Sharded_Start D start_err rounds stop_sel st \<noteq> None"
proof -
  have "await_config D rounds stop_sel u \<noteq> None" for u
  proof -
    obtain s w os where fields: "u = (s, w, os)" by (cases u)
    show ?thesis
    proof (cases "sd_cmd s")
      case (Some c)
      show ?thesis
      proof (cases c)
        case (Some pid)
        obtain q t os1 where "waitReady D pid rounds s os = Some (q, t, os1)"
          using waitReady_returns [OF assms, of D pid s os] by auto
        moreover obtain a s2 w2 os2 where "Sharded_Stop D stop_sel (t, w, os1) = (a, s2, w2, os2)" by (metis prod_cases4)
        ultimately show ?thesis using \<open>sd_cmd s = Some c\<close> Some
          by (simp add: await_config_def fields Let_def split: sum.split option.split)
      qed (simp add: await_config_def fields Some)
    qed (simp add: await_config_def fields)
  qed
  then show ?thesis
    by (simp add: Sharded_Start_def split: sum.split option.split prod.split)
qed

subsection \<open>The names of the shards\<close>

lemma shard_name_eq_iff: "shard_name i = shard_name j \<longleftrightarrow> i = j"
  by (simp add: shard_name_def)

text \<open>
  A server with a positive number of shards has as many shard names, all
  different, and the first is the root shard.
\<close>

theorem shard_names_distinct:
  assumes "0 < sd_NumberOfShards s"
  shows "\<exists>names. ShardNames s = Ret names \<and> distinct names \<and> int (length names) = sd_NumberOfShards s \<and> hd names = ''root''"
proof -
  let ?names = "map shard_name [0..<nat (sd_NumberOfShards s)]"
  have "distinct ?names" by (simp add: distinct_map inj_on_def shard_name_eq_iff)
  moreover have "hd ?names = ''root''" using assms by (simp add: hd_map shard_name_def)
  ultimately show ?thesis using assms by (simp add: ShardNames_def)
qed

subsection \<open>Witnesses\<close>

definition demo_sharded_env :: "(unit, unit) sharded_env" where
  "demo_sharded_env = \<lparr> de_env = [''KCP_NUMBER_OF_SHARDS'' \<mapsto> ''3'', ''KCP_ASSET_SHARDED_TEST_SERVER'' \<mapsto> ''/bin/sharded''],
     de_Getwd = (\<lambda>_. Inr ''/work''), de_LookPath = (\<lambda>_ _. Inl (Foreign ''not found'')), de_MkdirAll = (\<lambda>_ w. (None, w)),
     de_OpenFile = (\<lambda>_ w. (None, w)), de_LoadFromFile = (\<lambda>_ _. Inr ()), de_ClientConfig = (\<lambda>_ _. Inr empty_config),
     de_Signaled = (\<lambda>_. None) \<rparr>"

definition demo_sharded0 :: "unit sharded_state" where
  "demo_sharded0 = (\<lparr> sd_NumberOfShards = 0, sd_WorkDir = [], sd_ExtraArgs = [''--quiet''], sd_StartTimeout = 0, sd_StopTimeout = 0,
     sd_cmd = None, sd_logFile = None, sd_config = None, sd_started = False, sd_waitDone = None, sd_waitErr = None \<rparr>, (),
     \<lparr> so_running = [], so_next = 1, so_logs = [], so_signals = [] \<rparr>)"

definition demo_rounds :: "(stat_result \<times> ready_select) list" where
  "demo_rounds = [(Missing, TickDone), (Missing, TickDone), (Found, TickDone)]"

definition demo_sharded_start :: "(error option \<times> unit sharded_state) option" where
  "demo_sharded_start = Sharded_Start demo_sharded_env None demo_rounds (Exits None) demo_sharded0"

lemma demo_sharded_fresh: "sharded_reach demo_sharded_env demo_sharded0"
  unfolding demo_sharded0_def by (rule sharded_reach.fresh) simp_all

lemma demo_sharded_ready: "map_option fst demo_sharded_start = Some None"
  by code_simp

lemma demo_sharded_run:
  obtains s w os where "Sharded_Start demo_sharded_env None demo_rounds (Exits None) demo_sharded0 = Some (None, s, w, os)"
  using demo_sharded_ready unfolding demo_sharded_start_def by auto

theorem sharded_start_all_or_nothing_witness:
  "\<exists>s os pid binary. map_option snd demo_sharded_start = Some (s, (), os) \<and> so_running os = [(pid, binary # sharded_args demo_sharded_env s)]"
proof (rule demo_sharded_run)
  fix s :: sharded and w os
  assume run: "Sharded_Start demo_sharded_env None demo_rounds (Exits None) demo_sharded0 = Some (None, s, w, os)"
  have "\<not> sd_started (fst demo_sharded0)" by (simp add: demo_sharded0_def)
  then show ?thesis
    using sharded_start_all_or_nothing [OF _ _ run [unfolded demo_sharded0_def]] demo_sharded_fresh run
    by (simp add: demo_sharded_start_def demo_sharded0_def)
qed

definition demo_sharded_stop :: "error option \<times> unit sharded_state" where
  "demo_sharded_stop = Sharded_Stop demo_sharded_env (Killed (Some (Foreign ''signal: killed'')))
     (snd (the demo_sharded_start))"

text \<open>A server that had to be killed is gone, and the second \<open>Stop\<close> has nothing to do.\<close>

theorem sharded_stop_releases_witness:
  "so_running (snd (snd (snd demo_sharded_stop))) = [] \<and>
   Sharded_Stop demo_sharded_env (Exits None) (snd demo_sharded_stop) = (None, snd demo_sharded_stop)"
proof -
  obtain s w os where run: "Sharded_Start demo_sharded_env None demo_rounds (Exits None) demo_sharded0 = Some (None, s, w, os)"
    by (rule demo_sharded_run)
  have reach: "sharded_reach demo_sharded_env (s, w, os)" by (rule sharded_reach.start [OF demo_sharded_fresh run])
  obtain r s2 w2 os2 where stop: "demo_sharded_stop = (r, s2, w2, os2)" by (cases demo_sharded_stop) blast
  then have "Sharded_Stop demo_sharded_env (Killed (Some (Foreign ''signal: killed''))) (s, w, os) = (r, s2, w2, os2)"
    using run by (simp add: demo_sharded_stop_def demo_sharded_start_def)
  from sharded_stop_releases [OF reach this] show ?thesis unfolding stop by simp
qed

theorem sharded_start_returns_witness:
  "Sharded_Start demo_sharded_env None [(Missing, TickDone), (Missing, CtxDone (Foreign ''context canceled''))] (Exits None) demo_sharded0 \<noteq> None"
  by (rule sharded_start_returns) simp

theorem shard_names_distinct_witness:
  "\<exists>names. ShardNames ((fst demo_sharded0)\<lparr> sd_NumberOfShards := 3 \<rparr>) = Ret names \<and> distinct names \<and> length names = 3"
  using shard_names_distinct [of "(fst demo_sharded0)\<lparr> sd_NumberOfShards := 3 \<rparr>"] by auto

end
