(* ===== verification/Workspaces.thy ===== *)
theory Workspaces
  imports TinyCA "HOL-Library.Word"
begin

text \<open>
  \<^verbatim>\<open>envtest/eventually.go\<close> and \<^verbatim>\<open>envtest/workspaces.go\<close>: waiting for a condition, the
  options and fixtures of workspaces, and the shard a workspace is on. A test that fails
  ends there: \<open>Failed\<close>.
\<close>

datatype 'a tested = Passed 'a | Failed string

subsection \<open>Waiting for a condition\<close>

text \<open>
  A poll is the result and reason of the condition, or a failed assertion inside it.
  \<open>polls\<close> bounds the polls that fit into the waiting time, \<open>late\<close> tells which of them come
  after a fifth of it. The result is whether the condition became true, and what is logged.
\<close>

datatype poll = Poll bool string | FailNow string

definition log_poll :: "bool \<Rightarrow> bool \<Rightarrow> string \<Rightarrow> string \<times> string list \<Rightarrow> string \<times> string list" where
  "log_poll late ok msg st = (case st of (prev, logs) \<Rightarrow>
     (if late then
        if \<not> ok \<and> msg \<noteq> [] \<and> msg \<noteq> prev then (msg, logs @ [''Waiting for condition, but got: '' @ msg])
        else if ok \<and> msg \<noteq> [] \<and> prev \<noteq> [] then (prev, logs @ [''Condition became true: '' @ msg])
        else (prev, logs)
      else (prev, logs)))"

fun eventually_loop ::
  "(nat \<Rightarrow> bool) \<Rightarrow> ('s \<Rightarrow> poll \<times> 's) \<Rightarrow> nat \<Rightarrow> nat \<Rightarrow> string \<times> string list \<Rightarrow> 's \<Rightarrow> bool \<times> string list \<times> 's" where
  "eventually_loop late condition i 0 lg s = (False, snd lg, s)"
| "eventually_loop late condition i (Suc n) lg s =
     (case condition s of
        (FailNow m, s') \<Rightarrow> (False, snd lg, s')
      | (Poll ok msg, s') \<Rightarrow>
          let lg' = log_poll (late i) ok msg lg
          in if ok then (True, snd lg', s') else eventually_loop late condition (Suc i) n lg' s')"

definition Eventually ::
  "(nat \<Rightarrow> bool) \<Rightarrow> ('s \<Rightarrow> poll \<times> 's) \<Rightarrow> nat \<Rightarrow> 's \<Rightarrow> bool \<times> string list \<times> 's" where
  "Eventually late condition polls s = eventually_loop late condition 0 polls ([], []) s"

subsection \<open>Conditions of an object\<close>

record condition =
  co_Status :: string
  co_Reason :: string
  co_Message :: string

record conditionEvaluator =
  ce_conditionType :: string
  ce_isStatus :: "string option"
  ce_isNotStatus :: "string option"
  ce_reason :: "string option"

definition ce_Is :: "string \<Rightarrow> string \<Rightarrow> conditionEvaluator" where
  "ce_Is conditionType s = \<lparr> ce_conditionType = conditionType, ce_isStatus = Some s, ce_isNotStatus = None, ce_reason = None \<rparr>"

definition ce_IsNot :: "string \<Rightarrow> string \<Rightarrow> conditionEvaluator" where
  "ce_IsNot conditionType s = \<lparr> ce_conditionType = conditionType, ce_isStatus = None, ce_isNotStatus = Some s, ce_reason = None \<rparr>"

definition WithReason :: "string \<Rightarrow> conditionEvaluator \<Rightarrow> conditionEvaluator" where
  "WithReason reason c = c\<lparr> ce_reason := Some reason \<rparr>"

definition descriptor :: "conditionEvaluator \<Rightarrow> string" where
  "descriptor c =
     (let d = (case ce_isStatus c of Some s \<Rightarrow> ce_conditionType c @ '' to be '' @ s | None \<Rightarrow> []);
          d = (case ce_isNotStatus c of Some s \<Rightarrow> ce_conditionType c @ '' not to be '' @ s | None \<Rightarrow> d)
      in case ce_reason c of Some r \<Rightarrow> d @ '' (with reason '' @ r @ '')'' | None \<Rightarrow> d)"

text \<open>\<open>get\<close> is \<open>conditions.Get\<close> of the kcp SDK.\<close>

definition ce_matches ::
  "('o \<Rightarrow> string \<Rightarrow> condition option) \<Rightarrow> conditionEvaluator \<Rightarrow> 'o \<Rightarrow> condition option \<times> string \<times> bool" where
  "ce_matches get c object =
     (case get object (ce_conditionType c) of
        None \<Rightarrow> (None, descriptor c, False)
      | Some condition \<Rightarrow>
          (Some condition, descriptor c,
           \<not> ((case ce_isStatus c of Some s \<Rightarrow> co_Status condition \<noteq> s | None \<Rightarrow> False) \<or>
              (case ce_isNotStatus c of Some s \<Rightarrow> co_Status condition = s | None \<Rightarrow> False) \<or>
              (case ce_reason c of Some r \<Rightarrow> co_Reason condition \<noteq> r | None \<Rightarrow> False))))"

definition condition_poll ::
  "('o \<Rightarrow> string \<Rightarrow> condition option) \<Rightarrow> ('s \<Rightarrow> 'o result \<times> 's) \<Rightarrow> conditionEvaluator \<Rightarrow> 's \<Rightarrow> poll \<times> 's" where
  "condition_poll get getter c s =
     (case getter s of
        (Inl err, s') \<Rightarrow> (FailNow ''Error fetching object'', s')
      | (Inr obj, s') \<Rightarrow>
          (case ce_matches get c obj of
             (condition, desc, ok) \<Rightarrow>
               (Poll ok (if ok then []
                  else case condition of
                    Some co \<Rightarrow> ''Not done waiting for object '' @ desc @ '': '' @ co_Reason co @ '': '' @ co_Message co
                  | None \<Rightarrow> ''Not done waiting for object '' @ desc @ '': no condition present''), s')))"

definition EventuallyCondition ::
  "(nat \<Rightarrow> bool) \<Rightarrow> ('o \<Rightarrow> string \<Rightarrow> condition option) \<Rightarrow> ('s \<Rightarrow> 'o result \<times> 's) \<Rightarrow> conditionEvaluator \<Rightarrow> nat \<Rightarrow> 's
     \<Rightarrow> bool \<times> string list \<times> 's" where
  "EventuallyCondition late get getter c polls s = Eventually late (condition_poll get getter c) polls s"

definition EventuallyReady ::
  "(nat \<Rightarrow> bool) \<Rightarrow> ('o \<Rightarrow> string \<Rightarrow> condition option) \<Rightarrow> ('s \<Rightarrow> 'o result \<times> 's) \<Rightarrow> nat \<Rightarrow> 's \<Rightarrow> bool \<times> string list \<times> 's" where
  "EventuallyReady late get getter polls s = EventuallyCondition late get getter (ce_Is ''Ready'' ''True'') polls s"

subsection \<open>Workspaces and their options\<close>

text \<open>A location selects shards by labels.\<close>

record workspace =
  ws_Name :: string
  ws_GenerateName :: string
  ws_Annotations :: "string \<rightharpoonup> string"
  ws_Type :: "(string \<times> string) option"
  ws_Location :: "(string \<rightharpoonup> string) option"
  ws_Cluster :: string
  ws_Phase :: string

definition WithLocation :: "(string \<rightharpoonup> string) \<Rightarrow> workspace \<Rightarrow> workspace" where
  "WithLocation w ws = ws\<lparr> ws_Location := Some w \<rparr>"

definition WithShard :: "string \<Rightarrow> workspace \<Rightarrow> workspace" where
  "WithShard name = WithLocation [''name'' \<mapsto> name]"

definition WithRootShard :: "workspace \<Rightarrow> workspace" where
  "WithRootShard = WithShard ''root''"

definition WithType :: "string \<Rightarrow> string \<Rightarrow> workspace \<Rightarrow> workspace" where
  "WithType path name ws = ws\<lparr> ws_Type := Some (name, path) \<rparr>"

text \<open>\<open>s\<close> is the formatted name.\<close>

definition WithName :: "string \<Rightarrow> workspace \<Rightarrow> workspace" where
  "WithName s ws = ws\<lparr> ws_Name := s, ws_GenerateName := [] \<rparr>"

definition WithNamePrefix :: "string \<Rightarrow> workspace \<Rightarrow> workspace" where
  "WithNamePrefix prefix ws = ws\<lparr> ws_GenerateName := ws_GenerateName ws @ prefix @ ''-'' \<rparr>"

text \<open>
  The counters of the tests are 64-bit, kept by the name of the test until its clean-up. Go's
  remainder keeps the sign of the counter, and a negative index panics.
\<close>

type_synonym counters = "string \<rightharpoonup> 64 word"

definition WithSpreadAcrossShards :: "string \<Rightarrow> string list \<Rightarrow> counters \<Rightarrow> counters tested" where
  "WithSpreadAcrossShards test shardNames c =
     (if shardNames = [] then Failed ''WithSpreadAcrossShards requires at least one shard to schedule workspaces on''
      else Passed (if c test = None then c(test \<mapsto> 0) else c))"

definition spread_option ::
  "string \<Rightarrow> string list \<Rightarrow> workspace \<times> counters \<Rightarrow> (workspace \<times> counters) outcome" where
  "spread_option test shardNames st = (case st of (ws, c) \<Rightarrow>
     (if ws_Location ws \<noteq> None then Ret st
      else let counter = (case c test of None \<Rightarrow> 0 | Some n \<Rightarrow> n);
               idx = sint (counter + 1 - 1);
               r = (if idx < 0 then - ((- idx) mod int (length shardNames)) else idx mod int (length shardNames));
               c = c(test \<mapsto> counter + 1)
           in if r < 0 then Panic ''index out of range''
              else Ret (WithShard (shardNames ! nat r) ws, c)))"

text \<open>The clean-up that the first use of a counter registers.\<close>

definition spread_cleanup :: "string \<Rightarrow> counters \<Rightarrow> counters" where
  "spread_cleanup test c = c(test := None)"

subsection \<open>The shard of a workspace\<close>

text \<open>
  The clients of the fixtures by the workspace path they are for, with the error tests of
  apimachinery, the path functions of logicalcluster and the hash functions. A shard is given
  by its name; \<open>wc_Get\<close> and \<open>wc_Create\<close> return the object they fill in.
\<close>

record 'w workspace_client =
  wc_Join :: "string \<Rightarrow> string \<Rightarrow> string"
  wc_From :: "workspace \<Rightarrow> string"
  wc_Create :: "string \<Rightarrow> workspace \<Rightarrow> 'w \<Rightarrow> error option \<times> workspace \<times> 'w"
  wc_Get :: "string \<Rightarrow> string \<Rightarrow> 'w \<Rightarrow> workspace result \<times> 'w"
  wc_GetLogicalCluster :: "string \<Rightarrow> 'w \<Rightarrow> error option \<times> 'w"
  wc_Delete :: "string \<Rightarrow> workspace \<Rightarrow> 'w \<Rightarrow> error option \<times> 'w"
  wc_ListShards :: "string \<Rightarrow> 'w \<Rightarrow> string list result \<times> 'w"
  wc_IsNotFound :: "error \<Rightarrow> bool"
  wc_IsForbidden :: "error \<Rightarrow> bool"
  wc_Error :: "error \<Rightarrow> string"
  wc_Sum224 :: "string \<Rightarrow> string"
  wc_EncodeBytes :: "string \<Rightarrow> string"

definition to_lower_ascii :: "char \<Rightarrow> char" where
  "to_lower_ascii c =
     (if 65 \<le> (of_char c :: nat) \<and> (of_char c :: nat) \<le> 90 then char_of ((of_char c :: nat) + 32) else c)"

definition base36Sha224NameValue :: "'w workspace_client \<Rightarrow> string \<Rightarrow> string outcome" where
  "base36Sha224NameValue W name =
     (let base36hash = map to_lower_ascii (wc_EncodeBytes W (wc_Sum224 W name))
      in if length base36hash < 8 then Panic ''slice bounds out of range'' else Ret (take 8 base36hash))"

fun find_shard :: "'w workspace_client \<Rightarrow> string \<Rightarrow> string list \<Rightarrow> string option outcome" where
  "find_shard W hash [] = Ret None"
| "find_shard W hash (name # names) =
     bind_outcome (base36Sha224NameValue W name) (\<lambda>h. if h = hash then Ret (Some name) else find_shard W hash names)"

definition WorkspaceShard :: "'w workspace_client \<Rightarrow> workspace \<Rightarrow> 'w \<Rightarrow> string result outcome \<times> 'w" where
  "WorkspaceShard W ws w =
     (case wc_ListShards W ''root'' w of
        (Inl err, w') \<Rightarrow> (Ret (Inl err), w')
      | (Inr items, w') \<Rightarrow>
          let hash = (case ws_Annotations ws ''internal.tenancy.kcp.io/shard'' of Some h \<Rightarrow> h | None \<Rightarrow> [])
          in if hash = []
             then (Ret (Inl (Errorf ''workspace %s does not have a shard hash annotation''
                               [wc_Join W (wc_From W ws) (ws_Name ws)] [])), w')
             else (bind_outcome (find_shard W hash items) (\<lambda>found. case found of
                     Some name \<Rightarrow> Ret (Inr name)
                   | None \<Rightarrow> Ret (Inl (Errorf ''failed to determine shard for workspace %s'' [ws_Name ws] []))), w'))"

definition WorkspaceShardOrDie :: "'w workspace_client \<Rightarrow> workspace \<Rightarrow> 'w \<Rightarrow> string tested outcome \<times> 'w" where
  "WorkspaceShardOrDie W ws w = (case WorkspaceShard W ws w of
     (r, w') \<Rightarrow> (bind_outcome r (\<lambda>x. case x of
        Inl err \<Rightarrow> Ret (Failed (''failed to determine shard for workspace '' @ ws_Name ws)) | Inr s \<Rightarrow> Ret (Passed s)), w'))"

subsection \<open>Workspace fixtures\<close>

definition new_workspace :: workspace where
  "new_workspace = \<lparr> ws_Name = [], ws_GenerateName = ''e2e-workspace-'', ws_Annotations = Map.empty,
     ws_Type = Some (''universal'', ''root''), ws_Location = None, ws_Cluster = [], ws_Phase = [] \<rparr>"

type_synonym workspace_option = "workspace \<times> counters \<Rightarrow> (workspace \<times> counters) outcome"

fun apply_options :: "workspace_option list \<Rightarrow> workspace \<times> counters \<Rightarrow> (workspace \<times> counters) outcome" where
  "apply_options [] st = Ret st"
| "apply_options (opt # opts) st = bind_outcome (opt st) (apply_options opts)"

definition create_poll :: "'w workspace_client \<Rightarrow> string \<Rightarrow> workspace \<times> 'w \<Rightarrow> poll \<times> workspace \<times> 'w" where
  "create_poll W parent st = (case st of (ws, w) \<Rightarrow>
     (case wc_Create W parent ws w of (err, ws', w') \<Rightarrow>
        (Poll (err = None) (''error creating workspace under '' @ parent @ '': '' @
           (case err of None \<Rightarrow> ''<nil>'' | Some e \<Rightarrow> wc_Error W e)), ws', w')))"

text \<open>\<open>yaml\<close> is the printed workspace.\<close>

definition phase_poll ::
  "'w workspace_client \<Rightarrow> (workspace \<Rightarrow> string) \<Rightarrow> string \<Rightarrow> string \<Rightarrow> workspace \<times> 'w \<Rightarrow> poll \<times> workspace \<times> 'w" where
  "phase_poll W yaml parent expected st = (case st of (ws, w) \<Rightarrow>
     (case wc_Get W parent (ws_Name ws) w of
        (Inl err, w') \<Rightarrow>
          (FailNow (if wc_IsNotFound W err then ''workspace '' @ wc_Join W parent (ws_Name ws) @ '' was deleted''
                    else ''failed to get workspace '' @ wc_Join W parent (ws_Name ws)), ws, w')
      | (Inr ws', w') \<Rightarrow>
          (if ws_Phase ws' \<noteq> expected
           then (Poll False (''workspace phase is '' @ ws_Phase ws' @ '', not '' @ expected @ CHR 0x0A # CHR 0x0A # yaml ws'), ws', w')
           else (Poll True [], ws', w'))))"

definition access_poll :: "'w workspace_client \<Rightarrow> string \<Rightarrow> workspace \<times> 'w \<Rightarrow> poll \<times> workspace \<times> 'w" where
  "access_poll W parent st = (case st of (ws, w) \<Rightarrow>
     let path = wc_Join W parent (ws_Name ws)
     in case wc_GetLogicalCluster W (ws_Cluster ws) w of
          (Some err, w1) \<Rightarrow>
            (Poll False (''failed to get LogicalCluster '' @ path @ '' by cluster name '' @ ws_Cluster ws @ '': '' @ wc_Error W err), ws, w1)
        | (None, w1) \<Rightarrow>
            (case wc_GetLogicalCluster W path w1 of
               (Some err, w2) \<Rightarrow> (Poll False (''failed to get LogicalCluster '' @ path @ '' via path: '' @ wc_Error W err), ws, w2)
             | (None, w2) \<Rightarrow> (Poll True [], ws, w2)))"

text \<open>The clean-up of a fixture; \<open>preserve\<close>: the variable \<open>PRESERVE\<close> is set.\<close>

definition fixture_cleanup :: "'w workspace_client \<Rightarrow> bool \<Rightarrow> string \<Rightarrow> workspace \<Rightarrow> 'w \<Rightarrow> unit tested \<times> 'w" where
  "fixture_cleanup W preserve parent ws w =
     (if preserve then (Passed (), w)
      else case wc_Delete W parent ws w of
        (None, w') \<Rightarrow> (Passed (), w')
      | (Some err, w') \<Rightarrow>
          (if wc_IsNotFound W err \<or> wc_IsForbidden W err then Passed ()
           else Failed (''failed to delete workspace '' @ ws_Name ws), w'))"

text \<open>
  The shared beginning of the fixtures: apply the options, create. The result is the
  workspace, or how the test ended; the flag says whether the clean-up is registered.
\<close>

definition create_workspace ::
  "'w workspace_client \<Rightarrow> (nat \<Rightarrow> bool) \<Rightarrow> nat \<Rightarrow> string \<Rightarrow> workspace_option list \<Rightarrow> counters \<times> 'w
     \<Rightarrow> workspace tested outcome \<times> counters \<times> 'w" where
  "create_workspace W late polls parent opts st = (case st of (c, w) \<Rightarrow>
     (case apply_options opts (new_workspace, c) of
        Panic m \<Rightarrow> (Panic m, c, w)
      | Ret (ws, c) \<Rightarrow>
          if ws_Type ws = None then (Panic ''invalid memory address or nil pointer dereference'', c, w)
          else case Eventually late (create_poll W parent) polls (ws, w) of
             (ok, _, ws', w') \<Rightarrow>
               (Ret (if ok then Passed ws' else Failed (''failed to create workspace under '' @ parent)), c, w')))"

definition await_phase ::
  "'w workspace_client \<Rightarrow> (nat \<Rightarrow> bool) \<Rightarrow> (workspace \<Rightarrow> string) \<Rightarrow> nat \<Rightarrow> string \<Rightarrow> string \<Rightarrow> workspace \<times> 'w
     \<Rightarrow> workspace tested \<times> 'w" where
  "await_phase W late yaml polls parent phase st =
     (case Eventually late (phase_poll W yaml parent phase) polls st of
        (ok, _, ws', w') \<Rightarrow> (if ok then Passed ws' else Failed (''failed to wait for workspace to become '' @ phase), w'))"

definition await_access ::
  "'w workspace_client \<Rightarrow> (nat \<Rightarrow> bool) \<Rightarrow> nat \<Rightarrow> string \<Rightarrow> workspace \<times> 'w \<Rightarrow> workspace tested \<times> 'w" where
  "await_access W late polls parent st =
     (case Eventually late (access_poll W parent) polls st of
        (ok, _, ws', w') \<Rightarrow> (if ok then Passed ws' else Failed ''failed to wait for workspace to become accessible'', w'))"

text \<open>The last step of a fixture: its log line needs the shard.\<close>

definition report_shard ::
  "'w workspace_client \<Rightarrow> string \<Rightarrow> workspace \<times> 'w \<Rightarrow> (workspace \<times> string) tested outcome \<times> 'w" where
  "report_shard W parent st = (case st of (ws, w) \<Rightarrow>
     (case WorkspaceShardOrDie W ws w of
        (Panic m, w') \<Rightarrow> (Panic m, w')
      | (Ret (Failed m), w') \<Rightarrow> (Ret (Failed m), w')
      | (Ret (Passed s), w') \<Rightarrow> (Ret (Passed (ws, wc_Join W parent (ws_Name ws))), w')))"

definition NewWorkspaceFixture ::
  "'w workspace_client \<Rightarrow> (nat \<Rightarrow> bool) \<Rightarrow> (workspace \<Rightarrow> string) \<Rightarrow> nat \<Rightarrow> nat \<Rightarrow> string \<Rightarrow> workspace_option list
     \<Rightarrow> counters \<times> 'w \<Rightarrow> (workspace \<times> string) tested outcome \<times> bool \<times> counters \<times> 'w" where
  "NewWorkspaceFixture W late yaml polls init_polls parent opts st =
     (case create_workspace W late polls parent opts st of
        (Panic m, c, w) \<Rightarrow> (Panic m, False, c, w)
      | (Ret (Failed m), c, w) \<Rightarrow> (Ret (Failed m), False, c, w)
      | (Ret (Passed ws), c, w) \<Rightarrow>
          (case await_phase W late yaml init_polls parent ''Ready'' (ws, w) of
             (Failed m, w1) \<Rightarrow> (Ret (Failed m), True, c, w1)
           | (Passed ws1, w1) \<Rightarrow>
               (case await_access W late polls parent (ws1, w1) of
                  (Failed m, w2) \<Rightarrow> (Ret (Failed m), True, c, w2)
                | (Passed ws2, w2) \<Rightarrow> (case report_shard W parent (ws2, w2) of (r, w3) \<Rightarrow> (r, True, c, w3)))))"

definition NewInitializingWorkspaceFixture ::
  "'w workspace_client \<Rightarrow> (nat \<Rightarrow> bool) \<Rightarrow> (workspace \<Rightarrow> string) \<Rightarrow> nat \<Rightarrow> nat \<Rightarrow> string \<Rightarrow> workspace_option list
     \<Rightarrow> counters \<times> 'w \<Rightarrow> (workspace \<times> string) tested outcome \<times> bool \<times> counters \<times> 'w" where
  "NewInitializingWorkspaceFixture W late yaml polls init_polls parent opts st =
     (case create_workspace W late polls parent opts st of
        (Panic m, c, w) \<Rightarrow> (Panic m, False, c, w)
      | (Ret (Failed m), c, w) \<Rightarrow> (Ret (Failed m), False, c, w)
      | (Ret (Passed ws), c, w) \<Rightarrow>
          (case await_phase W late yaml init_polls parent ''Initializing'' (ws, w) of
             (Failed m, w1) \<Rightarrow> (Ret (Failed m), True, c, w1)
           | (Passed ws1, w1) \<Rightarrow> (case report_shard W parent (ws1, w1) of (r, w2) \<Rightarrow> (r, True, c, w2))))"

subsection \<open>What waiting gives\<close>

lemma eventually_loop_true:
  "eventually_loop late condition i n lg s = (True, logs, s') \<Longrightarrow> \<exists>s0 msg. condition s0 = (Poll True msg, s')"
proof (induction n arbitrary: i lg s)
  case (Suc n)
  obtain p t where c: "condition s = (p, t)" by (cases "condition s")
  show ?case
  proof (cases p)
    case (Poll ok msg)
    then show ?thesis using Suc c by (cases ok) (auto simp: Let_def)
  qed (use Suc.prems c in simp)
qed simp

lemma Eventually_true: "Eventually late condition n s = (True, logs, s') \<Longrightarrow> \<exists>s0 msg. condition s0 = (Poll True msg, s')"
  unfolding Eventually_def by (rule eventually_loop_true)

text \<open>A condition that holds is found by the first poll.\<close>

lemma Eventually_holds: "condition s = (Poll True msg, s') \<Longrightarrow> 0 < n \<Longrightarrow> fst (Eventually late condition n s)"
  by (cases n) (simp_all add: Eventually_def Let_def)

lemma ce_matches_iff:
  "snd (snd (ce_matches get c object)) \<longleftrightarrow> (\<exists>co. get object (ce_conditionType c) = Some co \<and>
     (\<forall>s. ce_isStatus c = Some s \<longrightarrow> co_Status co = s) \<and> (\<forall>s. ce_isNotStatus c = Some s \<longrightarrow> co_Status co \<noteq> s) \<and>
     (\<forall>r. ce_reason c = Some r \<longrightarrow> co_Reason co = r))"
  by (auto simp: ce_matches_def split: option.splits)

lemma phase_poll_true:
  "phase_poll W yaml parent expected st0 = (Poll True msg, ws, w') \<Longrightarrow>
     ws_Phase ws = expected \<and> (\<exists>name w. wc_Get W parent name w = (Inr ws, w'))"
  by (auto simp: phase_poll_def split: prod.splits sum.splits if_splits)

lemma access_poll_true:
  "access_poll W parent (ws0, w) = (Poll True msg, ws, w') \<Longrightarrow> ws = ws0 \<and> (\<exists>w1.
     wc_GetLogicalCluster W (ws_Cluster ws) w = (None, w1) \<and> wc_GetLogicalCluster W (wc_Join W parent (ws_Name ws)) w1 = (None, w'))"
  by (auto simp: access_poll_def Let_def split: prod.splits option.splits)

lemma access_poll_frame: "access_poll W parent (ws0, w) = (p, ws, w') \<Longrightarrow> ws = ws0"
  by (auto simp: access_poll_def Let_def split: prod.splits option.splits)

lemma access_loop_frame:
  "eventually_loop late (access_poll W parent) i n lg (ws0, w) = (ok, logs, ws, w') \<Longrightarrow> ws = ws0"
proof (induction n arbitrary: i lg w)
  case (Suc n)
  obtain p ws1 w1 where c: "access_poll W parent (ws0, w) = (p, ws1, w1)" by (metis prod_cases3)
  note frame = access_poll_frame [OF c]
  show ?case
  proof (cases p)
    case (Poll good msg)
    then show ?thesis
      using Suc.prems Suc.IH [of "Suc i" "log_poll (late i) good msg lg" w1] c frame
      by (cases good) (simp_all add: Let_def)
  qed (use Suc.prems c frame in simp)
qed simp

lemma find_shard_some:
  "find_shard W hash names = Ret (Some name) \<Longrightarrow> name \<in> set names \<and> base36Sha224NameValue W name = Ret hash"
proof (induction names)
  case (Cons x xs)
  then show ?case by (cases "base36Sha224NameValue W x") (auto split: if_splits)
qed simp

lemma WorkspaceShard_some:
  assumes "WorkspaceShard W ws w = (Ret (Inr name), w')"
  shows "\<exists>items. fst (wc_ListShards W ''root'' w) = Inr items \<and> name \<in> set items \<and>
    (\<exists>h. base36Sha224NameValue W name = Ret h \<and> ws_Annotations ws ''internal.tenancy.kcp.io/shard'' = Some h)"
proof -
  obtain q w1 where l: "wc_ListShards W ''root'' w = (q, w1)" by (cases "wc_ListShards W ''root'' w")
  obtain items where items: "q = Inr items" using assms l by (cases q) (simp_all add: WorkspaceShard_def)
  obtain h where h: "ws_Annotations ws ''internal.tenancy.kcp.io/shard'' = Some h" "h \<noteq> []"
    using assms l items
    by (cases "ws_Annotations ws ''internal.tenancy.kcp.io/shard''") (auto simp: WorkspaceShard_def Let_def split: if_splits)
  have "bind_outcome (find_shard W h items) (\<lambda>found. case found of Some name \<Rightarrow> Ret (Inr name)
      | None \<Rightarrow> Ret (Inl (Errorf ''failed to determine shard for workspace %s'' [ws_Name ws] []))) = Ret (Inr name)"
    using assms l items h by (simp add: WorkspaceShard_def Let_def)
  then have "find_shard W h items = Ret (Some name)"
    by (cases "find_shard W h items") (auto split: option.splits)
  then show ?thesis using find_shard_some l items h by auto
qed

lemma report_shard_passed:
  assumes "report_shard W parent (ws0, w) = (Ret (Passed (ws, path)), w')"
  shows "ws = ws0 \<and> path = wc_Join W parent (ws_Name ws) \<and> (\<exists>name. WorkspaceShard W ws w = (Ret (Inr name), w'))"
proof -
  obtain r w1 where sh: "WorkspaceShard W ws0 w = (r, w1)" by (cases "WorkspaceShard W ws0 w")
  show ?thesis
    using assms sh by (cases r; cases "\<exists>m. r = Ret (Inl m)")
      (auto simp: report_shard_def WorkspaceShardOrDie_def split: sum.splits)
qed

lemma await_phase_passed:
  assumes "await_phase W late yaml polls parent phase st = (Passed ws, w')"
  shows "ws_Phase ws = phase \<and> (\<exists>name w. wc_Get W parent name w = (Inr ws, w'))"
proof -
  obtain logs where "Eventually late (phase_poll W yaml parent phase) polls st = (True, logs, ws, w')"
    using assms by (auto simp: await_phase_def split: prod.splits if_splits)
  from Eventually_true [OF this] obtain s0 msg where "phase_poll W yaml parent phase s0 = (Poll True msg, ws, w')" by blast
  then show ?thesis by (rule phase_poll_true)
qed

text \<open>
  A workspace fixture that does not fail the test returns a workspace that was
  read back under its parent in phase \<open>Ready\<close>, whose logical cluster answers under its
  cluster name and under its path, and which is on a known shard; its clean-up is registered.
\<close>

theorem workspace_fixture_ready:
  assumes "NewWorkspaceFixture W late yaml polls init_polls parent opts (c, w) = (Ret (Passed (ws, path)), cleanup, c', w')"
  shows "cleanup \<and> path = wc_Join W parent (ws_Name ws) \<and> ws_Phase ws = ''Ready'' \<and>
    (\<exists>name w1 w2. wc_Get W parent name w1 = (Inr ws, w2)) \<and>
    (\<exists>w3 w4 w5. wc_GetLogicalCluster W (ws_Cluster ws) w3 = (None, w4) \<and> wc_GetLogicalCluster W path w4 = (None, w5)) \<and>
    (\<exists>shard h. base36Sha224NameValue W shard = Ret h \<and> ws_Annotations ws ''internal.tenancy.kcp.io/shard'' = Some h)"
proof -
  obtain p c1 w1 where created: "create_workspace W late polls parent opts (c, w) = (p, c1, w1)" by (metis prod_cases3)
  obtain ws0 where p: "p = Ret (Passed ws0)"
    using assms created by (cases p rule: returned.cases; simp add: NewWorkspaceFixture_def split: tested.splits)
  obtain a w2 where aw: "await_phase W late yaml init_polls parent ''Ready'' (ws0, w1) = (a, w2)"
    by (cases "await_phase W late yaml init_polls parent ''Ready'' (ws0, w1)")
  obtain ws1 where a: "a = Passed ws1"
    using assms created p aw by (cases a) (simp_all add: NewWorkspaceFixture_def)
  obtain b w3 where ac: "await_access W late polls parent (ws1, w2) = (b, w3)" by (cases "await_access W late polls parent (ws1, w2)")
  obtain ws2 where b: "b = Passed ws2"
    using assms created p aw a ac by (cases b) (simp_all add: NewWorkspaceFixture_def)
  have rep: "report_shard W parent (ws2, w3) = (Ret (Passed (ws, path)), w')" and cleanup
    using assms created p aw a ac b by (auto simp: NewWorkspaceFixture_def split: prod.splits)
  note last = report_shard_passed [OF rep]
  note ready = await_phase_passed [OF aw [unfolded a]]
  obtain logs' where ev: "Eventually late (access_poll W parent) polls (ws1, w2) = (True, logs', ws2, w3)"
    using ac b by (auto simp: await_access_def split: prod.splits if_splits)
  then have same: "ws2 = ws1" unfolding Eventually_def by (rule access_loop_frame)
  obtain u v msg where "access_poll W parent (u, v) = (Poll True msg, ws2, w3)"
    using Eventually_true [OF ev] by auto
  note acc = access_poll_true [OF this]
  obtain shard where "WorkspaceShard W ws w3 = (Ret (Inr shard), w')" using last by blast
  note sh = WorkspaceShard_some [OF this]
  show ?thesis using \<open>cleanup\<close> last ready acc sh same by blast
qed

subsection \<open>Spreading over the shards\<close>

text \<open>The locations that the spreading option gives to \<open>n\<close> new workspaces, one after the other.\<close>

fun schedule :: "string \<Rightarrow> string list \<Rightarrow> nat \<Rightarrow> counters \<Rightarrow> (string \<rightharpoonup> string) option list outcome" where
  "schedule test names 0 c = Ret []"
| "schedule test names (Suc n) c =
     bind_outcome (spread_option test names (new_workspace, c)) (\<lambda>(ws, c').
       bind_outcome (schedule test names n c') (\<lambda>rest. Ret (ws_Location ws # rest)))"

definition in_turn :: "string list \<Rightarrow> nat \<Rightarrow> (string \<rightharpoonup> string) option" where
  "in_turn names j = Some [''name'' \<mapsto> names ! (j mod length names)]"

lemma sint_of_counter: "i < 2 ^ 63 \<Longrightarrow> sint (word_of_nat i :: 64 word) = int i"
  by (simp add: sint_uint uint_nat unat_of_nat signed_take_bit_int_eq_self)

lemma spread_option_counted:
  assumes "names \<noteq> []" and "c test = Some (word_of_nat i)" and "i < 2 ^ 63"
  shows "spread_option test names (new_workspace, c) =
    Ret (WithShard (names ! (i mod length names)) new_workspace, c(test \<mapsto> word_of_nat (Suc i)))"
proof -
  have "nat (int i mod int (length names)) = i mod length names" by (simp add: nat_mod_as_int)
  moreover have "\<not> int i mod int (length names) < 0" using assms(1) by (simp add: not_less)
  moreover have "ws_Location new_workspace = None" by (simp add: new_workspace_def)
  moreover have "word_of_nat (Suc i) = word_of_nat i + (1 :: 64 word)" by (simp add: add.commute)
  ultimately show ?thesis
    using assms(2) sint_of_counter [OF assms(3)] by (simp only: spread_option_def prod.case Let_def option.case
      add_diff_cancel_right' of_nat_less_0_iff if_False simp_thms)
qed

lemma schedule_from:
  assumes "names \<noteq> []" and "c test = Some (word_of_nat i)" and "i + n \<le> 2 ^ 63"
  shows "schedule test names n c = Ret (map (in_turn names) [i..<i + n])"
  using assms(2,3)
proof (induction n arbitrary: i c)
  case (Suc n)
  have "spread_option test names (new_workspace, c) =
      Ret (WithShard (names ! (i mod length names)) new_workspace, c(test \<mapsto> word_of_nat (Suc i)))"
    using Suc.prems by (intro spread_option_counted [OF assms(1)]) simp_all
  moreover have "schedule test names n (c(test \<mapsto> word_of_nat (Suc i))) =
      Ret (map (in_turn names) [Suc i..<Suc i + n])"
    using Suc.prems by (intro Suc.IH) simp_all
  moreover have "ws_Location (WithShard (names ! (i mod length names)) new_workspace) = in_turn names i"
    by (simp add: WithShard_def WithLocation_def in_turn_def)
  moreover have "[i..<i + Suc n] = i # [Suc i..<Suc i + n]" by (simp add: upt_rec [of i])
  ultimately show ?case by simp
qed simp

lemma count_residues:
  assumes "r < k"
  shows "length (filter (\<lambda>j. j mod k = r) [0..<n]) = n div k + (if r < n mod k then 1 else 0)"
proof (induction n)
  case (Suc n)
  have "n mod k < k" using assms by simp
  then show ?case using Suc assms by (auto simp: div_Suc mod_Suc)
qed simp

text \<open>
  Property C32. Workspaces of a test that are spread over different shards go to them in
  turn, the first to the first: of \<open>n\<close> workspaces each of \<open>k\<close> shards gets \<open>n div k\<close>, and the
  first \<open>n mod k\<close> of them one more, as long as the 64-bit counter is not exhausted.
\<close>

theorem spread_round_robin:
  assumes "distinct names" and "WithSpreadAcrossShards test names c = Passed c'" and "c test = None" and "n \<le> 2 ^ 63"
  shows "\<exists>locations. schedule test names n c' = Ret locations \<and>
    list_all (\<lambda>i. length (filter (\<lambda>l. l = Some [''name'' \<mapsto> names ! i]) locations) =
       n div length names + (if i < n mod length names then 1 else 0)) [0..<length names]"
proof -
  have ne: "names \<noteq> []" and c': "c' = c(test \<mapsto> 0)"
    using assms(2,3) by (auto simp: WithSpreadAcrossShards_def split: if_splits)
  let ?locs = "map (in_turn names) [0..<n]"
  have "schedule test names n c' = Ret ?locs" using schedule_from [OF ne, of c' test 0 n] assms(4) c' by simp
  moreover have "length (filter (\<lambda>l. l = Some [''name'' \<mapsto> names ! i]) ?locs) = n div length names + (if i < n mod length names then 1 else 0)"
    if "i < length names" for i
  proof -
    have "(in_turn names j = Some [''name'' \<mapsto> names ! i]) \<longleftrightarrow> j mod length names = i" for j
      using assms(1) that ne by (auto simp: in_turn_def nth_eq_iff_index_eq dest!: fun_cong [of _ _ "''name''"])
    then show ?thesis using count_residues [OF that, of n] by (simp add: filter_map comp_def)
  qed
  ultimately show ?thesis by (auto simp: list_all_iff)
qed

subsection \<open>Witnesses\<close>

theorem spread_round_robin_witness:
  "\<exists>locations. schedule ''TestA'' [''root'', ''shard-1'', ''shard-2''] 8 (Map.empty(''TestA'' \<mapsto> 0)) = Ret locations \<and>
     length (filter (\<lambda>l. l = Some [''name'' \<mapsto> ''root'']) locations) = 8 div 3 + 1 \<and>
     length (filter (\<lambda>l. l = Some [''name'' \<mapsto> ''shard-2'']) locations) = 8 div 3"
proof -
  have "WithSpreadAcrossShards ''TestA'' [''root'', ''shard-1'', ''shard-2''] Map.empty = Passed (Map.empty(''TestA'' \<mapsto> 0))"
    by (simp add: WithSpreadAcrossShards_def)
  from spread_round_robin [OF _ this _, of 8]
  have "\<exists>locations. schedule ''TestA'' [''root'', ''shard-1'', ''shard-2''] 8 (Map.empty(''TestA'' \<mapsto> 0)) = Ret locations \<and>
      list_all (\<lambda>i. length (filter (\<lambda>l. l = Some [''name'' \<mapsto> [''root'', ''shard-1'', ''shard-2''] ! i]) locations) =
        8 div 3 + (if i < 8 mod 3 then 1 else 0)) [0, 1, 2]"
    by (simp add: upt_conv_Cons)
  then show ?thesis by auto
qed

text \<open>A client whose workspaces become ready at the third look.\<close>

definition demo_workspace :: "nat \<Rightarrow> workspace" where
  "demo_workspace n = new_workspace\<lparr> ws_Name := ''e2e-workspace-x'', ws_Cluster := ''c1'',
     ws_Annotations := [''internal.tenancy.kcp.io/shard'' \<mapsto> ''abcdefgh''], ws_Phase := (if n < 3 then ''Initializing'' else ''Ready'') \<rparr>"

definition demo_client :: "nat workspace_client" where
  "demo_client = \<lparr> wc_Join = (\<lambda>p n. p @ '':'' @ n), wc_From = (\<lambda>_. ''c0''),
     wc_Create = (\<lambda>_ ws w. if w = 0 then (Some (Foreign ''forbidden''), ws, 1) else (None, demo_workspace w, w)),
     wc_Get = (\<lambda>_ _ w. (Inr (demo_workspace w), w + 1)), wc_GetLogicalCluster = (\<lambda>_ w. (None, w)),
     wc_Delete = (\<lambda>_ _ w. (None, w)), wc_ListShards = (\<lambda>_ w. (Inr [''root''], w)), wc_IsNotFound = (\<lambda>_. False),
     wc_IsForbidden = (\<lambda>_. False), wc_Error = (\<lambda>_. ''error''), wc_Sum224 = (\<lambda>s. s), wc_EncodeBytes = (\<lambda>_. ''ABCDEFGHIJ'') \<rparr>"

definition demo_fixture :: "(workspace \<times> string) tested outcome \<times> bool \<times> counters \<times> nat" where
  "demo_fixture = NewWorkspaceFixture demo_client (\<lambda>i. i > 1) (\<lambda>_. []) 5 5 ''root:org'' [] (Map.empty, 0)"

lemma demo_fixture_passes:
  "(case fst demo_fixture of Ret (Passed (ws, path)) \<Rightarrow> Some path | _ \<Rightarrow> None) = Some ''root:org:e2e-workspace-x''"
  by code_simp

theorem workspace_fixture_ready_witness:
  "\<exists>ws path. fst demo_fixture = Ret (Passed (ws, path)) \<and> ws_Phase ws = ''Ready'' \<and> path = ''root:org:'' @ ws_Name ws"
proof -
  obtain r cleanup c w where run: "demo_fixture = (r, cleanup, c, w)" by (metis prod_cases4)
  obtain ws path where r: "r = Ret (Passed (ws, path))"
    using demo_fixture_passes unfolding run by (auto split: outcome.splits tested.splits)
  from workspace_fixture_ready [OF run [unfolded r demo_fixture_def]] show ?thesis unfolding run r by (simp add: demo_client_def)
qed

end
