(* ===== verification/Spec2Isabelle.thy ===== *)
theory Spec2Isabelle
  imports PathEndpoint Wildcard ScopedCluster AggregateInv EndpointRecorders TwoEndpoints EndToEnd
    ClusterClient ApiExport Mains Watcher Startup EnvServer ShardTrust Sharded Workspaces
begin

text \<open>
  This development models \<^verbatim>\<open>kcp-dev/multicluster-provider\<close>, a Go library that lets
  controller-runtime managers work on the logical clusters of kcp, and its test harness. All
  file names below are relative to \<^verbatim>\<open>src/\<close>.

  \<^bold>\<open>The program.\<close> kcp publishes, in an endpoint slice object, the URLs under which the objects
  of many logical clusters can be watched. A provider reconciles a set of watched endpoints
  with these URLs. For each endpoint it keeps a wildcard cache (one informer per kind over
  all logical clusters), and it engages a logical cluster with the manager when the first
  object of that cluster appears and disengages it when the last one goes. A cluster handed
  to the manager sees the wildcard cache through a scoped cache: its own objects only. An
  aggregate cache unites the wildcard caches of all endpoints. Events go through one recorder
  provider per logical cluster.

  \<^bold>\<open>Conventions.\<close> Structs are records with the source's field names behind a short prefix,
  errors are values of \<^verbatim>\<open>error\<close> (\<^verbatim>\<open>Inl\<close> of a result, \<^verbatim>\<open>Some\<close> of an error option), a nil
  dereference or a failed type assertion is the outcome \<^verbatim>\<open>Panic\<close>. Go leaves the order of a
  range over a map open: every such loop takes the order as an argument, and the theorems
  hold for all orders that \<^verbatim>\<open>range_of\<close> allows. State is passed explicitly; where a lock is
  released between two parts of an operation, the parts are separate definitions and the
  theorems quantify over interleavings. Code outside the repository (apimachinery, client-go,
  controller-runtime, the kcp SDK, the operating system, the crypto packages) is a parameter,
  grouped in records such as \<^verbatim>\<open>kcpapi\<close>, \<^verbatim>\<open>crypto_env\<close>, \<^verbatim>\<open>fs_env\<close>; predicates such as
  \<^verbatim>\<open>kcp_ok\<close>, \<^verbatim>\<open>indexer_ok\<close>, \<^verbatim>\<open>addr_ok\<close>, \<^verbatim>\<open>x509_ok\<close> name the documented behaviour a theorem
  relies on, and each is shown to hold of a concrete instance in the witnesses.

  \<^bold>\<open>Foundations.\<close> \<^verbatim>\<open>Prelude\<close>: errors, outcomes, Go strings, map orders, sequences of fallible
  steps. \<^verbatim>\<open>Objects\<close>: Kubernetes objects and the kcp libraries. \<^verbatim>\<open>Interfaces\<close>: the locales
  \<^verbatim>\<open>keyed_store\<close>, \<^verbatim>\<open>get_or_create\<close> and \<^verbatim>\<open>step_relation\<close>, which the components interpret.

  \<^bold>\<open>The library.\<close>
  \<^item> \<^verbatim>\<open>Paths\<close>, \<^verbatim>\<open>Handlers\<close>, \<^verbatim>\<open>PathAware\<close> (\<^verbatim>\<open>pkg/paths/paths.go\<close>, \<^verbatim>\<open>pkg/handlers/handlers.go\<close>,
    \<^verbatim>\<open>path-aware/provider.go\<close>): the path store, the lifecycle hooks, and the handler that keeps
    the store in step with events. Shown: a resolved path was announced and not deleted since,
    and an announced path resolves, to the cluster of an add, or to the first one an update names.
  \<^item> \<^verbatim>\<open>Indexes\<close>, \<^verbatim>\<open>CacheReader\<close> (\<^verbatim>\<open>pkg/cache/indexes.go\<close>, \<^verbatim>\<open>forked_cache_reader.go\<close>): the index
    functions and the reader. Shown: a scoped reader lists and gets exactly the objects of its
    cluster, also with limits and field selectors.
  \<^item> \<^verbatim>\<open>Wildcard\<close>, \<^verbatim>\<open>ScopedCache\<close>, \<^verbatim>\<open>ScopedCluster\<close> (\<^verbatim>\<open>wildcard.go\<close>, \<^verbatim>\<open>cache.go\<close>, \<^verbatim>\<open>cluster.go\<close>).
    Shown: listing through the wildcard cache is the union of the listings of the scopes, an
    exact field selection finds what was indexed, a scoped handler sees its cluster only.
  \<^item> \<^verbatim>\<open>Aggregate\<close>, \<^verbatim>\<open>AggregateInv\<close> (\<^verbatim>\<open>aggregate.go\<close>, \<^verbatim>\<open>aggregate_informer.go\<close>). Shown: over all
    histories, in which the two critical sections of \<^verbatim>\<open>AddCache\<close> and \<^verbatim>\<open>RemoveCache\<close> are steps of
    their own, a handler's registrations are live ones at the informers of the current caches, and
    at all of them when no shard fails; adding a handler is all or nothing, listing is the multiset
    sum of the shards; and what a handler added between the two critical sections meets.
  \<^item> \<^verbatim>\<open>Recorder\<close>, \<^verbatim>\<open>RecorderManager\<close>, \<^verbatim>\<open>RecorderHeap\<close> (\<^verbatim>\<open>pkg/events/recorder\<close>). Shown: events
    reach the broadcasters, which start once, exactly until the provider is stopped, one provider
    per cluster is reused, and the heap of providers stays well typed: a registered one is live, its cluster's
    own, and no operation on it panics.
  \<^item> \<^verbatim>\<open>Extractors\<close>, \<^verbatim>\<open>Endpoint\<close>, \<^verbatim>\<open>Provider\<close>, \<^verbatim>\<open>ProviderInv\<close> (\<^verbatim>\<open>pkg/provider\<close>): URL extraction,
    the readiness filter, one watched endpoint, the reconciling provider with its queue.
    Shown: the engaged clusters refine the set of clusters that have objects; one
    reconciliation watches exactly the wanted URLs that start; endpoints and aggregate cache
    stay in step; failures and only failures are retried; retries accumulate endpoints.
  \<^item> \<^verbatim>\<open>ClusterClient\<close>, \<^verbatim>\<open>ApiExport\<close>, \<^verbatim>\<open>InitWorkspaces\<close> (\<^verbatim>\<open>client/client.go\<close> and the two concrete
    providers). Shown: one client per path under all interleavings of calls; the apiexport
    provider engages ready bindings only; the workspace types' own URLs are watched.
  \<^item> \<^verbatim>\<open>Fleet\<close>: the whole provider, with the endpoints that its own \<^verbatim>\<open>watchEndpointFunc\<close> starts and the
    set of clusters they share. Shown, for logical clusters of which each has one URL: \<^verbatim>\<open>Get\<close> gives for
    a cluster what was built on the endpoint that serves it, and succeeds for every cluster that has
    an object behind a watched endpoint. Two sets name the exceptions: clusters still engaged from
    an endpoint stopped since, and clusters that the set of clusters dropped, when the context of a
    stopped endpoint ended, and that no event engaged again.
  \<^item> \<^verbatim>\<open>EndToEnd\<close>: the provider, the cluster objects and their caches composed. Shown: a list of
    the watched kind through the cluster that \<^verbatim>\<open>Get\<close> returns gives exactly the objects of that
    logical cluster in all caches, unless it is left from a stopped endpoint.
  \<^item> \<^verbatim>\<open>PathEndpoint\<close>, \<^verbatim>\<open>EndpointRecorders\<close>, \<^verbatim>\<open>TwoEndpoints\<close>: components together. Shown: behind an
    endpoint the path-aware provider answers for exactly the names and paths of the engaged
    clusters, while no path moves; a cluster that comes back behind another endpoint keeps the
    recorder of the old one when no delete callback of it ran there; and where one runs, the old
    endpoint disengages the cluster although the new one has its objects.

  \<^bold>\<open>The programs\<close> (\<^verbatim>\<open>examples\<close>, \<^verbatim>\<open>cmd\<close>).
  \<^item> \<^verbatim>\<open>Initializer\<close> (\<^verbatim>\<open>examples/initializingworkspaces/main.go\<close>): the reconciler that initializes
    a logical cluster, over histories in which others change the world between its runs. Shown:
    it removes its initializer only when the work is done, it asks to be called again until it is
    and finishes when every call answers, and a status patch that fails once strands the cluster.
  \<^item> \<^verbatim>\<open>Controllers\<close> (\<^verbatim>\<open>examples/apiexport/main.go\<close>, \<^verbatim>\<open>examples/path-aware/main.go\<close>): shown to
    find under every path what it finds in the owning cluster by name. \<^verbatim>\<open>Watcher\<close>
    (\<^verbatim>\<open>cmd/kcp-endpointslice-watcher/main.go\<close>): the printing handler and the parser of kinds.
  \<^item> \<^verbatim>\<open>Mains\<close>: the \<^verbatim>\<open>main\<close> and \<^verbatim>\<open>init\<close> functions of the examples and the registrations of
    \<^verbatim>\<open>envtest/scheme.go\<close>. Shown: a running apiexport example engages ready bindings only, and a running
    initializer removes the initializer of the type it watches.

  \<^bold>\<open>The test harness\<close> (\<^verbatim>\<open>envtest\<close>).
  \<^item> \<^verbatim>\<open>Arguments\<close>, \<^verbatim>\<open>Process\<close>, \<^verbatim>\<open>Startup\<close> (\<^verbatim>\<open>internal/process\<close>): flags, the life of one
    subprocess, the search for a flag in the help output. Shown: the rendered command line parses back to what was asked; stopping ends the process unless
    an earlier one of the same state had ended.
  \<^item> \<^verbatim>\<open>Durations\<close>: \<^verbatim>\<open>time.ParseDuration\<close> and \<^verbatim>\<open>Duration.String\<close>, with their overflow checks and
    the scaling of fractions in 53-bit floats; the timeouts of the harness are read with them.
  \<^item> \<^verbatim>\<open>Addr\<close> (\<^verbatim>\<open>internal/addr\<close>, \<^verbatim>\<open>internal/flock\<close>): shown to find and reserve a free port, none
    that another process reserved within the reservation time, within the hundred attempts of the source when fewer than a hundred are taken; the attempts are
    the source's own bound, not fuel of the model.
  \<^item> \<^verbatim>\<open>TinyCA\<close> (\<^verbatim>\<open>internal/certs\<close>): serial numbers are unique and certificates signed.
  \<^item> \<^verbatim>\<open>ControlPlane\<close>, \<^verbatim>\<open>ShardLife\<close>, \<^verbatim>\<open>ShardRestart\<close>, \<^verbatim>\<open>ShardTrust\<close> (\<^verbatim>\<open>shard.go\<close>, \<^verbatim>\<open>auth.go\<close>): a
    shard is prepared as a sequence of fallible steps. Shown: its command line, that stopping
    ends what a start began, that a retried start leaks the temporary directory, and that the
    authority its command line names on disk is the one that signs the users added to it.
  \<^item> \<^verbatim>\<open>Plane\<close>, \<^verbatim>\<open>PlaneLife\<close> (\<^verbatim>\<open>plane.go\<close>, \<^verbatim>\<open>kubectl.go\<close>): \<^verbatim>\<open>Kcp\<close> and its users. Shown: the ways a
    start ends, and what it has stopped then, and that existing certificates make it panic.
  \<^item> \<^verbatim>\<open>EnvServer\<close> (\<^verbatim>\<open>server.go\<close>), \<^verbatim>\<open>Sharded\<close> (\<^verbatim>\<open>sharded.go\<close>), \<^verbatim>\<open>Workspaces\<close> (\<^verbatim>\<open>workspaces.go\<close>,
    \<^verbatim>\<open>eventually.go\<close>). Shown: the environment's configuration reaches the running shard, five
    attempts are made, a refused configuration is used by the next start; a sharded server
    leaves nothing behind; spread workspaces go round the shards; a fixture that passes
    returns a ready workspace.

  \<^bold>\<open>Loops that wait.\<close> The health poller, the wait for the sharded server and \<^verbatim>\<open>Eventually\<close> take
  the rounds that happen, or a bound on them, as an argument. An exhausted list of rounds is
  the result \<^verbatim>\<open>None\<close>, still waiting; separate theorems say that one decisive round (a result, an
  exit, the end of the context) makes the loop return, however many come before it.

  \<^bold>\<open>What the histories leave out.\<close> The theorems over histories of endpoint callbacks take it that the
  collaborators of an endpoint do not fail (\<^verbatim>\<open>endpoint_ok\<close>); the error branches of \<^verbatim>\<open>update\<close> are in
  \<^verbatim>\<open>we_update\<close>, and no history theorem is about them. The informer's update of its store and its call
  of the handler are one step (\<^verbatim>\<open>observe\<close>). In \<^verbatim>\<open>Fleet\<close> a stopped endpoint delivers no callback any
  more. In \<^verbatim>\<open>waitReady\<close> a subprocess that exits in the round that finds the ready file is not
  seen to exit; its exit is a later step.

  \<^bold>\<open>Not modelled.\<close> The \<^verbatim>\<open>main\<close> function of the command; package documentation and the test interface; operating system attributes of child processes; the variants for systems other
  than Unix; logging, output streams and client rate limits. Real time is
  not modelled: timeouts are events. The parser of \<^verbatim>\<open>net/url\<close> and name resolution are
  parameters.
\<close>

end
